(* ===== verification/Prelude.thy ===== *)
theory Prelude
  imports Main "HOL-Library.AList" "HOL-Library.Multiset" "HOL-Library.Char_ord" "HOL-Library.List_Lexorder"
begin

text \<open>
  Shared vocabulary of the development: the JavaScript values the services exchange, the errors
  they throw, JavaScript's insertion-ordered \<open>Map\<close>, and the state-and-exception monad in which
  every service method is written.

  A method that throws keeps the mutations it made before the throw, exactly as the JavaScript
  does, so an error result still carries the state: a computation has type
  \<open>'s \<Rightarrow> (js_error + 'a) \<times> 's\<close>. The weakest-precondition transformer \<open>wp\<close> turns a method into a
  verification condition; its equations are collected in \<open>wp_simps\<close>.
\<close>

named_theorems wp_simps \<open>equations of the weakest-precondition transformer\<close>
named_theorems eval_simps \<open>equations that run an operation on a concrete state\<close>
named_theorems frame_simps \<open>what an operation leaves unchanged\<close>

subsection \<open>JavaScript values and errors\<close>

datatype js =
    JUndefined
  | JNull
  | JBool bool
  | JNum int
  | JBig int
  | JStr string
  | JArr "js list"
  | JObj "(string \<times> js) list"

text \<open>
  \<open>DomainError code message\<close> is the application's error class; \<open>NativeError\<close> stands for the
  errors the language itself raises (\<open>TypeError\<close>, \<open>RangeError\<close>), which \<open>catch\<close> clauses that test
  \<open>instanceof DomainError\<close> rethrow.
\<close>

datatype js_error = DomainError (err_code: string) (err_message: string) | NativeError string

text \<open>The text of \<open>error.message\<close>: the class constructor prefixes the code.\<close>

fun error_message :: "js_error \<Rightarrow> string" where
  "error_message (DomainError c m) = c @ '': '' @ m"
| "error_message (NativeError m) = m"

type_synonym 'a res = "js_error + 'a"
type_synonym ('s, 'a) M = "'s \<Rightarrow> 'a res \<times> 's"

abbreviation fail :: "string \<Rightarrow> string \<Rightarrow> 'a res" where
  "fail c m \<equiv> Inl (DomainError c m)"

fun js_get :: "string \<Rightarrow> js \<Rightarrow> js" where
  "js_get k (JObj kvs) = (case map_of kvs k of Some v \<Rightarrow> v | None \<Rightarrow> JUndefined)"
| "js_get k _ = JUndefined"

fun js_opt :: "string option \<Rightarrow> js" where
  "js_opt None = JUndefined"
| "js_opt (Some s) = JStr s"

text \<open>JavaScript's \<open>a ?? b\<close>.\<close>

fun js_coalesce :: "js \<Rightarrow> js \<Rightarrow> js" where
  "js_coalesce JUndefined b = b"
| "js_coalesce JNull b = b"
| "js_coalesce a b = a"

text \<open>A parameter with a default: only \<open>undefined\<close> is replaced.\<close>

definition js_default :: "js \<Rightarrow> js \<Rightarrow> js" where
  "js_default v d = (if v = JUndefined then d else v)"

subsection \<open>The monad of fallible pure code\<close>

fun bindR :: "'a res \<Rightarrow> ('a \<Rightarrow> 'b res) \<Rightarrow> 'b res" where
  "bindR (Inl e) f = Inl e"
| "bindR (Inr x) f = f x"

definition guardR :: "bool \<Rightarrow> string \<Rightarrow> string \<Rightarrow> unit res" where
  "guardR bad c m = (if bad then fail c m else Inr ())"

lemma bindR_Inr: "bindR m f = Inr y \<longleftrightarrow> (\<exists>x. m = Inr x \<and> f x = Inr y)"
  by (cases m) auto

lemma guardR_Inr [simp]: "guardR b c m = Inr x \<longleftrightarrow> \<not> b"
  by (simp add: guardR_def)

lemma guardR_False [simp]: "guardR False c m = Inr ()"
  by (simp add: guardR_def)

fun mapR :: "('a \<Rightarrow> 'b res) \<Rightarrow> 'a list \<Rightarrow> 'b list res" where
  "mapR f [] = Inr []"
| "mapR f (x # xs) = bindR (f x) (\<lambda>y. bindR (mapR f xs) (\<lambda>ys. Inr (y # ys)))"

lemma mapR_Inr_length: "mapR f xs = Inr ys \<Longrightarrow> length ys = length xs"
  by (induction xs arbitrary: ys) (auto simp: bindR_Inr)

lemma mapR_Inr_set: "mapR f xs = Inr ys \<Longrightarrow> y \<in> set ys \<Longrightarrow> \<exists>x\<in>set xs. f x = Inr y"
  by (induction xs arbitrary: ys) (auto simp: bindR_Inr)

subsection \<open>The state-and-exception monad\<close>

definition returnM :: "'a \<Rightarrow> ('s, 'a) M" where
  "returnM x s = (Inr x, s)"

definition throwM :: "js_error \<Rightarrow> ('s, 'a) M" where
  "throwM e s = (Inl e, s)"

definition bindM :: "('s, 'a) M \<Rightarrow> ('a \<Rightarrow> ('s, 'b) M) \<Rightarrow> ('s, 'b) M" where
  "bindM m f s = (case m s of (Inl e, s') \<Rightarrow> (Inl e, s') | (Inr x, s') \<Rightarrow> f x s')"

definition thenM :: "('s, 'a) M \<Rightarrow> ('s, 'b) M \<Rightarrow> ('s, 'b) M" where
  "thenM m n = bindM m (\<lambda>_. n)"

definition liftR :: "'a res \<Rightarrow> ('s, 'a) M" where
  "liftR r s = (r, s)"

definition getsM :: "('s \<Rightarrow> 'a) \<Rightarrow> ('s, 'a) M" where
  "getsM f s = (Inr (f s), s)"

definition modifyM :: "('s \<Rightarrow> 's) \<Rightarrow> ('s, unit) M" where
  "modifyM f s = (Inr (), f s)"

text \<open>\<open>if (bad) throw new DomainError(code, message)\<close>.\<close>

definition throwIf :: "bool \<Rightarrow> string \<Rightarrow> string \<Rightarrow> ('s, unit) M" where
  "throwIf bad c m = liftR (guardR bad c m)"

definition whenM :: "bool \<Rightarrow> ('s, unit) M \<Rightarrow> ('s, unit) M" where
  "whenM b m = (if b then m else returnM ())"

text \<open>\<open>try { m } catch (error) { h }\<close>: the handler runs in the state the body left.\<close>

definition catchM :: "('s, 'a) M \<Rightarrow> (js_error \<Rightarrow> ('s, 'a) M) \<Rightarrow> ('s, 'a) M" where
  "catchM m h s = (case m s of (Inl e, s') \<Rightarrow> h e s' | (Inr x, s') \<Rightarrow> (Inr x, s'))"

fun mapM :: "('a \<Rightarrow> ('s, 'b) M) \<Rightarrow> 'a list \<Rightarrow> ('s, 'b list) M" where
  "mapM f [] = returnM []"
| "mapM f (x # xs) = bindM (f x) (\<lambda>y. bindM (mapM f xs) (\<lambda>ys. returnM (y # ys)))"

text \<open>
  Equations and congruences for running an operation with the simplifier: the continuation of a bind
  is left alone until its argument is a value.
\<close>

fun bind_run :: "('a \<Rightarrow> ('s, 'b) M) \<Rightarrow> 'a res \<times> 's \<Rightarrow> 'b res \<times> 's" where
  "bind_run f (Inl e, s) = (Inl e, s)"
| "bind_run f (Inr x, s) = f x s"

lemma bindM_eval: "bindM m f s = bind_run f (m s)"
  by (auto simp: bindM_def split: prod.splits sum.splits)

lemma thenM_eval: "thenM m n s = bind_run (\<lambda>_. n) (m s)"
  by (simp add: thenM_def bindM_eval)

lemma bind_run_weak: "p = q \<Longrightarrow> bind_run f p = bind_run f q"
  by simp

lemma bindM_weak: "s = t \<Longrightarrow> bindM m f s = bindM m f t"
  by simp

lemma thenM_weak: "s = t \<Longrightarrow> thenM m f s = thenM m f t"
  by simp

lemmas eval_congs = bind_run_weak bindM_weak thenM_weak

lemmas [eval_simps] = bindM_eval thenM_eval returnM_def throwM_def liftR_def getsM_def modifyM_def
  throwIf_def whenM_def catchM_def guardR_def js_default_def Let_def

subsection \<open>Weakest preconditions\<close>

definition wp :: "('s, 'a) M \<Rightarrow> ('a \<Rightarrow> 's \<Rightarrow> bool) \<Rightarrow> (js_error \<Rightarrow> 's \<Rightarrow> bool) \<Rightarrow> 's \<Rightarrow> bool" where
  "wp m Q E s = (case m s of (Inl e, s') \<Rightarrow> E e s' | (Inr x, s') \<Rightarrow> Q x s')"

lemma wp_returnM [wp_simps]: "wp (returnM x) Q E = (\<lambda>s. Q x s)"
  by (simp add: fun_eq_iff wp_def returnM_def)

lemma wp_throwM [wp_simps]: "wp (throwM e) Q E = (\<lambda>s. E e s)"
  by (simp add: fun_eq_iff wp_def throwM_def)

lemma wp_bindM [wp_simps]: "wp (bindM m f) Q E = (\<lambda>s. wp m (\<lambda>x. wp (f x) Q E) E s)"
  by (auto simp: fun_eq_iff wp_def bindM_def split: prod.splits sum.splits)

lemma wp_thenM [wp_simps]: "wp (thenM m n) Q E = (\<lambda>s. wp m (\<lambda>_. wp n Q E) E s)"
  by (simp add: thenM_def wp_bindM)

lemma wp_liftR [wp_simps]:
  "wp (liftR r) Q E = (\<lambda>s. case r of Inl e \<Rightarrow> E e s | Inr x \<Rightarrow> Q x s)"
  by (simp add: fun_eq_iff wp_def liftR_def)

lemma wp_getsM [wp_simps]: "wp (getsM f) Q E = (\<lambda>s. Q (f s) s)"
  by (simp add: fun_eq_iff wp_def getsM_def)

lemma wp_modifyM [wp_simps]: "wp (modifyM f) Q E = (\<lambda>s. Q () (f s))"
  by (simp add: fun_eq_iff wp_def modifyM_def)

lemma wp_throwIf [wp_simps]:
  "wp (throwIf b c m) Q E = (\<lambda>s. if b then E (DomainError c m) s else Q () s)"
  by (simp add: throwIf_def guardR_def wp_liftR)

lemma wp_whenM [wp_simps]: "wp (whenM b m) Q E = (\<lambda>s. if b then wp m Q E s else Q () s)"
  by (simp add: whenM_def wp_returnM)

lemma wp_catchM [wp_simps]: "wp (catchM m h) Q E = (\<lambda>s. wp m Q (\<lambda>e. wp (h e) Q E) s)"
  by (auto simp: fun_eq_iff wp_def catchM_def split: prod.splits sum.splits)

lemma wp_if [wp_simps]:
  "wp (if b then m else n) Q E = (\<lambda>s. if b then wp m Q E s else wp n Q E s)"
  by simp

lemma wp_case_option [wp_simps]:
  "wp (case x of None \<Rightarrow> m | Some y \<Rightarrow> f y) Q E =
    (\<lambda>s. case x of None \<Rightarrow> wp m Q E s | Some y \<Rightarrow> wp (f y) Q E s)"
  by (cases x) auto

lemma wp_case_prod [wp_simps]:
  "wp (case x of (a, b) \<Rightarrow> f a b) Q E = (\<lambda>s. case x of (a, b) \<Rightarrow> wp (f a b) Q E s)"
  by (cases x) auto

lemma wp_bindI: "wp m (\<lambda>x. wp (f x) Q E) E s \<Longrightarrow> wp (bindM m f) Q E s"
  by (simp add: wp_bindM)

text \<open>Consequence: the way a called operation's specification is used in its caller's proof.\<close>

lemma wp_conseq:
  assumes "wp m Q E s"
    and "\<And>x s'. Q x s' \<Longrightarrow> Q' x s'"
    and "\<And>e s'. E e s' \<Longrightarrow> E' e s'"
  shows "wp m Q' E' s"
  using assms by (auto simp: wp_def split: prod.splits sum.splits)

lemma wp_conj:
  "wp m Q E s \<Longrightarrow> wp m Q' E' s \<Longrightarrow> wp m (\<lambda>x t. Q x t \<and> Q' x t) (\<lambda>e t. E e t \<and> E' e t) s"
  by (auto simp: wp_def split: prod.splits sum.splits)

lemma wp_True: "wp m (\<lambda>_ _. True) (\<lambda>_ _. True) s"
  by (auto simp: wp_def split: prod.splits sum.splits)

lemma wp_Inr: "wp m Q E s \<Longrightarrow> m s = (Inr x, s') \<Longrightarrow> Q x s'"
  by (simp add: wp_def)

lemma wp_Inl: "wp m Q E s \<Longrightarrow> m s = (Inl e, s') \<Longrightarrow> E e s'"
  by (simp add: wp_def)

lemma wpI_cases:
  assumes "\<And>x s'. m s = (Inr x, s') \<Longrightarrow> Q x s'" and "\<And>e s'. m s = (Inl e, s') \<Longrightarrow> E e s'"
  shows "wp m Q E s"
  using assms by (auto simp: wp_def split: prod.splits sum.splits)

lemma wp_snd: "wp m (\<lambda>_. P) (\<lambda>_. P) s \<longleftrightarrow> P (snd (m s))"
  by (auto simp: wp_def split: prod.splits sum.splits)

lemma bindM_Inr_iff:
  "bindM m f s = (Inr y, s') \<longleftrightarrow> (\<exists>x t. m s = (Inr x, t) \<and> f x t = (Inr y, s'))"
  by (auto simp: bindM_def split: prod.splits sum.splits)

text \<open>
  An operation preserves a predicate when every run of it, returning or throwing, does.
\<close>

definition preserves :: "('s \<Rightarrow> bool) \<Rightarrow> ('s, 'a) M \<Rightarrow> bool" where
  "preserves P m \<longleftrightarrow> (\<forall>s. P s \<longrightarrow> P (snd (m s)))"

lemma preservesI: "(\<And>s. P s \<Longrightarrow> wp m (\<lambda>_. P) (\<lambda>_. P) s) \<Longrightarrow> preserves P m"
  by (simp add: preserves_def wp_snd)

lemma preservesD: "preserves P m \<Longrightarrow> P s \<Longrightarrow> wp m (\<lambda>_. P) (\<lambda>_. P) s"
  by (simp add: preserves_def wp_snd)

lemma preserves_mapM: "(\<And>x. x \<in> set xs \<Longrightarrow> preserves P (f x)) \<Longrightarrow> preserves P (mapM f xs)"
proof (induction xs)
  case Nil
  then show ?case by (simp add: preserves_def returnM_def)
next
  case (Cons x xs)
  show ?case
  proof (rule preservesI)
    fix s assume P: "P s"
    have hd: "preserves P (f x)" and tl: "preserves P (mapM f xs)" using Cons by auto
    have "wp (f x) (\<lambda>y. wp (bindM (mapM f xs) (\<lambda>ys. returnM (y # ys))) (\<lambda>_. P) (\<lambda>_. P)) (\<lambda>_. P) s"
      by (rule wp_conseq [OF preservesD [OF hd P]])
        (auto simp: wp_simps intro: preservesD [OF tl])
    then show "wp (mapM f (x # xs)) (\<lambda>_. P) (\<lambda>_. P) s" by (simp add: wp_simps)
  qed
qed

subsection \<open>JavaScript maps\<close>

text \<open>
  A JavaScript \<open>Map\<close> enumerates its entries in insertion order and \<open>set\<close> on a present key keeps
  the key's place: an association list under \<open>AList.update\<close>, read with \<open>map_of\<close>.
\<close>

declare map_of_eq_Some_iff [simp del] Some_eq_map_of_iff [simp del]

type_synonym 'v jsmap = "(string \<times> 'v) list"

abbreviation jmGet :: "'v jsmap \<Rightarrow> string \<Rightarrow> 'v option" where
  "jmGet m k \<equiv> map_of m k"

abbreviation jmSet :: "string \<Rightarrow> 'v \<Rightarrow> 'v jsmap \<Rightarrow> 'v jsmap" where
  "jmSet k v m \<equiv> AList.update k v m"

definition jmValues :: "'v jsmap \<Rightarrow> 'v list" where
  "jmValues m = map snd m"

text \<open>A mutation of the object stored under a key, through the reference the map holds.\<close>

definition jmModify :: "string \<Rightarrow> ('v \<Rightarrow> 'v) \<Rightarrow> 'v jsmap \<Rightarrow> 'v jsmap" where
  "jmModify k f m = (case jmGet m k of None \<Rightarrow> m | Some v \<Rightarrow> jmSet k (f v) m)"

lemma jmGet_jmSet [simp]: "jmGet (jmSet k v m) k' = (if k' = k then Some v else jmGet m k')"
  by (simp add: update_conv')

lemma jmGet_jmModify [simp]:
  "jmGet (jmModify k f m) k' = (if k' = k then map_option f (jmGet m k) else jmGet m k')"
  by (auto simp: jmModify_def split: option.split)

lemma jmSet_fresh: "k \<notin> fst ` set m \<Longrightarrow> jmSet k v m = m @ [(k, v)]"
  by (induction m) auto

lemma distinct_jmSet: "distinct (map fst m) \<Longrightarrow> distinct (map fst (jmSet k v m))"
  by (rule distinct_update)

lemma jmGet_mem: "jmGet m k = Some v \<Longrightarrow> k \<in> fst ` set m"
  by (auto dest: map_of_SomeD intro: rev_image_eqI)

lemma keys_jmModify [simp]: "fst ` set (jmModify k f m) = fst ` set m"
  by (auto simp: jmModify_def dom_update split: option.split dest: jmGet_mem)

lemma distinct_jmModify: "distinct (map fst m) \<Longrightarrow> distinct (map fst (jmModify k f m))"
  by (auto simp: jmModify_def distinct_jmSet split: option.split)

lemma set_jmSet:
  "distinct (map fst m) \<Longrightarrow> set (jmSet k v m) = {(k', v') \<in> set m. k' \<noteq> k} \<union> {(k, v)}"
  by (induction m) force+

text \<open>A sum over the values of a map changes by the difference when one value is replaced.\<close>

lemma sum_list_jmSet:
  fixes f :: "'v \<Rightarrow> int"
  assumes "distinct (map fst m)"
  shows "sum_list (map f (jmValues (jmSet k v m))) =
    sum_list (map f (jmValues m)) - (case jmGet m k of None \<Rightarrow> 0 | Some v0 \<Rightarrow> f v0) + f v"
  using assms by (induction m) (auto simp: jmValues_def split: option.splits)

lemma jmGet_in_jmValues: "jmGet m k = Some v \<Longrightarrow> v \<in> set (jmValues m)"
  by (auto simp: jmValues_def dest: map_of_SomeD intro: rev_image_eqI)

lemma jmValues_jmGet: "v \<in> set (jmValues m) \<Longrightarrow> distinct (map fst m) \<Longrightarrow> \<exists>k. jmGet m k = Some v"
  by (force simp: jmValues_def intro: map_of_is_SomeI)

subsection \<open>Array.prototype.sort and filter objects\<close>

text \<open>
  \<open>Array.prototype.sort\<close> is stable and, for a consistent comparator, determined: insertion from
  the right keeps earlier elements before equal later ones.
\<close>

fun js_insert :: "('a \<Rightarrow> 'a \<Rightarrow> int) \<Rightarrow> 'a \<Rightarrow> 'a list \<Rightarrow> 'a list" where
  "js_insert cmp x [] = [x]"
| "js_insert cmp x (y # ys) = (if cmp x y \<le> 0 then x # y # ys else y # js_insert cmp x ys)"

fun js_sort :: "('a \<Rightarrow> 'a \<Rightarrow> int) \<Rightarrow> 'a list \<Rightarrow> 'a list" where
  "js_sort cmp [] = []"
| "js_sort cmp (x # xs) = js_insert cmp x (js_sort cmp xs)"

lemma mset_js_insert [simp]: "mset (js_insert cmp x xs) = mset (x # xs)"
  by (induction xs) auto

lemma mset_js_sort [simp]: "mset (js_sort cmp xs) = mset xs"
  by (induction xs) auto

lemma set_js_sort [simp]: "set (js_sort cmp xs) = set xs"
  by (rule mset_eq_setD) simp

lemma distinct_map_js_sort [simp]: "distinct (map f (js_sort cmp xs)) = distinct (map f xs)"
  by (metis mset_eq_imp_distinct_iff mset_js_sort mset_map)

lemma js_insert_sorted: "list_all (\<lambda>y. cmp x y \<le> 0) ys \<Longrightarrow> js_insert cmp x ys = x # ys"
  by (cases ys) auto

lemma js_sort_sorted: "sorted_wrt (\<lambda>a b. cmp a b \<le> 0) xs \<Longrightarrow> js_sort cmp xs = xs"
  by (induction xs) (auto simp: js_insert_sorted list_all_iff)

text \<open>\<open>===\<close> compares objects and arrays by identity: two of them from different places differ.\<close>

fun js_strict_eq :: "js \<Rightarrow> js \<Rightarrow> bool" where
  "js_strict_eq (JObj _) _ = False"
| "js_strict_eq (JArr _) _ = False"
| "js_strict_eq a b = (a = b)"

text \<open>\<open>matchesFilter\<close>: every expected field of the filter is undefined or equal.\<close>

definition matchesFilter :: "('a \<Rightarrow> string \<Rightarrow> js) \<Rightarrow> (string \<times> js) list \<Rightarrow> 'a \<Rightarrow> bool" where
  "matchesFilter field filt x \<longleftrightarrow>
     list_all (\<lambda>(key, expected). expected = JUndefined \<or> js_strict_eq (field x key) expected) filt"

lemma matchesFilter_Nil [simp]: "matchesFilter field [] x"
  by (simp add: matchesFilter_def)

subsection \<open>Components as transition systems\<close>

text \<open>
  A component is a set of operations over a state. Its invariant holds in every state the
  operations can reach, by the closure argument proved once here and interpreted by every
  component on its own step relation.
\<close>

locale transition_system =
  fixes step :: "'s \<Rightarrow> 's \<Rightarrow> bool"
    and inv :: "'s \<Rightarrow> bool"
  assumes inv_step: "inv s \<Longrightarrow> step s t \<Longrightarrow> inv t"
begin

lemma inv_run: "rtranclp step s t \<Longrightarrow> inv s \<Longrightarrow> inv t"
  by (induction rule: rtranclp_induct) (auto intro: inv_step)

end

end
