(* ===== verification/Validators.thy ===== *)
theory Validators
  imports Prelude
begin

text \<open>
  \<open>packages/domain/src/validators.js\<close> and \<open>packages/domain/src/ids.js\<close>: the input checks every
  service method starts with, the canonical serialisation that is hashed, and the runtime
  facilities the code takes from Node.js. Amounts travel as decimal strings; the printing and
  parsing of those strings is modelled here and shown to be a round trip within the supported width.
\<close>

subsection \<open>The runtime\<close>

text \<open>
  The facilities of the JavaScript runtime that the sources only call: the SHA3-256 digest
  (hexadecimal), the stream of random UUIDs, the successive readings of \<open>new Date()\<close> in
  milliseconds, \<open>new Date(text).getTime()\<close> with \<open>None\<close> for an invalid date, \<open>toISOString\<close> and
  \<open>localeCompare\<close>. They are parameters of the model; \<open>uuidCount\<close> and \<open>clockCount\<close> count how often
  the two streams have been read.
\<close>

record runtime =
  rt_sha3 :: "string \<Rightarrow> string"
  rt_uuid :: "nat \<Rightarrow> string"
  rt_clock :: "nat \<Rightarrow> int"
  rt_dateParse :: "string \<Rightarrow> int option"
  rt_iso :: "int \<Rightarrow> string"
  rt_localeCompare :: "string \<Rightarrow> string \<Rightarrow> int"

record host =
  rt :: runtime
  uuidCount :: nat
  clockCount :: nat

text \<open>\<open>new Date()\<close>.\<close>

definition newDate :: "('z host_scheme, int) M" where
  "newDate s = (Inr (rt_clock (rt s) (clockCount s)), s\<lparr>clockCount := Suc (clockCount s)\<rparr>)"

text \<open>A parameter with the default \<open>now = new Date()\<close>.\<close>

definition nowOr :: "int option \<Rightarrow> ('z host_scheme, int) M" where
  "nowOr now = (case now of None \<Rightarrow> newDate | Some t \<Rightarrow> returnM t)"

lemma wp_newDate [wp_simps]:
  "wp newDate Q E = (\<lambda>s. Q (rt_clock (rt s) (clockCount s)) (s\<lparr>clockCount := Suc (clockCount s)\<rparr>))"
  by (simp add: fun_eq_iff wp_def newDate_def)

lemma wp_nowOr [wp_simps]:
  "wp (nowOr now) Q E = (\<lambda>s. case now of
     None \<Rightarrow> Q (rt_clock (rt s) (clockCount s)) (s\<lparr>clockCount := Suc (clockCount s)\<rparr>)
   | Some t \<Rightarrow> Q t s)"
  by (cases now) (simp_all add: nowOr_def wp_simps)

subsection \<open>Decimal strings\<close>

definition digit_char :: "nat \<Rightarrow> char" where
  "digit_char d = char_of (48 + d)"

definition digit_val :: "char \<Rightarrow> nat" where
  "digit_val c = of_char c - 48"

definition is_digit :: "char \<Rightarrow> bool" where
  "is_digit c \<longleftrightarrow> 48 \<le> (of_char c :: nat) \<and> (of_char c :: nat) \<le> 57"

fun decNat :: "nat \<Rightarrow> string" where
  "decNat n = (if n < 10 then [digit_char n] else decNat (n div 10) @ [digit_char (n mod 10)])"

declare decNat.simps [simp del]

text \<open>\<open>BigInt.prototype.toString\<close>.\<close>

definition dec :: "int \<Rightarrow> string" where
  "dec i = (if i < 0 then CHR ''-'' # decNat (nat (- i)) else decNat (nat i))"

text \<open>\<open>BigInt(text)\<close> on a string of digits.\<close>

definition parseNat :: "string \<Rightarrow> nat" where
  "parseNat s = foldl (\<lambda>n c. 10 * n + digit_val c) 0 s"

lemma digit_char_inverse: "d < 10 \<Longrightarrow> digit_val (digit_char d) = d \<and> is_digit (digit_char d)"
  by (simp add: digit_char_def digit_val_def is_digit_def)

lemma decNat_digits: "\<forall>c\<in>set (decNat n). is_digit c"
proof (induction n rule: decNat.induct)
  case (1 n)
  then show ?case
    by (cases "n < 10") (auto simp: decNat.simps [of n] digit_char_inverse)
qed

lemma decNat_nonempty [simp]: "decNat n \<noteq> []"
  by (simp add: decNat.simps [of n])

lemma parseNat_decNat [simp]: "parseNat (decNat n) = n"
proof (induction n rule: decNat.induct)
  case (1 n)
  then show ?case
    by (cases "n < 10") (auto simp: decNat.simps [of n] parseNat_def digit_char_inverse)
qed

lemma length_decNat: "n < 10 ^ Suc k \<Longrightarrow> length (decNat n) \<le> Suc k"
proof (induction n arbitrary: k rule: decNat.induct)
  case (1 n)
  show ?case
  proof (cases "n < 10")
    case True
    then show ?thesis by (simp add: decNat.simps [of n])
  next
    case False
    with "1.prems" obtain j where k: "k = Suc j" by (cases k) auto
    with "1.prems" have "n div 10 < 10 ^ Suc j" by simp
    with "1.IH" False k have "length (decNat (n div 10)) \<le> Suc j" by blast
    with False k show ?thesis by (simp add: decNat.simps [of n])
  qed
qed

lemma hd_decNat_pos: "0 < n \<Longrightarrow> hd (decNat n) \<noteq> CHR ''0''"
proof (induction n rule: decNat.induct)
  case (1 n)
  show ?case
  proof (cases "n < 10")
    case True
    with "1.prems" have "digit_val (digit_char n) \<noteq> 0" by (simp add: digit_char_inverse)
    moreover have "digit_val (CHR ''0'') = 0" by (simp add: digit_val_def)
    ultimately show ?thesis using True by (auto simp: decNat.simps [of n])
  next
    case False
    with "1.IH" have "hd (decNat (n div 10)) \<noteq> CHR ''0''" by simp
    with False show ?thesis by (simp add: decNat.simps [of n])
  qed
qed

subsection \<open>validators.js\<close>

text \<open>\<open>Array.prototype.join\<close>.\<close>

fun join :: "string \<Rightarrow> string list \<Rightarrow> string" where
  "join sep [] = []"
| "join sep [x] = x"
| "join sep (x # y # ys) = x @ sep @ join sep (y # ys)"

definition MAX_DOMAIN_STRING_LENGTH :: nat where
  "MAX_DOMAIN_STRING_LENGTH = 2048"

definition MAX_MINOR_UNIT_DIGITS :: nat where
  "MAX_MINOR_UNIT_DIGITS = 78"

text \<open>The characters \<open>String.prototype.trim\<close> removes, among those of eight bits.\<close>

definition js_space :: "char \<Rightarrow> bool" where
  "js_space c \<longleftrightarrow> (of_char c :: nat) \<in> {9, 10, 11, 12, 13, 32, 160}"

definition js_trim :: "string \<Rightarrow> string" where
  "js_trim s = rev (dropWhile js_space (rev (dropWhile js_space s)))"

text \<open>
  \<open>assertEnumValue\<close> with the enum given as the table of its string values and what each stands
  for in the model: the check and the reading of the value in one step.
\<close>

definition assertEnumValue :: "string \<Rightarrow> js \<Rightarrow> (string \<times> 'a) list \<Rightarrow> 'a res" where
  "assertEnumValue name v allowed =
     (let err = fail ''invalid_enum_value'' (name @ '' must be one of '' @ join '', '' (map fst allowed))
      in case v of
           JStr x \<Rightarrow> (case map_of allowed x of Some a \<Rightarrow> Inr a | None \<Rightarrow> err)
         | _ \<Rightarrow> err)"

text \<open>The check returns the string it accepted.\<close>

definition assertNonEmptyString :: "string \<Rightarrow> js \<Rightarrow> string res" where
  "assertNonEmptyString name v =
     (case v of
        JStr x \<Rightarrow>
          if js_trim x = [] \<or> length x > MAX_DOMAIN_STRING_LENGTH
          then fail ''invalid_string'' (name @ '' must be a non-empty string'')
          else Inr x
      | _ \<Rightarrow> fail ''invalid_string'' (name @ '' must be a non-empty string''))"

text \<open>The pattern \<open>^(0|[1-9][0-9]*)$\<close>.\<close>

definition unsigned_decimal :: "string \<Rightarrow> bool" where
  "unsigned_decimal s \<longleftrightarrow> s = ''0'' \<or> (s \<noteq> [] \<and> hd s \<noteq> CHR ''0'' \<and> list_all is_digit s)"

definition toMinorUnitBigInt :: "string \<Rightarrow> js \<Rightarrow> int res" where
  "toMinorUnitBigInt name v =
     (case v of
        JBig i \<Rightarrow>
          if length (filter (\<lambda>c. c \<noteq> CHR ''-'') (dec i)) > MAX_MINOR_UNIT_DIGITS
          then fail ''invalid_minor_units'' (name @ '' exceeds the supported decimal width'')
          else Inr i
      | JStr x \<Rightarrow>
          if length x = 0 \<or> length x > MAX_MINOR_UNIT_DIGITS \<or> \<not> unsigned_decimal x
          then fail ''invalid_minor_units'' (name @ '' must be an unsigned integer string'')
          else Inr (int (parseNat x))
      | _ \<Rightarrow> fail ''invalid_minor_units'' (name @ '' must be an unsigned integer string''))"

definition assertPositiveMinorUnits :: "string \<Rightarrow> js \<Rightarrow> int res" where
  "assertPositiveMinorUnits name v =
     bindR (toMinorUnitBigInt name v) (\<lambda>parsed.
       if parsed \<le> 0 then fail ''invalid_minor_units'' (name @ '' must be greater than zero'')
       else Inr parsed)"

definition assertNonNegativeMinorUnits :: "string \<Rightarrow> js \<Rightarrow> int res" where
  "assertNonNegativeMinorUnits name v =
     bindR (toMinorUnitBigInt name v) (\<lambda>parsed.
       if parsed < 0 then fail ''invalid_minor_units'' (name @ '' must be zero or greater'')
       else Inr parsed)"

abbreviation amountMinorName :: string where
  "amountMinorName \<equiv> ''amountMinor''"

definition is_lower :: "char \<Rightarrow> bool" where
  "is_lower c \<longleftrightarrow> 97 \<le> (of_char c :: nat) \<and> (of_char c :: nat) \<le> 122"

definition is_upper :: "char \<Rightarrow> bool" where
  "is_upper c \<longleftrightarrow> 65 \<le> (of_char c :: nat) \<and> (of_char c :: nat) \<le> 90"

definition caip_namespace_char :: "char \<Rightarrow> bool" where
  "caip_namespace_char c \<longleftrightarrow> is_lower c \<or> is_digit c \<or> c = CHR ''-''"

definition caip_reference_char :: "char \<Rightarrow> bool" where
  "caip_reference_char c \<longleftrightarrow> is_lower c \<or> is_upper c \<or> is_digit c \<or> c = CHR ''-''"

definition caip_address_char :: "char \<Rightarrow> bool" where
  "caip_address_char c \<longleftrightarrow> caip_reference_char c \<or> c \<in> {CHR '':'', CHR ''.'', CHR ''_'', CHR ''%''}"

text \<open>\<open>CAIP10_PATTERN\<close>: the first two groups exclude the colon, so the split is determined.\<close>

definition caip10_pattern :: "string \<Rightarrow> bool" where
  "caip10_pattern s =
     (let ns = takeWhile (\<lambda>c. c \<noteq> CHR '':'') s;
          r1 = dropWhile (\<lambda>c. c \<noteq> CHR '':'') s;
          ref = takeWhile (\<lambda>c. c \<noteq> CHR '':'') (tl r1);
          r2 = dropWhile (\<lambda>c. c \<noteq> CHR '':'') (tl r1);
          addr = tl r2
      in ns \<noteq> [] \<and> list_all caip_namespace_char ns \<and> r1 \<noteq> [] \<and>
         ref \<noteq> [] \<and> list_all caip_reference_char ref \<and> r2 \<noteq> [] \<and>
         addr \<noteq> [] \<and> list_all caip_address_char addr)"

definition assertCAIP10 :: "js \<Rightarrow> string res" where
  "assertCAIP10 v =
     bindR (assertNonEmptyString ''accountId'' v) (\<lambda>accountId.
       if \<not> caip10_pattern accountId
       then fail ''invalid_caip10'' ''accountId must use CAIP-10 format''
       else Inr accountId)"

definition chainIdFromCAIP10 :: "js \<Rightarrow> string res" where
  "chainIdFromCAIP10 v =
     bindR (assertCAIP10 v) (\<lambda>accountId.
       let ns = takeWhile (\<lambda>c. c \<noteq> CHR '':'') accountId;
           ref = takeWhile (\<lambda>c. c \<noteq> CHR '':'') (tl (dropWhile (\<lambda>c. c \<noteq> CHR '':'') accountId))
       in Inr (ns @ '':'' @ ref))"

definition BANNED_PII_KEYS :: "string list" where
  "BANNED_PII_KEYS =
     [''ssn'', ''passport'', ''passportnumber'', ''idnumber'', ''nationalid'', ''phonenumber'',
      ''rawkyc'', ''accountnumber'', ''bankaccount'', ''bankaccountnumber'', ''routingnumber'',
      ''iban'', ''privatekey'', ''apikey'', ''accesstoken'', ''refreshtoken'', ''password'',
      ''clientsecret'', ''webhooksecret'', ''credentials'', ''seedphrase'', ''mnemonic'', ''secret'']"

definition to_lower :: "char \<Rightarrow> char" where
  "to_lower c = (if is_upper c then char_of ((of_char c :: nat) + 32) else c)"

definition normalizeKey :: "string \<Rightarrow> string" where
  "normalizeKey k = filter (\<lambda>c. is_lower c \<or> is_digit c) (map to_lower k)"

text \<open>
  \<open>assertNoRawPiiReference\<close>: arrays are walked through their index keys, which are digits and
  never on the list; every other non-object passes.
\<close>

fun assertNoRawPiiReference :: "js \<Rightarrow> unit res"
  and piiEntries :: "(string \<times> js) list \<Rightarrow> unit res"
  and piiElements :: "js list \<Rightarrow> unit res" where
  "assertNoRawPiiReference (JObj kvs) = piiEntries kvs"
| "assertNoRawPiiReference (JArr vs) = piiElements vs"
| "assertNoRawPiiReference _ = Inr ()"
| "piiEntries [] = Inr ()"
| "piiEntries ((k, v) # rest) =
     (if normalizeKey k \<in> set BANNED_PII_KEYS
      then fail ''raw_pii_prohibited'' ''raw PII, KYC, or secrets are prohibited''
      else bindR (assertNoRawPiiReference v) (\<lambda>_. piiEntries rest))"
| "piiElements [] = Inr ()"
| "piiElements (v # rest) = bindR (assertNoRawPiiReference v) (\<lambda>_. piiElements rest)"

text \<open>\<open>assertDueAt\<close>: \<open>new Date(value)\<close> is valid.\<close>

definition assertDueAt :: "runtime \<Rightarrow> string \<Rightarrow> unit res" where
  "assertDueAt r value =
     (case rt_dateParse r value of
        None \<Rightarrow> fail ''invalid_due_at'' ''dueAt must be an ISO timestamp''
      | Some _ \<Rightarrow> Inr ())"

subsection \<open>ids.js\<close>

definition hex_char :: "nat \<Rightarrow> char" where
  "hex_char d = (if d < 10 then char_of (48 + d) else char_of (87 + d))"

text \<open>The escapes of \<open>JSON.stringify\<close> on a string.\<close>

definition json_char :: "char \<Rightarrow> string" where
  "json_char c =
     (let n = (of_char c :: nat) in
      if n = 34 then [CHR 0x5C, CHR 0x22]
      else if n = 92 then [CHR 0x5C, CHR 0x5C]
      else if n = 8 then [CHR 0x5C, CHR ''b'']
      else if n = 9 then [CHR 0x5C, CHR ''t'']
      else if n = 10 then [CHR 0x5C, CHR ''n'']
      else if n = 12 then [CHR 0x5C, CHR ''f'']
      else if n = 13 then [CHR 0x5C, CHR ''r'']
      else if n < 32 then [CHR 0x5C] @ ''u00'' @ [hex_char (n div 16), hex_char (n mod 16)]
      else [c])"

definition json_string :: "string \<Rightarrow> string" where
  "json_string s = [CHR 0x22] @ concat (map json_char s) @ [CHR 0x22]"

fun stableSerialize :: "js \<Rightarrow> string"
  and serializeEntries :: "(string \<times> js) list \<Rightarrow> (string \<times> string) list"
  and serializeElements :: "js list \<Rightarrow> string list" where
  "stableSerialize JNull = ''null''"
| "stableSerialize JUndefined = ''null''"
| "stableSerialize (JBig i) = dec i"
| "stableSerialize (JBool b) = (if b then ''true'' else ''false'')"
| "stableSerialize (JNum i) = dec i"
| "stableSerialize (JStr x) = json_string x"
| "stableSerialize (JArr vs) = ''['' @ join '','' (serializeElements vs) @ '']''"
| "stableSerialize (JObj kvs) =
     ''{'' @ join '','' (map (\<lambda>(k, v). json_string k @ '':'' @ v)
       (sort_key fst (serializeEntries kvs))) @ ''}''"
| "serializeEntries [] = []"
| "serializeEntries ((k, v) # rest) =
     (if v = JUndefined then serializeEntries rest else (k, stableSerialize v) # serializeEntries rest)"
| "serializeElements [] = []"
| "serializeElements (v # rest) = stableSerialize v # serializeElements rest"

definition DEMO_HASH_DOMAIN :: string where
  "DEMO_HASH_DOMAIN = ''IPO_ONE_DEMO_V1''"

definition hashId :: "runtime \<Rightarrow> string \<Rightarrow> js \<Rightarrow> string" where
  "hashId r namespace payload =
     ''0x'' @ rt_sha3 r (DEMO_HASH_DOMAIN @ [CHR 0x00] @ namespace @ [CHR 0x00] @ stableSerialize payload)"

definition hashM :: "string \<Rightarrow> js \<Rightarrow> ('z host_scheme, string) M" where
  "hashM namespace payload = getsM (\<lambda>s. hashId (rt s) namespace payload)"

text \<open>\<open>createOperationalId\<close>: the prefix and the next UUID of the stream.\<close>

definition opId :: "runtime \<Rightarrow> string \<Rightarrow> nat \<Rightarrow> string" where
  "opId r prefix n = prefix @ ''_'' @ rt_uuid r n"

definition createOperationalId :: "string \<Rightarrow> ('z host_scheme, string) M" where
  "createOperationalId prefix s =
     (Inr (opId (rt s) prefix (uuidCount s)), s\<lparr>uuidCount := Suc (uuidCount s)\<rparr>)"

definition createAccountHash :: "runtime \<Rightarrow> string \<Rightarrow> string" where
  "createAccountHash r accountId = hashId r ''account'' (JObj [(''accountId'', JStr accountId)])"

lemma wp_hashM [wp_simps]: "wp (hashM n p) Q E = (\<lambda>s. Q (hashId (rt s) n p) s)"
  by (simp add: hashM_def wp_simps)

lemma wp_createOperationalId [wp_simps]:
  "wp (createOperationalId p) Q E =
    (\<lambda>s. Q (opId (rt s) p (uuidCount s)) (s\<lparr>uuidCount := Suc (uuidCount s)\<rparr>))"
  by (simp add: fun_eq_iff wp_def createOperationalId_def)

text \<open>
  \<open>randomUUID\<close> never returns the same identifier twice: the hypothesis under which the maps keyed
  by operational identifiers never overwrite an entry.
\<close>

definition uuid_unique :: "runtime \<Rightarrow> bool" where
  "uuid_unique r \<longleftrightarrow> inj (rt_uuid r)"

lemma opId_inj: "uuid_unique r \<Longrightarrow> opId r p m = opId r p n \<longleftrightarrow> m = n"
  by (auto simp: uuid_unique_def opId_def inj_eq)

text \<open>The identifiers of one prefix that have been handed out so far.\<close>

definition issued :: "'z host_scheme \<Rightarrow> string \<Rightarrow> string set" where
  "issued s p = opId (rt s) p ` {..<uuidCount s}"

lemma issued_fresh: "uuid_unique (rt s) \<Longrightarrow> opId (rt s) p (uuidCount s) \<notin> issued s p"
  by (auto simp: issued_def opId_inj)

lemma issued_mono:
  "rt t = rt s \<Longrightarrow> uuidCount s \<le> uuidCount t \<Longrightarrow> issued s p \<subseteq> issued t p"
  by (auto simp: issued_def)

lemma opId_issued: "n < uuidCount s \<Longrightarrow> opId (rt s) p n \<in> issued s p"
  by (simp add: issued_def)

subsection \<open>Facts about the checks\<close>

lemma assertNonEmptyString_Inr:
  "assertNonEmptyString n v = Inr x \<longleftrightarrow>
     v = JStr x \<and> js_trim x \<noteq> [] \<and> length x \<le> MAX_DOMAIN_STRING_LENGTH"
  by (auto simp: assertNonEmptyString_def split: js.splits)

lemma toMinorUnitBigInt_bound:
  assumes "toMinorUnitBigInt n v = Inr i" and "v = JStr x"
  shows "0 \<le> i \<and> i = int (parseNat x)"
  using assms by (auto simp: toMinorUnitBigInt_def split: if_splits)

lemma assertPositive_Inr:
  "assertPositiveMinorUnits n v = Inr i \<longleftrightarrow> toMinorUnitBigInt n v = Inr i \<and> 0 < i"
  by (cases "toMinorUnitBigInt n v") (auto simp: assertPositiveMinorUnits_def)

lemma assertNonNegative_Inr:
  "assertNonNegativeMinorUnits n v = Inr i \<longleftrightarrow> toMinorUnitBigInt n v = Inr i \<and> 0 \<le> i"
  by (cases "toMinorUnitBigInt n v") (auto simp: assertNonNegativeMinorUnits_def)

lemma unsigned_decimal_decNat: "unsigned_decimal (decNat n)"
proof (cases "n = 0")
  case True
  moreover have "decNat 0 = ''0''" by code_simp
  ultimately show ?thesis by (simp add: unsigned_decimal_def)
next
  case False
  then show ?thesis
    using hd_decNat_pos [of n] decNat_digits [of n]
    by (simp add: unsigned_decimal_def list_all_iff)
qed

text \<open>
  A printed amount reads back as itself: the reason the services may hand \<open>amount.toString()\<close> to
  one another.
\<close>

lemma toMinorUnit_print:
  assumes "0 \<le> i" and "i < 10 ^ 78"
  shows "toMinorUnitBigInt n (JStr (dec i)) = Inr i"
proof -
  have "nat i < 10 ^ Suc 77" using assms by (simp add: nat_less_iff)
  then have "length (decNat (nat i)) \<le> 78" using length_decNat [of "nat i" 77] by simp
  with assms show ?thesis
    using unsigned_decimal_decNat [of "nat i"]
    by (simp add: toMinorUnitBigInt_def dec_def MAX_MINOR_UNIT_DIGITS_def)
qed

lemma parseNat_bound: "list_all is_digit s \<Longrightarrow> parseNat s < 10 ^ length s"
proof (induction s rule: rev_induct)
  case Nil
  then show ?case by (simp add: parseNat_def)
next
  case (snoc c s)
  then have "parseNat s < 10 ^ length s" and "digit_val c \<le> 9"
    by (auto simp: is_digit_def digit_val_def)
  then show ?case by (simp add: parseNat_def)
qed

lemma toMinorUnit_bound:
  assumes "toMinorUnitBigInt n v = Inr i"
  shows "\<bar>i\<bar> < 10 ^ 78"
proof -
  have small: "int (parseNat x) < 10 ^ 78" if "list_all is_digit x" "length x \<le> 78" for x
  proof -
    have "parseNat x < 10 ^ length x" by (rule parseNat_bound [OF that(1)])
    also have "\<dots> \<le> 10 ^ 78" using that(2) by (rule power_increasing) simp
    finally have "int (parseNat x) < int (10 ^ 78)" by (simp only: of_nat_less_iff)
    then show ?thesis by simp
  qed
  have digits: "list_all is_digit (decNat k)" for k
    using decNat_digits [of k] by (simp add: list_all_iff)
  have nodash: "filter (\<lambda>c. c \<noteq> CHR ''-'') (decNat k) = decNat k" for k
  proof -
    have "\<not> is_digit (CHR ''-'')" by (simp add: is_digit_def)
    then show ?thesis using decNat_digits [of k] by (auto simp: filter_id_conv)
  qed
  show ?thesis
  proof (cases v)
    case (JBig j)
    with assms have "i = j" "length (decNat (nat \<bar>i\<bar>)) \<le> 78"
      by (auto simp: toMinorUnitBigInt_def MAX_MINOR_UNIT_DIGITS_def dec_def nodash
          split: if_splits)
    then have "int (parseNat (decNat (nat \<bar>i\<bar>))) < 10 ^ 78" using small digits by blast
    then show ?thesis by simp
  next
    case (JStr x)
    with assms have "length x \<le> 78" "unsigned_decimal x" "i = int (parseNat x)"
      by (auto simp: toMinorUnitBigInt_def MAX_MINOR_UNIT_DIGITS_def split: if_splits)
    moreover from this(2) have "list_all is_digit x"
      by (auto simp: unsigned_decimal_def is_digit_def)
    ultimately show ?thesis using small [of x] by simp
  qed (use assms in \<open>simp_all add: toMinorUnitBigInt_def\<close>)
qed

lemma assertPositive_print:
  assumes "toMinorUnitBigInt m v = Inr j" and "0 < i" and "i \<le> j"
  shows "assertPositiveMinorUnits n (JStr (dec i)) = Inr i"
  using toMinorUnit_bound [OF assms(1)] assms(2,3)
  by (simp add: assertPositive_Inr toMinorUnit_print)

subsection \<open>Running the character tests\<close>

text \<open>Equations on the bits of a character, for the simplifier and the code generator.\<close>

lemma is_digit_code [code]:
  "is_digit (Char b0 b1 b2 b3 b4 b5 b6 b7) \<longleftrightarrow> \<not> b7 \<and> \<not> b6 \<and> b5 \<and> b4 \<and> (\<not> b3 \<or> \<not> b2 \<and> \<not> b1)"
  by (cases b0; cases b1; cases b2; cases b3; cases b4; cases b5; cases b6; cases b7; simp add: is_digit_def)

lemma is_upper_code [code]:
  "is_upper (Char b0 b1 b2 b3 b4 b5 b6 b7) \<longleftrightarrow> \<not> b7 \<and> b6 \<and> \<not> b5 \<and>
     (if b4 then \<not> b3 \<or> \<not> b2 \<and> \<not> (b1 \<and> b0) else b0 \<or> b1 \<or> b2 \<or> b3)"
  by (cases b0; cases b1; cases b2; cases b3; cases b4; cases b5; cases b6; cases b7; simp add: is_upper_def)

lemma is_lower_code [code]:
  "is_lower (Char b0 b1 b2 b3 b4 b5 b6 b7) \<longleftrightarrow> \<not> b7 \<and> b6 \<and> b5 \<and>
     (if b4 then \<not> b3 \<or> \<not> b2 \<and> \<not> (b1 \<and> b0) else b0 \<or> b1 \<or> b2 \<or> b3)"
  by (cases b0; cases b1; cases b2; cases b3; cases b4; cases b5; cases b6; cases b7; simp add: is_lower_def)

lemma to_lower_code [code]:
  "to_lower (Char b0 b1 b2 b3 b4 b5 b6 b7) =
     Char b0 b1 b2 b3 b4 (b5 \<or> is_upper (Char b0 b1 b2 b3 b4 b5 b6 b7)) b6 b7"
  by (cases b0; cases b1; cases b2; cases b3; cases b4; cases b5; cases b6; cases b7;
      simp add: to_lower_def is_upper_def char_of_def bit_0)

lemma js_space_code [code]:
  "js_space c \<longleftrightarrow> c \<in> {CHR 0x09, CHR 0x0A, CHR 0x0B, CHR 0x0C, CHR 0x0D, CHR 0x20, CHR 0xA0}"
proof -
  have "(of_char c :: nat) = of_char d \<longleftrightarrow> c = d" for d by simp
  from this [of "CHR 0x09"] this [of "CHR 0x0A"] this [of "CHR 0x0B"] this [of "CHR 0x0C"]
    this [of "CHR 0x0D"] this [of "CHR 0x20"] this [of "CHR 0xA0"]
  show ?thesis by (simp add: js_space_def)
qed

fun bits_less :: "bool list \<Rightarrow> bool list \<Rightarrow> bool" where
  "bits_less (a # as) (b # bs) = (if a = b then bits_less as bs else b)"
| "bits_less _ _ = False"

lemma double_less: "(of_bool b + 2 * x < of_bool c + 2 * y) = (if x = y then \<not> b \<and> c else x < (y::nat))"
  by auto

lemma double_eq: "(of_bool b + 2 * x = of_bool c + 2 * y) = ((x::nat) = y \<and> b = c)"
  by (cases b; cases c; simp; presburger)

lemma horner_inj: "length as = length bs \<Longrightarrow>
    (horner_sum of_bool 2 as = (horner_sum of_bool 2 bs :: nat)) = (as = bs)"
  by (induction as bs rule: list_induct2) (auto simp: double_eq)

lemma bits_less_snoc: "length as = length bs \<Longrightarrow>
    bits_less (as @ [a]) (bs @ [b]) = (if as = bs then \<not> a \<and> b else bits_less as bs)"
  by (induction as bs rule: list_induct2) auto

lemma horner_less: "length as = length bs \<Longrightarrow>
    (horner_sum of_bool 2 as < (horner_sum of_bool 2 bs :: nat)) = bits_less (rev as) (rev bs)"
  by (induction as bs rule: list_induct2) (auto simp: double_less horner_inj bits_less_snoc)

lemma less_char_code [code]:
  "Char a0 a1 a2 a3 a4 a5 a6 a7 < Char b0 b1 b2 b3 b4 b5 b6 b7 \<longleftrightarrow>
     bits_less [a7, a6, a5, a4, a3, a2, a1, a0] [b7, b6, b5, b4, b3, b2, b1, b0]"
  using horner_less [of "[a0, a1, a2, a3, a4, a5, a6, a7]" "[b0, b1, b2, b3, b4, b5, b6, b7]"]
  by (simp only: less_char_def of_char_def char.case) simp

lemma less_eq_char_code [code]: "(c::char) \<le> d \<longleftrightarrow> \<not> d < c"
  by auto

lemma char_control: "(of_char (Char b0 b1 b2 b3 b4 b5 b6 b7) :: nat) < 32 \<longleftrightarrow> \<not> b5 \<and> \<not> b6 \<and> \<not> b7"
  by (cases b0; cases b1; cases b2; cases b3; cases b4; cases b5; cases b6; cases b7; simp)

lemma json_char_code [code]:
  "json_char (Char b0 b1 b2 b3 b4 b5 b6 b7) =
     (let c = Char b0 b1 b2 b3 b4 b5 b6 b7; n = (of_char c :: nat) in
      if c = CHR 0x22 then [CHR 0x5C, CHR 0x22]
      else if c = CHR 0x5C then [CHR 0x5C, CHR 0x5C]
      else if b5 \<or> b6 \<or> b7 then [c]
      else if n = 8 then [CHR 0x5C, CHR ''b'']
      else if n = 9 then [CHR 0x5C, CHR ''t'']
      else if n = 10 then [CHR 0x5C, CHR ''n'']
      else if n = 12 then [CHR 0x5C, CHR ''f'']
      else if n = 13 then [CHR 0x5C, CHR ''r'']
      else [CHR 0x5C] @ ''u00'' @ [hex_char (n div 16), hex_char (n mod 16)])"
  by (cases b0; cases b1; cases b2; cases b3; cases b4; cases b5; cases b6; cases b7; simp add: json_char_def Let_def)

subsection \<open>A concrete runtime\<close>

text \<open>
  The runtime the examples are run on: unary identifiers, a clock that ticks once per reading, and a
  constant digest. No theorem rests on the digest being injective.
\<close>

definition demo_runtime :: runtime where
  "demo_runtime = \<lparr>rt_sha3 = (\<lambda>t. ''h''), rt_uuid = (\<lambda>n. replicate n CHR ''u''), rt_clock = int,
     rt_dateParse = (\<lambda>_. Some 1000), rt_iso = dec, rt_localeCompare = (\<lambda>_ _. 0)\<rparr>"

lemma demo_runtime_eval [eval_simps]:
  "rt_uuid demo_runtime n = replicate n CHR ''u''" "rt_clock demo_runtime n = int n"
  "rt_iso demo_runtime i = dec i" "rt_dateParse demo_runtime x = Some 1000"
  "hashId demo_runtime ns p = ''0xh''"
  by (auto simp: demo_runtime_def hashId_def)

lemma demo_uuid_unique [simp]: "uuid_unique demo_runtime"
proof -
  have "m = n" if "replicate m CHR ''u'' = replicate n CHR ''u''" for m n
    using arg_cong [OF that, of length] by simp
  then show ?thesis by (auto simp: uuid_unique_def demo_runtime_def intro: injI)
qed

lemma replicate_numeral [eval_simps]: "replicate (numeral k) x = x # replicate (pred_numeral k) x"
  by (simp add: numeral_eq_Suc)

lemma assertNonEmptyString_eval [eval_simps]:
  "assertNonEmptyString n (JStr x) =
    (if js_trim x = [] \<or> length x > 2048
     then fail ''invalid_string'' (n @ '' must be a non-empty string'') else Inr x)"
  by (simp add: assertNonEmptyString_def MAX_DOMAIN_STRING_LENGTH_def)

lemma js_trim_Cons [eval_simps]: "\<not> js_space c \<Longrightarrow> js_trim (c # xs) \<noteq> []"
  by (simp add: js_trim_def dropWhile_append)

text \<open>None of the payload keys the services use is on the list of prohibited keys.\<close>

lemma payload_keys_allowed:
  "list_all (\<lambda>k. normalizeKey k \<notin> set BANNED_PII_KEYS)
     [''ledgerAccountId'', ''ledgerAccountHash'', ''ownerType'', ''ownerId'', ''assetId'',
      ''accountType'', ''normalSide'', ''ledgerTransactionId'', ''transactionHash'',
      ''transactionType'', ''referenceType'', ''referenceId'', ''debitTotalMinor'',
      ''creditTotalMinor'', ''entryCount'', ''lockboxId'', ''lockboxHash'', ''accountRef'',
      ''amountMinor'', ''source'', ''balanceMinor'', ''reason'', ''previousStatus'', ''newStatus'',
      ''obligationId'', ''obligationHash'', ''principalId'', ''mandateId'', ''dueAt'',
      ''repaymentId'', ''subjectId'', ''remainingMinor'', ''occurredAt'', ''schemaVersion'',
      ''outstandingPrincipalMinor'', ''repaidAmountMinor'', ''status'', ''dpd'', ''reasonCode'',
      ''idempotencyKey'', ''appliedCount'', ''inputAmountMinor'', ''appliedMinor'',
      ''surplusMinor'', ''mandateHash'', ''capabilities'', ''assetIds'', ''expiresAt'',
      ''reservationId'', ''capability'', ''utilizedMinor'', ''releaseId'', ''creditLineId'',
      ''limitMinor'', ''riskDecisionId'', ''previousLimitMinor'', ''decision'', ''creditLine'',
      ''modelVersion'', ''utilizationMinor'', ''action'', ''reasons'', ''code'', ''message'',
      ''riskSnapshotId'', ''createdAt'', ''updatedAt'', ''spendRequestId'', ''providerId'',
      ''spendPolicyId'', ''purposeCode'', ''rejectionReason'', ''providerHash'', ''riskTier'',
      ''policyHash'', ''creditProfileId'', ''currentScore'', ''reputationSignalId'', ''signalType'',
      ''scoreDelta'', ''previousScore'', ''newScore'', ''relatedEventId'', ''cycleType'', ''label'',
      ''previousTier'', ''newTier'', ''score'', ''creditLimitRecommendationId'', ''currentLimitMinor'',
      ''recommendedLimitMinor'', ''interestRateRecommendationId'', ''currentDemoInterestRateBps'',
      ''recommendedDemoInterestRateBps'', ''creditLearningEventId'', ''signalIds'', ''reasonCodes'',
      ''principalHash'', ''principalType'', ''subjectHash'', ''subjectType'', ''accountHash'',
      ''accountBindingId'', ''purpose'', ''termsRef'']"
  by code_simp

lemmas [eval_simps] = payload_keys_allowed [unfolded list.pred_inject]

lemmas [eval_simps] = nowOr_def newDate_def createOperationalId_def hashM_def opId_def js_space_code

end
