(* ===== verification/Lifecycles.thy ===== *)
theory Lifecycles
  imports Validators
begin

text \<open>
  \<open>packages/domain/src/enums.js\<close> and \<open>packages/domain/src/state-machines.js\<close>: the status enums as
  datatypes with their string values, the seven transition tables, and \<open>assertTransition\<close>. The
  locale \<open>lifecycle\<close> states what a table promises to its clients (final states are final, and every
  other state can be ended); each table is an interpretation of it.
\<close>

subsection \<open>enums.js\<close>

datatype SubjectStatus =
    Subject_PENDING
  | Subject_ACTIVE
  | Subject_SUSPENDED
  | Subject_CLOSED

fun SubjectStatus_str :: "SubjectStatus \<Rightarrow> string" where
  "SubjectStatus_str Subject_PENDING = ''pending''"
| "SubjectStatus_str Subject_ACTIVE = ''active''"
| "SubjectStatus_str Subject_SUSPENDED = ''suspended''"
| "SubjectStatus_str Subject_CLOSED = ''closed''"

datatype PrincipalStatus =
    Principal_ACTIVE
  | Principal_UNDER_REVIEW
  | Principal_RESTRICTED
  | Principal_CLOSED

fun PrincipalStatus_str :: "PrincipalStatus \<Rightarrow> string" where
  "PrincipalStatus_str Principal_ACTIVE = ''active''"
| "PrincipalStatus_str Principal_UNDER_REVIEW = ''under_review''"
| "PrincipalStatus_str Principal_RESTRICTED = ''restricted''"
| "PrincipalStatus_str Principal_CLOSED = ''closed''"

datatype LockboxStatus =
    Lockbox_CREATED
  | Lockbox_ACTIVE
  | Lockbox_FROZEN
  | Lockbox_CLOSED

fun LockboxStatus_str :: "LockboxStatus \<Rightarrow> string" where
  "LockboxStatus_str Lockbox_CREATED = ''created''"
| "LockboxStatus_str Lockbox_ACTIVE = ''active''"
| "LockboxStatus_str Lockbox_FROZEN = ''frozen''"
| "LockboxStatus_str Lockbox_CLOSED = ''closed''"

datatype MandateStatus =
    Mandate_DRAFT
  | Mandate_ACTIVE
  | Mandate_SUSPENDED
  | Mandate_REVOKED
  | Mandate_EXPIRED

fun MandateStatus_str :: "MandateStatus \<Rightarrow> string" where
  "MandateStatus_str Mandate_DRAFT = ''draft''"
| "MandateStatus_str Mandate_ACTIVE = ''active''"
| "MandateStatus_str Mandate_SUSPENDED = ''suspended''"
| "MandateStatus_str Mandate_REVOKED = ''revoked''"
| "MandateStatus_str Mandate_EXPIRED = ''expired''"

datatype MandateCapability =
    Cap_REQUEST_CREDIT
  | Cap_ACCEPT_CREDIT_OFFER
  | Cap_EXECUTE_SANDBOX_CREDIT
  | Cap_PROVIDER_SPEND
  | Cap_CAPTURE_REVENUE
  | Cap_ROUTE_REPAYMENT

fun MandateCapability_str :: "MandateCapability \<Rightarrow> string" where
  "MandateCapability_str Cap_REQUEST_CREDIT = ''request_credit''"
| "MandateCapability_str Cap_ACCEPT_CREDIT_OFFER = ''accept_credit_offer''"
| "MandateCapability_str Cap_EXECUTE_SANDBOX_CREDIT = ''execute_sandbox_credit''"
| "MandateCapability_str Cap_PROVIDER_SPEND = ''provider_spend''"
| "MandateCapability_str Cap_CAPTURE_REVENUE = ''capture_revenue''"
| "MandateCapability_str Cap_ROUTE_REPAYMENT = ''route_repayment''"

definition MandateCapability_values :: "(string \<times> MandateCapability) list" where
  "MandateCapability_values =
     [(''request_credit'', Cap_REQUEST_CREDIT),
      (''accept_credit_offer'', Cap_ACCEPT_CREDIT_OFFER),
      (''execute_sandbox_credit'', Cap_EXECUTE_SANDBOX_CREDIT),
      (''provider_spend'', Cap_PROVIDER_SPEND),
      (''capture_revenue'', Cap_CAPTURE_REVENUE),
      (''route_repayment'', Cap_ROUTE_REPAYMENT)]"

datatype LedgerAccountStatus =
    LedgerAccount_ACTIVE
  | LedgerAccount_FROZEN
  | LedgerAccount_CLOSED

fun LedgerAccountStatus_str :: "LedgerAccountStatus \<Rightarrow> string" where
  "LedgerAccountStatus_str LedgerAccount_ACTIVE = ''active''"
| "LedgerAccountStatus_str LedgerAccount_FROZEN = ''frozen''"
| "LedgerAccountStatus_str LedgerAccount_CLOSED = ''closed''"

datatype LedgerEntryDirection =
    Entry_DEBIT
  | Entry_CREDIT

fun LedgerEntryDirection_str :: "LedgerEntryDirection \<Rightarrow> string" where
  "LedgerEntryDirection_str Entry_DEBIT = ''debit''"
| "LedgerEntryDirection_str Entry_CREDIT = ''credit''"

definition LedgerEntryDirection_values :: "(string \<times> LedgerEntryDirection) list" where
  "LedgerEntryDirection_values =
     [(''debit'', Entry_DEBIT),
      (''credit'', Entry_CREDIT)]"

datatype LedgerNormalSide =
    Normal_DEBIT
  | Normal_CREDIT

fun LedgerNormalSide_str :: "LedgerNormalSide \<Rightarrow> string" where
  "LedgerNormalSide_str Normal_DEBIT = ''debit''"
| "LedgerNormalSide_str Normal_CREDIT = ''credit''"

definition LedgerNormalSide_values :: "(string \<times> LedgerNormalSide) list" where
  "LedgerNormalSide_values =
     [(''debit'', Normal_DEBIT),
      (''credit'', Normal_CREDIT)]"

datatype LedgerAccountType =
    LedgerType_LOCKBOX_ASSET
  | LedgerType_EXTERNAL_REVENUE
  | LedgerType_REPAYMENT_CLEARING
  | LedgerType_SANDBOX_FUNDING_SOURCE
  | LedgerType_PRINCIPAL_RECEIVABLE
  | LedgerType_INTEREST_RECEIVABLE
  | LedgerType_FEE_RECEIVABLE
  | LedgerType_SYNTHETIC_INTEREST_INCOME
  | LedgerType_SYNTHETIC_FEE_INCOME
  | LedgerType_WRITE_OFF_LOSS

fun LedgerAccountType_str :: "LedgerAccountType \<Rightarrow> string" where
  "LedgerAccountType_str LedgerType_LOCKBOX_ASSET = ''lockbox_asset''"
| "LedgerAccountType_str LedgerType_EXTERNAL_REVENUE = ''external_revenue''"
| "LedgerAccountType_str LedgerType_REPAYMENT_CLEARING = ''repayment_clearing''"
| "LedgerAccountType_str LedgerType_SANDBOX_FUNDING_SOURCE = ''sandbox_funding_source''"
| "LedgerAccountType_str LedgerType_PRINCIPAL_RECEIVABLE = ''principal_receivable''"
| "LedgerAccountType_str LedgerType_INTEREST_RECEIVABLE = ''interest_receivable''"
| "LedgerAccountType_str LedgerType_FEE_RECEIVABLE = ''fee_receivable''"
| "LedgerAccountType_str LedgerType_SYNTHETIC_INTEREST_INCOME = ''synthetic_interest_income''"
| "LedgerAccountType_str LedgerType_SYNTHETIC_FEE_INCOME = ''synthetic_fee_income''"
| "LedgerAccountType_str LedgerType_WRITE_OFF_LOSS = ''write_off_loss''"

definition LedgerAccountType_values :: "(string \<times> LedgerAccountType) list" where
  "LedgerAccountType_values =
     [(''lockbox_asset'', LedgerType_LOCKBOX_ASSET),
      (''external_revenue'', LedgerType_EXTERNAL_REVENUE),
      (''repayment_clearing'', LedgerType_REPAYMENT_CLEARING),
      (''sandbox_funding_source'', LedgerType_SANDBOX_FUNDING_SOURCE),
      (''principal_receivable'', LedgerType_PRINCIPAL_RECEIVABLE),
      (''interest_receivable'', LedgerType_INTEREST_RECEIVABLE),
      (''fee_receivable'', LedgerType_FEE_RECEIVABLE),
      (''synthetic_interest_income'', LedgerType_SYNTHETIC_INTEREST_INCOME),
      (''synthetic_fee_income'', LedgerType_SYNTHETIC_FEE_INCOME),
      (''write_off_loss'', LedgerType_WRITE_OFF_LOSS)]"

datatype CreditLineStatus =
    Line_REQUESTED
  | Line_APPROVED
  | Line_REJECTED
  | Line_FROZEN
  | Line_CLOSED

fun CreditLineStatus_str :: "CreditLineStatus \<Rightarrow> string" where
  "CreditLineStatus_str Line_REQUESTED = ''requested''"
| "CreditLineStatus_str Line_APPROVED = ''approved''"
| "CreditLineStatus_str Line_REJECTED = ''rejected''"
| "CreditLineStatus_str Line_FROZEN = ''frozen''"
| "CreditLineStatus_str Line_CLOSED = ''closed''"

datatype RiskAction =
    RiskAction_NONE
  | RiskAction_REDUCE_LIMIT
  | RiskAction_FREEZE_LOCKBOX
  | RiskAction_SUSPEND_SUBJECT
  | RiskAction_CLOSE_CREDIT_LINE

fun RiskAction_str :: "RiskAction \<Rightarrow> string" where
  "RiskAction_str RiskAction_NONE = ''none''"
| "RiskAction_str RiskAction_REDUCE_LIMIT = ''reduce_limit''"
| "RiskAction_str RiskAction_FREEZE_LOCKBOX = ''freeze_lockbox''"
| "RiskAction_str RiskAction_SUSPEND_SUBJECT = ''suspend_subject''"
| "RiskAction_str RiskAction_CLOSE_CREDIT_LINE = ''close_credit_line''"

datatype RiskTier =
    Tier_PRIME
  | Tier_STRONG
  | Tier_STANDARD
  | Tier_WATCH
  | Tier_RESTRICTED

fun RiskTier_str :: "RiskTier \<Rightarrow> string" where
  "RiskTier_str Tier_PRIME = ''prime''"
| "RiskTier_str Tier_STRONG = ''strong''"
| "RiskTier_str Tier_STANDARD = ''standard''"
| "RiskTier_str Tier_WATCH = ''watch''"
| "RiskTier_str Tier_RESTRICTED = ''restricted''"

datatype ObligationStatus =
    Obl_CREATED
  | Obl_ACTIVE
  | Obl_PARTIALLY_REPAID
  | Obl_FULLY_REPAID
  | Obl_DELINQUENT
  | Obl_OVERDUE
  | Obl_DEFAULTED
  | Obl_RESTRUCTURED
  | Obl_REPURCHASED
  | Obl_WRITTEN_OFF
  | Obl_CLOSED

fun ObligationStatus_str :: "ObligationStatus \<Rightarrow> string" where
  "ObligationStatus_str Obl_CREATED = ''created''"
| "ObligationStatus_str Obl_ACTIVE = ''active''"
| "ObligationStatus_str Obl_PARTIALLY_REPAID = ''partially_repaid''"
| "ObligationStatus_str Obl_FULLY_REPAID = ''fully_repaid''"
| "ObligationStatus_str Obl_DELINQUENT = ''delinquent''"
| "ObligationStatus_str Obl_OVERDUE = ''overdue''"
| "ObligationStatus_str Obl_DEFAULTED = ''defaulted''"
| "ObligationStatus_str Obl_RESTRUCTURED = ''restructured''"
| "ObligationStatus_str Obl_REPURCHASED = ''repurchased''"
| "ObligationStatus_str Obl_WRITTEN_OFF = ''written_off''"
| "ObligationStatus_str Obl_CLOSED = ''closed''"

datatype SpendRequestStatus =
    Spend_REQUESTED
  | Spend_APPROVED
  | Spend_REJECTED
  | Spend_SETTLED
  | Spend_FAILED

fun SpendRequestStatus_str :: "SpendRequestStatus \<Rightarrow> string" where
  "SpendRequestStatus_str Spend_REQUESTED = ''requested''"
| "SpendRequestStatus_str Spend_APPROVED = ''approved''"
| "SpendRequestStatus_str Spend_REJECTED = ''rejected''"
| "SpendRequestStatus_str Spend_SETTLED = ''settled''"
| "SpendRequestStatus_str Spend_FAILED = ''failed''"

datatype SpendPolicyStatus =
    Policy_ACTIVE
  | Policy_PAUSED
  | Policy_EXPIRED

fun SpendPolicyStatus_str :: "SpendPolicyStatus \<Rightarrow> string" where
  "SpendPolicyStatus_str Policy_ACTIVE = ''active''"
| "SpendPolicyStatus_str Policy_PAUSED = ''paused''"
| "SpendPolicyStatus_str Policy_EXPIRED = ''expired''"

datatype ProviderStatus =
    Provider_PENDING
  | Provider_ALLOWLISTED
  | Provider_SUSPENDED
  | Provider_CLOSED

fun ProviderStatus_str :: "ProviderStatus \<Rightarrow> string" where
  "ProviderStatus_str Provider_PENDING = ''pending''"
| "ProviderStatus_str Provider_ALLOWLISTED = ''allowlisted''"
| "ProviderStatus_str Provider_SUSPENDED = ''suspended''"
| "ProviderStatus_str Provider_CLOSED = ''closed''"

datatype PluginStatus =
    Plugin_PENDING
  | Plugin_ACTIVE
  | Plugin_SUSPENDED
  | Plugin_REVOKED

fun PluginStatus_str :: "PluginStatus \<Rightarrow> string" where
  "PluginStatus_str Plugin_PENDING = ''pending''"
| "PluginStatus_str Plugin_ACTIVE = ''active''"
| "PluginStatus_str Plugin_SUSPENDED = ''suspended''"
| "PluginStatus_str Plugin_REVOKED = ''revoked''"

datatype TransferIntentStatus =
    Transfer_CREATED
  | Transfer_QUOTED
  | Transfer_AUTHORIZED
  | Transfer_SUBMITTED
  | Transfer_PENDING
  | Transfer_SETTLED
  | Transfer_FAILED
  | Transfer_REVERSED
  | Transfer_EXPIRED

fun TransferIntentStatus_str :: "TransferIntentStatus \<Rightarrow> string" where
  "TransferIntentStatus_str Transfer_CREATED = ''created''"
| "TransferIntentStatus_str Transfer_QUOTED = ''quoted''"
| "TransferIntentStatus_str Transfer_AUTHORIZED = ''authorized''"
| "TransferIntentStatus_str Transfer_SUBMITTED = ''submitted''"
| "TransferIntentStatus_str Transfer_PENDING = ''pending''"
| "TransferIntentStatus_str Transfer_SETTLED = ''settled''"
| "TransferIntentStatus_str Transfer_FAILED = ''failed''"
| "TransferIntentStatus_str Transfer_REVERSED = ''reversed''"
| "TransferIntentStatus_str Transfer_EXPIRED = ''expired''"

datatype FinalityStatus =
    Finality_PENDING
  | Finality_CONFIRMED
  | Finality_FINALIZED
  | Finality_REORGED
  | Finality_INVALIDATED

fun FinalityStatus_str :: "FinalityStatus \<Rightarrow> string" where
  "FinalityStatus_str Finality_PENDING = ''pending''"
| "FinalityStatus_str Finality_CONFIRMED = ''confirmed''"
| "FinalityStatus_str Finality_FINALIZED = ''finalized''"
| "FinalityStatus_str Finality_REORGED = ''reorged''"
| "FinalityStatus_str Finality_INVALIDATED = ''invalidated''"

datatype CreditLearningSignalType =
    Signal_ON_TIME_REPAYMENT
  | Signal_FULL_REPAYMENT
  | Signal_HIGH_REVENUE_CAPTURE
  | Signal_LOW_UTILIZATION
  | Signal_HEALTHY_REPEAT_CYCLE
  | Signal_LATE_REPAYMENT
  | Signal_REJECTED_RISKY_SPEND
  | Signal_HIGH_UTILIZATION
  | Signal_DEFAULT_EVENT
  | Signal_ADMIN_FREEZE

fun CreditLearningSignalType_str :: "CreditLearningSignalType \<Rightarrow> string" where
  "CreditLearningSignalType_str Signal_ON_TIME_REPAYMENT = ''on_time_repayment''"
| "CreditLearningSignalType_str Signal_FULL_REPAYMENT = ''full_repayment''"
| "CreditLearningSignalType_str Signal_HIGH_REVENUE_CAPTURE = ''high_revenue_capture''"
| "CreditLearningSignalType_str Signal_LOW_UTILIZATION = ''low_utilization''"
| "CreditLearningSignalType_str Signal_HEALTHY_REPEAT_CYCLE = ''healthy_repeat_cycle''"
| "CreditLearningSignalType_str Signal_LATE_REPAYMENT = ''late_repayment''"
| "CreditLearningSignalType_str Signal_REJECTED_RISKY_SPEND = ''rejected_risky_spend''"
| "CreditLearningSignalType_str Signal_HIGH_UTILIZATION = ''high_utilization''"
| "CreditLearningSignalType_str Signal_DEFAULT_EVENT = ''default_event''"
| "CreditLearningSignalType_str Signal_ADMIN_FREEZE = ''admin_freeze''"

datatype CreditLearningCycleType =
    Cycle_MANUAL
  | Cycle_HEALTHY
  | Cycle_RISKY
  | Cycle_RECOVERY

fun CreditLearningCycleType_str :: "CreditLearningCycleType \<Rightarrow> string" where
  "CreditLearningCycleType_str Cycle_MANUAL = ''manual''"
| "CreditLearningCycleType_str Cycle_HEALTHY = ''healthy''"
| "CreditLearningCycleType_str Cycle_RISKY = ''risky''"
| "CreditLearningCycleType_str Cycle_RECOVERY = ''recovery''"

subsection \<open>state-machines.js\<close>

fun SubjectTransitions :: "SubjectStatus \<Rightarrow> SubjectStatus list" where
  "SubjectTransitions Subject_PENDING = [Subject_ACTIVE, Subject_SUSPENDED, Subject_CLOSED]"
| "SubjectTransitions Subject_ACTIVE = [Subject_SUSPENDED, Subject_CLOSED]"
| "SubjectTransitions Subject_SUSPENDED = [Subject_ACTIVE, Subject_CLOSED]"
| "SubjectTransitions Subject_CLOSED = []"

fun LockboxTransitions :: "LockboxStatus \<Rightarrow> LockboxStatus list" where
  "LockboxTransitions Lockbox_CREATED = [Lockbox_ACTIVE, Lockbox_CLOSED]"
| "LockboxTransitions Lockbox_ACTIVE = [Lockbox_FROZEN, Lockbox_CLOSED]"
| "LockboxTransitions Lockbox_FROZEN = [Lockbox_ACTIVE, Lockbox_CLOSED]"
| "LockboxTransitions Lockbox_CLOSED = []"

fun MandateTransitions :: "MandateStatus \<Rightarrow> MandateStatus list" where
  "MandateTransitions Mandate_DRAFT = [Mandate_ACTIVE, Mandate_REVOKED, Mandate_EXPIRED]"
| "MandateTransitions Mandate_ACTIVE = [Mandate_SUSPENDED, Mandate_REVOKED, Mandate_EXPIRED]"
| "MandateTransitions Mandate_SUSPENDED = [Mandate_ACTIVE, Mandate_REVOKED, Mandate_EXPIRED]"
| "MandateTransitions Mandate_REVOKED = []"
| "MandateTransitions Mandate_EXPIRED = []"

fun PluginTransitions :: "PluginStatus \<Rightarrow> PluginStatus list" where
  "PluginTransitions Plugin_PENDING = [Plugin_ACTIVE, Plugin_REVOKED]"
| "PluginTransitions Plugin_ACTIVE = [Plugin_SUSPENDED, Plugin_REVOKED]"
| "PluginTransitions Plugin_SUSPENDED = [Plugin_ACTIVE, Plugin_REVOKED]"
| "PluginTransitions Plugin_REVOKED = []"

fun ObligationTransitions :: "ObligationStatus \<Rightarrow> ObligationStatus list" where
  "ObligationTransitions Obl_CREATED = [Obl_ACTIVE, Obl_CLOSED]"
| "ObligationTransitions Obl_ACTIVE =
     [Obl_PARTIALLY_REPAID, Obl_FULLY_REPAID, Obl_DELINQUENT, Obl_OVERDUE,
      Obl_DEFAULTED, Obl_RESTRUCTURED, Obl_REPURCHASED, Obl_WRITTEN_OFF,
      Obl_CLOSED]"
| "ObligationTransitions Obl_PARTIALLY_REPAID =
     [Obl_FULLY_REPAID, Obl_DELINQUENT, Obl_OVERDUE, Obl_DEFAULTED,
      Obl_RESTRUCTURED, Obl_REPURCHASED, Obl_WRITTEN_OFF, Obl_CLOSED]"
| "ObligationTransitions Obl_FULLY_REPAID = [Obl_CLOSED]"
| "ObligationTransitions Obl_OVERDUE = [Obl_PARTIALLY_REPAID, Obl_FULLY_REPAID, Obl_DEFAULTED, Obl_CLOSED]"
| "ObligationTransitions Obl_DELINQUENT =
     [Obl_ACTIVE, Obl_PARTIALLY_REPAID, Obl_FULLY_REPAID, Obl_DEFAULTED,
      Obl_RESTRUCTURED, Obl_REPURCHASED, Obl_WRITTEN_OFF, Obl_CLOSED]"
| "ObligationTransitions Obl_DEFAULTED =
     [Obl_ACTIVE, Obl_PARTIALLY_REPAID, Obl_FULLY_REPAID, Obl_RESTRUCTURED,
      Obl_REPURCHASED, Obl_WRITTEN_OFF, Obl_CLOSED]"
| "ObligationTransitions Obl_RESTRUCTURED =
     [Obl_PARTIALLY_REPAID, Obl_FULLY_REPAID, Obl_DELINQUENT, Obl_DEFAULTED,
      Obl_REPURCHASED, Obl_WRITTEN_OFF, Obl_CLOSED]"
| "ObligationTransitions Obl_REPURCHASED =
     [Obl_PARTIALLY_REPAID, Obl_FULLY_REPAID, Obl_DELINQUENT, Obl_DEFAULTED,
      Obl_RESTRUCTURED, Obl_WRITTEN_OFF, Obl_CLOSED]"
| "ObligationTransitions Obl_WRITTEN_OFF = [Obl_CLOSED]"
| "ObligationTransitions Obl_CLOSED = []"

fun SpendRequestTransitions :: "SpendRequestStatus \<Rightarrow> SpendRequestStatus list" where
  "SpendRequestTransitions Spend_REQUESTED = [Spend_APPROVED, Spend_REJECTED, Spend_FAILED]"
| "SpendRequestTransitions Spend_APPROVED = [Spend_SETTLED, Spend_FAILED]"
| "SpendRequestTransitions Spend_REJECTED = []"
| "SpendRequestTransitions Spend_SETTLED = []"
| "SpendRequestTransitions Spend_FAILED = []"

fun TransferIntentTransitions :: "TransferIntentStatus \<Rightarrow> TransferIntentStatus list" where
  "TransferIntentTransitions Transfer_CREATED = [Transfer_QUOTED, Transfer_EXPIRED]"
| "TransferIntentTransitions Transfer_QUOTED = [Transfer_AUTHORIZED, Transfer_FAILED, Transfer_EXPIRED]"
| "TransferIntentTransitions Transfer_AUTHORIZED = [Transfer_SUBMITTED, Transfer_FAILED, Transfer_EXPIRED]"
| "TransferIntentTransitions Transfer_SUBMITTED = [Transfer_PENDING, Transfer_SETTLED, Transfer_FAILED]"
| "TransferIntentTransitions Transfer_PENDING = [Transfer_PENDING, Transfer_SETTLED, Transfer_FAILED]"
| "TransferIntentTransitions Transfer_SETTLED = [Transfer_REVERSED]"
| "TransferIntentTransitions Transfer_FAILED = []"
| "TransferIntentTransitions Transfer_REVERSED = []"
| "TransferIntentTransitions Transfer_EXPIRED = []"

definition assertTransition ::
  "string \<Rightarrow> ('a \<Rightarrow> string) \<Rightarrow> ('a \<Rightarrow> 'a list) \<Rightarrow> 'a \<Rightarrow> 'a \<Rightarrow> unit res" where
  "assertTransition machineName str transitions from to =
     (if to \<notin> set (transitions from)
      then fail ''invalid_state_transition''
        (machineName @ '' cannot transition from '' @ str from @ '' to '' @ str to)
      else Inr ())"

lemma assertTransition_Inr [simp]:
  "assertTransition n str T a b = Inr x \<longleftrightarrow> b \<in> set (T a)"
  by (simp add: assertTransition_def)

lemma case_assertTransition:
  "(case assertTransition n str T a b of Inl e \<Rightarrow> E e | Inr x \<Rightarrow> Q) =
    (if b \<in> set (T a) then Q else E (DomainError ''invalid_state_transition''
        (n @ '' cannot transition from '' @ str a @ '' to '' @ str b)))"
  by (simp add: assertTransition_def)

subsection \<open>What a transition table promises\<close>

text \<open>One accepted status change, and any sequence of them.\<close>

definition moves :: "('a \<Rightarrow> 'a list) \<Rightarrow> 'a \<Rightarrow> 'a \<Rightarrow> bool" where
  "moves T a b \<longleftrightarrow> b \<in> set (T a)"

abbreviation evolves :: "('a \<Rightarrow> 'a list) \<Rightarrow> 'a \<Rightarrow> 'a \<Rightarrow> bool" where
  "evolves T \<equiv> rtranclp (moves T)"

locale lifecycle =
  fixes T :: "'a \<Rightarrow> 'a list"
    and final :: "'a \<Rightarrow> bool"
  assumes final_stuck: "final a \<Longrightarrow> T a = []"
    and can_end: "\<not> final a \<Longrightarrow> \<exists>b\<in>set (T a). final b"
begin

lemma final_stays: "evolves T a b \<Longrightarrow> final a \<Longrightarrow> b = a"
  by (induction rule: rtranclp_induct) (auto simp: moves_def final_stuck)

lemma end_reachable: "\<exists>b. evolves T a b \<and> final b"
proof (cases "final a")
  case True
  then show ?thesis by blast
next
  case False
  then obtain b where "moves T a b" "final b" using can_end by (auto simp: moves_def)
  then show ?thesis by blast
qed

lemma final_iff_stuck: "final a \<longleftrightarrow> T a = []"
  using final_stuck can_end by fastforce

end

interpretation subject_lifecycle: lifecycle SubjectTransitions "\<lambda>a. a = Subject_CLOSED"
proof unfold_locales
  fix a show "a \<noteq> Subject_CLOSED \<Longrightarrow> \<exists>b\<in>set (SubjectTransitions a). b = Subject_CLOSED"
    by (cases a) auto
qed simp

interpretation lockbox_lifecycle: lifecycle LockboxTransitions "\<lambda>a. a = Lockbox_CLOSED"
proof unfold_locales
  fix a show "a \<noteq> Lockbox_CLOSED \<Longrightarrow> \<exists>b\<in>set (LockboxTransitions a). b = Lockbox_CLOSED"
    by (cases a) auto
qed simp

interpretation mandate_lifecycle: lifecycle MandateTransitions "\<lambda>a. a \<in> {Mandate_REVOKED, Mandate_EXPIRED}"
proof unfold_locales
  fix a
  show "a \<notin> {Mandate_REVOKED, Mandate_EXPIRED} \<Longrightarrow>
      \<exists>b\<in>set (MandateTransitions a). b \<in> {Mandate_REVOKED, Mandate_EXPIRED}"
    by (cases a) auto
qed auto

interpretation plugin_lifecycle: lifecycle PluginTransitions "\<lambda>a. a = Plugin_REVOKED"
proof unfold_locales
  fix a show "a \<noteq> Plugin_REVOKED \<Longrightarrow> \<exists>b\<in>set (PluginTransitions a). b = Plugin_REVOKED"
    by (cases a) auto
qed simp

interpretation obligation_lifecycle: lifecycle ObligationTransitions "\<lambda>a. a = Obl_CLOSED"
proof unfold_locales
  fix a show "a \<noteq> Obl_CLOSED \<Longrightarrow> \<exists>b\<in>set (ObligationTransitions a). b = Obl_CLOSED"
    by (cases a) auto
qed simp

interpretation spend_lifecycle: lifecycle SpendRequestTransitions
  "\<lambda>a. a \<in> {Spend_REJECTED, Spend_SETTLED, Spend_FAILED}"
proof unfold_locales
  fix a
  show "a \<notin> {Spend_REJECTED, Spend_SETTLED, Spend_FAILED} \<Longrightarrow>
      \<exists>b\<in>set (SpendRequestTransitions a). b \<in> {Spend_REJECTED, Spend_SETTLED, Spend_FAILED}"
    by (cases a) auto
qed auto

interpretation transfer_lifecycle: lifecycle TransferIntentTransitions
  "\<lambda>a. a \<in> {Transfer_FAILED, Transfer_REVERSED, Transfer_EXPIRED}"
proof unfold_locales
  fix a
  show "a \<notin> {Transfer_FAILED, Transfer_REVERSED, Transfer_EXPIRED} \<Longrightarrow>
      \<exists>b\<in>set (TransferIntentTransitions a). b \<in> {Transfer_FAILED, Transfer_REVERSED, Transfer_EXPIRED}"
    by (cases a) auto
qed auto

end
