(* ===== verification/Event_Store.thy ===== *)
theory Event_Store
  imports Lifecycles
begin

text \<open>
  \<open>modules/event-audit/src/event-store.js\<close> with the constructors it stores
  (\<open>createCreditEvent\<close> and \<open>createAuditEvent\<close> of \<open>models.js\<close>, \<open>createEvidenceEnvelope\<close> of
  \<open>protocol-v2.js\<close>): the append-only log that every service writes to. The interface the services
  rely on is the relation \<open>log_ext\<close>: an append, whether it returns or throws, touches the log and
  the two runtime counters only, and only ever extends the log.
\<close>

subsection \<open>Records\<close>

record credit_event =
  ce_eventId :: string
  ce_eventType :: string
  ce_subjectId :: js
  ce_obligationId :: js
  ce_chainId :: js
  ce_txHash :: js
  ce_blockNumber :: js
  ce_finalityStatus :: FinalityStatus
  ce_payloadHash :: string
  ce_payload :: js
  ce_occurredAt :: int
  ce_schemaVersion :: string

record audit_event =
  ae_auditEventId :: string
  ae_actorId :: js
  ae_actionType :: string
  ae_targetType :: string
  ae_targetId :: string
  ae_reason :: js
  ae_payloadHash :: string
  ae_payload :: js
  ae_occurredAt :: int
  ae_schemaVersion :: string

record evidence_envelope =
  ev_evidenceId :: string
  ev_evidenceHash :: string
  ev_eventId :: string
  ev_eventType :: string
  ev_aggregateType :: string
  ev_aggregateId :: string
  ev_aggregateVersion :: int
  ev_correlationId :: string
  ev_idempotencyKey :: string
  ev_actorRef :: string
  ev_sourceSystem :: string
  ev_sourceFinality :: FinalityStatus
  ev_payloadHash :: string
  ev_optionalReferences :: "(string \<times> js) list"
  ev_occurredAt :: int
  ev_recordedAt :: int
  ev_payload :: js
  ev_schemaVersion :: string

record es_world = host +
  creditEvents :: "credit_event list"
  auditEvents :: "audit_event list"
  seenCreditIds :: "string list"
  seenAuditIds :: "string list"
  evidenceEnvelopes :: "evidence_envelope list"
  aggregateVersions :: "int jsmap"

subsection \<open>createCreditEvent and createAuditEvent\<close>

text \<open>The named parameters of \<open>createCreditEvent\<close>.\<close>

record credit_event_args =
  ca_eventType :: string
  ca_subjectId :: js
  ca_obligationId :: js
  ca_payload :: js
  ca_chainId :: js
  ca_txHash :: js
  ca_blockNumber :: js
  ca_finalityStatus :: FinalityStatus
  ca_now :: "int option"

text \<open>A call that names only the event type, the subject and the payload.\<close>

definition eventArgs :: "string \<Rightarrow> js \<Rightarrow> js \<Rightarrow> credit_event_args" where
  "eventArgs ty subj payload =
     \<lparr>ca_eventType = ty, ca_subjectId = subj, ca_obligationId = JUndefined, ca_payload = payload,
      ca_chainId = JUndefined, ca_txHash = JUndefined, ca_blockNumber = JUndefined,
      ca_finalityStatus = Finality_FINALIZED, ca_now = None\<rparr>"

definition createCreditEvent :: "credit_event_args \<Rightarrow> ('z host_scheme, credit_event) M" where
  "createCreditEvent a =
     bindM (nowOr (ca_now a)) (\<lambda>now.
     bindM (createOperationalId ''credit_event'') (\<lambda>eventId.
     bindM (hashM ''event_payload'' (js_coalesce (ca_payload a) (JObj []))) (\<lambda>payloadHash.
     returnM
       \<lparr>ce_eventId = eventId, ce_eventType = ca_eventType a, ce_subjectId = ca_subjectId a,
        ce_obligationId = ca_obligationId a, ce_chainId = ca_chainId a, ce_txHash = ca_txHash a,
        ce_blockNumber = ca_blockNumber a, ce_finalityStatus = ca_finalityStatus a,
        ce_payloadHash = payloadHash, ce_payload = ca_payload a, ce_occurredAt = now,
        ce_schemaVersion = ''event.v1''\<rparr>)))"

definition createAuditEvent ::
  "js \<Rightarrow> string \<Rightarrow> string \<Rightarrow> string \<Rightarrow> js \<Rightarrow> js \<Rightarrow> int option \<Rightarrow> ('z host_scheme, audit_event) M" where
  "createAuditEvent actorId actionType targetType targetId reason payload nowArg =
     bindM (nowOr nowArg) (\<lambda>now.
     bindM (createOperationalId ''audit_event'') (\<lambda>auditEventId.
     bindM (hashM ''audit_payload'' payload) (\<lambda>payloadHash.
     returnM
       \<lparr>ae_auditEventId = auditEventId, ae_actorId = actorId, ae_actionType = actionType,
        ae_targetType = targetType, ae_targetId = targetId, ae_reason = reason,
        ae_payloadHash = payloadHash, ae_payload = payload, ae_occurredAt = now,
        ae_schemaVersion = ''audit_event.v1''\<rparr>)))"

subsection \<open>createEvidenceEnvelope\<close>

record evidence_args =
  va_eventId :: string
  va_eventType :: string
  va_aggregateType :: string
  va_aggregateId :: string
  va_aggregateVersion :: int
  va_subjectId :: js
  va_obligationId :: js
  va_causationId :: js
  va_correlationId :: js
  va_idempotencyKey :: js
  va_actorRef :: js
  va_sourceSystem :: string
  va_sourceFinality :: FinalityStatus
  va_payload :: js
  va_occurredAt :: int
  va_recordedAt :: int

definition MAX_SAFE_INTEGER :: int where
  "MAX_SAFE_INTEGER = 9007199254740991"

text \<open>The references that are present must be non-empty strings.\<close>

fun optionalReferences :: "(string \<times> js) list \<Rightarrow> (string \<times> js) list res" where
  "optionalReferences [] = Inr []"
| "optionalReferences ((name, v) # rest) =
     (if v = JUndefined then optionalReferences rest
      else bindR (assertNonEmptyString name v) (\<lambda>x.
           bindR (optionalReferences rest) (\<lambda>refs. Inr ((name, JStr x) # refs))))"

definition evidence_core :: "runtime \<Rightarrow> evidence_args \<Rightarrow> string \<Rightarrow> string \<Rightarrow> string \<Rightarrow> string \<Rightarrow>
    (string \<times> js) list \<Rightarrow> js" where
  "evidence_core r a actorRef correlationId idempotencyKey payloadHash refs =
     JObj ([(''eventId'', JStr (va_eventId a)),
            (''eventType'', JStr (va_eventType a)),
            (''aggregateType'', JStr (va_aggregateType a)),
            (''aggregateId'', JStr (va_aggregateId a)),
            (''aggregateVersion'', JNum (va_aggregateVersion a)),
            (''correlationId'', JStr correlationId),
            (''idempotencyKey'', JStr idempotencyKey),
            (''actorRef'', JStr actorRef),
            (''sourceSystem'', JStr (va_sourceSystem a)),
            (''sourceFinality'', JStr (FinalityStatus_str (va_sourceFinality a))),
            (''payloadHash'', JStr payloadHash)] @ refs @
           [(''attestationRefs'', JArr []),
            (''occurredAt'', JStr (rt_iso r (va_occurredAt a))),
            (''recordedAt'', JStr (rt_iso r (va_recordedAt a)))])"

definition createEvidenceEnvelope :: "runtime \<Rightarrow> evidence_args \<Rightarrow> evidence_envelope res" where
  "createEvidenceEnvelope r a =
     bindR (assertNonEmptyString ''eventId'' (JStr (va_eventId a))) (\<lambda>_.
     bindR (assertNonEmptyString ''eventType'' (JStr (va_eventType a))) (\<lambda>_.
     bindR (assertNonEmptyString ''aggregateType'' (JStr (va_aggregateType a))) (\<lambda>_.
     bindR (assertNonEmptyString ''aggregateId'' (JStr (va_aggregateId a))) (\<lambda>_.
     bindR (assertNonEmptyString ''actorRef'' (va_actorRef a)) (\<lambda>actorRef.
     bindR (assertNonEmptyString ''sourceSystem'' (JStr (va_sourceSystem a))) (\<lambda>_.
     bindR (guardR (MAX_SAFE_INTEGER < va_aggregateVersion a \<or> va_aggregateVersion a < 1)
       ''invalid_aggregate_version'' ''aggregateVersion must be a positive safe integer'') (\<lambda>_.
     bindR (assertNoRawPiiReference (va_payload a)) (\<lambda>_.
     bindR (assertNonEmptyString ''correlationId''
       (js_coalesce (va_correlationId a) (JStr (va_eventId a)))) (\<lambda>correlationId.
     bindR (assertNonEmptyString ''idempotencyKey''
       (js_coalesce (va_idempotencyKey a) (JStr (va_eventId a)))) (\<lambda>idempotencyKey.
     let payloadHash = hashId r ''evidence_payload'' (va_payload a) in
     bindR (optionalReferences
       [(''subjectId'', va_subjectId a), (''obligationId'', va_obligationId a),
        (''causationId'', va_causationId a), (''payloadRef'', JUndefined)]) (\<lambda>refs.
     Inr
       \<lparr>ev_evidenceId = va_eventId a,
        ev_evidenceHash = hashId r ''evidence_envelope''
          (evidence_core r a actorRef correlationId idempotencyKey payloadHash refs),
        ev_eventId = va_eventId a, ev_eventType = va_eventType a,
        ev_aggregateType = va_aggregateType a, ev_aggregateId = va_aggregateId a,
        ev_aggregateVersion = va_aggregateVersion a, ev_correlationId = correlationId,
        ev_idempotencyKey = idempotencyKey, ev_actorRef = actorRef,
        ev_sourceSystem = va_sourceSystem a, ev_sourceFinality = va_sourceFinality a,
        ev_payloadHash = payloadHash, ev_optionalReferences = refs,
        ev_occurredAt = va_occurredAt a, ev_recordedAt = va_recordedAt a,
        ev_payload = va_payload a, ev_schemaVersion = ''evidence_event.v2''\<rparr>)))))))))))"

subsection \<open>EventStore\<close>

definition nonempty_js_string :: "js \<Rightarrow> bool" where
  "nonempty_js_string v = (case v of JStr x \<Rightarrow> x \<noteq> [] | _ \<Rightarrow> False)"

fun js_string :: "js \<Rightarrow> string" where
  "js_string (JStr x) = x"
| "js_string _ = []"

definition aggregateForCreditEvent :: "credit_event \<Rightarrow> string \<times> string" where
  "aggregateForCreditEvent event =
     (let p = ce_payload event;
          candidates =
            [(''transfer_intent'', js_get ''transferIntentId'' p),
             (''mandate'', js_get ''mandateId'' p),
             (''plugin'', js_get ''pluginId'' p),
             (''obligation'', ce_obligationId event),
             (''lockbox'', js_get ''lockboxId'' p),
             (''credit_line'', js_get ''creditLineId'' p),
             (''spend_request'', js_get ''spendRequestId'' p),
             (''ledger_transaction'', js_get ''ledgerTransactionId'' p),
             (''subject'', ce_subjectId event)]
      in case List.find (\<lambda>(_, i). nonempty_js_string i) candidates of
           Some (ty, i) \<Rightarrow> (ty, js_string i)
         | None \<Rightarrow> (''protocol'', ce_eventType event))"

definition aggregateKey :: "string \<Rightarrow> string \<Rightarrow> string" where
  "aggregateKey ty i = ty @ [CHR 0x00] @ i"

definition currentVersion :: "'z es_world_scheme \<Rightarrow> string \<Rightarrow> int" where
  "currentVersion s key = (case jmGet (aggregateVersions s) key of None \<Rightarrow> 0 | Some v \<Rightarrow> v)"

definition buildEvidence :: "evidence_args \<Rightarrow> ('z es_world_scheme, evidence_envelope) M" where
  "buildEvidence input =
     (let key = aggregateKey (va_aggregateType input) (va_aggregateId input) in
      bindM (getsM (\<lambda>s. currentVersion s key + 1)) (\<lambda>aggregateVersion.
      bindM newDate (\<lambda>recordedAt.
      bindM (getsM rt) (\<lambda>r.
      bindM (liftR (createEvidenceEnvelope r
        (input\<lparr>va_aggregateVersion := aggregateVersion, va_sourceSystem := ''ipo.one.demo'',
               va_recordedAt := recordedAt\<rparr>))) (\<lambda>envelope.
      thenM (modifyM (aggregateVersions_update (jmSet key aggregateVersion)))
      (returnM envelope))))))"

definition appendCreditEvent :: "credit_event \<Rightarrow> ('z es_world_scheme, credit_event) M" where
  "appendCreditEvent event =
     bindM (getsM seenCreditIds) (\<lambda>seen.
     thenM (throwIf (ce_eventId event \<in> set seen) ''duplicate_credit_event''
       ''credit event ids are append-only and unique'')
     (let (aggregateType, aggregateId) = aggregateForCreditEvent event; p = ce_payload event in
      bindM (buildEvidence
        \<lparr>va_eventId = ce_eventId event, va_eventType = ce_eventType event,
         va_aggregateType = aggregateType, va_aggregateId = aggregateId, va_aggregateVersion = 0,
         va_subjectId = ce_subjectId event, va_obligationId = ce_obligationId event,
         va_causationId = js_get ''causationId'' p,
         va_correlationId = js_coalesce (js_get ''correlationId'' p) (ce_subjectId event),
         va_idempotencyKey = js_get ''idempotencyKey'' p,
         va_actorRef = js_coalesce (js_get ''actorId'' p) (JStr ''system:ipo.one.demo''),
         va_sourceSystem = [], va_sourceFinality = ce_finalityStatus event,
         va_payload = js_coalesce p (JObj []), va_occurredAt = ce_occurredAt event,
         va_recordedAt = 0\<rparr>) (\<lambda>envelope.
      thenM (modifyM (\<lambda>s. s
        \<lparr>seenCreditIds := seenCreditIds s @ [ce_eventId event],
         creditEvents := creditEvents s @ [event],
         evidenceEnvelopes := evidenceEnvelopes s @ [envelope]\<rparr>))
      (returnM event))))"

text \<open>The spread \<open>{ reason, ...payload }\<close>.\<close>

fun js_entries :: "js \<Rightarrow> (string \<times> js) list" where
  "js_entries (JObj kvs) = kvs"
| "js_entries _ = []"

definition js_spread :: "(string \<times> js) list \<Rightarrow> js \<Rightarrow> js" where
  "js_spread own payload = JObj (fold (\<lambda>(k, v). jmSet k v) (js_entries payload) own)"

definition appendAuditEvent :: "audit_event \<Rightarrow> ('z es_world_scheme, audit_event) M" where
  "appendAuditEvent event =
     bindM (getsM seenAuditIds) (\<lambda>seen.
     thenM (throwIf (ae_auditEventId event \<in> set seen) ''duplicate_audit_event''
       ''audit event ids are append-only and unique'')
     (bindM (buildEvidence
        \<lparr>va_eventId = ae_auditEventId event, va_eventType = ae_actionType event,
         va_aggregateType = ae_targetType event, va_aggregateId = ae_targetId event,
         va_aggregateVersion = 0, va_subjectId = js_get ''subjectId'' (ae_payload event),
         va_obligationId = JUndefined, va_causationId = JUndefined,
         va_correlationId = js_get ''subjectId'' (ae_payload event),
         va_idempotencyKey = JUndefined, va_actorRef = ae_actorId event,
         va_sourceSystem = [], va_sourceFinality = Finality_FINALIZED,
         va_payload = js_spread [(''reason'', ae_reason event)] (ae_payload event),
         va_occurredAt = ae_occurredAt event, va_recordedAt = 0\<rparr>) (\<lambda>envelope.
      thenM (modifyM (\<lambda>s. s
        \<lparr>seenAuditIds := seenAuditIds s @ [ae_auditEventId event],
         auditEvents := auditEvents s @ [event],
         evidenceEnvelopes := evidenceEnvelopes s @ [envelope]\<rparr>))
      (returnM event))))"

text \<open>\<open>this.eventStore.appendCreditEvent(createCreditEvent({...}))\<close>, and the same for audits.\<close>

definition emitCreditEvent :: "credit_event_args \<Rightarrow> ('z es_world_scheme, unit) M" where
  "emitCreditEvent a =
     bindM (createCreditEvent a) (\<lambda>e. thenM (appendCreditEvent e) (returnM ()))"

definition emitAuditEvent ::
  "js \<Rightarrow> string \<Rightarrow> string \<Rightarrow> string \<Rightarrow> js \<Rightarrow> js \<Rightarrow> int option \<Rightarrow> ('z es_world_scheme, unit) M" where
  "emitAuditEvent actorId actionType targetType targetId reason payload now =
     bindM (createAuditEvent actorId actionType targetType targetId reason payload now)
       (\<lambda>e. thenM (appendAuditEvent e) (returnM ()))"

definition credit_event_field :: "runtime \<Rightarrow> credit_event \<Rightarrow> string \<Rightarrow> js" where
  "credit_event_field r e key =
     (case map_of
        [(''eventId'', JStr (ce_eventId e)), (''eventType'', JStr (ce_eventType e)),
         (''subjectId'', ce_subjectId e), (''obligationId'', ce_obligationId e),
         (''chainId'', ce_chainId e), (''txHash'', ce_txHash e),
         (''blockNumber'', ce_blockNumber e),
         (''finalityStatus'', JStr (FinalityStatus_str (ce_finalityStatus e))),
         (''payloadHash'', JStr (ce_payloadHash e)), (''payload'', ce_payload e),
         (''occurredAt'', JStr (rt_iso r (ce_occurredAt e))),
         (''schemaVersion'', JStr (ce_schemaVersion e))] key of
        Some v \<Rightarrow> v | None \<Rightarrow> JUndefined)"

definition listCreditEvents :: "(string \<times> js) list \<Rightarrow> 'z es_world_scheme \<Rightarrow> credit_event list" where
  "listCreditEvents filt s = filter (matchesFilter (credit_event_field (rt s)) filt) (creditEvents s)"

definition audit_event_field :: "runtime \<Rightarrow> audit_event \<Rightarrow> string \<Rightarrow> js" where
  "audit_event_field r e key =
     (case map_of
        [(''auditEventId'', JStr (ae_auditEventId e)), (''actorId'', ae_actorId e),
         (''actionType'', JStr (ae_actionType e)), (''targetType'', JStr (ae_targetType e)),
         (''targetId'', JStr (ae_targetId e)), (''reason'', ae_reason e),
         (''payloadHash'', JStr (ae_payloadHash e)), (''payload'', ae_payload e),
         (''occurredAt'', JStr (rt_iso r (ae_occurredAt e))),
         (''schemaVersion'', JStr (ae_schemaVersion e))] key of
        Some v \<Rightarrow> v | None \<Rightarrow> JUndefined)"

definition listAuditEvents :: "(string \<times> js) list \<Rightarrow> 'z es_world_scheme \<Rightarrow> audit_event list" where
  "listAuditEvents filt s = filter (matchesFilter (audit_event_field (rt s)) filt) (auditEvents s)"

definition evidence_field :: "runtime \<Rightarrow> evidence_envelope \<Rightarrow> string \<Rightarrow> js" where
  "evidence_field r v key =
     (case map_of
        ([(''evidenceId'', JStr (ev_evidenceId v)), (''evidenceHash'', JStr (ev_evidenceHash v)),
          (''eventId'', JStr (ev_eventId v)), (''eventType'', JStr (ev_eventType v)),
          (''aggregateType'', JStr (ev_aggregateType v)), (''aggregateId'', JStr (ev_aggregateId v)),
          (''aggregateVersion'', JNum (ev_aggregateVersion v)),
          (''correlationId'', JStr (ev_correlationId v)),
          (''idempotencyKey'', JStr (ev_idempotencyKey v)), (''actorRef'', JStr (ev_actorRef v)),
          (''sourceSystem'', JStr (ev_sourceSystem v)),
          (''sourceFinality'', JStr (FinalityStatus_str (ev_sourceFinality v))),
          (''payloadHash'', JStr (ev_payloadHash v)), (''payload'', ev_payload v),
          (''occurredAt'', JStr (rt_iso r (ev_occurredAt v))), (''recordedAt'', JStr (rt_iso r (ev_recordedAt v))),
          (''schemaVersion'', JStr (ev_schemaVersion v))] @ ev_optionalReferences v) key of
        Some v \<Rightarrow> v | None \<Rightarrow> JUndefined)"

definition listEvidenceEnvelopes :: "(string \<times> js) list \<Rightarrow> 'z es_world_scheme \<Rightarrow> evidence_envelope list" where
  "listEvidenceEnvelopes filt s = filter (matchesFilter (evidence_field (rt s)) filt) (evidenceEnvelopes s)"

datatype timeline_item = CreditItem credit_event | AuditItem audit_event

fun item_occurredAt :: "timeline_item \<Rightarrow> int" where
  "item_occurredAt (CreditItem e) = ce_occurredAt e"
| "item_occurredAt (AuditItem e) = ae_occurredAt e"

definition timeline :: "string \<Rightarrow> 'z es_world_scheme \<Rightarrow> timeline_item list" where
  "timeline subjectId s =
     (let credit = listCreditEvents [(''subjectId'', JStr subjectId)] s;
          audit = filter (\<lambda>e. js_get ''subjectId'' (ae_payload e) = JStr subjectId \<or>
                             ae_targetId e = subjectId) (listAuditEvents [] s)
      in js_sort (\<lambda>a b. rt_localeCompare (rt s)
             (rt_iso (rt s) (item_occurredAt a)) (rt_iso (rt s) (item_occurredAt b)))
           (map CreditItem credit @ map AuditItem audit))"

subsection \<open>The interface of the log\<close>

text \<open>
  What a service may assume of an append: the services' own state (\<open>es_world.more\<close>) and the runtime
  are untouched, the counters do not decrease, and every list of the log is extended, never rewritten.
\<close>

definition log_ext :: "'z es_world_scheme \<Rightarrow> 'z es_world_scheme \<Rightarrow> bool" where
  "log_ext s t \<longleftrightarrow>
     es_world.more t = es_world.more s \<and> rt t = rt s \<and>
     uuidCount s \<le> uuidCount t \<and> clockCount s \<le> clockCount t \<and>
     (\<exists>xs. creditEvents t = creditEvents s @ xs) \<and>
     (\<exists>ys. auditEvents t = auditEvents s @ ys) \<and>
     (\<exists>zs. evidenceEnvelopes t = evidenceEnvelopes s @ zs)"

lemma log_ext_refl [simp]: "log_ext s s"
  by (simp add: log_ext_def)

lemma log_ext_trans: "log_ext s t \<Longrightarrow> log_ext t u \<Longrightarrow> log_ext s u"
  by (auto simp: log_ext_def)

lemma log_ext_more: "log_ext s t \<Longrightarrow> es_world.more t = es_world.more s"
  by (simp add: log_ext_def)

lemma log_ext_rt: "log_ext s t \<Longrightarrow> rt t = rt s"
  by (simp add: log_ext_def)

lemma log_ext_uuid: "log_ext s t \<Longrightarrow> uuidCount s \<le> uuidCount t"
  by (simp add: log_ext_def)

lemma log_ext_issued: "log_ext s t \<Longrightarrow> issued s p \<subseteq> issued t p"
  by (rule issued_mono) (auto simp: log_ext_def)

lemma log_ext_counters [simp]:
  "log_ext s (s\<lparr>clockCount := Suc (clockCount s)\<rparr>)"
  "log_ext s (s\<lparr>uuidCount := Suc (uuidCount s)\<rparr>)"
  by (auto simp: log_ext_def)

text \<open>A predicate the log cannot disturb.\<close>

definition log_stable :: "('z es_world_scheme \<Rightarrow> bool) \<Rightarrow> bool" where
  "log_stable P \<longleftrightarrow> (\<forall>s t. log_ext s t \<longrightarrow> P s \<longrightarrow> P t)"

lemma log_stableD: "log_stable P \<Longrightarrow> log_ext s t \<Longrightarrow> P s \<Longrightarrow> P t"
  unfolding log_stable_def by blast

text \<open>The exact effect of building an envelope.\<close>

lemma createEvidenceEnvelope_Inr:
  assumes "createEvidenceEnvelope r a = Inr env"
  shows "ev_aggregateVersion env = va_aggregateVersion a \<and> ev_aggregateType env = va_aggregateType a \<and>
    ev_aggregateId env = va_aggregateId a \<and> ev_eventId env = va_eventId a \<and>
    ev_eventType env = va_eventType a \<and> ev_payload env = va_payload a \<and>
    assertNoRawPiiReference (va_payload a) = Inr () \<and>
    ev_payloadHash env = hashId r ''evidence_payload'' (va_payload a)"
  using assms by (auto simp: createEvidenceEnvelope_def bindR_Inr Let_def)

text \<open>
  One append: on success exactly one event and one envelope are added; on an error the log itself
  is as it was and at most the clock has been read.
\<close>

definition credit_logged :: "credit_event_args \<Rightarrow> 'z es_world_scheme \<Rightarrow> 'z es_world_scheme \<Rightarrow> bool" where
  "credit_logged a s t \<longleftrightarrow> log_ext s t \<and> auditEvents t = auditEvents s \<and>
     (\<exists>e. creditEvents t = creditEvents s @ [e] \<and> ce_eventType e = ca_eventType a \<and>
          ce_subjectId e = ca_subjectId a \<and> ce_payload e = ca_payload a)"

definition log_unchanged :: "'z es_world_scheme \<Rightarrow> 'z es_world_scheme \<Rightarrow> bool" where
  "log_unchanged s t \<longleftrightarrow> log_ext s t \<and> creditEvents t = creditEvents s \<and>
     auditEvents t = auditEvents s \<and> evidenceEnvelopes t = evidenceEnvelopes s"

lemma log_unchanged_ext: "log_unchanged s t \<Longrightarrow> log_ext s t"
  by (simp add: log_unchanged_def)

lemma credit_logged_ext: "credit_logged a s t \<Longrightarrow> log_ext s t"
  by (simp add: credit_logged_def)

lemma wp_emit_exact:
  assumes "\<And>t. credit_logged a s t \<Longrightarrow> Q () t" and "\<And>e t. log_unchanged s t \<Longrightarrow> E e t"
  shows "wp (emitCreditEvent a) Q E s"
proof -
  have "wp (emitCreditEvent a) (\<lambda>_. credit_logged a s) (\<lambda>_. log_unchanged s) s"
    by (auto simp: emitCreditEvent_def createCreditEvent_def appendCreditEvent_def buildEvidence_def
        wp_simps Let_def credit_logged_def log_unchanged_def log_ext_def
        split: option.split sum.split prod.split)
  then show ?thesis by (rule wp_conseq) (use assms in auto)
qed

lemma wp_emitI:
  assumes "\<And>t. log_ext s t \<Longrightarrow> Q () t" and "\<And>e t. log_ext s t \<Longrightarrow> E e t"
  shows "wp (emitCreditEvent a) Q E s"
  by (rule wp_emit_exact) (use assms in \<open>auto dest: credit_logged_ext log_unchanged_ext\<close>)

lemma wp_emitAuditI:
  assumes "\<And>t. log_ext s t \<Longrightarrow> Q () t" and "\<And>e t. log_ext s t \<Longrightarrow> E e t"
  shows "wp (emitAuditEvent a b c d r p n) Q E s"
proof -
  have "wp (emitAuditEvent a b c d r p n) (\<lambda>_. log_ext s) (\<lambda>_. log_ext s) s"
    by (auto simp: emitAuditEvent_def createAuditEvent_def appendAuditEvent_def buildEvidence_def
        wp_simps Let_def log_ext_def split: option.split sum.split prod.split)
  then show ?thesis by (rule wp_conseq) (use assms in auto)
qed

lemma preserves_emit: "log_stable P \<Longrightarrow> preserves P (emitCreditEvent a)"
  by (rule preservesI, rule wp_emitI) (auto intro: log_stableD)

lemma preserves_emitAudit: "log_stable P \<Longrightarrow> preserves P (emitAuditEvent a b c d r p n)"
  by (rule preservesI, rule wp_emitAuditI) (auto intro: log_stableD)

subsection \<open>The invariant of the log\<close>

definition envelope_key :: "evidence_envelope \<Rightarrow> string" where
  "envelope_key env = aggregateKey (ev_aggregateType env) (ev_aggregateId env)"

text \<open>
  Identifiers are unique; each event has its envelope; and within each aggregate the envelopes carry
  the versions \<open>1, 2, \<dots>, n\<close> in order, with \<open>n\<close> the recorded version of the aggregate.
\<close>

definition event_store_inv :: "'z es_world_scheme \<Rightarrow> bool" where
  "event_store_inv s \<longleftrightarrow>
     seenCreditIds s = map ce_eventId (creditEvents s) \<and> distinct (seenCreditIds s) \<and>
     seenAuditIds s = map ae_auditEventId (auditEvents s) \<and> distinct (seenAuditIds s) \<and>
     length (evidenceEnvelopes s) = length (creditEvents s) + length (auditEvents s) \<and>
     (\<forall>key. 0 \<le> currentVersion s key \<and>
        map ev_aggregateVersion (filter (\<lambda>env. envelope_key env = key) (evidenceEnvelopes s)) =
        [1..currentVersion s key])"

lemma upto_snoc: "0 \<le> n \<Longrightarrow> [1..n + 1] = [1..n] @ [n + (1::int)]"
  using upto_rec2 [of 1 "n + 1"] by simp

lemma preserves_appendCreditEvent: "preserves event_store_inv (appendCreditEvent e)"
  by (rule preservesI)
    (auto simp: appendCreditEvent_def buildEvidence_def wp_simps Let_def event_store_inv_def
      currentVersion_def envelope_key_def aggregateKey_def [symmetric] upto_snoc
      dest!: createEvidenceEnvelope_Inr split: sum.split prod.split option.splits)

lemma preserves_appendAuditEvent: "preserves event_store_inv (appendAuditEvent e)"
  by (rule preservesI)
    (auto simp: appendAuditEvent_def buildEvidence_def wp_simps Let_def event_store_inv_def
      currentVersion_def envelope_key_def upto_snoc
      dest!: createEvidenceEnvelope_Inr split: sum.split prod.split option.splits)

lemmas [eval_simps] = emitCreditEvent_def createCreditEvent_def appendCreditEvent_def emitAuditEvent_def
  createAuditEvent_def appendAuditEvent_def buildEvidence_def createEvidenceEnvelope_def
  MAX_SAFE_INTEGER_def eventArgs_def currentVersion_def aggregateForCreditEvent_def
  nonempty_js_string_def aggregateKey_def js_spread_def

end
