(* ===== verification/Ledger.thy ===== *)
theory Ledger
  imports Event_Store
begin

text \<open>
  \<open>modules/ledger/src/ledger-service.js\<close> with \<open>createLedgerAccount\<close>, \<open>createLedgerTransaction\<close> and
  \<open>createLedgerEntry\<close> of \<open>models.js\<close>: the double-entry ledger. Amounts are stored by the code as
  decimal strings and here as the integers they denote. The invariant \<open>ledger_inv\<close> holds after every
  operation, thrown errors included; it implies that every transaction and every asset is balanced.
\<close>

subsection \<open>State\<close>

record ledger_account =
  la_ledgerAccountId :: string
  la_ledgerAccountHash :: string
  la_ownerType :: string
  la_ownerId :: string
  la_assetId :: string
  la_accountType :: LedgerAccountType
  la_normalSide :: LedgerNormalSide
  la_status :: LedgerAccountStatus
  la_openedAt :: int
  la_schemaVersion :: string

record ledger_transaction =
  lt_ledgerTransactionId :: string
  lt_transactionHash :: string
  lt_idempotencyKey :: string
  lt_transactionType :: string
  lt_assetId :: string
  lt_referenceType :: string
  lt_referenceId :: string
  lt_metadata :: js
  lt_metadataHash :: string
  lt_debitTotalMinor :: int
  lt_creditTotalMinor :: int
  lt_entryCount :: nat
  lt_postedAt :: int
  lt_schemaVersion :: string

record ledger_entry =
  le_ledgerEntryId :: string
  le_ledgerTransactionId :: string
  le_ledgerAccountId :: string
  le_direction :: LedgerEntryDirection
  le_amountMinor :: int
  le_sequence :: nat
  le_postedAt :: int
  le_schemaVersion :: string

record ledger_state =
  lg_accounts :: "ledger_account jsmap"
  lg_accountIdsByNaturalKey :: "string jsmap"
  lg_transactions :: "ledger_transaction jsmap"
  lg_transactionIdsByIdempotencyKey :: "string jsmap"
  lg_entries :: "ledger_entry list"

record ledger_world = es_world +
  ledger :: ledger_state

definition ledger_empty :: ledger_state where
  "ledger_empty = \<lparr>lg_accounts = [], lg_accountIdsByNaturalKey = [], lg_transactions = [],
     lg_transactionIdsByIdempotencyKey = [], lg_entries = []\<rparr>"

subsection \<open>Accounts\<close>

definition createLedgerAccount ::
  "string \<Rightarrow> string \<Rightarrow> string \<Rightarrow> LedgerAccountType \<Rightarrow> LedgerNormalSide \<Rightarrow> int \<Rightarrow>
   ('z host_scheme, ledger_account) M" where
  "createLedgerAccount ownerType ownerId assetId accountType normalSide now =
     bindM (createOperationalId ''ledger_account'') (\<lambda>ledgerAccountId.
     bindM (hashM ''ledger_account'' (JObj
       [(''ownerType'', JStr ownerType), (''ownerId'', JStr ownerId), (''assetId'', JStr assetId),
        (''accountType'', JStr (LedgerAccountType_str accountType))])) (\<lambda>ledgerAccountHash.
     returnM
       \<lparr>la_ledgerAccountId = ledgerAccountId, la_ledgerAccountHash = ledgerAccountHash,
        la_ownerType = ownerType, la_ownerId = ownerId, la_assetId = assetId,
        la_accountType = accountType, la_normalSide = normalSide,
        la_status = LedgerAccount_ACTIVE, la_openedAt = now,
        la_schemaVersion = ''ledger_account.v1''\<rparr>))"

definition ledgerNaturalKey :: "string \<Rightarrow> string \<Rightarrow> string \<Rightarrow> LedgerAccountType \<Rightarrow> string" where
  "ledgerNaturalKey ownerType ownerId assetId accountType =
     ownerType @ [CHR 0x00] @ ownerId @ [CHR 0x00] @ assetId @ [CHR 0x00] @
     LedgerAccountType_str accountType"

definition LedgerService_requireAccount :: "string \<Rightarrow> ('z ledger_world_scheme, ledger_account) M" where
  "LedgerService_requireAccount ledgerAccountId =
     bindM (getsM (\<lambda>s. jmGet (lg_accounts (ledger s)) ledgerAccountId)) (\<lambda>account.
       case account of
         None \<Rightarrow> throwM (DomainError ''ledger_account_not_found'' ''ledger account not found'')
       | Some a \<Rightarrow> returnM a)"

definition LedgerService_openAccount ::
  "js \<Rightarrow> js \<Rightarrow> js \<Rightarrow> js \<Rightarrow> js \<Rightarrow> js \<Rightarrow> int option \<Rightarrow> ('z ledger_world_scheme, ledger_account) M" where
  "LedgerService_openAccount ownerTypeV ownerIdV assetIdV accountTypeV normalSideV subjectId nowArg =
     bindM (nowOr nowArg) (\<lambda>now.
     bindM (liftR (assertNonEmptyString ''ownerType'' ownerTypeV)) (\<lambda>ownerType.
     bindM (liftR (assertNonEmptyString ''ownerId'' ownerIdV)) (\<lambda>ownerId.
     bindM (liftR (assertNonEmptyString ''assetId'' assetIdV)) (\<lambda>assetId.
     bindM (liftR (assertEnumValue ''accountType'' accountTypeV LedgerAccountType_values)) (\<lambda>accountType.
     bindM (liftR (assertEnumValue ''normalSide'' normalSideV LedgerNormalSide_values)) (\<lambda>normalSide.
     let naturalKey = ledgerNaturalKey ownerType ownerId assetId accountType in
     bindM (getsM (\<lambda>s. jmGet (lg_accountIdsByNaturalKey (ledger s)) naturalKey)) (\<lambda>existingId.
     case existingId of
       Some eid \<Rightarrow>
         bindM (LedgerService_requireAccount eid) (\<lambda>existing.
         thenM (throwIf (la_normalSide existing \<noteq> normalSide) ''ledger_account_conflict''
           ''ledger account natural key has a different normal side'')
         (returnM existing))
     | None \<Rightarrow>
         bindM (createLedgerAccount ownerType ownerId assetId accountType normalSide now) (\<lambda>account.
         thenM (modifyM (ledger_update (lg_accounts_update (jmSet (la_ledgerAccountId account) account))))
         (thenM (modifyM (ledger_update
            (lg_accountIdsByNaturalKey_update (jmSet naturalKey (la_ledgerAccountId account)))))
         (thenM (emitCreditEvent ((eventArgs ''ledger_account_opened'' subjectId (JObj
             [(''ledgerAccountId'', JStr (la_ledgerAccountId account)),
              (''ledgerAccountHash'', JStr (la_ledgerAccountHash account)),
              (''ownerType'', JStr ownerType), (''ownerId'', JStr ownerId),
              (''assetId'', JStr assetId),
              (''accountType'', JStr (LedgerAccountType_str accountType)),
              (''normalSide'', JStr (LedgerNormalSide_str normalSide))]))\<lparr>ca_now := Some now\<rparr>))
         (returnM account)))))))))))"

subsection \<open>Posting\<close>

record ledger_entry_input =
  in_ledgerAccountId :: js
  in_direction :: js
  in_amountMinor :: js

record normalized_entry =
  ne_ledgerAccountId :: string
  ne_direction :: LedgerEntryDirection
  ne_amountMinor :: int
  ne_sequence :: nat

text \<open>
  The callback of \<open>entries.map\<close>, with the growing set \<open>seenAccountIds\<close> and the index \<open>sequence\<close>.
\<close>

fun normalizeEntries ::
  "ledger_state \<Rightarrow> string \<Rightarrow> nat \<Rightarrow> string list \<Rightarrow> ledger_entry_input list \<Rightarrow>
   normalized_entry list res" where
  "normalizeEntries L assetId sequence seen [] = Inr []"
| "normalizeEntries L assetId sequence seen (entry # rest) =
     bindR (assertNonEmptyString ''ledgerAccountId'' (in_ledgerAccountId entry)) (\<lambda>accountId.
     bindR (assertEnumValue ''direction'' (in_direction entry) LedgerEntryDirection_values) (\<lambda>direction.
     bindR (assertPositiveMinorUnits amountMinorName (in_amountMinor entry)) (\<lambda>amount.
     bindR (guardR (accountId \<in> set seen) ''duplicate_ledger_account_entry''
       ''an account may appear only once per transaction'') (\<lambda>_.
     case jmGet (lg_accounts L) accountId of
       None \<Rightarrow> fail ''ledger_account_not_found'' ''ledger account not found''
     | Some account \<Rightarrow>
         bindR (guardR (la_status account \<noteq> LedgerAccount_ACTIVE) ''ledger_account_not_active''
           ''ledger posting requires active accounts'') (\<lambda>_.
         bindR (guardR (la_assetId account \<noteq> assetId) ''ledger_asset_mismatch''
           ''all ledger accounts must match the transaction asset'') (\<lambda>_.
         bindR (normalizeEntries L assetId (Suc sequence) (accountId # seen) rest) (\<lambda>more.
         Inr (\<lparr>ne_ledgerAccountId = accountId, ne_direction = direction, ne_amountMinor = amount,
               ne_sequence = sequence\<rparr> # more))))))))"

definition directionTotal :: "LedgerEntryDirection \<Rightarrow> normalized_entry list \<Rightarrow> int" where
  "directionTotal dir es = sum_list (map ne_amountMinor (filter (\<lambda>e. ne_direction e = dir) es))"

definition normalized_entry_js :: "normalized_entry \<Rightarrow> js" where
  "normalized_entry_js e = JObj
     [(''ledgerAccountId'', JStr (ne_ledgerAccountId e)),
      (''direction'', JStr (LedgerEntryDirection_str (ne_direction e))),
      (''amountMinor'', JStr (dec (ne_amountMinor e))),
      (''sequence'', JNum (int (ne_sequence e)))]"

definition ledgerTransactionHash ::
  "runtime \<Rightarrow> string \<Rightarrow> string \<Rightarrow> string \<Rightarrow> string \<Rightarrow> string \<Rightarrow> js \<Rightarrow> normalized_entry list \<Rightarrow> string" where
  "ledgerTransactionHash r idempotencyKey transactionType assetId referenceType referenceId metadata es =
     hashId r ''ledger_transaction'' (JObj
       [(''idempotencyKey'', JStr idempotencyKey), (''transactionType'', JStr transactionType),
        (''assetId'', JStr assetId), (''referenceType'', JStr referenceType),
        (''referenceId'', JStr referenceId), (''metadata'', metadata),
        (''entries'', JArr (map normalized_entry_js es))])"

definition createLedgerTransaction ::
  "string \<Rightarrow> string \<Rightarrow> string \<Rightarrow> string \<Rightarrow> string \<Rightarrow> js \<Rightarrow> normalized_entry list \<Rightarrow> int \<Rightarrow> int \<Rightarrow> int \<Rightarrow>
   ('z host_scheme, ledger_transaction) M" where
  "createLedgerTransaction idempotencyKey transactionType assetId referenceType referenceId metadata
     normalizedEntries debitTotalMinor creditTotalMinor now =
     bindM (getsM (\<lambda>s. ledgerTransactionHash (rt s) idempotencyKey transactionType assetId
       referenceType referenceId metadata normalizedEntries)) (\<lambda>transactionHash.
     bindM (createOperationalId ''ledger_transaction'') (\<lambda>ledgerTransactionId.
     bindM (hashM ''ledger_metadata'' (js_coalesce metadata (JObj []))) (\<lambda>metadataHash.
     returnM
       \<lparr>lt_ledgerTransactionId = ledgerTransactionId, lt_transactionHash = transactionHash,
        lt_idempotencyKey = idempotencyKey, lt_transactionType = transactionType,
        lt_assetId = assetId, lt_referenceType = referenceType, lt_referenceId = referenceId,
        lt_metadata = js_coalesce metadata (JObj []), lt_metadataHash = metadataHash,
        lt_debitTotalMinor = debitTotalMinor, lt_creditTotalMinor = creditTotalMinor,
        lt_entryCount = length normalizedEntries, lt_postedAt = now,
        lt_schemaVersion = ''ledger_transaction.v1''\<rparr>)))"

definition createLedgerEntry ::
  "string \<Rightarrow> int \<Rightarrow> normalized_entry \<Rightarrow> ('z host_scheme, ledger_entry) M" where
  "createLedgerEntry ledgerTransactionId now entry =
     bindM (createOperationalId ''ledger_entry'') (\<lambda>ledgerEntryId.
     returnM
       \<lparr>le_ledgerEntryId = ledgerEntryId, le_ledgerTransactionId = ledgerTransactionId,
        le_ledgerAccountId = ne_ledgerAccountId entry, le_direction = ne_direction entry,
        le_amountMinor = ne_amountMinor entry, le_sequence = ne_sequence entry,
        le_postedAt = now, le_schemaVersion = ''ledger_entry.v1''\<rparr>)"

text \<open>A transaction as it is read back: its record and its entries in sequence order.\<close>

definition readTransaction :: "ledger_state \<Rightarrow> ledger_transaction \<Rightarrow> ledger_transaction \<times> ledger_entry list" where
  "readTransaction L t = (t, js_sort (\<lambda>a b. int (le_sequence a) - int (le_sequence b))
     (filter (\<lambda>e. le_ledgerTransactionId e = lt_ledgerTransactionId t) (lg_entries L)))"

definition LedgerService_getTransaction ::
  "string \<Rightarrow> ('z ledger_world_scheme, ledger_transaction \<times> ledger_entry list) M" where
  "LedgerService_getTransaction ledgerTransactionId =
     bindM (getsM ledger) (\<lambda>L.
     case jmGet (lg_transactions L) ledgerTransactionId of
       None \<Rightarrow> throwM (DomainError ''ledger_transaction_not_found'' ''ledger transaction not found'')
     | Some t \<Rightarrow> returnM (t, js_sort (\<lambda>a b. int (le_sequence a) - int (le_sequence b))
         (filter (\<lambda>e. le_ledgerTransactionId e = ledgerTransactionId) (lg_entries L))))"

record post_args =
  pa_idempotencyKey :: js
  pa_transactionType :: js
  pa_assetId :: js
  pa_entries :: "ledger_entry_input list option"
  pa_referenceType :: js
  pa_referenceId :: js
  pa_subjectId :: js
  pa_metadata :: js
  pa_now :: "int option"

record posting =
  po_transaction :: "ledger_transaction \<times> ledger_entry list"
  po_replayed :: bool

text \<open>The tail of \<open>postTransaction\<close> once the request is accepted as new.\<close>

definition recordTransaction ::
  "post_args \<Rightarrow> ledger_transaction \<Rightarrow> normalized_entry list \<Rightarrow> int \<Rightarrow>
   ('z ledger_world_scheme, posting) M" where
  "recordTransaction a transaction normalizedEntries now =
     (let txId = lt_ledgerTransactionId transaction in
      bindM (mapM (createLedgerEntry txId now) normalizedEntries) (\<lambda>storedEntries.
      thenM (modifyM (ledger_update (lg_transactions_update (jmSet txId transaction))))
      (thenM (modifyM (ledger_update (lg_transactionIdsByIdempotencyKey_update
         (jmSet (lt_idempotencyKey transaction) txId))))
      (thenM (modifyM (ledger_update (lg_entries_update (\<lambda>es. es @ storedEntries))))
      (thenM (emitCreditEvent ((eventArgs ''ledger_transaction_posted'' (pa_subjectId a) (JObj
          [(''ledgerTransactionId'', JStr txId),
           (''transactionHash'', JStr (lt_transactionHash transaction)),
           (''transactionType'', JStr (lt_transactionType transaction)),
           (''assetId'', JStr (lt_assetId transaction)),
           (''referenceType'', JStr (lt_referenceType transaction)),
           (''referenceId'', JStr (lt_referenceId transaction)),
           (''debitTotalMinor'', JStr (dec (lt_debitTotalMinor transaction))),
           (''creditTotalMinor'', JStr (dec (lt_creditTotalMinor transaction))),
           (''entryCount'', JNum (int (lt_entryCount transaction)))]))\<lparr>ca_now := Some now\<rparr>))
      (bindM (LedgerService_getTransaction txId) (\<lambda>t.
       returnM \<lparr>po_transaction = t, po_replayed = False\<rparr>)))))))"

text \<open>
  The checks at the head of \<open>postTransaction\<close>, which read the ledger and change nothing: the strings,
  the metadata, the entries one by one, and the balance of the two sides.
\<close>

record posting_request =
  rq_idempotencyKey :: string
  rq_transactionType :: string
  rq_assetId :: string
  rq_referenceType :: string
  rq_referenceId :: string
  rq_metadata :: js
  rq_normalizedEntries :: "normalized_entry list"

definition validatePosting :: "ledger_state \<Rightarrow> post_args \<Rightarrow> posting_request res" where
  "validatePosting L a =
     (let metadata = js_default (pa_metadata a) (JObj []) in
      bindR (assertNonEmptyString ''idempotencyKey'' (pa_idempotencyKey a)) (\<lambda>idempotencyKey.
      bindR (assertNonEmptyString ''transactionType'' (pa_transactionType a)) (\<lambda>transactionType.
      bindR (assertNonEmptyString ''assetId'' (pa_assetId a)) (\<lambda>assetId.
      bindR (assertNonEmptyString ''referenceType'' (pa_referenceType a)) (\<lambda>referenceType.
      bindR (assertNonEmptyString ''referenceId'' (pa_referenceId a)) (\<lambda>referenceId.
      bindR (assertNoRawPiiReference metadata) (\<lambda>_.
      case pa_entries a of
        None \<Rightarrow> fail ''ledger_entries_required'' ''ledger transaction requires at least two entries''
      | Some entries \<Rightarrow>
      bindR (guardR (length entries < 2) ''ledger_entries_required''
        ''ledger transaction requires at least two entries'') (\<lambda>_.
      bindR (normalizeEntries L assetId 0 [] entries) (\<lambda>normalizedEntries.
      bindR (guardR (directionTotal Entry_DEBIT normalizedEntries \<noteq>
                     directionTotal Entry_CREDIT normalizedEntries) ''unbalanced_ledger_transaction''
        ''ledger debits and credits must balance'') (\<lambda>_.
      Inr \<lparr>rq_idempotencyKey = idempotencyKey, rq_transactionType = transactionType,
           rq_assetId = assetId, rq_referenceType = referenceType, rq_referenceId = referenceId,
           rq_metadata = metadata, rq_normalizedEntries = normalizedEntries\<rparr>))))))))))"

definition requestHash :: "runtime \<Rightarrow> posting_request \<Rightarrow> string" where
  "requestHash r q = ledgerTransactionHash r (rq_idempotencyKey q) (rq_transactionType q) (rq_assetId q)
     (rq_referenceType q) (rq_referenceId q) (rq_metadata q) (rq_normalizedEntries q)"

definition LedgerService_postTransaction :: "post_args \<Rightarrow> ('z ledger_world_scheme, posting) M" where
  "LedgerService_postTransaction a =
     bindM (nowOr (pa_now a)) (\<lambda>now.
     bindM (getsM ledger) (\<lambda>L.
     bindM (liftR (validatePosting L a)) (\<lambda>q.
     bindM (getsM (\<lambda>s. requestHash (rt s) q)) (\<lambda>transactionHash.
     case jmGet (lg_transactionIdsByIdempotencyKey L) (rq_idempotencyKey q) of
       Some existingTransactionId \<Rightarrow>
         (case jmGet (lg_transactions L) existingTransactionId of
            None \<Rightarrow> throwM (NativeError ''TypeError'')
          | Some existing \<Rightarrow>
              thenM (throwIf (lt_transactionHash existing \<noteq> transactionHash)
                ''ledger_idempotency_conflict''
                ''idempotency key was reused with a different transaction'')
              (bindM (LedgerService_getTransaction existingTransactionId) (\<lambda>t.
               returnM \<lparr>po_transaction = t, po_replayed = True\<rparr>)))
     | None \<Rightarrow>
         bindM (createLedgerTransaction (rq_idempotencyKey q) (rq_transactionType q) (rq_assetId q)
            (rq_referenceType q) (rq_referenceId q) (rq_metadata q) (rq_normalizedEntries q)
            (directionTotal Entry_DEBIT (rq_normalizedEntries q))
            (directionTotal Entry_CREDIT (rq_normalizedEntries q)) now) (\<lambda>transaction.
         thenM (throwIf (lt_transactionHash transaction \<noteq> transactionHash) ''ledger_hash_mismatch''
            ''ledger transaction hash construction is inconsistent'')
         (recordTransaction a transaction (rq_normalizedEntries q) now))))))"

subsection \<open>Reading\<close>

definition LedgerService_getAccount :: "string \<Rightarrow> ('z ledger_world_scheme, ledger_account) M" where
  "LedgerService_getAccount ledgerAccountId = LedgerService_requireAccount ledgerAccountId"

definition ledger_account_field :: "runtime \<Rightarrow> ledger_account \<Rightarrow> string \<Rightarrow> js" where
  "ledger_account_field r a key =
     (case map_of
        [(''ledgerAccountId'', JStr (la_ledgerAccountId a)),
         (''ledgerAccountHash'', JStr (la_ledgerAccountHash a)),
         (''ownerType'', JStr (la_ownerType a)), (''ownerId'', JStr (la_ownerId a)),
         (''assetId'', JStr (la_assetId a)),
         (''accountType'', JStr (LedgerAccountType_str (la_accountType a))),
         (''normalSide'', JStr (LedgerNormalSide_str (la_normalSide a))),
         (''status'', JStr (LedgerAccountStatus_str (la_status a))),
         (''openedAt'', JStr (rt_iso r (la_openedAt a))),
         (''schemaVersion'', JStr (la_schemaVersion a))] key of
        Some v \<Rightarrow> v | None \<Rightarrow> JUndefined)"

definition LedgerService_listAccounts :: "runtime \<Rightarrow> (string \<times> js) list \<Rightarrow> ledger_state \<Rightarrow> ledger_account list" where
  "LedgerService_listAccounts r filt L =
     filter (matchesFilter (ledger_account_field r) filt) (jmValues (lg_accounts L))"

definition turnover :: "ledger_state \<Rightarrow> string \<Rightarrow> LedgerEntryDirection \<Rightarrow> int" where
  "turnover L ledgerAccountId direction =
     sum_list (map le_amountMinor
       (filter (\<lambda>e. le_ledgerAccountId e = ledgerAccountId \<and> le_direction e = direction) (lg_entries L)))"

definition LedgerService_getAccountTurnover ::
  "string \<Rightarrow> LedgerEntryDirection \<Rightarrow> ('z ledger_world_scheme, int) M" where
  "LedgerService_getAccountTurnover ledgerAccountId direction =
     thenM (LedgerService_requireAccount ledgerAccountId)
     (getsM (\<lambda>s. turnover (ledger s) ledgerAccountId direction))"

definition LedgerService_getAccountBalance :: "string \<Rightarrow> ('z ledger_world_scheme, int) M" where
  "LedgerService_getAccountBalance ledgerAccountId =
     bindM (LedgerService_requireAccount ledgerAccountId) (\<lambda>account.
     bindM (LedgerService_getAccountTurnover ledgerAccountId Entry_DEBIT) (\<lambda>debits.
     bindM (LedgerService_getAccountTurnover ledgerAccountId Entry_CREDIT) (\<lambda>credits.
     returnM (if la_normalSide account = Normal_DEBIT then debits - credits else credits - debits))))"

record trial_balance =
  tb_assetId :: string
  tb_debitTotalMinor :: int
  tb_creditTotalMinor :: int
  tb_balanced :: bool

definition LedgerService_getTrialBalance :: "js \<Rightarrow> ('z ledger_world_scheme, trial_balance) M" where
  "LedgerService_getTrialBalance assetIdV =
     bindM (liftR (assertNonEmptyString ''assetId'' assetIdV)) (\<lambda>assetId.
     bindM (getsM rt) (\<lambda>r.
     bindM (getsM ledger) (\<lambda>L.
     let accountIds = map la_ledgerAccountId (LedgerService_listAccounts r [(''assetId'', JStr assetId)] L);
         counted = filter (\<lambda>e. le_ledgerAccountId e \<in> set accountIds) (lg_entries L);
         debitTotal = sum_list (map le_amountMinor (filter (\<lambda>e. le_direction e = Entry_DEBIT) counted));
         creditTotal = sum_list (map le_amountMinor (filter (\<lambda>e. le_direction e \<noteq> Entry_DEBIT) counted))
     in returnM \<lparr>tb_assetId = assetId, tb_debitTotalMinor = debitTotal,
                 tb_creditTotalMinor = creditTotal, tb_balanced = (debitTotal = creditTotal)\<rparr>)))"

record integrity =
  ig_balanced :: bool
  ig_transactionCount :: nat
  ig_violations :: "string list"

definition entriesOf :: "ledger_state \<Rightarrow> string \<Rightarrow> ledger_entry list" where
  "entriesOf L txId = filter (\<lambda>e. le_ledgerTransactionId e = txId) (lg_entries L)"

definition entryTotal :: "LedgerEntryDirection \<Rightarrow> ledger_entry list \<Rightarrow> int" where
  "entryTotal dir es = sum_list (map le_amountMinor (filter (\<lambda>e. le_direction e = dir) es))"

definition LedgerService_verifyIntegrity :: "ledger_state \<Rightarrow> integrity" where
  "LedgerService_verifyIntegrity L =
     (let violates = (\<lambda>t. let entries = entriesOf L (lt_ledgerTransactionId t) in
            length entries < 2 \<or> entryTotal Entry_DEBIT entries \<noteq> entryTotal Entry_CREDIT entries);
          violations = map lt_ledgerTransactionId (filter violates (jmValues (lg_transactions L)))
      in \<lparr>ig_balanced = (length violations = 0), ig_transactionCount = length (lg_transactions L),
          ig_violations = violations\<rparr>)"

definition ledger_transaction_field :: "runtime \<Rightarrow> ledger_transaction \<Rightarrow> string \<Rightarrow> js" where
  "ledger_transaction_field r t key =
     (case map_of
        [(''ledgerTransactionId'', JStr (lt_ledgerTransactionId t)),
         (''transactionHash'', JStr (lt_transactionHash t)),
         (''idempotencyKey'', JStr (lt_idempotencyKey t)),
         (''transactionType'', JStr (lt_transactionType t)),
         (''assetId'', JStr (lt_assetId t)), (''referenceType'', JStr (lt_referenceType t)),
         (''referenceId'', JStr (lt_referenceId t)), (''metadata'', lt_metadata t),
         (''metadataHash'', JStr (lt_metadataHash t)),
         (''debitTotalMinor'', JStr (dec (lt_debitTotalMinor t))),
         (''creditTotalMinor'', JStr (dec (lt_creditTotalMinor t))),
         (''entryCount'', JNum (int (lt_entryCount t))),
         (''postedAt'', JStr (rt_iso r (lt_postedAt t))),
         (''schemaVersion'', JStr (lt_schemaVersion t))] key of
        Some v \<Rightarrow> v | None \<Rightarrow> JUndefined)"

definition LedgerService_listTransactions ::
  "(string \<times> js) list \<Rightarrow> ('z ledger_world_scheme, (ledger_transaction \<times> ledger_entry list) list) M" where
  "LedgerService_listTransactions filt =
     bindM (getsM (\<lambda>s. filter (matchesFilter (ledger_transaction_field (rt s)) filt)
       (jmValues (lg_transactions (ledger s))))) (\<lambda>ts.
     mapM (\<lambda>t. LedgerService_getTransaction (lt_ledgerTransactionId t)) ts)"

text \<open>The elements of a list without repetitions, in the order of their first occurrence.\<close>

definition js_unique :: "'a list \<Rightarrow> 'a list" where
  "js_unique xs = rev (remdups (rev xs))"

record ledger_snapshot =
  ls_accountCount :: nat
  ls_transactionCount :: nat
  ls_entryCount :: nat
  ls_integrity :: integrity
  ls_trialBalances :: "trial_balance list"

definition LedgerService_getSnapshot :: "('z ledger_world_scheme, ledger_snapshot) M" where
  "LedgerService_getSnapshot =
     bindM (getsM ledger) (\<lambda>L.
     bindM (mapM (\<lambda>a. LedgerService_getTrialBalance (JStr a))
       (js_unique (map la_assetId (jmValues (lg_accounts L))))) (\<lambda>trialBalances.
     returnM \<lparr>ls_accountCount = length (lg_accounts L), ls_transactionCount = length (lg_transactions L),
              ls_entryCount = length (lg_entries L), ls_integrity = LedgerService_verifyIntegrity L,
              ls_trialBalances = trialBalances\<rparr>))"

subsection \<open>The invariant\<close>

definition entryAsset :: "ledger_state \<Rightarrow> ledger_entry \<Rightarrow> string option" where
  "entryAsset L e = map_option la_assetId (jmGet (lg_accounts L) (le_ledgerAccountId e))"

definition assetTotal :: "ledger_state \<Rightarrow> LedgerEntryDirection \<Rightarrow> string \<Rightarrow> int" where
  "assetTotal L dir asset = entryTotal dir (filter (\<lambda>e. entryAsset L e = Some asset) (lg_entries L))"

text \<open>
  \<open>A\<close> and \<open>T\<close> are the account and transaction identifiers handed out so far. Accounts and
  transactions are stored under their own identifiers, the two secondary indexes point at them,
  every entry is positive and refers to a stored account and a stored transaction of the same asset,
  and every transaction and every asset is balanced.
\<close>

definition accounts_ok :: "string set \<Rightarrow> ledger_state \<Rightarrow> bool" where
  "accounts_ok A L \<longleftrightarrow>
     distinct (map fst (lg_accounts L)) \<and> fst ` set (lg_accounts L) \<subseteq> A \<and>
     (\<forall>k a. jmGet (lg_accounts L) k = Some a \<longrightarrow>
        la_ledgerAccountId a = k \<and> la_status a = LedgerAccount_ACTIVE) \<and>
     (\<forall>key i. jmGet (lg_accountIdsByNaturalKey L) key = Some i \<longrightarrow>
        (\<exists>a. jmGet (lg_accounts L) i = Some a \<and>
           ledgerNaturalKey (la_ownerType a) (la_ownerId a) (la_assetId a) (la_accountType a) = key))"

definition transactions_ok :: "string set \<Rightarrow> ledger_state \<Rightarrow> bool" where
  "transactions_ok T L \<longleftrightarrow>
     distinct (map fst (lg_transactions L)) \<and> fst ` set (lg_transactions L) \<subseteq> T \<and>
     (\<forall>k t. jmGet (lg_transactions L) k = Some t \<longrightarrow> lt_ledgerTransactionId t = k \<and>
        2 \<le> length (entriesOf L k) \<and> distinct (map le_ledgerAccountId (entriesOf L k)) \<and>
        entryTotal Entry_DEBIT (entriesOf L k) = lt_debitTotalMinor t \<and>
        entryTotal Entry_CREDIT (entriesOf L k) = lt_creditTotalMinor t \<and>
        lt_debitTotalMinor t = lt_creditTotalMinor t \<and>
        jmGet (lg_transactionIdsByIdempotencyKey L) (lt_idempotencyKey t) = Some k) \<and>
     (\<forall>key i. jmGet (lg_transactionIdsByIdempotencyKey L) key = Some i \<longrightarrow>
        (\<exists>t. jmGet (lg_transactions L) i = Some t \<and> lt_idempotencyKey t = key))"

definition entries_ok :: "ledger_state \<Rightarrow> bool" where
  "entries_ok L \<longleftrightarrow>
     (\<forall>e\<in>set (lg_entries L). 0 < le_amountMinor e \<and>
        (\<exists>t. jmGet (lg_transactions L) (le_ledgerTransactionId e) = Some t \<and>
             entryAsset L e = Some (lt_assetId t)))"

definition assets_balanced :: "ledger_state \<Rightarrow> bool" where
  "assets_balanced L \<longleftrightarrow> (\<forall>asset. assetTotal L Entry_DEBIT asset = assetTotal L Entry_CREDIT asset)"

definition ledger_ok :: "string set \<Rightarrow> string set \<Rightarrow> ledger_state \<Rightarrow> bool" where
  "ledger_ok A T L \<longleftrightarrow> accounts_ok A L \<and> transactions_ok T L \<and> entries_ok L \<and> assets_balanced L"

definition ledger_inv :: "'z ledger_world_scheme \<Rightarrow> bool" where
  "ledger_inv s \<longleftrightarrow> uuid_unique (rt s) \<and>
     ledger_ok (issued s ''ledger_account'') (issued s ''ledger_transaction'') (ledger s)"

lemma accounts_ok_index:
  "accounts_ok A L \<Longrightarrow> jmGet (lg_accountIdsByNaturalKey L) key = Some i \<Longrightarrow>
    \<exists>a. jmGet (lg_accounts L) i = Some a \<and>
      ledgerNaturalKey (la_ownerType a) (la_ownerId a) (la_assetId a) (la_accountType a) = key"
  unfolding accounts_ok_def by blast

lemma transactions_okD:
  "transactions_ok T L \<Longrightarrow> jmGet (lg_transactions L) k = Some t \<Longrightarrow>
    lt_ledgerTransactionId t = k \<and> 2 \<le> length (entriesOf L k) \<and>
    entryTotal Entry_DEBIT (entriesOf L k) = entryTotal Entry_CREDIT (entriesOf L k) \<and>
    jmGet (lg_transactionIdsByIdempotencyKey L) (lt_idempotencyKey t) = Some k"
  unfolding transactions_ok_def by metis

lemma transactions_ok_index:
  "transactions_ok T L \<Longrightarrow> jmGet (lg_transactionIdsByIdempotencyKey L) key = Some i \<Longrightarrow>
    \<exists>t. jmGet (lg_transactions L) i = Some t \<and> lt_idempotencyKey t = key"
  unfolding transactions_ok_def by blast

lemma ledger_ok_mono: "ledger_ok A T L \<Longrightarrow> A \<subseteq> A' \<Longrightarrow> T \<subseteq> T' \<Longrightarrow> ledger_ok A' T' L"
  by (auto simp: ledger_ok_def accounts_ok_def transactions_ok_def)

lemma ledger_ok_empty: "ledger_ok A T ledger_empty"
  by (simp add: ledger_ok_def accounts_ok_def transactions_ok_def entries_ok_def assets_balanced_def
      ledger_empty_def assetTotal_def entryTotal_def)

subsection \<open>The two ways the ledger grows\<close>

definition addAccount :: "string \<Rightarrow> ledger_account \<Rightarrow> ledger_state \<Rightarrow> ledger_state" where
  "addAccount key a L = L
     \<lparr>lg_accounts := jmSet (la_ledgerAccountId a) a (lg_accounts L),
      lg_accountIdsByNaturalKey := jmSet key (la_ledgerAccountId a) (lg_accountIdsByNaturalKey L)\<rparr>"

definition addTransaction :: "ledger_transaction \<Rightarrow> ledger_entry list \<Rightarrow> ledger_state \<Rightarrow> ledger_state" where
  "addTransaction t es L = L
     \<lparr>lg_transactions := jmSet (lt_ledgerTransactionId t) t (lg_transactions L),
      lg_transactionIdsByIdempotencyKey :=
        jmSet (lt_idempotencyKey t) (lt_ledgerTransactionId t) (lg_transactionIdsByIdempotencyKey L),
      lg_entries := lg_entries L @ es\<rparr>"

text \<open>The entries a posting stores match the normalised request.\<close>

definition entry_matches :: "string \<Rightarrow> normalized_entry \<Rightarrow> ledger_entry \<Rightarrow> bool" where
  "entry_matches txId n e \<longleftrightarrow> le_ledgerTransactionId e = txId \<and>
     le_ledgerAccountId e = ne_ledgerAccountId n \<and> le_direction e = ne_direction n \<and>
     le_amountMinor e = ne_amountMinor n \<and> le_sequence e = ne_sequence n"

lemma entryAsset_addAccount:
  assumes "accounts_ok A L" and "entries_ok L" and "la_ledgerAccountId a \<notin> A" and "e \<in> set (lg_entries L)"
  shows "entryAsset (addAccount key a L) e = entryAsset L e"
proof -
  from assms have "le_ledgerAccountId e \<in> fst ` set (lg_accounts L)"
    by (auto simp: entries_ok_def entryAsset_def dest: jmGet_mem)
  with assms show ?thesis by (auto simp: accounts_ok_def entryAsset_def addAccount_def)
qed

lemma ledger_ok_addAccount:
  assumes ok: "ledger_ok A T L" and new: "la_ledgerAccountId a \<notin> A"
    and act: "la_status a = LedgerAccount_ACTIVE"
    and key: "key = ledgerNaturalKey (la_ownerType a) (la_ownerId a) (la_assetId a) (la_accountType a)"
    and free: "jmGet (lg_accountIdsByNaturalKey L) key = None"
  shows "ledger_ok (insert (la_ledgerAccountId a) A) T (addAccount key a L)"
proof -
  let ?L = "addAccount key a L"
  have acc: "accounts_ok A L" and ent: "entries_ok L" using ok by (auto simp: ledger_ok_def)
  have ea: "entryAsset ?L e = entryAsset L e" if "e \<in> set (lg_entries L)" for e
    by (rule entryAsset_addAccount [OF acc ent new that])
  have "accounts_ok (insert (la_ledgerAccountId a) A) ?L"
  proof -
    have fresh: "i \<noteq> la_ledgerAccountId a" if "jmGet (lg_accounts L) i = Some b" for i b
      using that new acc by (auto simp: accounts_ok_def dest: jmGet_mem)
    have "fst ` set (lg_accounts ?L) \<subseteq> insert (la_ledgerAccountId a) A"
      using acc by (auto simp: accounts_ok_def addAccount_def dom_update)
    moreover have "distinct (map fst (lg_accounts ?L))"
      using acc by (simp add: accounts_ok_def addAccount_def distinct_jmSet)
    moreover have "\<forall>k i. jmGet (lg_accountIdsByNaturalKey ?L) k = Some i \<longrightarrow>
        (\<exists>b. jmGet (lg_accounts ?L) i = Some b \<and>
          ledgerNaturalKey (la_ownerType b) (la_ownerId b) (la_assetId b) (la_accountType b) = k)"
    proof (intro allI impI)
      fix k i assume *: "jmGet (lg_accountIdsByNaturalKey ?L) k = Some i"
      show "\<exists>b. jmGet (lg_accounts ?L) i = Some b \<and>
          ledgerNaturalKey (la_ownerType b) (la_ownerId b) (la_assetId b) (la_accountType b) = k"
      proof (cases "k = key")
        case True
        then show ?thesis using * key by (auto simp: addAccount_def)
      next
        case False
        then obtain b where "jmGet (lg_accounts L) i = Some b"
          "ledgerNaturalKey (la_ownerType b) (la_ownerId b) (la_assetId b) (la_accountType b) = k"
          using * accounts_ok_index [OF acc, of k i] by (auto simp: addAccount_def)
        then show ?thesis using fresh by (auto simp: addAccount_def)
      qed
    qed
    ultimately show ?thesis using acc act by (auto simp: accounts_ok_def addAccount_def)
  qed
  moreover have "transactions_ok T ?L"
    using ok by (simp add: ledger_ok_def transactions_ok_def entriesOf_def addAccount_def)
  moreover have "entries_ok ?L"
    using ent ea by (simp add: entries_ok_def) (simp add: addAccount_def)
  moreover have "assets_balanced ?L"
  proof -
    have "assetTotal ?L d asset = assetTotal L d asset" for d asset
    proof -
      have "filter (\<lambda>e. entryAsset ?L e = Some asset) (lg_entries L) =
          filter (\<lambda>e. entryAsset L e = Some asset) (lg_entries L)"
        by (rule filter_cong) (auto simp: ea)
      then show ?thesis by (simp add: assetTotal_def) (simp add: addAccount_def)
    qed
    then show ?thesis using ok by (simp add: ledger_ok_def assets_balanced_def)
  qed
  ultimately show ?thesis by (simp add: ledger_ok_def)
qed

lemma entryTotal_append: "entryTotal d (xs @ ys) = entryTotal d xs + entryTotal d ys"
  by (simp add: entryTotal_def)

lemma entryTotal_matches:
  "list_all2 (entry_matches txId) ns es \<Longrightarrow> entryTotal d es = directionTotal d ns"
  by (induction rule: list_all2_induct) (auto simp: entryTotal_def directionTotal_def entry_matches_def)

lemma accounts_matches:
  "list_all2 (entry_matches txId) ns es \<Longrightarrow> map le_ledgerAccountId es = map ne_ledgerAccountId ns"
  by (induction rule: list_all2_induct) (auto simp: entry_matches_def)

lemma ids_matches:
  "list_all2 (entry_matches txId) ns es \<Longrightarrow> \<forall>e\<in>set es. le_ledgerTransactionId e = txId"
  by (induction rule: list_all2_induct) (auto simp: entry_matches_def)

text \<open>What a posting's entries must satisfy for the ledger to stay in order.\<close>

definition posting_ok :: "ledger_state \<Rightarrow> ledger_transaction \<Rightarrow> ledger_entry list \<Rightarrow> bool" where
  "posting_ok L t es \<longleftrightarrow> 2 \<le> length es \<and> distinct (map le_ledgerAccountId es) \<and>
     (\<forall>e\<in>set es. le_ledgerTransactionId e = lt_ledgerTransactionId t \<and> 0 < le_amountMinor e \<and>
        entryAsset L e = Some (lt_assetId t)) \<and>
     entryTotal Entry_DEBIT es = lt_debitTotalMinor t \<and>
     entryTotal Entry_CREDIT es = lt_creditTotalMinor t \<and> lt_debitTotalMinor t = lt_creditTotalMinor t"

lemma entryAsset_addTransaction [simp]: "entryAsset (addTransaction t es L) = entryAsset L"
  by (rule ext) (simp add: entryAsset_def addTransaction_def)

lemma assetTotal_addTransaction:
  assumes "posting_ok L t es"
  shows "assetTotal (addTransaction t es L) d asset =
    assetTotal L d asset + (if asset = lt_assetId t then entryTotal d es else 0)"
proof -
  have "filter (\<lambda>e. entryAsset L e = Some asset) es = (if asset = lt_assetId t then es else [])"
    using assms by (auto simp: posting_ok_def filter_id_conv filter_empty_conv)
  then have "assetTotal (addTransaction t es L) d asset = assetTotal L d asset +
      entryTotal d (if asset = lt_assetId t then es else [])"
    unfolding assetTotal_def entryAsset_addTransaction
    by (simp add: addTransaction_def entryTotal_append)
  then show ?thesis by (simp add: entryTotal_def)
qed

lemma entriesOf_addTransaction:
  assumes "entries_ok L" and "transactions_ok T L" and "lt_ledgerTransactionId t \<notin> T"
    and "\<forall>e\<in>set es. le_ledgerTransactionId e = lt_ledgerTransactionId t"
  shows "entriesOf (addTransaction t es L) k = (if k = lt_ledgerTransactionId t then es else entriesOf L k)"
proof -
  have "le_ledgerTransactionId e \<noteq> lt_ledgerTransactionId t" if "e \<in> set (lg_entries L)" for e
    using that assms(1-3) by (fastforce simp: entries_ok_def transactions_ok_def dest: jmGet_mem)
  then show ?thesis
    using assms(4) by (auto simp: entriesOf_def addTransaction_def filter_id_conv filter_empty_conv)
qed

lemma ledger_ok_addTransaction:
  assumes ok: "ledger_ok A T L" and new: "lt_ledgerTransactionId t \<notin> T"
    and post: "posting_ok L t es"
    and free: "jmGet (lg_transactionIdsByIdempotencyKey L) (lt_idempotencyKey t) = None"
  shows "ledger_ok A (insert (lt_ledgerTransactionId t) T) (addTransaction t es L)"
proof -
  let ?L = "addTransaction t es L"
  have tx: "transactions_ok T L" and ent: "entries_ok L" using ok by (auto simp: ledger_ok_def)
  have eo: "entriesOf ?L k = (if k = lt_ledgerTransactionId t then es else entriesOf L k)" for k
    using entriesOf_addTransaction [OF ent tx new] post by (auto simp: posting_ok_def)
  have fresh: "k \<noteq> lt_ledgerTransactionId t" if "jmGet (lg_transactions L) k = Some u" for k u
    using that new tx by (auto simp: transactions_ok_def dest: jmGet_mem)
  have keys: "lt_idempotencyKey u \<noteq> lt_idempotencyKey t" if "jmGet (lg_transactions L) k = Some u" for k u
    using transactions_okD [OF tx that] free by auto
  have index: "i \<noteq> lt_ledgerTransactionId t"
    if "jmGet (lg_transactionIdsByIdempotencyKey L) key = Some i" for key i
    using transactions_ok_index [OF tx that] fresh by auto
  have "transactions_ok (insert (lt_ledgerTransactionId t) T) ?L"
    unfolding transactions_ok_def eo using tx post fresh keys index
    by (auto simp: addTransaction_def transactions_ok_def posting_ok_def distinct_jmSet dom_update)
  moreover have "entries_ok ?L"
    unfolding entries_ok_def entryAsset_addTransaction using ent post fresh
    by (auto simp: addTransaction_def entries_ok_def posting_ok_def)
  moreover have "assets_balanced ?L"
    using ok post by (auto simp: assets_balanced_def ledger_ok_def assetTotal_addTransaction posting_ok_def)
  moreover have "accounts_ok A ?L"
    using ok by (simp add: ledger_ok_def accounts_ok_def addTransaction_def)
  ultimately show ?thesis by (simp add: ledger_ok_def)
qed

subsection \<open>The operations keep the invariant\<close>

text \<open>
  What the clients of the ledger rely on besides its own state: the records of the services above it
  (\<open>ledger_world.more\<close>) and the runtime are untouched, and the log below is only extended.
\<close>

definition ledger_frame :: "'z ledger_world_scheme \<Rightarrow> 'z ledger_world_scheme \<Rightarrow> bool" where
  "ledger_frame s t \<longleftrightarrow>
     ledger_world.more t = ledger_world.more s \<and> rt t = rt s \<and> uuidCount s \<le> uuidCount t \<and>
     (\<exists>xs. creditEvents t = creditEvents s @ xs) \<and> (\<exists>ys. auditEvents t = auditEvents s @ ys)"

lemma log_ext_ledger: "log_ext s t \<Longrightarrow> ledger t = ledger s"
  by (cases s, cases t) (simp add: log_ext_def)

lemma log_ext_ledger_more: "log_ext s t \<Longrightarrow> ledger_world.more t = ledger_world.more s"
  by (cases s, cases t) (simp add: log_ext_def)

lemma log_ext_ledgerD:
  "log_ext s t \<Longrightarrow> ledger t = ledger s \<and> ledger_world.more t = ledger_world.more s \<and> rt t = rt s \<and>
    uuidCount s \<le> uuidCount t \<and> (\<exists>xs. creditEvents t = creditEvents s @ xs) \<and>
    (\<exists>ys. auditEvents t = auditEvents s @ ys)"
  using log_ext_ledger [of s t] log_ext_ledger_more [of s t] by (auto simp: log_ext_def)

lemma log_ext_frame: "log_ext s t \<Longrightarrow> ledger_frame s t"
  by (auto simp: ledger_frame_def log_ext_ledger_more) (auto simp: log_ext_def)

lemma ledger_frame_refl [simp]: "ledger_frame s s"
  by (simp add: ledger_frame_def)

lemma ledger_frame_trans: "ledger_frame s t \<Longrightarrow> ledger_frame t u \<Longrightarrow> ledger_frame s u"
  by (auto simp: ledger_frame_def)

lemma ledger_frame_set:
  "ledger_frame s (s\<lparr>ledger := L\<rparr>)" "ledger_frame s (s\<lparr>clockCount := Suc (clockCount s)\<rparr>)"
  "ledger_frame s (s\<lparr>uuidCount := Suc (uuidCount s)\<rparr>)"
  by (auto simp: ledger_frame_def)

lemma ledger_frame_issued: "ledger_frame s t \<Longrightarrow> issued s p \<subseteq> issued t p"
  by (rule issued_mono) (auto simp: ledger_frame_def)

lemma ledger_inv_frame: "ledger_inv s \<Longrightarrow> ledger_frame s t \<Longrightarrow> ledger t = ledger s \<Longrightarrow> ledger_inv t"
  using ledger_ok_mono [of _ _ "ledger s"] ledger_frame_issued [of s t]
  by (auto simp: ledger_inv_def ledger_frame_def)

lemma log_stable_ledger_inv: "log_stable ledger_inv"
  unfolding log_stable_def using ledger_inv_frame log_ext_frame log_ext_ledger by metis

text \<open>Opening an account: either an existing account is returned, or one new account is added.\<close>

definition opened :: "'z ledger_world_scheme \<Rightarrow> ledger_account \<Rightarrow> 'z ledger_world_scheme \<Rightarrow> bool" where
  "opened s a t \<longleftrightarrow>
     la_ledgerAccountId a = opId (rt s) ''ledger_account'' (uuidCount s) \<and>
     uuidCount s < uuidCount t \<and> la_status a = LedgerAccount_ACTIVE \<and>
     (let key = ledgerNaturalKey (la_ownerType a) (la_ownerId a) (la_assetId a) (la_accountType a) in
      jmGet (lg_accountIdsByNaturalKey (ledger s)) key = None \<and>
      ledger t = addAccount key a (ledger s))"

lemma openedI:
  assumes "ledger t = lg_accountIdsByNaturalKey_update (jmSet key i)
      (lg_accounts_update (jmSet i a) (ledger s))"
    and "jmGet (lg_accountIdsByNaturalKey (ledger s)) key = None"
    and "key = ledgerNaturalKey (la_ownerType a) (la_ownerId a) (la_assetId a) (la_accountType a)"
    and "la_ledgerAccountId a = i" and "i = opId (rt s) ''ledger_account'' (uuidCount s)"
    and "Suc (uuidCount s) \<le> uuidCount t" and "la_status a = LedgerAccount_ACTIVE"
  shows "opened s a t"
  using assms by (simp add: opened_def addAccount_def)

lemma opened_inv:
  assumes inv: "ledger_inv s" and fr: "ledger_frame s t" and op: "opened s a t"
  shows "ledger_inv t"
proof -
  let ?A = "issued s ''ledger_account''" and ?T = "issued s ''ledger_transaction''"
  have "la_ledgerAccountId a \<notin> ?A"
    using inv op issued_fresh [of s] by (simp add: ledger_inv_def opened_def)
  then have "ledger_ok (insert (la_ledgerAccountId a) ?A) ?T (ledger t)"
    using ledger_ok_addAccount [of ?A ?T "ledger s" a] inv op
    by (simp add: ledger_inv_def opened_def Let_def)
  moreover have "la_ledgerAccountId a \<in> issued t ''ledger_account''"
    using fr op opId_issued [of "uuidCount s" t] by (simp add: opened_def ledger_frame_def)
  ultimately show ?thesis
    using inv fr ledger_frame_issued [OF fr] unfolding ledger_inv_def
    by (auto simp: ledger_frame_def intro: ledger_ok_mono)
qed

lemma ledger_frame_log: "log_ext u t \<Longrightarrow> ledger_frame s u \<Longrightarrow> ledger_frame s t"
  by (rule ledger_frame_trans [OF _ log_ext_frame])

lemma accounts_ok_id: "accounts_ok A L \<Longrightarrow> jmGet (lg_accounts L) k = Some a \<Longrightarrow> la_ledgerAccountId a = k"
  unfolding accounts_ok_def by blast

lemma ledger_inv_accounts: "ledger_inv s \<Longrightarrow> accounts_ok (issued s ''ledger_account'') (ledger s)"
  by (simp add: ledger_inv_def ledger_ok_def)

lemma ledger_inv_transactions:
  "ledger_inv s \<Longrightarrow> transactions_ok (issued s ''ledger_transaction'') (ledger s)"
  by (simp add: ledger_inv_def ledger_ok_def)

lemma wp_openAccount:
  assumes inv: "ledger_inv s"
  shows "wp (LedgerService_openAccount oty oid asset aty side subj nowArg)
    (\<lambda>a t. ledger_frame s t \<and> (ledger t = ledger s \<or> opened s a t) \<and>
       jmGet (lg_accounts (ledger t)) (la_ledgerAccountId a) = Some a)
    (\<lambda>e t. ledger_frame s t \<and> ((\<exists>a. opened s a t) \<or> ledger t = ledger s)) s"
proof -
  note acc = ledger_inv_accounts [OF inv]
  show ?thesis
    unfolding LedgerService_openAccount_def LedgerService_requireAccount_def createLedgerAccount_def
    by (auto simp: wp_simps Let_def ledger_frame_def dest: accounts_ok_id [OF acc] intro: openedI
        intro!: wp_emitI dest!: log_ext_ledgerD split: option.split sum.split)
      (rule exI, rule openedI, assumption, simp_all)+
qed

text \<open>What the callback of \<open>entries.map\<close> has checked when it returns.\<close>

definition entry_requested :: "ledger_entry_input \<Rightarrow> normalized_entry \<Rightarrow> bool" where
  "entry_requested i n \<longleftrightarrow> in_ledgerAccountId i = JStr (ne_ledgerAccountId n) \<and>
     assertEnumValue ''direction'' (in_direction i) LedgerEntryDirection_values = Inr (ne_direction n) \<and>
     assertPositiveMinorUnits amountMinorName (in_amountMinor i) = Inr (ne_amountMinor n)"

definition entry_posted :: "ledger_entry_input \<Rightarrow> ledger_entry \<Rightarrow> bool" where
  "entry_posted i e \<longleftrightarrow> in_ledgerAccountId i = JStr (le_ledgerAccountId e) \<and>
     assertEnumValue ''direction'' (in_direction i) LedgerEntryDirection_values = Inr (le_direction e) \<and>
     assertPositiveMinorUnits amountMinorName (in_amountMinor i) = Inr (le_amountMinor e)"

lemma normalizeEntries_Inr:
  assumes "normalizeEntries L asset q seen es = Inr ns"
  shows "list_all2 entry_requested es ns \<and> distinct (map ne_ledgerAccountId ns) \<and>
    set (map ne_ledgerAccountId ns) \<inter> set seen = {} \<and> map ne_sequence ns = [q..<q + length ns] \<and>
    (\<forall>n\<in>set ns. 0 < ne_amountMinor n \<and>
       (\<exists>a. jmGet (lg_accounts L) (ne_ledgerAccountId n) = Some a \<and> la_assetId a = asset \<and>
            la_status a = LedgerAccount_ACTIVE))"
  using assms
proof (induction es arbitrary: q seen ns)
  case Nil
  then show ?case by simp
next
  case (Cons e es)
  from Cons.prems obtain x d m a more where
    x: "assertNonEmptyString ''ledgerAccountId'' (in_ledgerAccountId e) = Inr x"
    and d: "assertEnumValue ''direction'' (in_direction e) LedgerEntryDirection_values = Inr d"
    and m: "assertPositiveMinorUnits amountMinorName (in_amountMinor e) = Inr m"
    and a: "x \<notin> set seen" "jmGet (lg_accounts L) x = Some a" "la_status a = LedgerAccount_ACTIVE"
      "la_assetId a = asset"
    and more: "normalizeEntries L asset (Suc q) (x # seen) es = Inr more"
    and ns: "ns = \<lparr>ne_ledgerAccountId = x, ne_direction = d, ne_amountMinor = m, ne_sequence = q\<rparr> # more"
    by (auto simp: bindR_Inr split: option.splits)
  from Cons.IH [OF more] x d m a show ?case
    unfolding ns by (auto simp: entry_requested_def assertNonEmptyString_Inr assertPositive_Inr upt_conv_Cons simp del: upt_Suc)
qed

lemma wp_createEntries:
  assumes "\<And>es. list_all2 (entry_matches txId) ns es \<Longrightarrow>
      Q es (s\<lparr>uuidCount := uuidCount s + length ns\<rparr>)"
  shows "wp (mapM (createLedgerEntry txId now) ns) Q E s"
  using assms
proof (induction ns arbitrary: s Q)
  case Nil
  then show ?case by (simp add: wp_simps)
next
  case (Cons n ns)
  show ?case
    unfolding mapM.simps wp_simps
    by (subst createLedgerEntry_def, unfold wp_simps, rule Cons.IH)
      (use Cons.prems in \<open>auto simp: entry_matches_def\<close>)
qed

lemma list_all2_posted:
  "list_all2 entry_requested ins ns \<Longrightarrow> list_all2 (entry_matches i) ns es \<Longrightarrow> list_all2 entry_posted ins es"
  using list_all2_trans [of entry_requested "entry_matches i" entry_posted]
  by (auto simp: entry_requested_def entry_matches_def entry_posted_def)

lemma validatePosting_Inr:
  assumes "validatePosting L a = Inr q"
  obtains ins where "pa_entries a = Some ins" and "2 \<le> length ins"
    and "normalizeEntries L (rq_assetId q) 0 [] ins = Inr (rq_normalizedEntries q)"
    and "directionTotal Entry_DEBIT (rq_normalizedEntries q) =
      directionTotal Entry_CREDIT (rq_normalizedEntries q)"
    and "pa_idempotencyKey a = JStr (rq_idempotencyKey q)" and "pa_assetId a = JStr (rq_assetId q)"
    and "pa_transactionType a = JStr (rq_transactionType q)"
    and "pa_referenceType a = JStr (rq_referenceType q)" and "pa_referenceId a = JStr (rq_referenceId q)"
  using assms
  by (auto simp: validatePosting_def bindR_Inr Let_def assertNonEmptyString_Inr split: option.splits)

text \<open>The request is read against the accounts only, so it stays valid as transactions are added.\<close>

lemma normalizeEntries_cong:
  "lg_accounts L = lg_accounts L' \<Longrightarrow> normalizeEntries L asset q seen es = normalizeEntries L' asset q seen es"
  by (induction es arbitrary: q seen) (auto cong: option.case_cong)

lemma validatePosting_cong:
  assumes "lg_accounts L = lg_accounts L'"
  shows "validatePosting L a = validatePosting L' a"
  unfolding validatePosting_def using normalizeEntries_cong [OF assms] by (simp cong: option.case_cong)

text \<open>The transaction record a request leads to.\<close>

definition transaction_for :: "runtime \<Rightarrow> posting_request \<Rightarrow> ledger_transaction \<Rightarrow> bool" where
  "transaction_for r q tx \<longleftrightarrow> lt_transactionHash tx = requestHash r q \<and>
     lt_idempotencyKey tx = rq_idempotencyKey q \<and> lt_transactionType tx = rq_transactionType q \<and>
     lt_assetId tx = rq_assetId q \<and> lt_referenceType tx = rq_referenceType q \<and>
     lt_referenceId tx = rq_referenceId q \<and>
     lt_debitTotalMinor tx = directionTotal Entry_DEBIT (rq_normalizedEntries q) \<and>
     lt_creditTotalMinor tx = directionTotal Entry_CREDIT (rq_normalizedEntries q)"

lemma posting_okI:
  assumes val: "validatePosting L a = Inr q" and tx: "transaction_for r q t"
    and matches: "list_all2 (entry_matches (lt_ledgerTransactionId t)) (rq_normalizedEntries q) es"
  shows "posting_ok L t es \<and> (\<exists>ins. pa_entries a = Some ins \<and> list_all2 entry_posted ins es) \<and>
    map le_sequence es = [0..<length es]"
proof -
  let ?ns = "rq_normalizedEntries q"
  obtain ins where ins: "pa_entries a = Some ins" "2 \<le> length ins"
    "normalizeEntries L (lt_assetId t) 0 [] ins = Inr ?ns"
    "directionTotal Entry_DEBIT ?ns = directionTotal Entry_CREDIT ?ns"
    using val tx by (auto simp: transaction_for_def elim: validatePosting_Inr)
  note norm = normalizeEntries_Inr [OF ins(3)]
  note m = entryTotal_matches [OF matches] accounts_matches [OF matches] ids_matches [OF matches]
  have seq: "map le_sequence es = map ne_sequence ?ns"
    using matches by (induction rule: list_all2_induct) (auto simp: entry_matches_def)
  have len: "length es = length ?ns" "length ?ns = length ins"
    using matches norm by (auto dest: list_all2_lengthD)
  have "0 < le_amountMinor e \<and> entryAsset L e = Some (lt_assetId t)" if "e \<in> set es" for e
  proof -
    from that matches obtain n where "n \<in> set ?ns" "entry_matches (lt_ledgerTransactionId t) n e"
      by (metis list_all2_conv_all_nth in_set_conv_nth)
    with norm show ?thesis by (force simp: entry_matches_def entryAsset_def)
  qed
  moreover have "list_all2 entry_posted ins es"
    using list_all2_posted norm matches by blast
  ultimately show ?thesis using m norm seq ins len tx by (auto simp: posting_ok_def transaction_for_def)
qed

text \<open>A posting: one new transaction whose entries are those requested.\<close>

definition posted ::
  "post_args \<Rightarrow> 'z ledger_world_scheme \<Rightarrow> ledger_transaction \<Rightarrow> ledger_entry list \<Rightarrow>
   'z ledger_world_scheme \<Rightarrow> bool" where
  "posted a s tx es t \<longleftrightarrow>
     (\<exists>q. validatePosting (ledger s) a = Inr q \<and> transaction_for (rt s) q tx) \<and>
     lt_ledgerTransactionId tx = opId (rt s) ''ledger_transaction'' (uuidCount s) \<and>
     uuidCount s < uuidCount t \<and> posting_ok (ledger s) tx es \<and>
     (\<exists>ins. pa_entries a = Some ins \<and> list_all2 entry_posted ins es) \<and>
     map le_sequence es = [0..<length es] \<and>
     jmGet (lg_transactionIdsByIdempotencyKey (ledger s)) (lt_idempotencyKey tx) = None \<and>
     ledger t = addTransaction tx es (ledger s)"

lemma postedI:
  assumes "validatePosting (ledger s) a = Inr q" and "transaction_for (rt s) q tx"
    and "list_all2 (entry_matches (lt_ledgerTransactionId tx)) (rq_normalizedEntries q) es"
    and "lt_ledgerTransactionId tx = opId (rt s) ''ledger_transaction'' (uuidCount s)"
    and "uuidCount s < uuidCount t"
    and "jmGet (lg_transactionIdsByIdempotencyKey (ledger s)) (lt_idempotencyKey tx) = None"
    and "ledger t = addTransaction tx es (ledger s)"
  shows "posted a s tx es t"
  using posting_okI [OF assms(1-3)] assms by (auto simp: posted_def)

lemma posted_inv:
  assumes inv: "ledger_inv s" and fr: "ledger_frame s t" and po: "posted a s tx es t"
  shows "ledger_inv t"
proof -
  let ?A = "issued s ''ledger_account''" and ?T = "issued s ''ledger_transaction''"
  have "lt_ledgerTransactionId tx \<notin> ?T"
    using inv po issued_fresh [of s] by (simp add: ledger_inv_def posted_def)
  then have "ledger_ok ?A (insert (lt_ledgerTransactionId tx) ?T) (ledger t)"
    using ledger_ok_addTransaction [of ?A ?T "ledger s" tx es] inv po
    by (simp add: ledger_inv_def posted_def)
  moreover have "lt_ledgerTransactionId tx \<in> issued t ''ledger_transaction''"
    using fr po opId_issued [of "uuidCount s" t] by (simp add: posted_def ledger_frame_def)
  ultimately show ?thesis
    using inv fr ledger_frame_issued [OF fr] unfolding ledger_inv_def
    by (auto simp: ledger_frame_def intro: ledger_ok_mono)
qed

lemma posted_entries:
  assumes inv: "ledger_inv s" and po: "posted a s tx es t"
  shows "js_sort (\<lambda>a b. int (le_sequence a) - int (le_sequence b))
      (filter (\<lambda>e. le_ledgerTransactionId e = lt_ledgerTransactionId tx) (lg_entries (ledger t))) = es"
proof -
  have "lt_ledgerTransactionId tx \<notin> issued s ''ledger_transaction''"
    using inv po issued_fresh [of s] by (simp add: ledger_inv_def posted_def)
  then have "entriesOf (ledger t) (lt_ledgerTransactionId tx) = es"
    using entriesOf_addTransaction inv po
    by (auto simp: posted_def ledger_inv_def ledger_ok_def posting_ok_def)
  moreover have "sorted (map le_sequence es)" using po by (simp add: posted_def)
  then have "sorted_wrt (\<lambda>a b. int (le_sequence a) - int (le_sequence b) \<le> 0) es"
    by (simp add: sorted_map)
  ultimately show ?thesis by (simp add: entriesOf_def js_sort_sorted)
qed

lemma wp_recordTransaction:
  assumes inv: "ledger_inv s" and fr: "ledger_frame s u" and same: "ledger u = ledger s"
    and uuid: "uuidCount s < uuidCount u"
    and new: "\<And>es t. list_all2 (entry_matches (lt_ledgerTransactionId tx)) ns es \<Longrightarrow>
      ledger t = addTransaction tx es (ledger s) \<Longrightarrow> uuidCount s < uuidCount t \<Longrightarrow> posted a s tx es t"
  shows "wp (recordTransaction a tx ns now)
    (\<lambda>p t. ledger_frame s t \<and> \<not> po_replayed p \<and>
       (\<exists>es. posted a s tx es t \<and> po_transaction p = (tx, es)))
    (\<lambda>e t. ledger_frame s t \<and> (\<exists>es. posted a s tx es t)) u"
proof -
  have "wp (LedgerService_getTransaction (lt_ledgerTransactionId tx))
      (\<lambda>x u. u = t \<and> x = (tx, es)) (\<lambda>e t. False) t"
    if "posted a s tx es t" for es t
    using posted_entries [OF inv that] that
    by (auto simp: LedgerService_getTransaction_def wp_simps posted_def addTransaction_def)
  note get = this
  have after: "ledger_frame s t \<and> posted a s tx es t"
    if "list_all2 (entry_matches (lt_ledgerTransactionId tx)) ns es"
      and "log_ext (u\<lparr>uuidCount := uuidCount u + length ns, ledger := addTransaction tx es (ledger u)\<rparr>) t"
    for es t
  proof
    from that(2) have t: "ledger t = addTransaction tx es (ledger s)" "uuidCount s < uuidCount t"
      using uuid same by (auto dest!: log_ext_ledgerD)
    show "posted a s tx es t" by (rule new [OF that(1) t])
    have "ledger_frame u (u\<lparr>uuidCount := uuidCount u + length ns, ledger := addTransaction tx es (ledger u)\<rparr>)"
      by (simp add: ledger_frame_def)
    then show "ledger_frame s t" using fr that(2) ledger_frame_log ledger_frame_trans by blast
  qed
  have st: "ledger_update (lg_entries_update (\<lambda>x. x @ es))
        (ledger_update (lg_transactionIdsByIdempotencyKey_update
            (jmSet (lt_idempotencyKey tx) (lt_ledgerTransactionId tx)))
          (ledger_update (lg_transactions_update (jmSet (lt_ledgerTransactionId tx) tx)) v)) =
      v\<lparr>ledger := addTransaction tx es (ledger v)\<rparr>" for es and v :: "'a ledger_world_scheme"
    by (simp add: addTransaction_def)
  show ?thesis
    unfolding recordTransaction_def Let_def wp_simps st
    apply (rule wp_createEntries, rule wp_emitI)
    subgoal for es t
      using after [of es t] get [of es t]
      by (auto simp: st elim!: wp_conseq)
    subgoal for es e t using after [of es t] by (auto simp: st)
    done
qed

lemma wp_nowOr_ledger:
  assumes "\<And>now u. ledger_frame s u \<Longrightarrow> ledger u = ledger s \<Longrightarrow> uuidCount u = uuidCount s \<Longrightarrow> rt u = rt s \<Longrightarrow> Q now u"
  shows "wp (nowOr n) Q E s"
  using assms by (auto simp: wp_simps ledger_frame_def split: option.split)

lemma wp_postTransaction:
  assumes inv: "ledger_inv s"
  shows "wp (LedgerService_postTransaction a)
    (\<lambda>p t. ledger_frame s t \<and>
       (if po_replayed p
        then ledger t = ledger s \<and> (\<exists>q. validatePosting (ledger s) a = Inr q \<and>
          jmGet (lg_transactionIdsByIdempotencyKey (ledger s)) (rq_idempotencyKey q) =
            Some (lt_ledgerTransactionId (fst (po_transaction p))) \<and>
          jmGet (lg_transactions (ledger s)) (lt_ledgerTransactionId (fst (po_transaction p))) =
            Some (fst (po_transaction p)) \<and>
          lt_transactionHash (fst (po_transaction p)) = requestHash (rt s) q \<and>
          po_transaction p = readTransaction (ledger s) (fst (po_transaction p)))
        else posted a s (fst (po_transaction p)) (snd (po_transaction p)) t))
    (\<lambda>e t. ledger_frame s t \<and> ((\<exists>tx es. posted a s tx es t) \<or> ledger t = ledger s)) s"
proof -
  note tx = ledger_inv_transactions [OF inv]
  have index: "\<exists>t. jmGet (lg_transactions (ledger s)) i = Some t \<and> lt_ledgerTransactionId t = i"
    if "jmGet (lg_transactionIdsByIdempotencyKey (ledger s)) key = Some i" for key i
    using transactions_ok_index [OF tx that] transactions_okD [OF tx] by blast
  show ?thesis
    unfolding LedgerService_postTransaction_def
    apply (rule wp_bindI, rule wp_nowOr_ledger)
    apply (auto simp: LedgerService_getTransaction_def createLedgerTransaction_def wp_simps
        requestHash_def [symmetric] readTransaction_def dest: index split: option.split sum.split)
    apply (rule wp_conseq, rule wp_recordTransaction [OF inv])
    apply (auto simp: ledger_frame_def)[3]
    subgoal for now u q es t
      by (rule postedI [of s a q]) (simp_all add: transaction_for_def)
    apply auto
    done
qed

lemma preserves_openAccount: "preserves ledger_inv (LedgerService_openAccount oty oid asset aty side subj now)"
  by (rule preservesI, rule wp_conseq, erule wp_openAccount) (auto intro: opened_inv ledger_inv_frame)

lemma preserves_postTransaction: "preserves ledger_inv (LedgerService_postTransaction a)"
  by (rule preservesI, rule wp_conseq, erule wp_postTransaction)
    (auto intro: posted_inv ledger_inv_frame split: if_splits)

subsection \<open>Reachable ledgers\<close>

text \<open>
  The ledger moves by its two commands; in between, the other services read the clock and append to
  the shared log.
\<close>

inductive ledger_step :: "'z ledger_world_scheme \<Rightarrow> 'z ledger_world_scheme \<Rightarrow> bool" where
  open_account: "LedgerService_openAccount oty oid asset aty side subj now s = (r, t) \<Longrightarrow> ledger_step s t"
| post_transaction: "LedgerService_postTransaction a s = (p, t) \<Longrightarrow> ledger_step s t"
| log_append: "log_ext s t \<Longrightarrow> ledger_step s t"

lemma ledger_inv_step:
  assumes inv: "ledger_inv s" and step: "ledger_step s t"
  shows "ledger_inv t"
  using step
proof cases
  case open_account
  then show ?thesis using preserves_openAccount inv unfolding preserves_def by (metis snd_conv)
next
  case post_transaction
  then show ?thesis using preserves_postTransaction inv unfolding preserves_def by (metis snd_conv)
next
  case log_append
  then show ?thesis using log_stable_ledger_inv inv by (auto simp: log_stable_def)
qed

interpretation ledger_ts: transition_system ledger_step ledger_inv
  by unfold_locales (rule ledger_inv_step)

definition ledger_init :: "'z ledger_world_scheme \<Rightarrow> bool" where
  "ledger_init s \<longleftrightarrow> ledger s = ledger_empty \<and> uuid_unique (rt s)"

lemma ledger_init_inv: "ledger_init s \<Longrightarrow> ledger_inv s"
  by (simp add: ledger_init_def ledger_inv_def ledger_ok_empty)

subsection \<open>Balances\<close>

lemma turnover_addTransaction:
  "turnover (addTransaction t es L) acct d =
    turnover L acct d + entryTotal d (filter (\<lambda>e. le_ledgerAccountId e = acct) es)"
  by (simp add: turnover_def addTransaction_def entryTotal_def conj_commute)

lemma turnover_nonneg: "entries_ok L \<Longrightarrow> 0 \<le> turnover L acct d"
  unfolding turnover_def by (rule sum_list_nonneg) (auto simp: entries_ok_def)

definition accountBalance :: "ledger_state \<Rightarrow> ledger_account \<Rightarrow> int" where
  "accountBalance L a =
     (let debits = turnover L (la_ledgerAccountId a) Entry_DEBIT;
          credits = turnover L (la_ledgerAccountId a) Entry_CREDIT
      in if la_normalSide a = Normal_DEBIT then debits - credits else credits - debits)"

lemma getAccountBalance_run:
  assumes "ledger_inv s" and "jmGet (lg_accounts (ledger s)) i = Some a"
  shows "LedgerService_getAccountBalance i s = (Inr (accountBalance (ledger s) a), s)"
  using assms accounts_ok_id [OF ledger_inv_accounts [OF assms(1)] assms(2)]
  by (simp add: LedgerService_getAccountBalance_def LedgerService_getAccountTurnover_def
      LedgerService_requireAccount_def bindM_def thenM_def getsM_def returnM_def accountBalance_def Let_def)

text \<open>The accounts of an asset, and the sum of a side over them.\<close>

definition assetAccounts :: "ledger_state \<Rightarrow> string \<Rightarrow> ledger_account list" where
  "assetAccounts L asset = filter (\<lambda>a. la_assetId a = asset) (jmValues (lg_accounts L))"

lemma listAccounts_asset:
  "LedgerService_listAccounts r [(''assetId'', JStr asset)] L = assetAccounts L asset"
  unfolding LedgerService_listAccounts_def assetAccounts_def
  by (rule filter_cong) (auto simp: matchesFilter_def ledger_account_field_def)

lemma accounts_ok_values:
  assumes "accounts_ok A L"
  shows "map la_ledgerAccountId (jmValues (lg_accounts L)) = map fst (lg_accounts L)"
proof -
  have "la_ledgerAccountId a = k" if "(k, a) \<in> set (lg_accounts L)" for k a
    using assms that by (auto simp: accounts_ok_def intro: map_of_is_SomeI)
  then show ?thesis by (auto simp: jmValues_def)
qed

lemma entryAsset_iff:
  assumes "accounts_ok A L"
  shows "entryAsset L e = Some asset \<longleftrightarrow> le_ledgerAccountId e \<in> la_ledgerAccountId ` set (assetAccounts L asset)"
proof
  assume "entryAsset L e = Some asset"
  then obtain a where "jmGet (lg_accounts L) (le_ledgerAccountId e) = Some a" "la_assetId a = asset"
    by (auto simp: entryAsset_def)
  with accounts_ok_id [OF assms] show "le_ledgerAccountId e \<in> la_ledgerAccountId ` set (assetAccounts L asset)"
    by (force simp: assetAccounts_def dest: jmGet_in_jmValues)
next
  assume "le_ledgerAccountId e \<in> la_ledgerAccountId ` set (assetAccounts L asset)"
  then obtain a k where a: "(k, a) \<in> set (lg_accounts L)" "la_assetId a = asset"
      "le_ledgerAccountId e = la_ledgerAccountId a"
    by (auto simp: assetAccounts_def jmValues_def)
  then have "jmGet (lg_accounts L) k = Some a" using assms by (auto simp: accounts_ok_def intro: map_of_is_SomeI)
  with a accounts_ok_id [OF assms] show "entryAsset L e = Some asset" by (auto simp: entryAsset_def)
qed

lemma sum_by_account:
  assumes "distinct ks"
  shows "(\<Sum>k\<leftarrow>ks. sum_list (map f (filter (\<lambda>e. key e = k \<and> P e) es))) =
    sum_list (map (f :: 'a \<Rightarrow> int) (filter (\<lambda>e. key e \<in> set ks \<and> P e) es))"
proof (induction es)
  case Nil
  then show ?case by (induction ks) auto
next
  case (Cons e es)
  have "(\<Sum>k\<leftarrow>ks. sum_list (map f (filter (\<lambda>e. key e = k \<and> P e) (e # es)))) =
      (\<Sum>k\<leftarrow>ks. (if key e = k \<and> P e then f e else 0) + sum_list (map f (filter (\<lambda>e. key e = k \<and> P e) es)))"
    by (rule arg_cong [where f = sum_list]) auto
  also have "\<dots> = (\<Sum>k\<leftarrow>ks. if key e = k \<and> P e then f e else 0) +
      (\<Sum>k\<leftarrow>ks. sum_list (map f (filter (\<lambda>e. key e = k \<and> P e) es)))"
    by (simp add: sum_list_addf)
  also have "(\<Sum>k\<leftarrow>ks. if key e = k \<and> P e then f e else 0) = (if key e \<in> set ks \<and> P e then f e else 0)"
    using assms by (induction ks) auto
  finally show ?case using Cons.IH by simp
qed

lemma assetTotal_turnover:
  assumes "accounts_ok A L"
  shows "assetTotal L d asset = (\<Sum>a\<leftarrow>assetAccounts L asset. turnover L (la_ledgerAccountId a) d)"
proof -
  let ?ks = "map la_ledgerAccountId (assetAccounts L asset)"
  have "distinct (map la_ledgerAccountId (jmValues (lg_accounts L)))"
    using assms accounts_ok_values [OF assms] by (simp add: accounts_ok_def)
  then have "distinct ?ks"
    unfolding assetAccounts_def by (simp add: distinct_map_filter)
  then have "(\<Sum>k\<leftarrow>?ks. turnover L k d) = sum_list (map le_amountMinor
      (filter (\<lambda>e. le_ledgerAccountId e \<in> set ?ks \<and> le_direction e = d) (lg_entries L)))"
    unfolding turnover_def by (rule sum_by_account)
  also have "\<dots> = assetTotal L d asset"
    by (simp add: assetTotal_def entryTotal_def entryAsset_iff [OF assms] conj_commute)
  finally show ?thesis by (simp add: comp_def)
qed

lemma not_debit: "d \<noteq> Entry_DEBIT \<longleftrightarrow> d = Entry_CREDIT"
  by (cases d) auto

lemma wp_openAccount_key:
  assumes inv: "ledger_inv s"
  shows "wp (LedgerService_openAccount oty oid asset aty side subj nowArg)
    (\<lambda>a t. \<exists>oty' oid' asset' aty'. assertNonEmptyString ''ownerType'' oty = Inr oty' \<and>
       assertNonEmptyString ''ownerId'' oid = Inr oid' \<and> assertNonEmptyString ''assetId'' asset = Inr asset' \<and>
       assertEnumValue ''accountType'' aty LedgerAccountType_values = Inr aty' \<and>
       assertEnumValue ''normalSide'' side LedgerNormalSide_values = Inr (la_normalSide a) \<and>
       jmGet (lg_accountIdsByNaturalKey (ledger t)) (ledgerNaturalKey oty' oid' asset' aty') = Some (la_ledgerAccountId a) \<and>
       jmGet (lg_accounts (ledger t)) (la_ledgerAccountId a) = Some a)
    (\<lambda>e t. True) s"
  unfolding LedgerService_openAccount_def LedgerService_requireAccount_def createLedgerAccount_def
  by (auto simp: wp_simps Let_def dest: accounts_ok_id [OF ledger_inv_accounts [OF inv]]
      intro!: wp_emitI dest!: log_ext_ledger split: option.split sum.split)

subsection \<open>The ledger as its clients see it\<close>

text \<open>
  A client of the ledger needs its invariant and how a posting moves the turnovers: a posting that
  returns as new, or that fails after it was recorded, moves them by its entries; every other outcome
  leaves them alone. From this contract alone, a two-legged transfer moves one amount between two
  accounts.
\<close>

definition entries_moved ::
  "post_args \<Rightarrow> (string \<Rightarrow> LedgerEntryDirection \<Rightarrow> int) \<Rightarrow> (string \<Rightarrow> LedgerEntryDirection \<Rightarrow> int) \<Rightarrow> bool" where
  "entries_moved a before after \<longleftrightarrow> (\<exists>ins es. pa_entries a = Some ins \<and> list_all2 entry_posted ins es \<and>
     (\<forall>acct d. after acct d = before acct d + entryTotal d (filter (\<lambda>e. le_ledgerAccountId e = acct) es)))"

definition transferred ::
  "string \<Rightarrow> string \<Rightarrow> int \<Rightarrow> (string \<Rightarrow> LedgerEntryDirection \<Rightarrow> int) \<Rightarrow>
   (string \<Rightarrow> LedgerEntryDirection \<Rightarrow> int) \<Rightarrow> bool" where
  "transferred x y amount before after \<longleftrightarrow> (\<forall>acct d. after acct d = before acct d +
     (if acct = x \<and> d = Entry_DEBIT \<or> acct = y \<and> d = Entry_CREDIT then amount else 0))"

definition transferEntries :: "string \<Rightarrow> string \<Rightarrow> int \<Rightarrow> ledger_entry_input list" where
  "transferEntries x y amount =
     [\<lparr>in_ledgerAccountId = JStr x, in_direction = JStr ''debit'', in_amountMinor = JStr (dec amount)\<rparr>,
      \<lparr>in_ledgerAccountId = JStr y, in_direction = JStr ''credit'', in_amountMinor = JStr (dec amount)\<rparr>]"

locale posting_book =
  fixes ok :: "'s \<Rightarrow> bool"
    and mv :: "'s \<Rightarrow> string \<Rightarrow> LedgerEntryDirection \<Rightarrow> int"
    and post :: "post_args \<Rightarrow> ('s, posting) M"
  assumes post_spec: "ok s \<Longrightarrow> wp (post a)
      (\<lambda>p t. ok t \<and> (if po_replayed p then mv t = mv s else entries_moved a (mv s) (mv t)))
      (\<lambda>e t. ok t \<and> (entries_moved a (mv s) (mv t) \<or> mv t = mv s)) s"
begin

lemma transfer:
  assumes ok: "ok s" and entries: "pa_entries a = Some (transferEntries x y amount)"
    and amount: "toMinorUnitBigInt n (JStr (dec amount)) = Inr amount"
  shows "wp (post a)
    (\<lambda>p t. ok t \<and> (if po_replayed p then mv t = mv s else transferred x y amount (mv s) (mv t)))
    (\<lambda>e t. ok t \<and> (transferred x y amount (mv s) (mv t) \<or> mv t = mv s)) s"
proof -
  have any: "toMinorUnitBigInt m (JStr (dec amount)) = Inr amount" for m
    using amount by (auto simp: toMinorUnitBigInt_def split: if_splits)
  have "transferred x y amount (mv s) (mv t)" if "entries_moved a (mv s) (mv t)" for t
  proof -
    from that entries obtain es where es: "list_all2 entry_posted (transferEntries x y amount) es"
      and mv: "\<forall>acct d. mv t acct d = mv s acct d + entryTotal d (filter (\<lambda>e. le_ledgerAccountId e = acct) es)"
      by (auto simp: entries_moved_def)
    from es obtain e f where "es = [e, f]" "le_ledgerAccountId e = x" "le_direction e = Entry_DEBIT"
      "le_amountMinor e = amount" "le_ledgerAccountId f = y" "le_direction f = Entry_CREDIT" "le_amountMinor f = amount"
      by (auto simp: transferEntries_def list_all2_Cons1 entry_posted_def assertEnumValue_def
          LedgerEntryDirection_values_def assertPositive_Inr any)
    with mv show ?thesis by (auto simp: transferred_def entryTotal_def)
  qed
  then show ?thesis by (auto intro: wp_conseq [OF post_spec [OF ok]] split: if_splits)
qed

end

lemma posted_moved: "posted a s tx es t \<Longrightarrow> entries_moved a (turnover (ledger s)) (turnover (ledger t))"
  by (auto simp: posted_def entries_moved_def turnover_addTransaction)

interpretation ledger_book: posting_book ledger_inv "\<lambda>s. turnover (ledger s)" LedgerService_postTransaction
proof unfold_locales
  fix s :: "'a ledger_world_scheme" and a
  assume inv: "ledger_inv s"
  show "wp (LedgerService_postTransaction a)
      (\<lambda>p t. ledger_inv t \<and> (if po_replayed p then turnover (ledger t) = turnover (ledger s)
        else entries_moved a (turnover (ledger s)) (turnover (ledger t))))
      (\<lambda>e t. ledger_inv t \<and> (entries_moved a (turnover (ledger s)) (turnover (ledger t)) \<or>
        turnover (ledger t) = turnover (ledger s))) s"
    by (rule wp_conseq [OF wp_postTransaction [OF inv]])
      (auto intro: posted_inv [OF inv] ledger_inv_frame [OF inv] posted_moved split: if_splits)
qed

subsection \<open>A concrete ledger\<close>

definition demo_account :: "string \<Rightarrow> string \<Rightarrow> LedgerAccountType \<Rightarrow> LedgerNormalSide \<Rightarrow> ledger_account" where
  "demo_account i owner ty side =
     \<lparr>la_ledgerAccountId = i, la_ledgerAccountHash = ''0xh'', la_ownerType = ''lockbox'',
      la_ownerId = owner, la_assetId = ''USDC'', la_accountType = ty, la_normalSide = side,
      la_status = LedgerAccount_ACTIVE, la_openedAt = 1, la_schemaVersion = ''ledger_account.v1''\<rparr>"

definition demo_empty :: ledger_world where
  "demo_empty = \<lparr>rt = demo_runtime, uuidCount = 0, clockCount = 0, creditEvents = [], auditEvents = [],
     seenCreditIds = [], seenAuditIds = [], evidenceEnvelopes = [], aggregateVersions = [],
     ledger = ledger_empty\<rparr>"

definition demo_ledger :: ledger_world where
  "demo_ledger = demo_empty\<lparr>uuidCount := 2, ledger := ledger_empty\<lparr>lg_accounts :=
     [(''ledger_account_'', demo_account ''ledger_account_'' ''a'' LedgerType_LOCKBOX_ASSET Normal_DEBIT),
      (''ledger_account_u'', demo_account ''ledger_account_u'' ''b'' LedgerType_EXTERNAL_REVENUE Normal_CREDIT)]\<rparr>\<rparr>"

definition demo_post :: "string \<Rightarrow> string \<Rightarrow> post_args" where
  "demo_post key credit =
     \<lparr>pa_idempotencyKey = JStr key, pa_transactionType = JStr ''transfer'', pa_assetId = JStr ''USDC'',
      pa_entries = Some
        [\<lparr>in_ledgerAccountId = JStr ''ledger_account_'', in_direction = JStr ''debit'',
          in_amountMinor = JStr ''250''\<rparr>,
         \<lparr>in_ledgerAccountId = JStr ''ledger_account_u'', in_direction = JStr ''credit'',
          in_amountMinor = JStr credit\<rparr>],
      pa_referenceType = JStr ''obligation'', pa_referenceId = JStr ''o1'', pa_subjectId = JStr ''s1'',
      pa_metadata = JUndefined, pa_now = Some 2\<rparr>"

definition demo_request :: posting_request where
  "demo_request =
     \<lparr>rq_idempotencyKey = ''k'', rq_transactionType = ''transfer'', rq_assetId = ''USDC'',
      rq_referenceType = ''obligation'', rq_referenceId = ''o1'', rq_metadata = JObj [],
      rq_normalizedEntries =
        [\<lparr>ne_ledgerAccountId = ''ledger_account_'', ne_direction = Entry_DEBIT, ne_amountMinor = 250,
          ne_sequence = 0\<rparr>,
         \<lparr>ne_ledgerAccountId = ''ledger_account_u'', ne_direction = Entry_CREDIT, ne_amountMinor = 250,
          ne_sequence = 1\<rparr>]\<rparr>"

lemma demo_validate: "validatePosting (ledger demo_ledger) (demo_post ''k'' ''250'') = Inr demo_request"
  by code_simp

lemma demo_ledger_inv: "ledger_inv demo_ledger"
proof -
  have "issued demo_ledger ''ledger_account'' = {''ledger_account_'', ''ledger_account_u''}"
    by (auto simp: issued_def demo_ledger_def demo_empty_def eval_simps lessThan_nat_numeral)
  then show ?thesis
    by (simp add: ledger_inv_def ledger_ok_def accounts_ok_def transactions_ok_def entries_ok_def
        assets_balanced_def assetTotal_def entryTotal_def)
      (simp add: demo_ledger_def demo_empty_def ledger_empty_def demo_account_def)
qed

lemma demo_ledger_sel:
  "rt demo_ledger = demo_runtime" "uuidCount demo_ledger = 2" "seenCreditIds demo_ledger = []"
  "aggregateVersions demo_ledger = []" "lg_transactions (ledger demo_ledger) = []"
  "lg_transactionIdsByIdempotencyKey (ledger demo_ledger) = []" "lg_entries (ledger demo_ledger) = []"
  "pa_now (demo_post k c) = Some 2" "pa_subjectId (demo_post k c) = JStr ''s1''"
  by (simp_all add: demo_ledger_def demo_empty_def ledger_empty_def demo_post_def)

lemmas ledger_eval = LedgerService_postTransaction_def createLedgerTransaction_def recordTransaction_def
  LedgerService_getTransaction_def createLedgerEntry_def requestHash_def ledgerTransactionHash_def
  directionTotal_def

lemma demo_run:
  "\<exists>p t. LedgerService_postTransaction (demo_post ''k'' ''250'') demo_ledger = (Inr p, t) \<and> \<not> po_replayed p"
  by (simp add: ledger_eval demo_validate demo_ledger_sel eval_simps demo_request_def cong: eval_congs)

subsection \<open>What the ledger guarantees\<close>

text \<open>
  C1. Every ledger reachable from an empty one by opening accounts and posting transactions, whether
  the calls return or throw and whatever else is appended to the log meanwhile, satisfies
  \<open>ledger_inv\<close>: indexes are consistent, entries are positive and belong to a stored account and
  transaction of the same asset, and every transaction and every asset balances.
\<close>

theorem ledger_reachable_inv:
  assumes "ledger_init s" and "rtranclp ledger_step s t"
  shows "ledger_inv t"
  using assms ledger_init_inv ledger_ts.inv_run by blast

theorem ledger_reachable_inv_witness:
  "ledger_inv (snd (LedgerService_postTransaction (demo_post ''k'' ''250'')
     (snd (LedgerService_openAccount (JStr ''lockbox'') (JStr ''a'') (JStr ''USDC'')
        (JStr ''lockbox_asset'') (JStr ''debit'') (JStr ''s1'') None demo_empty))))"
    (is "ledger_inv (snd (?post (snd (?open demo_empty))))")
proof (rule ledger_reachable_inv)
  show "ledger_init demo_empty" by (simp add: ledger_init_def demo_empty_def)
  have "ledger_step demo_empty (snd (?open demo_empty))"
    by (rule ledger_step.open_account) (rule surjective_pairing)
  moreover have "ledger_step (snd (?open demo_empty)) (snd (?post (snd (?open demo_empty))))"
    by (rule ledger_step.post_transaction) (rule surjective_pairing)
  ultimately show "rtranclp ledger_step demo_empty (snd (?post (snd (?open demo_empty))))"
    by simp
qed

text \<open>
  C2. A posting that is accepted as new adds exactly one transaction, with one entry per requested
  entry (same account, direction and amount, in the requested order), whose debits equal its credits;
  it is indexed under the request's idempotency key, and every account's turnover grows by exactly
  the amounts of its entries.
\<close>

theorem posting_effect:
  assumes inv: "ledger_inv s" and run: "LedgerService_postTransaction a s = (Inr p, t)"
    and new: "\<not> po_replayed p"
  shows "\<exists>tx es ins. po_transaction p = (tx, es) \<and> ledger t = addTransaction tx es (ledger s) \<and>
    jmGet (lg_transactions (ledger t)) (lt_ledgerTransactionId tx) = Some tx \<and>
    pa_idempotencyKey a = JStr (lt_idempotencyKey tx) \<and>
    jmGet (lg_transactionIdsByIdempotencyKey (ledger s)) (lt_idempotencyKey tx) = None \<and>
    pa_entries a = Some ins \<and> list_all2 entry_posted ins es \<and> 2 \<le> length es \<and>
    entryTotal Entry_DEBIT es = entryTotal Entry_CREDIT es \<and> 0 < entryTotal Entry_DEBIT es + entryTotal Entry_CREDIT es \<and>
    (\<forall>acct d. turnover (ledger t) acct d =
       turnover (ledger s) acct d + entryTotal d (filter (\<lambda>e. le_ledgerAccountId e = acct) es))"
proof -
  obtain tx es where p: "po_transaction p = (tx, es)" by fastforce
  then have po: "posted a s tx es t" using wp_Inr [OF wp_postTransaction [OF inv] run] new by simp
  then obtain q ins where q: "validatePosting (ledger s) a = Inr q" "transaction_for (rt s) q tx"
    and ins: "pa_entries a = Some ins" "list_all2 entry_posted ins es" by (auto simp: posted_def)
  from q have "pa_idempotencyKey a = JStr (lt_idempotencyKey tx)"
    by (auto simp: transaction_for_def elim: validatePosting_Inr)
  moreover have "0 < entryTotal Entry_DEBIT es + entryTotal Entry_CREDIT es"
  proof -
    have "\<forall>e\<in>set es. 0 < le_amountMinor e" "es \<noteq> []" using po by (auto simp: posted_def posting_ok_def)
    moreover have "entryTotal Entry_DEBIT es + entryTotal Entry_CREDIT es = sum_list (map le_amountMinor es)"
      by (induction es) (auto simp: entryTotal_def intro: LedgerEntryDirection.exhaust)
    ultimately show ?thesis by (cases es) (auto intro!: add_pos_nonneg sum_list_nonneg simp: less_imp_le)
  qed
  ultimately show ?thesis
    using po p ins by (auto simp: posted_def posting_ok_def turnover_addTransaction)
      (auto simp: addTransaction_def)
qed

theorem posting_effect_witness:
  "\<exists>p t. LedgerService_postTransaction (demo_post ''k'' ''250'') demo_ledger = (Inr p, t) \<and>
     \<not> po_replayed p \<and> turnover (ledger t) ''ledger_account_'' Entry_DEBIT = 250"
proof -
  obtain p t where run: "LedgerService_postTransaction (demo_post ''k'' ''250'') demo_ledger = (Inr p, t)"
    and new: "\<not> po_replayed p" using demo_run by blast
  from posting_effect [OF demo_ledger_inv run new] obtain tx es ins where
    t: "turnover (ledger t) ''ledger_account_'' Entry_DEBIT = turnover (ledger demo_ledger) ''ledger_account_'' Entry_DEBIT +
      entryTotal Entry_DEBIT (filter (\<lambda>e. le_ledgerAccountId e = ''ledger_account_'') es)"
    and ins: "pa_entries (demo_post ''k'' ''250'') = Some ins" "list_all2 entry_posted ins es" by blast
  have "toMinorUnitBigInt amountMinorName (JStr ''250'') = Inr 250" by code_simp
  with t ins have "turnover (ledger t) ''ledger_account_'' Entry_DEBIT = 250"
    by (auto simp: demo_post_def list_all2_Cons1 entry_posted_def assertEnumValue_def
        LedgerEntryDirection_values_def entryTotal_def turnover_def demo_ledger_sel assertPositive_Inr)
  with run new show ?thesis by blast
qed

text \<open>
  C3. Posting is idempotent: after any call that returned, repeating the call returns the same
  transaction with the same entries, flagged as a replay, and changes neither the ledger nor the log.
\<close>

theorem posting_replay:
  assumes inv: "ledger_inv s" and run: "LedgerService_postTransaction a s = (Inr p, t)"
  shows "\<exists>u. LedgerService_postTransaction a t = (Inr (p\<lparr>po_replayed := True\<rparr>), u) \<and>
    ledger u = ledger t \<and> log_unchanged t u"
proof -
  note spec = wp_Inr [OF wp_postTransaction [OF inv] run]
  obtain tx es where p: "po_transaction p = (tx, es)" by fastforce
  have rt: "rt t = rt s" using spec by (auto simp: ledger_frame_def split: if_splits)
  have "\<exists>q. validatePosting (ledger t) a = Inr q \<and> lt_transactionHash tx = requestHash (rt s) q \<and>
      jmGet (lg_transactionIdsByIdempotencyKey (ledger t)) (rq_idempotencyKey q) = Some (lt_ledgerTransactionId tx) \<and>
      jmGet (lg_transactions (ledger t)) (lt_ledgerTransactionId tx) = Some tx \<and>
      readTransaction (ledger t) tx = (tx, es)"
  proof (cases "po_replayed p")
    case True
    with spec p show ?thesis by auto
  next
    case False
    with spec p have po: "posted a s tx es t" by simp
    then obtain q where q: "validatePosting (ledger s) a = Inr q" "transaction_for (rt s) q tx"
      by (auto simp: posted_def)
    have t: "ledger t = addTransaction tx es (ledger s)" using po by (simp add: posted_def)
    have "validatePosting (ledger t) a = validatePosting (ledger s) a"
      by (rule validatePosting_cong) (simp add: t addTransaction_def)
    moreover have "readTransaction (ledger t) tx = (tx, es)"
      using posted_entries [OF inv po] by (simp add: readTransaction_def)
    ultimately show ?thesis using q t by (auto simp: transaction_for_def addTransaction_def)
  qed
  then show ?thesis
    using p rt
    by (cases p, cases "pa_now a")
      (auto simp: LedgerService_postTransaction_def LedgerService_getTransaction_def readTransaction_def
        eval_simps log_unchanged_def)
qed

theorem posting_replay_witness:
  "\<exists>p t u. LedgerService_postTransaction (demo_post ''k'' ''250'') demo_ledger = (Inr p, t) \<and>
     LedgerService_postTransaction (demo_post ''k'' ''250'') t = (Inr (p\<lparr>po_replayed := True\<rparr>), u) \<and>
     ledger u = ledger t"
  using demo_run posting_replay [OF demo_ledger_inv] by blast

text \<open>
  What a request has to satisfy, said of its entries and without the code's checks: each can be read as an account, a
  direction and a positive amount, the accounts differ, and each is stored with the asset of the transaction. The
  list \<open>ns\<close> is what the entries say, numbered in order.
\<close>

definition entry_read :: "ledger_entry_input \<Rightarrow> normalized_entry \<Rightarrow> bool" where
  "entry_read e n \<longleftrightarrow>
     assertNonEmptyString ''ledgerAccountId'' (in_ledgerAccountId e) = Inr (ne_ledgerAccountId n) \<and>
     assertEnumValue ''direction'' (in_direction e) LedgerEntryDirection_values = Inr (ne_direction n) \<and>
     assertPositiveMinorUnits amountMinorName (in_amountMinor e) = Inr (ne_amountMinor n)"

definition entries_good :: "ledger_state \<Rightarrow> string \<Rightarrow> ledger_entry_input list \<Rightarrow> normalized_entry list \<Rightarrow> bool" where
  "entries_good L asset es ns \<longleftrightarrow> list_all2 entry_read es ns \<and> distinct (map ne_ledgerAccountId ns) \<and>
     map ne_sequence ns = [0..<length ns] \<and>
     (\<forall>n\<in>set ns. \<exists>acc. jmGet (lg_accounts L) (ne_ledgerAccountId n) = Some acc \<and> la_assetId acc = asset)"

definition posting_strings :: "post_args \<Rightarrow> string \<Rightarrow> string \<Rightarrow> string \<Rightarrow> string \<Rightarrow> string \<Rightarrow> bool" where
  "posting_strings a key ty asset rty rid \<longleftrightarrow>
     assertNonEmptyString ''idempotencyKey'' (pa_idempotencyKey a) = Inr key \<and>
     assertNonEmptyString ''transactionType'' (pa_transactionType a) = Inr ty \<and>
     assertNonEmptyString ''assetId'' (pa_assetId a) = Inr asset \<and>
     assertNonEmptyString ''referenceType'' (pa_referenceType a) = Inr rty \<and>
     assertNonEmptyString ''referenceId'' (pa_referenceId a) = Inr rid \<and>
     assertNoRawPiiReference (js_default (pa_metadata a) (JObj [])) = Inr ()"

text \<open>
  What can be wrong with an entry that follows the good entries \<open>ns\<close>, with the code of the error: a field that does not
  read, in the order in which they are read, an account named before, one that is not stored, one of another asset.
\<close>

inductive entry_fault :: "ledger_state \<Rightarrow> string \<Rightarrow> normalized_entry list \<Rightarrow> ledger_entry_input \<Rightarrow> string \<Rightarrow> bool"
  for L asset ns e where
  account: "assertNonEmptyString ''ledgerAccountId'' (in_ledgerAccountId e) = fail code msg \<Longrightarrow> entry_fault L asset ns e code"
| direction: "assertNonEmptyString ''ledgerAccountId'' (in_ledgerAccountId e) = Inr k \<Longrightarrow>
    assertEnumValue ''direction'' (in_direction e) LedgerEntryDirection_values = fail code msg \<Longrightarrow> entry_fault L asset ns e code"
| amount: "assertNonEmptyString ''ledgerAccountId'' (in_ledgerAccountId e) = Inr k \<Longrightarrow>
    assertEnumValue ''direction'' (in_direction e) LedgerEntryDirection_values = Inr d \<Longrightarrow>
    assertPositiveMinorUnits amountMinorName (in_amountMinor e) = fail code msg \<Longrightarrow> entry_fault L asset ns e code"
| duplicate: "entry_read e n \<Longrightarrow> ne_ledgerAccountId n \<in> ne_ledgerAccountId ` set ns \<Longrightarrow>
    entry_fault L asset ns e ''duplicate_ledger_account_entry''"
| unknown: "entry_read e n \<Longrightarrow> ne_ledgerAccountId n \<notin> ne_ledgerAccountId ` set ns \<Longrightarrow>
    jmGet (lg_accounts L) (ne_ledgerAccountId n) = None \<Longrightarrow> entry_fault L asset ns e ''ledger_account_not_found''"
| asset: "entry_read e n \<Longrightarrow> ne_ledgerAccountId n \<notin> ne_ledgerAccountId ` set ns \<Longrightarrow>
    jmGet (lg_accounts L) (ne_ledgerAccountId n) = Some acc \<Longrightarrow> la_assetId acc \<noteq> asset \<Longrightarrow>
    entry_fault L asset ns e ''ledger_asset_mismatch''"

lemma accounts_ok_active: "accounts_ok A L \<Longrightarrow> jmGet (lg_accounts L) k = Some a \<Longrightarrow> la_status a = LedgerAccount_ACTIVE"
  unfolding accounts_ok_def by blast

text \<open>A call that is refused with a code: it throws, and ledger and log stay as they were.\<close>

definition refuses :: "('z ledger_world_scheme, 'a) M \<Rightarrow> string \<Rightarrow> 'z ledger_world_scheme \<Rightarrow> bool" where
  "refuses m code s \<longleftrightarrow> (\<exists>msg u. m s = (fail code msg, u) \<and> ledger u = ledger s \<and> log_unchanged s u)"

lemma normalizeEntries_prefix:
  assumes "list_all2 entry_read es ns" and "distinct (map ne_ledgerAccountId ns)"
    and "set (map ne_ledgerAccountId ns) \<inter> set seen = {}" and "map ne_sequence ns = [q..<q + length ns]"
    and "\<forall>n\<in>set ns. \<exists>acc. jmGet (lg_accounts L) (ne_ledgerAccountId n) = Some acc \<and> la_assetId acc = asset \<and>
      la_status acc = LedgerAccount_ACTIVE"
  shows "normalizeEntries L asset q seen (es @ rest) =
    bindR (normalizeEntries L asset (q + length es) (rev (map ne_ledgerAccountId ns) @ seen) rest) (\<lambda>m. Inr (ns @ m))"
  using assms
proof (induction es ns arbitrary: q seen rule: list_all2_induct)
  case Nil
  then show ?case by (cases "normalizeEntries L asset q seen rest") simp_all
next
  case (Cons e es n ns)
  have seq: "ne_sequence n = q" "map ne_sequence ns = [Suc q..<Suc q + length ns]"
    using Cons.prems(3) by (simp_all add: upt_conv_Cons del: upt_Suc)
  have "normalizeEntries L asset (Suc q) (ne_ledgerAccountId n # seen) (es @ rest) =
    bindR (normalizeEntries L asset (Suc q + length es) (rev (map ne_ledgerAccountId ns) @ ne_ledgerAccountId n # seen) rest)
      (\<lambda>m. Inr (ns @ m))"
    by (rule Cons.IH) (use Cons.prems seq in auto)
  then show ?case using Cons.prems Cons.hyps(1) seq(1)
    by (cases "normalizeEntries L asset (Suc q + length es) (rev (map ne_ledgerAccountId ns) @ ne_ledgerAccountId n # seen) rest")
      (auto simp: entry_read_def guardR_def)
qed

lemma entries_good_prefix:
  assumes inv: "ledger_inv s" and good: "entries_good (ledger s) asset es ns"
  shows "normalizeEntries (ledger s) asset 0 [] (es @ rest) =
    bindR (normalizeEntries (ledger s) asset (length es) (rev (map ne_ledgerAccountId ns)) rest) (\<lambda>m. Inr (ns @ m))"
  using normalizeEntries_prefix [of es ns "[]" 0 "ledger s" asset rest] good accounts_ok_active [OF ledger_inv_accounts [OF inv]]
  by (fastforce simp: entries_good_def)

lemma refuses_invalid:
  "validatePosting (ledger s) a = fail code msg \<Longrightarrow> refuses (LedgerService_postTransaction a) code s"
  by (cases "pa_now a") (auto simp: refuses_def LedgerService_postTransaction_def eval_simps log_unchanged_def)

lemma validatePosting_strings:
  assumes "posting_strings a key ty asset rty rid" and "pa_entries a = Some es" and "2 \<le> length es"
  shows "validatePosting L a = bindR (normalizeEntries L asset 0 [] es) (\<lambda>ns.
    if directionTotal Entry_DEBIT ns \<noteq> directionTotal Entry_CREDIT ns
    then fail ''unbalanced_ledger_transaction'' ''ledger debits and credits must balance''
    else Inr \<lparr>rq_idempotencyKey = key, rq_transactionType = ty, rq_assetId = asset, rq_referenceType = rty,
      rq_referenceId = rid, rq_metadata = js_default (pa_metadata a) (JObj []), rq_normalizedEntries = ns\<rparr>)"
  using assms by (cases "normalizeEntries L asset 0 [] es") (auto simp: validatePosting_def posting_strings_def Let_def guardR_def)

lemma normalizeEntries_fault:
  assumes inv: "ledger_inv s" and fault: "entry_fault (ledger s) asset ns e code"
  shows "\<exists>msg. normalizeEntries (ledger s) asset q (rev (map ne_ledgerAccountId ns)) (e # post) = fail code msg"
  using fault accounts_ok_active [OF ledger_inv_accounts [OF inv]]
  by cases (auto simp: guardR_def entry_read_def split: option.splits)

lemma normalizeEntries_good:
  assumes "normalizeEntries L asset 0 [] es = Inr ns"
  shows "entries_good L asset es ns"
proof -
  have "list_all2 entry_read es' ns'" if "normalizeEntries L asset q seen es' = Inr ns'" for q seen es' ns'
    using that by (induction es' arbitrary: q seen ns') (auto simp: bindR_Inr entry_read_def split: option.splits)
  with normalizeEntries_Inr [OF assms] assms show ?thesis by (fastforce simp: entries_good_def)
qed

lemma posting_returns_good:
  assumes "LedgerService_postTransaction a s = (Inr p, u)" and str: "posting_strings a key ty asset rty rid"
  shows "\<exists>es ns. pa_entries a = Some es \<and> 2 \<le> length es \<and> entries_good (ledger s) asset es ns \<and>
    directionTotal Entry_DEBIT ns = directionTotal Entry_CREDIT ns"
proof -
  obtain q where q: "validatePosting (ledger s) a = Inr q"
    using assms(1) by (cases "validatePosting (ledger s) a"; cases "pa_now a") (auto simp: LedgerService_postTransaction_def eval_simps)
  then obtain es where "pa_entries a = Some es" "2 \<le> length es"
    "normalizeEntries (ledger s) (rq_assetId q) 0 [] es = Inr (rq_normalizedEntries q)"
    "directionTotal Entry_DEBIT (rq_normalizedEntries q) = directionTotal Entry_CREDIT (rq_normalizedEntries q)"
    "rq_assetId q = asset"
    using str by (auto simp: posting_strings_def assertNonEmptyString_Inr elim: validatePosting_Inr)
  then show ?thesis by (blast dest: normalizeEntries_good)
qed

lemma posting_bound_key:
  assumes inv: "ledger_inv s" and val: "validatePosting (ledger s) a = Inr q"
    and i: "jmGet (lg_transactionIdsByIdempotencyKey (ledger s)) (rq_idempotencyKey q) = Some i"
  shows "\<exists>tx. jmGet (lg_transactions (ledger s)) i = Some tx \<and> lt_idempotencyKey tx = rq_idempotencyKey q \<and>
    (if lt_transactionHash tx \<noteq> requestHash (rt s) q
     then refuses (LedgerService_postTransaction a) ''ledger_idempotency_conflict'' s
     else \<exists>p u. LedgerService_postTransaction a s = (Inr p, u) \<and> po_replayed p \<and> fst (po_transaction p) = tx)"
proof -
  obtain tx where tx: "jmGet (lg_transactions (ledger s)) i = Some tx" "lt_idempotencyKey tx = rq_idempotencyKey q"
    using transactions_ok_index [OF ledger_inv_transactions [OF inv] i] by blast
  then show ?thesis using val i
    by (cases "pa_now a") (auto simp: refuses_def LedgerService_postTransaction_def LedgerService_getTransaction_def eval_simps log_unchanged_def)
qed

lemma posting_good_entries:
  assumes inv: "ledger_inv s" and str: "posting_strings a key ty asset rty rid"
    and h: "pa_entries a = Some es \<and> 2 \<le> length es \<and> entries_good (ledger s) asset es ns"
  shows "if directionTotal Entry_DEBIT ns \<noteq> directionTotal Entry_CREDIT ns
       then refuses (LedgerService_postTransaction a) ''unbalanced_ledger_transaction'' s
       else \<forall>i. jmGet (lg_transactionIdsByIdempotencyKey (ledger s)) key = Some i \<longrightarrow>
         (\<exists>tx. jmGet (lg_transactions (ledger s)) i = Some tx \<and> lt_idempotencyKey tx = key \<and>
           (if lt_transactionHash tx \<noteq>
               ledgerTransactionHash (rt s) key ty asset rty rid (js_default (pa_metadata a) (JObj [])) ns
            then refuses (LedgerService_postTransaction a) ''ledger_idempotency_conflict'' s
            else \<exists>p u. LedgerService_postTransaction a s = (Inr p, u) \<and> po_replayed p \<and> fst (po_transaction p) = tx))"
proof -
  have "normalizeEntries (ledger s) asset 0 [] es = Inr ns"
    using entries_good_prefix [OF inv, of asset es ns "[]"] h by simp
  with h have val: "validatePosting (ledger s) a = (if directionTotal Entry_DEBIT ns \<noteq> directionTotal Entry_CREDIT ns
    then fail ''unbalanced_ledger_transaction'' ''ledger debits and credits must balance''
    else Inr \<lparr>rq_idempotencyKey = key, rq_transactionType = ty, rq_assetId = asset, rq_referenceType = rty,
      rq_referenceId = rid, rq_metadata = js_default (pa_metadata a) (JObj []), rq_normalizedEntries = ns\<rparr>)"
    by (simp add: validatePosting_strings [OF str])
  show ?thesis
  proof (cases "directionTotal Entry_DEBIT ns = directionTotal Entry_CREDIT ns")
    case True
    with posting_bound_key [OF inv, of a] val show ?thesis by (fastforce simp: requestHash_def)
  qed (use val refuses_invalid in auto)
qed

text \<open>
  C4. A posting whose strings are well-formed is refused with the error of the first thing wrong with it, and leaves ledger
  and log as they were: fewer than two entries; an entry that follows good ones and has an unreadable field, an account
  named before, an unknown account or an account of another asset; good entries whose debits and credits differ; and an
  idempotency key bound to a transaction with another hash, where the same hash gives the stored transaction back as a
  replay. Conversely a posting that returns has at least two entries, all good, and balances.
\<close>

theorem posting_rejected:
  assumes inv: "ledger_inv s" and str: "posting_strings a key ty asset rty rid"
  shows "(\<forall>es. (pa_entries a = None \<or> pa_entries a = Some es \<and> length es < 2) \<longrightarrow>
      refuses (LedgerService_postTransaction a) ''ledger_entries_required'' s) \<and>
    (\<forall>pre e post ns code. pa_entries a = Some (pre @ e # post) \<and> 0 < length pre + length post \<and>
      entries_good (ledger s) asset pre ns \<and> entry_fault (ledger s) asset ns e code \<longrightarrow>
      refuses (LedgerService_postTransaction a) code s) \<and>
    (\<forall>es ns. pa_entries a = Some es \<and> 2 \<le> length es \<and> entries_good (ledger s) asset es ns \<longrightarrow>
      (if directionTotal Entry_DEBIT ns \<noteq> directionTotal Entry_CREDIT ns
       then refuses (LedgerService_postTransaction a) ''unbalanced_ledger_transaction'' s
       else \<forall>i. jmGet (lg_transactionIdsByIdempotencyKey (ledger s)) key = Some i \<longrightarrow>
         (\<exists>tx. jmGet (lg_transactions (ledger s)) i = Some tx \<and> lt_idempotencyKey tx = key \<and>
           (if lt_transactionHash tx \<noteq>
               ledgerTransactionHash (rt s) key ty asset rty rid (js_default (pa_metadata a) (JObj [])) ns
            then refuses (LedgerService_postTransaction a) ''ledger_idempotency_conflict'' s
            else \<exists>p u. LedgerService_postTransaction a s = (Inr p, u) \<and> po_replayed p \<and> fst (po_transaction p) = tx)))) \<and>
    (\<forall>p u. LedgerService_postTransaction a s = (Inr p, u) \<longrightarrow>
      (\<exists>es ns. pa_entries a = Some es \<and> 2 \<le> length es \<and> entries_good (ledger s) asset es ns \<and>
        directionTotal Entry_DEBIT ns = directionTotal Entry_CREDIT ns))"
proof (intro conjI allI impI)
  fix es assume "pa_entries a = None \<or> pa_entries a = Some es \<and> length es < 2"
  then show "refuses (LedgerService_postTransaction a) ''ledger_entries_required'' s"
    using str by (auto intro!: refuses_invalid simp: validatePosting_def posting_strings_def Let_def guardR_def)
next
  fix pre e post ns code
  assume h: "pa_entries a = Some (pre @ e # post) \<and> 0 < length pre + length post \<and>
    entries_good (ledger s) asset pre ns \<and> entry_fault (ledger s) asset ns e code"
  obtain msg where "normalizeEntries (ledger s) asset (length pre) (rev (map ne_ledgerAccountId ns)) (e # post) = fail code msg"
    using normalizeEntries_fault [OF inv] h by blast
  with h have "normalizeEntries (ledger s) asset 0 [] (pre @ e # post) = fail code msg"
    using entries_good_prefix [OF inv, of asset pre ns "e # post"] by (simp del: normalizeEntries.simps)
  moreover have "2 \<le> length (pre @ e # post)" using h by (cases pre; cases post) auto
  ultimately have "validatePosting (ledger s) a = fail code msg"
    using validatePosting_strings [OF str, of "pre @ e # post"] h by (simp del: normalizeEntries.simps)
  then show "refuses (LedgerService_postTransaction a) code s" by (rule refuses_invalid)
qed (use posting_good_entries [OF inv str] posting_returns_good [OF _ str] in blast)+

theorem posting_rejected_witness:
  "refuses (LedgerService_postTransaction (demo_post ''k'' ''249'')) ''unbalanced_ledger_transaction'' demo_ledger"
proof -
  let ?ns = "[\<lparr>ne_ledgerAccountId = ''ledger_account_'', ne_direction = Entry_DEBIT, ne_amountMinor = 250, ne_sequence = 0\<rparr>,
    \<lparr>ne_ledgerAccountId = ''ledger_account_u'', ne_direction = Entry_CREDIT, ne_amountMinor = 249, ne_sequence = 1\<rparr>]"
  have str: "posting_strings (demo_post ''k'' ''249'') ''k'' ''transfer'' ''USDC'' ''obligation'' ''o1''" by code_simp
  have "normalizeEntries (ledger demo_ledger) ''USDC'' 0 [] (the (pa_entries (demo_post ''k'' ''249''))) = Inr ?ns" by code_simp
  then have good: "entries_good (ledger demo_ledger) ''USDC'' (the (pa_entries (demo_post ''k'' ''249''))) ?ns"
    by (rule normalizeEntries_good)
  have "directionTotal Entry_DEBIT ?ns \<noteq> directionTotal Entry_CREDIT ?ns" by (simp add: directionTotal_def)
  with good posting_rejected [OF demo_ledger_inv str, THEN conjunct2, THEN conjunct2, THEN conjunct1, rule_format,
      of "the (pa_entries (demo_post ''k'' ''249''))" ?ns]
  show ?thesis by (simp add: demo_post_def)
qed

text \<open>
  C5. In a ledger satisfying the invariant the trial balance of every asset balances and the
  integrity check finds no violation.
\<close>

theorem ledger_checks_pass:
  assumes inv: "ledger_inv s"
  shows "ig_balanced (LedgerService_verifyIntegrity (ledger s)) \<and>
    ig_violations (LedgerService_verifyIntegrity (ledger s)) = [] \<and>
    (\<forall>asset tb u. LedgerService_getTrialBalance asset s = (Inr tb, u) \<longrightarrow> tb_balanced tb \<and> u = s)"
proof -
  note acc = ledger_inv_accounts [OF inv] and tx = ledger_inv_transactions [OF inv]
  have "filter (\<lambda>t. length (entriesOf (ledger s) (lt_ledgerTransactionId t)) < 2 \<or>
      entryTotal Entry_DEBIT (entriesOf (ledger s) (lt_ledgerTransactionId t)) \<noteq>
      entryTotal Entry_CREDIT (entriesOf (ledger s) (lt_ledgerTransactionId t)))
      (jmValues (lg_transactions (ledger s))) = []"
  proof -
    have "\<exists>k. jmGet (lg_transactions (ledger s)) k = Some t" if "t \<in> set (jmValues (lg_transactions (ledger s)))" for t
      using that tx by (auto simp: transactions_ok_def dest: jmValues_jmGet)
    then show ?thesis using transactions_okD [OF tx] by (fastforce simp: filter_empty_conv)
  qed
  moreover have "tb_balanced tb \<and> u = s" if run: "LedgerService_getTrialBalance asset s = (Inr tb, u)" for asset tb u
  proof -
    obtain x where x: "assertNonEmptyString ''assetId'' asset = Inr x"
      using run by (cases "assertNonEmptyString ''assetId'' asset")
        (auto simp: LedgerService_getTrialBalance_def bindM_def liftR_def)
    have "assetTotal (ledger s) Entry_DEBIT x = assetTotal (ledger s) Entry_CREDIT x"
      using inv by (simp add: ledger_inv_def ledger_ok_def assets_balanced_def)
    then show ?thesis using run x
      by (auto simp: not_debit LedgerService_getTrialBalance_def eval_simps listAccounts_asset assetTotal_def
          entryTotal_def entryAsset_iff [OF acc])
  qed
  ultimately show ?thesis by (auto simp: LedgerService_verifyIntegrity_def Let_def)
qed

theorem ledger_checks_pass_witness:
  "ig_balanced (LedgerService_verifyIntegrity (ledger demo_ledger)) \<and>
   (\<exists>tb. LedgerService_getTrialBalance (JStr ''USDC'') demo_ledger = (Inr tb, demo_ledger) \<and> tb_balanced tb)"
proof -
  have "\<exists>tb. LedgerService_getTrialBalance (JStr ''USDC'') demo_ledger = (Inr tb, demo_ledger)"
    by (simp add: LedgerService_getTrialBalance_def eval_simps)
  with ledger_checks_pass [OF demo_ledger_inv] show ?thesis by blast
qed

text \<open>
  C6. The accounting equation: for every asset the balances of the debit-normal accounts and of the
  credit-normal accounts, as \<open>getAccountBalance\<close> reports them, have the same sum.
\<close>

theorem accounting_equation:
  assumes inv: "ledger_inv s"
  shows "(\<Sum>a\<leftarrow>filter (\<lambda>a. la_normalSide a = Normal_DEBIT) (assetAccounts (ledger s) asset). accountBalance (ledger s) a) =
         (\<Sum>a\<leftarrow>filter (\<lambda>a. la_normalSide a \<noteq> Normal_DEBIT) (assetAccounts (ledger s) asset). accountBalance (ledger s) a) \<and>
    (\<forall>a\<in>set (assetAccounts (ledger s) asset).
       LedgerService_getAccountBalance (la_ledgerAccountId a) s = (Inr (accountBalance (ledger s) a), s))"
proof
  note acc = ledger_inv_accounts [OF inv]
  let ?as = "assetAccounts (ledger s) asset" and ?L = "ledger s"
  have split: "(\<Sum>a\<leftarrow>filter (\<lambda>a. la_normalSide a = Normal_DEBIT) as. accountBalance ?L a) -
      (\<Sum>a\<leftarrow>filter (\<lambda>a. la_normalSide a \<noteq> Normal_DEBIT) as. accountBalance ?L a) =
      (\<Sum>a\<leftarrow>as. turnover ?L (la_ledgerAccountId a) Entry_DEBIT) -
      (\<Sum>a\<leftarrow>as. turnover ?L (la_ledgerAccountId a) Entry_CREDIT)" for as
    by (induction as) (auto simp: accountBalance_def Let_def)
  have "assetTotal ?L Entry_DEBIT asset = assetTotal ?L Entry_CREDIT asset"
    using inv by (simp add: ledger_inv_def ledger_ok_def assets_balanced_def)
  then show "(\<Sum>a\<leftarrow>filter (\<lambda>a. la_normalSide a = Normal_DEBIT) ?as. accountBalance ?L a) =
      (\<Sum>a\<leftarrow>filter (\<lambda>a. la_normalSide a \<noteq> Normal_DEBIT) ?as. accountBalance ?L a)"
    using split [of ?as] by (simp add: assetTotal_turnover [OF acc])
  show "\<forall>a\<in>set ?as. LedgerService_getAccountBalance (la_ledgerAccountId a) s = (Inr (accountBalance ?L a), s)"
  proof
    fix a assume "a \<in> set ?as"
    then obtain k where "(k, a) \<in> set (lg_accounts ?L)" by (auto simp: assetAccounts_def jmValues_def)
    then have k: "jmGet (lg_accounts ?L) k = Some a"
      using acc by (auto simp: accounts_ok_def intro: map_of_is_SomeI)
    with getAccountBalance_run [OF inv k] accounts_ok_id [OF acc k]
    show "LedgerService_getAccountBalance (la_ledgerAccountId a) s = (Inr (accountBalance ?L a), s)" by simp
  qed
qed

theorem accounting_equation_witness:
  "(\<Sum>a\<leftarrow>filter (\<lambda>a. la_normalSide a = Normal_DEBIT) (assetAccounts (ledger demo_ledger) ''USDC''). accountBalance (ledger demo_ledger) a) =
   (\<Sum>a\<leftarrow>filter (\<lambda>a. la_normalSide a \<noteq> Normal_DEBIT) (assetAccounts (ledger demo_ledger) ''USDC''). accountBalance (ledger demo_ledger) a) \<and>
   assetAccounts (ledger demo_ledger) ''USDC'' \<noteq> []"
proof -
  have "assetAccounts (ledger demo_ledger) ''USDC'' \<noteq> []"
    by (simp add: assetAccounts_def demo_ledger_def demo_account_def jmValues_def)
  with accounting_equation [OF demo_ledger_inv, of "''USDC''"] show ?thesis by blast
qed

text \<open>
  Opening an account is idempotent on its natural key: once a call has returned an account, a
  second call for the same owner, asset and type returns that account when the normal side agrees and
  fails with \<open>ledger_account_conflict\<close> when it does not; neither call changes the ledger.
\<close>

theorem openAccount_idempotent:
  assumes inv: "ledger_inv s"
    and run: "LedgerService_openAccount oty oid asset aty side subj now s = (Inr a, t)"
    and side': "assertEnumValue ''normalSide'' side' LedgerNormalSide_values = Inr n"
  shows "\<exists>r u. LedgerService_openAccount oty oid asset aty side' subj' now' t = (r, u) \<and> ledger u = ledger t \<and>
    (if n = la_normalSide a then r = Inr a else \<exists>m. r = fail ''ledger_account_conflict'' m)"
proof -
  from wp_Inr [OF wp_openAccount_key [OF inv] run] obtain oty' oid' asset' aty' where
    "assertNonEmptyString ''ownerType'' oty = Inr oty'" "assertNonEmptyString ''ownerId'' oid = Inr oid'"
    "assertNonEmptyString ''assetId'' asset = Inr asset'"
    "assertEnumValue ''accountType'' aty LedgerAccountType_values = Inr aty'"
    "jmGet (lg_accountIdsByNaturalKey (ledger t)) (ledgerNaturalKey oty' oid' asset' aty') = Some (la_ledgerAccountId a)"
    "jmGet (lg_accounts (ledger t)) (la_ledgerAccountId a) = Some a" by blast
  with side' show ?thesis
    by (cases now'; cases "n = la_normalSide a")
      (auto simp: LedgerService_openAccount_def LedgerService_requireAccount_def bindM_def thenM_def returnM_def
        throwM_def liftR_def getsM_def throwIf_def guardR_def nowOr_def newDate_def Let_def)
qed

lemma demo_open:
  "\<exists>a t. LedgerService_openAccount (JStr ''lockbox'') (JStr ''a'') (JStr ''USDC'') (JStr ''lockbox_asset'')
     (JStr ''debit'') (JStr ''s1'') (Some 1) demo_empty = (Inr a, t) \<and> la_normalSide a = Normal_DEBIT"
  by (simp add: LedgerService_openAccount_def createLedgerAccount_def eval_simps demo_empty_def ledger_empty_def
      assertEnumValue_def LedgerAccountType_values_def LedgerNormalSide_values_def)

theorem openAccount_idempotent_witness:
  "\<exists>a t u. LedgerService_openAccount (JStr ''lockbox'') (JStr ''a'') (JStr ''USDC'') (JStr ''lockbox_asset'')
       (JStr ''debit'') (JStr ''s1'') (Some 1) demo_empty = (Inr a, t) \<and>
     LedgerService_openAccount (JStr ''lockbox'') (JStr ''a'') (JStr ''USDC'') (JStr ''lockbox_asset'')
       (JStr ''debit'') (JStr ''s2'') (Some 3) t = (Inr a, u) \<and> ledger u = ledger t"
proof -
  have inv: "ledger_inv demo_empty" by (rule ledger_init_inv) (simp add: ledger_init_def demo_empty_def)
  obtain a t where run: "LedgerService_openAccount (JStr ''lockbox'') (JStr ''a'') (JStr ''USDC'')
      (JStr ''lockbox_asset'') (JStr ''debit'') (JStr ''s1'') (Some 1) demo_empty = (Inr a, t)"
    and a: "la_normalSide a = Normal_DEBIT" using demo_open by blast
  have "assertEnumValue ''normalSide'' (JStr ''debit'') LedgerNormalSide_values = Inr Normal_DEBIT"
    by (simp add: assertEnumValue_def LedgerNormalSide_values_def)
  from openAccount_idempotent [OF inv run this, of "JStr ''s2''" "Some 3"] run a show ?thesis by auto
qed

end
