(* ===== verification/Lockbox.thy ===== *)
theory Lockbox
  imports Ledger
begin

text \<open>
  \<open>modules/lockbox/src/lockbox-service.js\<close> with \<open>createLockbox\<close> of \<open>models.js\<close>: the account that
  captures a subject's revenue. Its balance lives in the ledger; the lockbox object holds a copy that
  \<open>#syncFromLedger\<close> refreshes. The service is always constructed with a ledger here, so the branch
  \<open>ledger_unavailable\<close> does not occur.
\<close>

subsection \<open>State and operations\<close>

record lockbox =
  lb_lockboxId :: string
  lb_lockboxHash :: string
  lb_subjectId :: js
  lb_chainId :: string
  lb_assetId :: js
  lb_accountIdRef :: js
  lb_status :: LockboxStatus
  lb_balanceMinor :: int
  lb_capturedRevenueMinor :: int
  lb_createdAt :: int
  lb_updatedAt :: int
  lb_ledgerAccountId :: string
  lb_revenueLedgerAccountId :: string
  lb_repaymentLedgerAccountId :: string
  lb_schemaVersion :: string

record lockbox_world = ledger_world +
  lockboxes :: "lockbox jsmap"

definition createLockbox :: "js \<Rightarrow> string \<Rightarrow> js \<Rightarrow> js \<Rightarrow> ('z host_scheme, lockbox) M" where
  "createLockbox subjectId chainId assetId accountId =
     bindM newDate (\<lambda>now.
     bindM (createOperationalId ''lockbox'') (\<lambda>lockboxId.
     bindM (hashM ''lockbox'' (JObj
       [(''subjectId'', subjectId), (''chainId'', JStr chainId), (''assetId'', assetId),
        (''accountId'', accountId)])) (\<lambda>lockboxHash.
     returnM
       \<lparr>lb_lockboxId = lockboxId, lb_lockboxHash = lockboxHash, lb_subjectId = subjectId,
        lb_chainId = chainId, lb_assetId = assetId, lb_accountIdRef = accountId,
        lb_status = Lockbox_CREATED, lb_balanceMinor = 0, lb_capturedRevenueMinor = 0,
        lb_createdAt = now, lb_updatedAt = now, lb_ledgerAccountId = [],
        lb_revenueLedgerAccountId = [], lb_repaymentLedgerAccountId = [],
        lb_schemaVersion = ''lockbox.v1''\<rparr>)))"

definition LockboxService_requireLockbox :: "string \<Rightarrow> ('z lockbox_world_scheme, lockbox) M" where
  "LockboxService_requireLockbox lockboxId =
     bindM (getsM (\<lambda>s. jmGet (lockboxes s) lockboxId)) (\<lambda>found.
       case found of
         None \<Rightarrow> throwM (DomainError ''lockbox_not_found'' ''lockbox not found'')
       | Some l \<Rightarrow> returnM l)"

definition LockboxService_createLockbox ::
  "js \<Rightarrow> js \<Rightarrow> js \<Rightarrow> ('z lockbox_world_scheme, lockbox) M" where
  "LockboxService_createLockbox subjectId assetId accountId =
     bindM (liftR (assertCAIP10 accountId)) (\<lambda>_.
     bindM (liftR (chainIdFromCAIP10 accountId)) (\<lambda>chainId.
     bindM (createLockbox subjectId chainId assetId accountId) (\<lambda>lockbox.
     bindM (LedgerService_openAccount (JStr ''lockbox'') (JStr (lb_lockboxId lockbox)) assetId
       (JStr ''lockbox_asset'') (JStr ''debit'') subjectId None) (\<lambda>assetAccount.
     bindM (LedgerService_openAccount (JStr ''system'') (JStr ''external_revenue'') assetId
       (JStr ''external_revenue'') (JStr ''credit'') JUndefined None) (\<lambda>revenueAccount.
     bindM (LedgerService_openAccount (JStr ''system'') (JStr ''repayment_clearing'') assetId
       (JStr ''repayment_clearing'') (JStr ''debit'') JUndefined None) (\<lambda>repaymentAccount.
     let stored = lockbox
       \<lparr>lb_ledgerAccountId := la_ledgerAccountId assetAccount,
        lb_revenueLedgerAccountId := la_ledgerAccountId revenueAccount,
        lb_repaymentLedgerAccountId := la_ledgerAccountId repaymentAccount\<rparr> in
     thenM (modifyM (lockboxes_update (jmSet (lb_lockboxId stored) stored)))
     (thenM (emitCreditEvent ((eventArgs ''lockbox_created'' subjectId (JObj
         [(''lockboxId'', JStr (lb_lockboxId stored)),
          (''lockboxHash'', JStr (lb_lockboxHash stored)), (''assetId'', assetId),
          (''accountRef'', accountId),
          (''ledgerAccountId'', JStr (lb_ledgerAccountId stored))]))
         \<lparr>ca_chainId := JStr (lb_chainId stored)\<rparr>))
     (returnM stored))))))))"

text \<open>\<open>#syncFromLedger\<close>: the two cached figures, one assignment after the other.\<close>

definition LockboxService_syncFromLedger :: "lockbox \<Rightarrow> ('z lockbox_world_scheme, unit) M" where
  "LockboxService_syncFromLedger lockbox =
     bindM (LedgerService_getAccountBalance (lb_ledgerAccountId lockbox)) (\<lambda>balance.
     thenM (modifyM (lockboxes_update (jmModify (lb_lockboxId lockbox) (lb_balanceMinor_update (\<lambda>_. balance)))))
     (bindM (LedgerService_getAccountTurnover (lb_ledgerAccountId lockbox) Entry_DEBIT) (\<lambda>captured.
      modifyM (lockboxes_update (jmModify (lb_lockboxId lockbox)
        (lb_capturedRevenueMinor_update (\<lambda>_. captured)))))))"

definition touchLockbox :: "string \<Rightarrow> ('z lockbox_world_scheme, unit) M" where
  "touchLockbox lockboxId =
     bindM newDate (\<lambda>now. modifyM (lockboxes_update (jmModify lockboxId (lb_updatedAt_update (\<lambda>_. now)))))"

text \<open>The postings of the two money movements: two legs of one amount.\<close>

definition lockboxPosting ::
  "lockbox \<Rightarrow> string \<Rightarrow> js \<Rightarrow> (string \<times> js) list \<Rightarrow> string \<Rightarrow> string \<Rightarrow> int \<Rightarrow> post_args" where
  "lockboxPosting lockbox transactionType idempotencyKey metadata debitAccount creditAccount amount =
     \<lparr>pa_idempotencyKey = idempotencyKey, pa_transactionType = JStr transactionType,
      pa_assetId = lb_assetId lockbox,
      pa_entries = Some (transferEntries debitAccount creditAccount amount),
      pa_referenceType = JStr ''lockbox'', pa_referenceId = JStr (lb_lockboxId lockbox),
      pa_subjectId = lb_subjectId lockbox, pa_metadata = JObj metadata, pa_now = None\<rparr>"

text \<open>The end of both movements: synchronise, stamp, emit unless replayed, return the lockbox.\<close>

definition finishMovement ::
  "string \<Rightarrow> lockbox \<Rightarrow> posting \<Rightarrow> (lockbox \<Rightarrow> credit_event_args) \<Rightarrow> ('z lockbox_world_scheme, lockbox) M" where
  "finishMovement lockboxId lockbox posting event =
     thenM (LockboxService_syncFromLedger lockbox)
     (thenM (touchLockbox lockboxId)
     (bindM (LockboxService_requireLockbox lockboxId) (\<lambda>current.
      thenM (whenM (\<not> po_replayed posting) (emitCreditEvent (event current)))
      (LockboxService_requireLockbox lockboxId))))"

definition defaultKey :: "string \<Rightarrow> js \<Rightarrow> ('z host_scheme, js) M" where
  "defaultKey prefix key =
     (if key = JUndefined then bindM (createOperationalId prefix) (\<lambda>i. returnM (JStr i)) else returnM key)"

definition LockboxService_captureRevenue ::
  "string \<Rightarrow> js \<Rightarrow> js \<Rightarrow> js \<Rightarrow> ('z lockbox_world_scheme, lockbox) M" where
  "LockboxService_captureRevenue lockboxId amountMinor sourceArg keyArg =
     (let source = js_default sourceArg (JStr ''provider_sandbox'') in
      bindM (defaultKey ''revenue_capture'' keyArg) (\<lambda>idempotencyKey.
      bindM (LockboxService_requireLockbox lockboxId) (\<lambda>lockbox.
      thenM (throwIf (lb_status lockbox \<noteq> Lockbox_ACTIVE) ''lockbox_not_active''
        ''revenue capture requires active lockbox'')
      (bindM (liftR (assertPositiveMinorUnits amountMinorName amountMinor)) (\<lambda>amount.
       bindM (liftR (assertNonEmptyString ''source'' source)) (\<lambda>_.
       bindM (LedgerService_postTransaction (lockboxPosting lockbox ''lockbox_revenue_capture''
         idempotencyKey [(''source'', source)] (lb_ledgerAccountId lockbox)
         (lb_revenueLedgerAccountId lockbox) amount)) (\<lambda>posting.
       finishMovement lockboxId lockbox posting (\<lambda>_.
         (eventArgs ''revenue_captured'' (lb_subjectId lockbox) (JObj
            [(''lockboxId'', JStr lockboxId), (''amountMinor'', JStr (dec amount)),
             (''assetId'', lb_assetId lockbox), (''source'', source),
             (''ledgerTransactionId'',
                JStr (lt_ledgerTransactionId (fst (po_transaction posting))))]))
            \<lparr>ca_chainId := JStr (lb_chainId lockbox)\<rparr>))))))))"

text \<open>\<open>lockbox\<close> is a reference: after \<open>#syncFromLedger\<close> its fields are read again.\<close>

definition LockboxService_reduceBalance ::
  "string \<Rightarrow> js \<Rightarrow> js \<Rightarrow> js \<Rightarrow> ('z lockbox_world_scheme, lockbox) M" where
  "LockboxService_reduceBalance lockboxId amountMinor reasonArg keyArg =
     (let reason = js_default reasonArg (JStr ''repayment'') in
      bindM (defaultKey ''lockbox_debit'' keyArg) (\<lambda>idempotencyKey.
      bindM (LockboxService_requireLockbox lockboxId) (\<lambda>lockbox.
      thenM (throwIf (lb_status lockbox = Lockbox_CLOSED) ''lockbox_closed''
        ''closed lockbox balance cannot change'')
      (bindM (liftR (assertPositiveMinorUnits amountMinorName amountMinor)) (\<lambda>amount.
       bindM (liftR (assertNonEmptyString ''reason'' reason)) (\<lambda>_.
       thenM (LockboxService_syncFromLedger lockbox)
       (bindM (LockboxService_requireLockbox lockboxId) (\<lambda>current.
       thenM (throwIf (lb_balanceMinor current < amount) ''lockbox_insufficient_balance''
         ''lockbox balance is insufficient'')
       (bindM (LedgerService_postTransaction (lockboxPosting current ''lockbox_repayment_debit''
         idempotencyKey [(''reason'', reason)] (lb_repaymentLedgerAccountId current)
         (lb_ledgerAccountId current) amount)) (\<lambda>posting.
       finishMovement lockboxId current posting (\<lambda>debited.
         (eventArgs ''lockbox_balance_debited'' (lb_subjectId current) (JObj
            [(''lockboxId'', JStr lockboxId), (''assetId'', lb_assetId current),
             (''amountMinor'', JStr (dec amount)),
             (''balanceMinor'', JStr (dec (lb_balanceMinor debited))), (''reason'', reason),
             (''ledgerTransactionId'',
                JStr (lt_ledgerTransactionId (fst (po_transaction posting))))]))
            \<lparr>ca_chainId := JStr (lb_chainId current)\<rparr>)))))))))))"

definition LockboxService_getLockbox :: "string \<Rightarrow> ('z lockbox_world_scheme, lockbox) M" where
  "LockboxService_getLockbox lockboxId =
     bindM (LockboxService_requireLockbox lockboxId) (\<lambda>lockbox.
     thenM (LockboxService_syncFromLedger lockbox)
     (LockboxService_requireLockbox lockboxId))"

definition LockboxService_listLockboxes :: "('z lockbox_world_scheme, lockbox list) M" where
  "LockboxService_listLockboxes =
     bindM (getsM (\<lambda>s. jmValues (lockboxes s))) (\<lambda>ls.
     mapM (\<lambda>l. thenM (LockboxService_syncFromLedger l) (LockboxService_requireLockbox (lb_lockboxId l))) ls)"

definition LockboxService_setStatus ::
  "string \<Rightarrow> LockboxStatus \<Rightarrow> js \<Rightarrow> ('z lockbox_world_scheme, lockbox) M" where
  "LockboxService_setStatus lockboxId nextStatus reason =
     bindM (LockboxService_requireLockbox lockboxId) (\<lambda>lockbox.
     bindM (liftR (assertTransition ''lockbox'' LockboxStatus_str LockboxTransitions
       (lb_status lockbox) nextStatus)) (\<lambda>_.
     thenM (modifyM (lockboxes_update (jmModify lockboxId (lb_status_update (\<lambda>_. nextStatus)))))
     (thenM (touchLockbox lockboxId)
     (thenM (emitCreditEvent (eventArgs ''lockbox_status_changed'' (lb_subjectId lockbox) (JObj
         [(''lockboxId'', JStr lockboxId),
          (''previousStatus'', JStr (LockboxStatus_str (lb_status lockbox))),
          (''newStatus'', JStr (LockboxStatus_str nextStatus)), (''reason'', reason)])))
     (LockboxService_requireLockbox lockboxId)))))"

definition LockboxService_activateLockbox :: "string \<Rightarrow> ('z lockbox_world_scheme, lockbox) M" where
  "LockboxService_activateLockbox lockboxId =
     LockboxService_setStatus lockboxId Lockbox_ACTIVE (JStr ''activate'')"

definition LockboxService_freezeLockbox :: "string \<Rightarrow> js \<Rightarrow> ('z lockbox_world_scheme, lockbox) M" where
  "LockboxService_freezeLockbox lockboxId reason = LockboxService_setStatus lockboxId Lockbox_FROZEN reason"

definition LockboxService_closeLockbox :: "string \<Rightarrow> js \<Rightarrow> ('z lockbox_world_scheme, lockbox) M" where
  "LockboxService_closeLockbox lockboxId reason = LockboxService_setStatus lockboxId Lockbox_CLOSED reason"

subsection \<open>The invariant\<close>

text \<open>
  Each stored lockbox sits under its own identifier and has three ledger accounts of the right type
  and side, the first of which carries the lockbox's natural key. No account of the lockbox type has a
  negative balance.
\<close>

definition account_is :: "ledger_state \<Rightarrow> string \<Rightarrow> LedgerAccountType \<Rightarrow> LedgerNormalSide \<Rightarrow> bool" where
  "account_is L i ty side \<longleftrightarrow> (\<exists>a. jmGet (lg_accounts L) i = Some a \<and> la_accountType a = ty \<and> la_normalSide a = side)"

definition debitBalance :: "(string \<Rightarrow> LedgerEntryDirection \<Rightarrow> int) \<Rightarrow> string \<Rightarrow> int" where
  "debitBalance mv i = mv i Entry_DEBIT - mv i Entry_CREDIT"

definition owned_by :: "ledger_state \<Rightarrow> string \<Rightarrow> string \<Rightarrow> bool" where
  "owned_by L i k \<longleftrightarrow> (\<exists>a asset. jmGet (lg_accounts L) i = Some a \<and>
     ledgerNaturalKey (la_ownerType a) (la_ownerId a) (la_assetId a) (la_accountType a) =
     ledgerNaturalKey ''lockbox'' k asset LedgerType_LOCKBOX_ASSET)"

definition lockbox_ok :: "ledger_state \<Rightarrow> string \<Rightarrow> lockbox \<Rightarrow> bool" where
  "lockbox_ok L k l \<longleftrightarrow> lb_lockboxId l = k \<and>
     account_is L (lb_ledgerAccountId l) LedgerType_LOCKBOX_ASSET Normal_DEBIT \<and>
     owned_by L (lb_ledgerAccountId l) k \<and>
     account_is L (lb_revenueLedgerAccountId l) LedgerType_EXTERNAL_REVENUE Normal_CREDIT \<and>
     account_is L (lb_repaymentLedgerAccountId l) LedgerType_REPAYMENT_CLEARING Normal_DEBIT"

definition lockboxes_ok :: "ledger_state \<Rightarrow> lockbox jsmap \<Rightarrow> bool" where
  "lockboxes_ok L m \<longleftrightarrow> (\<forall>k l. jmGet m k = Some l \<longrightarrow> lockbox_ok L k l)"

definition boxes_funded :: "ledger_state \<Rightarrow> bool" where
  "boxes_funded L \<longleftrightarrow> (\<forall>i a. jmGet (lg_accounts L) i = Some a \<longrightarrow>
     la_accountType a = LedgerType_LOCKBOX_ASSET \<longrightarrow> 0 \<le> debitBalance (turnover L) i)"

definition lockbox_inv :: "'z lockbox_world_scheme \<Rightarrow> bool" where
  "lockbox_inv s \<longleftrightarrow> ledger_inv s \<and> boxes_funded (ledger s) \<and> lockboxes_ok (ledger s) (lockboxes s)"

lemma lockbox_inv_ledger: "lockbox_inv s \<Longrightarrow> ledger_inv s"
  by (simp add: lockbox_inv_def)

lemma lockboxes_okD: "lockboxes_ok L m \<Longrightarrow> jmGet m k = Some l \<Longrightarrow> lockbox_ok L k l"
  by (simp add: lockboxes_ok_def)

lemma lockbox_invD: "lockbox_inv s \<Longrightarrow> jmGet (lockboxes s) k = Some l \<Longrightarrow> lockbox_ok (ledger s) k l"
  by (simp add: lockbox_inv_def lockboxes_ok_def)

subsection \<open>Frames\<close>

lemma ledger_frame_lockboxes: "ledger_frame s t \<Longrightarrow> lockboxes t = lockboxes s"
  by (cases s, cases t) (simp add: ledger_frame_def)

lemma ledger_frame_lockbox_more: "ledger_frame s t \<Longrightarrow> lockbox_world.more t = lockbox_world.more s"
  by (cases s, cases t) (simp add: ledger_frame_def)

lemma log_ext_lockboxes: "log_ext s t \<Longrightarrow> lockboxes t = lockboxes s"
  by (rule ledger_frame_lockboxes [OF log_ext_frame])

text \<open>The services above the lockboxes and the runtime stay as they are; the log only grows.\<close>

definition lockbox_frame :: "'z lockbox_world_scheme \<Rightarrow> 'z lockbox_world_scheme \<Rightarrow> bool" where
  "lockbox_frame s t \<longleftrightarrow> lockbox_world.more t = lockbox_world.more s \<and> rt t = rt s \<and> uuidCount s \<le> uuidCount t"

lemma lockbox_frame_refl [simp]: "lockbox_frame s s"
  by (simp add: lockbox_frame_def)

lemma lockbox_frame_trans: "lockbox_frame s t \<Longrightarrow> lockbox_frame t u \<Longrightarrow> lockbox_frame s u"
  by (auto simp: lockbox_frame_def)

lemma ledger_lockbox_frame: "ledger_frame s t \<Longrightarrow> lockbox_frame s t"
  by (simp add: lockbox_frame_def ledger_frame_lockbox_more) (simp add: ledger_frame_def)

lemma log_lockbox_frame: "log_ext s t \<Longrightarrow> lockbox_frame s t"
  by (rule ledger_lockbox_frame [OF log_ext_frame])

text \<open>The ledger may gain accounts without disturbing any lockbox.\<close>

definition accounts_grow :: "ledger_state \<Rightarrow> ledger_state \<Rightarrow> bool" where
  "accounts_grow L L' \<longleftrightarrow> lg_entries L' = lg_entries L \<and>
     (\<forall>i a. jmGet (lg_accounts L) i = Some a \<longrightarrow> jmGet (lg_accounts L') i = Some a) \<and>
     (\<forall>i a. jmGet (lg_accounts L') i = Some a \<longrightarrow> jmGet (lg_accounts L) i = Some a \<or>
        (\<forall>d. turnover L i d = 0))"

lemma accounts_grow_refl [simp]: "accounts_grow L L"
  by (simp add: accounts_grow_def)

lemma turnover_grow: "accounts_grow L L' \<Longrightarrow> turnover L' = turnover L"
  by (rule ext)+ (simp add: accounts_grow_def turnover_def)

lemma accounts_grow_trans: "accounts_grow L L' \<Longrightarrow> accounts_grow L' L'' \<Longrightarrow> accounts_grow L L''"
  using turnover_grow [of L L'] by (simp add: accounts_grow_def) metis

lemma boxes_funded_grow: "accounts_grow L L' \<Longrightarrow> boxes_funded L \<Longrightarrow> boxes_funded L'"
  using turnover_grow [of L L'] by (fastforce simp: accounts_grow_def boxes_funded_def debitBalance_def)

lemma account_is_grow: "accounts_grow L L' \<Longrightarrow> account_is L i ty side \<Longrightarrow> account_is L' i ty side"
  by (auto simp: accounts_grow_def account_is_def)

lemma lockbox_ok_grow: "accounts_grow L L' \<Longrightarrow> lockbox_ok L k l \<Longrightarrow> lockbox_ok L' k l"
  using account_is_grow [of L L'] turnover_grow [of L L']
  by (auto simp: lockbox_ok_def owned_by_def) (auto simp: accounts_grow_def)

lemma turnover_unknown:
  assumes "entries_ok L" and "jmGet (lg_accounts L) i = None"
  shows "turnover L i d = 0"
proof -
  have "le_ledgerAccountId e \<noteq> i" if "e \<in> set (lg_entries L)" for e
    using assms that by (auto simp: entries_ok_def entryAsset_def)
  then have "filter (\<lambda>e. le_ledgerAccountId e = i \<and> le_direction e = d) (lg_entries L) = []"
    by (simp add: filter_empty_conv)
  then show ?thesis by (simp add: turnover_def)
qed

lemma opened_grow:
  assumes inv: "ledger_inv s" and op: "opened s a t"
  shows "accounts_grow (ledger s) (ledger t)"
proof -
  have "la_ledgerAccountId a \<notin> fst ` set (lg_accounts (ledger s))"
    using assms issued_fresh [of s "''ledger_account''"]
    by (auto simp: opened_def ledger_inv_def ledger_ok_def accounts_ok_def)
  then have new: "jmGet (lg_accounts (ledger s)) (la_ledgerAccountId a) = None"
    by (simp add: map_of_eq_None_iff)
  then have "turnover (ledger s) (la_ledgerAccountId a) d = 0" for d
    using inv by (intro turnover_unknown) (auto simp: ledger_inv_def ledger_ok_def)
  with op new show ?thesis
    by (auto simp: opened_def Let_def accounts_grow_def addAccount_def)
qed

lemma lockbox_inv_grow:
  assumes "lockbox_inv s" and "ledger_inv t" and "accounts_grow (ledger s) (ledger t)" and "lockboxes t = lockboxes s"
  shows "lockbox_inv t"
  using assms lockbox_ok_grow boxes_funded_grow by (auto simp: lockbox_inv_def lockboxes_ok_def)

lemma lockbox_inv_log: "lockbox_inv s \<Longrightarrow> log_ext s t \<Longrightarrow> lockbox_inv t"
  by (rule lockbox_inv_grow)
    (auto simp: log_ext_ledger log_ext_lockboxes intro: ledger_inv_frame [OF lockbox_inv_ledger log_ext_frame])

lemma log_stable_lockbox_inv: "log_stable lockbox_inv"
  by (auto simp: log_stable_def intro: lockbox_inv_log)

text \<open>A change of the cached fields of a lockbox.\<close>

definition keeps_accounts :: "(lockbox \<Rightarrow> lockbox) \<Rightarrow> bool" where
  "keeps_accounts f \<longleftrightarrow> (\<forall>l. lb_lockboxId (f l) = lb_lockboxId l \<and>
     lb_ledgerAccountId (f l) = lb_ledgerAccountId l \<and>
     lb_revenueLedgerAccountId (f l) = lb_revenueLedgerAccountId l \<and>
     lb_repaymentLedgerAccountId (f l) = lb_repaymentLedgerAccountId l)"

lemma lockboxes_ok_modify:
  "lockboxes_ok L m \<Longrightarrow> keeps_accounts f \<Longrightarrow> lockboxes_ok L (jmModify k f m)"
  by (auto simp: lockboxes_ok_def lockbox_ok_def keeps_accounts_def split: if_splits)

lemma lockbox_inv_modify:
  "lockbox_inv s \<Longrightarrow> keeps_accounts f \<Longrightarrow> lockbox_inv (lockboxes_update (jmModify k f) s)"
  unfolding lockbox_inv_def ledger_inv_def
  by (auto simp: issued_def intro: lockboxes_ok_modify)

text \<open>The type is the last component of the natural key, and no type name contains the separator.\<close>

lemma type_str_clean: "CHR 0x00 \<notin> set (LedgerAccountType_str ty)"
  by (cases ty) auto

lemma type_str_inj: "LedgerAccountType_str ty = LedgerAccountType_str ty' \<Longrightarrow> ty = ty'"
  by (cases ty; cases ty') auto

lemma clean_suffix:
  assumes "CHR 0x00 \<notin> set u" and "CHR 0x00 \<notin> set v" and "xs @ [CHR 0x00] @ u = ys @ [CHR 0x00] @ v"
  shows "xs = ys \<and> u = v"
proof -
  have *: "rev u @ CHR 0x00 # rev xs = rev v @ CHR 0x00 # rev ys"
    using arg_cong [OF assms(3), of rev] by simp
  have "takeWhile (\<lambda>c. c \<noteq> CHR 0x00) (rev w @ CHR 0x00 # r) = rev w" if "CHR 0x00 \<notin> set w" for w r
    using that by (subst takeWhile_append2) auto
  from this [OF assms(1), of "rev xs"] this [OF assms(2), of "rev ys"] * have "rev u = rev v" by simp
  with * show ?thesis by simp
qed

lemma natural_key_type:
  "ledgerNaturalKey o1 i1 a1 ty = ledgerNaturalKey o2 i2 a2 ty' \<Longrightarrow> ty = ty'"
  using clean_suffix [OF type_str_clean [of ty] type_str_clean [of ty'],
      of "o1 @ [CHR 0x00] @ i1 @ [CHR 0x00] @ a1" "o2 @ [CHR 0x00] @ i2 @ [CHR 0x00] @ a2"]
  by (auto simp: ledgerNaturalKey_def intro: type_str_inj)

subsection \<open>Specifications of the operations\<close>

lemma wp_requireLockbox [wp_simps]:
  "wp (LockboxService_requireLockbox k) Q E = (\<lambda>s. case jmGet (lockboxes s) k of
     None \<Rightarrow> E (DomainError ''lockbox_not_found'' ''lockbox not found'') s | Some l \<Rightarrow> Q l s)"
  by (rule ext) (simp add: LockboxService_requireLockbox_def wp_simps split: option.split)

lemma wp_touchLockbox:
  assumes "\<And>now. Q () (lockboxes_update (jmModify k (lb_updatedAt_update (\<lambda>_. now)))
      (s\<lparr>clockCount := Suc (clockCount s)\<rparr>))"
  shows "wp (touchLockbox k) Q E s"
  using assms by (simp add: touchLockbox_def wp_simps)

text \<open>Synchronising copies the ledger's figures into the lockbox.\<close>

definition synced :: "ledger_state \<Rightarrow> lockbox \<Rightarrow> lockbox" where
  "synced L l = l\<lparr>lb_balanceMinor := debitBalance (turnover L) (lb_ledgerAccountId l),
     lb_capturedRevenueMinor := turnover L (lb_ledgerAccountId l) Entry_DEBIT\<rparr>"

lemma keeps_synced: "keeps_accounts (synced L)" "keeps_accounts (lb_updatedAt_update f)"
  "keeps_accounts (lb_status_update g)"
  by (simp_all add: keeps_accounts_def synced_def)

lemma jmModify_jmModify: "jmModify k f (jmModify k g m) = jmModify k (\<lambda>v. f (g v)) m"
  by (auto simp: jmModify_def split: option.split)

lemma jmModify_at: "jmGet m k = Some v \<Longrightarrow> jmModify k f m = jmSet k (f v) m"
  by (simp add: jmModify_def)

lemma balance_wp:
  assumes "ledger_inv s" and "account_is (ledger s) i ty Normal_DEBIT"
  shows "wp (LedgerService_getAccountBalance i) Q E s = Q (debitBalance (turnover (ledger s)) i) s"
    and "wp (LedgerService_getAccountTurnover i d) Q E s = Q (turnover (ledger s) i d) s"
  using assms accounts_ok_id [OF ledger_inv_accounts [OF assms(1)]]
  by (auto simp: account_is_def LedgerService_getAccountBalance_def LedgerService_getAccountTurnover_def
      LedgerService_requireAccount_def wp_simps debitBalance_def)

lemma wp_syncFromLedger:
  assumes "ledger_inv s" and l: "jmGet (lockboxes s) (lb_lockboxId l) = Some l'"
    and same: "lb_ledgerAccountId l' = lb_ledgerAccountId l"
    and acct: "account_is (ledger s) (lb_ledgerAccountId l) ty Normal_DEBIT"
    and Q: "Q () (lockboxes_update (jmModify (lb_lockboxId l) (synced (ledger s))) s)"
  shows "wp (LockboxService_syncFromLedger l) Q E s"
proof -
  let ?s = "lockboxes_update (jmModify (lb_lockboxId l)
      (lb_balanceMinor_update (\<lambda>_. debitBalance (turnover (ledger s)) (lb_ledgerAccountId l)))) s"
  have "ledger_inv ?s" using assms(1) by (simp add: ledger_inv_def issued_def)
  moreover have "account_is (ledger ?s) (lb_ledgerAccountId l) ty Normal_DEBIT" using acct by simp
  moreover have "lockboxes_update (jmModify (lb_lockboxId l)
      (lb_capturedRevenueMinor_update (\<lambda>_. turnover (ledger s) (lb_ledgerAccountId l) Entry_DEBIT))) ?s =
      lockboxes_update (jmModify (lb_lockboxId l) (synced (ledger s))) s"
    using l same by (cases s) (simp add: jmModify_jmModify jmModify_at synced_def)
  ultimately show ?thesis
    using Q balance_wp [OF assms(1) acct] balance_wp [of ?s, OF _]
    by (simp add: LockboxService_syncFromLedger_def wp_simps)
qed

text \<open>A posting between a lockbox's accounts, and what it does to every lockbox.\<close>

definition known_key :: "ledger_state \<Rightarrow> js \<Rightarrow> bool" where
  "known_key L key \<longleftrightarrow> (\<exists>k i. key = JStr k \<and> jmGet (lg_transactionIdsByIdempotencyKey L) k = Some i)"

lemma posted_new_key: "posted a s tx es t \<Longrightarrow> \<not> known_key (ledger s) (pa_idempotencyKey a)"
  by (auto simp: posted_def known_key_def transaction_for_def elim!: validatePosting_Inr)

lemma wp_lockboxPosting:
  assumes inv: "ledger_inv s" and amount: "toMinorUnitBigInt n v = Inr amount" "0 < amount"
  shows "wp (LedgerService_postTransaction (lockboxPosting l ty key meta x y amount))
    (\<lambda>p t. ledger_inv t \<and> ledger_frame s t \<and> lg_accounts (ledger t) = lg_accounts (ledger s) \<and>
       (if po_replayed p then turnover (ledger t) = turnover (ledger s) \<and> known_key (ledger s) key
        else transferred x y amount (turnover (ledger s)) (turnover (ledger t)) \<and> \<not> known_key (ledger s) key))
    (\<lambda>e t. ledger_inv t \<and> ledger_frame s t \<and> lg_accounts (ledger t) = lg_accounts (ledger s) \<and>
       (transferred x y amount (turnover (ledger s)) (turnover (ledger t)) \<or>
        turnover (ledger t) = turnover (ledger s))) s"
proof -
  let ?a = "lockboxPosting l ty key meta x y amount"
  have parse: "toMinorUnitBigInt n (JStr (dec amount)) = Inr amount"
    using toMinorUnit_print [of amount n] toMinorUnit_bound [OF amount(1)] amount(2) by simp
  have "wp (LedgerService_postTransaction ?a)
      (\<lambda>p t. ledger_frame s t \<and> lg_accounts (ledger t) = lg_accounts (ledger s) \<and>
        (po_replayed p \<longleftrightarrow> known_key (ledger s) key))
      (\<lambda>e t. ledger_frame s t \<and> lg_accounts (ledger t) = lg_accounts (ledger s)) s"
  proof (rule wp_conseq [OF wp_postTransaction [OF inv]], goal_cases)
    case (1 p t)
    then show ?case using posted_new_key [of ?a s "fst (po_transaction p)" "snd (po_transaction p)" t]
      by (auto simp: posted_def addTransaction_def known_key_def lockboxPosting_def elim: validatePosting_Inr split: if_splits)
  qed (auto simp: posted_def addTransaction_def split: if_splits)
  moreover have "pa_entries ?a = Some (transferEntries x y amount)" by (simp add: lockboxPosting_def)
  ultimately show ?thesis
    by (rule wp_conseq [OF wp_conj [OF _ ledger_book.transfer [OF inv _ parse]]]) auto
qed

lemma lockbox_inv_transfer:
  assumes inv: "lockbox_inv s" and led: "ledger_inv t" and boxes: "lockboxes t = lockboxes s"
    and acc: "lg_accounts (ledger t) = lg_accounts (ledger s)" and pos: "0 < amount"
    and move: "transferred x y amount (turnover (ledger s)) (turnover (ledger t)) \<or>
      turnover (ledger t) = turnover (ledger s)"
    and safe: "account_is (ledger s) y LedgerType_LOCKBOX_ASSET side \<Longrightarrow>
      amount \<le> debitBalance (turnover (ledger s)) y"
    and known: "account_is (ledger s) y ty side"
  shows "lockbox_inv t"
proof -
  have "0 \<le> debitBalance (turnover (ledger t)) i"
    if "jmGet (lg_accounts (ledger s)) i = Some a" "la_accountType a = LedgerType_LOCKBOX_ASSET" for i a
  proof -
    have "0 \<le> debitBalance (turnover (ledger s)) i"
      using inv that by (auto simp: lockbox_inv_def boxes_funded_def)
    moreover have "amount \<le> debitBalance (turnover (ledger s)) i" if "i = y"
      using that \<open>jmGet _ i = _\<close> \<open>la_accountType a = _\<close> safe known by (auto simp: account_is_def)
    ultimately show ?thesis using move pos by (auto simp: transferred_def debitBalance_def)
  qed
  then have "boxes_funded (ledger t)" by (simp add: boxes_funded_def acc)
  moreover have "lockboxes_ok (ledger t) (lockboxes t)"
    using inv boxes acc by (simp add: lockbox_inv_def lockboxes_ok_def lockbox_ok_def account_is_def owned_by_def)
  ultimately show ?thesis using led by (simp add: lockbox_inv_def)
qed

lemma account_type_unique: "account_is L i ty side \<Longrightarrow> account_is L i ty' side' \<Longrightarrow> ty = ty' \<and> side = side'"
  by (auto simp: account_is_def)

lemma wp_defaultKey:
  assumes inv: "lockbox_inv s"
    and Q: "\<And>key u. lockbox_inv u \<Longrightarrow> lockbox_frame s u \<Longrightarrow> ledger u = ledger s \<Longrightarrow> lockboxes u = lockboxes s \<Longrightarrow>
      (k \<noteq> JUndefined \<Longrightarrow> key = k) \<Longrightarrow> Q key u"
  shows "wp (defaultKey p k) Q E s"
proof (cases "k = JUndefined")
  case True
  have "Q (JStr (opId (rt s) p (uuidCount s))) (s\<lparr>uuidCount := Suc (uuidCount s)\<rparr>)"
    by (rule Q) (use True in \<open>auto simp: lockbox_frame_def intro: lockbox_inv_log [OF inv]\<close>)
  with True show ?thesis by (simp add: defaultKey_def wp_simps)
next
  case False
  with Q [of s k] inv show ?thesis by (simp add: defaultKey_def wp_simps)
qed

text \<open>What a movement on one lockbox reports and leaves behind.\<close>

definition settled :: "'z lockbox_world_scheme \<Rightarrow> string \<Rightarrow> lockbox \<Rightarrow> 'z lockbox_world_scheme \<Rightarrow> bool" where
  "settled s k l t \<longleftrightarrow> jmGet (lockboxes t) k = Some l \<and>
     lb_balanceMinor l = debitBalance (turnover (ledger t)) (lb_ledgerAccountId l) \<and>
     lb_capturedRevenueMinor l = turnover (ledger t) (lb_ledgerAccountId l) Entry_DEBIT \<and>
     (\<exists>l0. jmGet (lockboxes s) k = Some l0 \<and> lb_ledgerAccountId l = lb_ledgerAccountId l0 \<and>
        lb_revenueLedgerAccountId l = lb_revenueLedgerAccountId l0 \<and>
        lb_repaymentLedgerAccountId l = lb_repaymentLedgerAccountId l0 \<and> lb_status l = lb_status l0) \<and>
     (\<forall>k'. k' \<noteq> k \<longrightarrow> jmGet (lockboxes t) k' = jmGet (lockboxes s) k')"

lemma wp_finishMovement:
  assumes inv: "lockbox_inv t" and l: "jmGet (lockboxes t) k = Some l" and fr: "lockbox_frame s t"
    and Q: "\<And>l' u. lockbox_inv u \<Longrightarrow> lockbox_frame s u \<Longrightarrow> ledger u = ledger t \<Longrightarrow> settled t k l' u \<Longrightarrow> Q l' u"
    and E: "\<And>e u. lockbox_inv u \<Longrightarrow> lockbox_frame s u \<Longrightarrow> E e u"
  shows "wp (finishMovement k l posting ev) Q E t"
proof -
  have ok: "lockbox_ok (ledger t) k l" by (rule lockbox_invD [OF inv l])
  then have k: "lb_lockboxId l = k" by (simp add: lockbox_ok_def)
  have end_: "wp (bindM (LockboxService_requireLockbox k) (\<lambda>d.
      thenM (whenM (\<not> po_replayed posting) (emitCreditEvent (ev d))) (LockboxService_requireLockbox k))) Q E u"
    if u: "lockbox_inv u" "lockbox_frame s u" "ledger u = ledger t"
      "lockboxes u = jmModify k (\<lambda>l. (synced (ledger t) l)\<lparr>lb_updatedAt := now\<rparr>) (lockboxes t)" for u now
  proof -
    have set: "settled t k ((synced (ledger t) l)\<lparr>lb_updatedAt := now\<rparr>) v"
      if "ledger v = ledger t" "lockboxes v = lockboxes u" for v
      using that u(4) l by (simp add: settled_def synced_def)
    have after: "lockbox_inv v \<and> lockbox_frame s v \<and> ledger v = ledger t \<and> lockboxes v = lockboxes u"
      if "log_ext u v" for v
      using u(1-3) lockbox_frame_trans [OF u(2) log_lockbox_frame [OF that]] lockbox_inv_log [OF u(1) that]
      by (simp add: log_ext_ledger [OF that] log_ext_lockboxes [OF that])
    show ?thesis
      using l u(4) set [of u] u(1-3) Q
      by (auto simp: wp_simps dest!: after intro!: wp_emitI E Q set split: option.split)
  qed
  show ?thesis
    unfolding finishMovement_def wp_thenM
  proof (rule wp_syncFromLedger [where l' = l])
    show "ledger_inv t" by (rule lockbox_inv_ledger [OF inv])
    show "account_is (ledger t) (lb_ledgerAccountId l) LedgerType_LOCKBOX_ASSET Normal_DEBIT"
      using ok by (simp add: lockbox_ok_def)
    let ?t = "lockboxes_update (jmModify (lb_lockboxId l) (synced (ledger t))) t"
    have inv': "lockbox_inv ?t" by (rule lockbox_inv_modify [OF inv keeps_synced(1)])
    show "wp (touchLockbox k) (\<lambda>_. wp (bindM (LockboxService_requireLockbox k) (\<lambda>d.
        thenM (whenM (\<not> po_replayed posting) (emitCreditEvent (ev d))) (LockboxService_requireLockbox k))) Q E) E ?t"
    proof (rule wp_touchLockbox, rule end_)
      fix now
      let ?u = "lockboxes_update (jmModify k (lb_updatedAt_update (\<lambda>_. now))) (?t\<lparr>clockCount := Suc (clockCount ?t)\<rparr>)"
      show "lockbox_inv ?u"
        by (rule lockbox_inv_modify [OF lockbox_inv_log [OF inv'] keeps_synced(2)]) (rule log_ext_counters)
      show "lockbox_frame s ?u" using fr by (simp add: lockbox_frame_def)
      show "lockboxes ?u = jmModify k (\<lambda>l. (synced (ledger t) l)\<lparr>lb_updatedAt := now\<rparr>) (lockboxes t)"
        by (simp add: k jmModify_jmModify)
    qed simp
  qed (use l k in simp_all)
qed

lemma wp_sync_inv:
  assumes inv: "lockbox_inv u" and l: "jmGet (lockboxes u) k = Some l"
    and Q: "\<And>t. lockbox_inv t \<Longrightarrow> lockbox_frame u t \<Longrightarrow> ledger t = ledger u \<Longrightarrow>
      lockboxes t = jmModify k (synced (ledger u)) (lockboxes u) \<Longrightarrow> Q () t"
  shows "wp (LockboxService_syncFromLedger l) Q E u"
proof (rule wp_syncFromLedger [where l' = l, OF lockbox_inv_ledger [OF inv]])
  note ok = lockbox_invD [OF inv l]
  show "account_is (ledger u) (lb_ledgerAccountId l) LedgerType_LOCKBOX_ASSET Normal_DEBIT"
    using ok by (simp add: lockbox_ok_def)
  show "jmGet (lockboxes u) (lb_lockboxId l) = Some l" using ok l by (simp add: lockbox_ok_def)
  show "Q () (lockboxes_update (jmModify (lb_lockboxId l) (synced (ledger u))) u)"
    by (rule Q) (use ok in \<open>auto simp: lockbox_ok_def lockbox_frame_def intro!: lockbox_inv_modify inv keeps_synced\<close>)
qed simp

text \<open>A movement: the posting and its end, from the state \<open>u\<close> in which it is posted.\<close>

lemma wp_movement:
  assumes inv: "lockbox_inv u" and l: "jmGet (lockboxes u) k = Some l"
    and amount: "assertPositiveMinorUnits n v = Inr amount"
    and known: "account_is (ledger u) y aty side"
    and safe: "account_is (ledger u) y LedgerType_LOCKBOX_ASSET side \<Longrightarrow>
      amount \<le> debitBalance (turnover (ledger u)) y"
    and Q: "\<And>l' t. lockbox_inv t \<Longrightarrow> lockbox_frame u t \<Longrightarrow> settled u k l' t \<Longrightarrow>
      transferred x y amount (turnover (ledger u)) (turnover (ledger t)) \<and> \<not> known_key (ledger u) key \<or>
      turnover (ledger t) = turnover (ledger u) \<and> known_key (ledger u) key \<Longrightarrow> Q l' t"
    and E: "\<And>e t. lockbox_inv t \<Longrightarrow> lockbox_frame u t \<Longrightarrow> E e t"
  shows "wp (LedgerService_postTransaction (lockboxPosting l ty key meta x y amount))
    (\<lambda>p. wp (finishMovement k l p (ev p)) Q E) E u"
proof (rule wp_conseq [OF wp_lockboxPosting [OF lockbox_inv_ledger [OF inv], of n v]])
  show "toMinorUnitBigInt n v = Inr amount" "0 < amount" using amount by (auto simp: assertPositive_Inr)
next
  fix p :: posting and t
  assume t: "ledger_inv t \<and> ledger_frame u t \<and> lg_accounts (ledger t) = lg_accounts (ledger u) \<and>
    (if po_replayed p then turnover (ledger t) = turnover (ledger u) \<and> known_key (ledger u) key
     else transferred x y amount (turnover (ledger u)) (turnover (ledger t)) \<and> \<not> known_key (ledger u) key)"
  have "lockbox_inv t"
    by (rule lockbox_inv_transfer [OF inv _ _ _ _ _ safe known])
      (use t amount in \<open>auto simp: ledger_frame_lockboxes assertPositive_Inr split: if_splits\<close>)
  then show "wp (finishMovement k l p (ev p)) Q E t"
  proof (rule wp_finishMovement [where s = u])
    show box: "jmGet (lockboxes t) k = Some l" "lockbox_frame u t"
      using t l by (auto simp: ledger_frame_lockboxes ledger_lockbox_frame)
    fix l' w assume w: "lockbox_inv w" "lockbox_frame u w" "ledger w = ledger t" "settled t k l' w"
    have "lockboxes t = lockboxes u" using t by (simp add: ledger_frame_lockboxes)
    then have "settled u k l' w" using w(4) by (simp add: settled_def)
    then show "Q l' w" by (rule Q [OF w(1,2)]) (use t w(3) in \<open>simp split: if_splits\<close>)
  qed (rule E)
next
  fix e t
  assume t: "ledger_inv t \<and> ledger_frame u t \<and> lg_accounts (ledger t) = lg_accounts (ledger u) \<and>
    (transferred x y amount (turnover (ledger u)) (turnover (ledger t)) \<or>
     turnover (ledger t) = turnover (ledger u))"
  have "lockbox_inv t"
    by (rule lockbox_inv_transfer [OF inv _ _ _ _ _ safe known])
      (use t amount in \<open>auto simp: ledger_frame_lockboxes assertPositive_Inr\<close>)
  with t show "E e t" by (auto intro: E ledger_lockbox_frame)
qed

lemma wp_captureRevenue:
  assumes inv: "lockbox_inv s"
  shows "wp (LockboxService_captureRevenue k v src key)
    (\<lambda>l t. lockbox_inv t \<and> lockbox_frame s t \<and> settled s k l t \<and> lb_status l = Lockbox_ACTIVE \<and>
       (\<exists>amount. assertPositiveMinorUnits amountMinorName v = Inr amount \<and>
          (transferred (lb_ledgerAccountId l) (lb_revenueLedgerAccountId l) amount
             (turnover (ledger s)) (turnover (ledger t)) \<or>
           turnover (ledger t) = turnover (ledger s) \<and> (key \<noteq> JUndefined \<longrightarrow> known_key (ledger s) key))))
    (\<lambda>e t. lockbox_inv t \<and> lockbox_frame s t) s"
  unfolding LockboxService_captureRevenue_def Let_def
  apply (rule wp_bindI, rule wp_defaultKey [OF inv])
  apply (auto simp: wp_simps split: option.split sum.split)
  subgoal for key' u src' l amount
    using lockbox_invD [of u k l] account_type_unique [of "ledger u" "lb_revenueLedgerAccountId l"]
    by (rule_tac wp_movement) (auto simp: settled_def lockbox_ok_def intro: lockbox_frame_trans)
  done

lemma wp_reduceBalance:
  assumes inv: "lockbox_inv s"
  shows "wp (LockboxService_reduceBalance k v reason key)
    (\<lambda>l t. lockbox_inv t \<and> lockbox_frame s t \<and> settled s k l t \<and>
       (\<exists>amount. assertPositiveMinorUnits amountMinorName v = Inr amount \<and>
          amount \<le> debitBalance (turnover (ledger s)) (lb_ledgerAccountId l) \<and>
          (transferred (lb_repaymentLedgerAccountId l) (lb_ledgerAccountId l) amount
             (turnover (ledger s)) (turnover (ledger t)) \<and> (key \<noteq> JUndefined \<longrightarrow> \<not> known_key (ledger s) key) \<or>
           turnover (ledger t) = turnover (ledger s) \<and> (key \<noteq> JUndefined \<longrightarrow> known_key (ledger s) key))))
    (\<lambda>e t. lockbox_inv t \<and> lockbox_frame s t) s"
  unfolding LockboxService_reduceBalance_def Let_def
  apply (rule wp_bindI, rule wp_defaultKey [OF inv])
  apply (auto simp: wp_simps split: option.split sum.split)
  subgoal for key' u reason' l amount
    apply (rule wp_sync_inv [where k = k])
    apply (auto simp: synced_def split: option.split intro: lockbox_frame_trans)
    using lockbox_invD [of u k l]
    by (rule_tac wp_movement [where k = k])
      (auto simp: settled_def synced_def lockbox_ok_def intro: lockbox_frame_trans)
  done

lemma preserves_captureRevenue: "preserves lockbox_inv (LockboxService_captureRevenue k v src key)"
  by (rule preservesI, rule wp_conseq, erule wp_captureRevenue) auto

lemma preserves_reduceBalance: "preserves lockbox_inv (LockboxService_reduceBalance k v reason key)"
  by (rule preservesI, rule wp_conseq, erule wp_reduceBalance) auto

lemma preserves_setStatus: "preserves lockbox_inv (LockboxService_setStatus k st reason)"
proof (rule preservesI)
  fix s :: "'a lockbox_world_scheme"
  assume inv: "lockbox_inv s"
  have "lockbox_inv u" if "log_ext (lockboxes_update (jmModify k (lb_updatedAt_update (\<lambda>_. now)))
      ((lockboxes_update (jmModify k (lb_status_update (\<lambda>_. st))) s)\<lparr>clockCount := Suc (clockCount s)\<rparr>)) u"
    for now u
  proof -
    let ?t = "lockboxes_update (jmModify k (lb_status_update (\<lambda>_. st))) s"
    have "lockbox_inv ?t" by (rule lockbox_inv_modify [OF inv keeps_synced(3)])
    then have "lockbox_inv (?t\<lparr>clockCount := Suc (clockCount ?t)\<rparr>)"
      by (rule lockbox_inv_log) (rule log_ext_counters)
    then show ?thesis using lockbox_inv_log [OF lockbox_inv_modify [OF _ keeps_synced(2)] that] by simp
  qed
  then show "wp (LockboxService_setStatus k st reason) (\<lambda>_. lockbox_inv) (\<lambda>_. lockbox_inv) s"
    using inv by (auto simp: LockboxService_setStatus_def touchLockbox_def wp_simps case_assertTransition
        intro!: wp_emitI split: option.split)
qed

lemma wp_openAccount_lockbox:
  assumes inv: "lockbox_inv s"
    and ty: "assertEnumValue ''accountType'' aty LedgerAccountType_values = Inr ty"
    and sd: "assertEnumValue ''normalSide'' side LedgerNormalSide_values = Inr sd"
    and Q: "\<And>a asset' t. lockbox_inv t \<Longrightarrow> lockbox_frame s t \<Longrightarrow> lockboxes t = lockboxes s \<Longrightarrow> uuidCount s \<le> uuidCount t \<Longrightarrow>
      accounts_grow (ledger s) (ledger t) \<Longrightarrow> account_is (ledger t) (la_ledgerAccountId a) ty sd \<Longrightarrow>
      (jmGet (lg_accounts (ledger t)) (la_ledgerAccountId a) = Some a \<and>
       ledgerNaturalKey (la_ownerType a) (la_ownerId a) (la_assetId a) (la_accountType a) =
       ledgerNaturalKey oty oid asset' ty) \<Longrightarrow> Q a t"
    and E: "\<And>e t. lockbox_inv t \<Longrightarrow> lockbox_frame s t \<Longrightarrow> E e t"
  shows "wp (LedgerService_openAccount (JStr oty) (JStr oid) asset aty side subj now) Q E s"
proof (rule wp_conseq [OF wp_conj [OF wp_openAccount wp_openAccount_key]])
  show led: "ledger_inv s" by (rule lockbox_inv_ledger [OF inv])
  show "ledger_inv s" by (rule led)
  have after: "lockbox_inv t \<and> lockbox_frame s t \<and> lockboxes t = lockboxes s \<and> uuidCount s \<le> uuidCount t \<and>
      accounts_grow (ledger s) (ledger t) \<and> ledger_inv t"
    if "ledger_frame s t" and "ledger t = ledger s \<or> (\<exists>a. opened s a t)" for t
  proof -
    have "ledger_inv t" "accounts_grow (ledger s) (ledger t)"
      using that led ledger_inv_frame opened_inv opened_grow by auto
    moreover have "lockboxes t = lockboxes s" by (rule ledger_frame_lockboxes [OF that(1)])
    moreover have "uuidCount s \<le> uuidCount t" using that(1) by (simp add: ledger_frame_def)
    ultimately show ?thesis
      using lockbox_inv_grow [OF inv] ledger_lockbox_frame [OF that(1)] by simp
  qed
  fix a t
  assume *: "(ledger_frame s t \<and> (ledger t = ledger s \<or> opened s a t) \<and>
      jmGet (lg_accounts (ledger t)) (la_ledgerAccountId a) = Some a) \<and>
    (\<exists>oty' oid' asset' aty'. assertNonEmptyString ''ownerType'' (JStr oty) = Inr oty' \<and>
      assertNonEmptyString ''ownerId'' (JStr oid) = Inr oid' \<and> assertNonEmptyString ''assetId'' asset = Inr asset' \<and>
      assertEnumValue ''accountType'' aty LedgerAccountType_values = Inr aty' \<and>
      assertEnumValue ''normalSide'' side LedgerNormalSide_values = Inr (la_normalSide a) \<and>
      jmGet (lg_accountIdsByNaturalKey (ledger t)) (ledgerNaturalKey oty' oid' asset' aty') = Some (la_ledgerAccountId a) \<and>
      jmGet (lg_accounts (ledger t)) (la_ledgerAccountId a) = Some a)"
  then obtain asset' where key: "jmGet (lg_accountIdsByNaturalKey (ledger t)) (ledgerNaturalKey oty oid asset' ty) =
      Some (la_ledgerAccountId a)" and acc: "jmGet (lg_accounts (ledger t)) (la_ledgerAccountId a) = Some a"
      and side': "la_normalSide a = sd"
    using ty sd by (auto simp: assertNonEmptyString_Inr)
  have t: "lockbox_inv t" "lockbox_frame s t" "lockboxes t = lockboxes s" "uuidCount s \<le> uuidCount t"
      "accounts_grow (ledger s) (ledger t)" "ledger_inv t"
    using after [of t] * by auto
  have nk: "ledgerNaturalKey (la_ownerType a) (la_ownerId a) (la_assetId a) (la_accountType a) =
      ledgerNaturalKey oty oid asset' ty"
    using accounts_ok_index [OF ledger_inv_accounts [OF t(6)] key] acc by auto
  then have "account_is (ledger t) (la_ledgerAccountId a) ty sd"
    using acc side' natural_key_type by (auto simp: account_is_def)
  then show "Q a t" using Q t acc nk by blast
next
  fix e t
  assume "(ledger_frame s t \<and> ((\<exists>a. opened s a t) \<or> ledger t = ledger s)) \<and> True"
  then show "E e t"
    using inv lockbox_inv_ledger [OF inv] ledger_inv_frame opened_inv opened_grow ledger_frame_lockboxes
      ledger_lockbox_frame
    by (intro E) (auto intro!: lockbox_inv_grow [OF inv])
qed

lemma lockbox_inv_store:
  assumes "lockbox_inv t" and "lockbox_ok (ledger t) k l"
  shows "lockbox_inv (lockboxes_update (jmSet k l) t)"
  using assms by (auto simp: lockbox_inv_def lockboxes_ok_def ledger_inv_def issued_def)

lemma owned_by_grow: "accounts_grow L L' \<Longrightarrow> owned_by L i k \<Longrightarrow> owned_by L' i k"
  by (auto simp: accounts_grow_def owned_by_def)

lemma lockbox_account_enums:
  "assertEnumValue ''accountType'' (JStr ''lockbox_asset'') LedgerAccountType_values = Inr LedgerType_LOCKBOX_ASSET"
  "assertEnumValue ''accountType'' (JStr ''external_revenue'') LedgerAccountType_values = Inr LedgerType_EXTERNAL_REVENUE"
  "assertEnumValue ''accountType'' (JStr ''repayment_clearing'') LedgerAccountType_values = Inr LedgerType_REPAYMENT_CLEARING"
  "assertEnumValue ''normalSide'' (JStr ''debit'') LedgerNormalSide_values = Inr Normal_DEBIT"
  "assertEnumValue ''normalSide'' (JStr ''credit'') LedgerNormalSide_values = Inr Normal_CREDIT"
  by (simp_all add: assertEnumValue_def LedgerAccountType_values_def LedgerNormalSide_values_def)

lemma stored_after:
  assumes inv: "lockbox_inv t3" and fr: "lockbox_frame s t3" and boxes: "lockboxes t3 = lockboxes s"
    and g1: "accounts_grow (ledger s) (ledger t1)" and g2: "accounts_grow (ledger t1) (ledger t2)"
    and g3: "accounts_grow (ledger t2) (ledger t3)"
    and a: "account_is (ledger t1) (lb_ledgerAccountId l) LedgerType_LOCKBOX_ASSET Normal_DEBIT"
      "owned_by (ledger t1) (lb_ledgerAccountId l) (lb_lockboxId l)"
    and b: "account_is (ledger t2) (lb_revenueLedgerAccountId l) LedgerType_EXTERNAL_REVENUE Normal_CREDIT"
    and c: "account_is (ledger t3) (lb_repaymentLedgerAccountId l) LedgerType_REPAYMENT_CLEARING Normal_DEBIT"
    and k: "lb_lockboxId l = k" and log: "log_ext (lockboxes_update (jmSet k l) t3) u"
  shows "lockbox_inv u \<and> lockbox_frame s u \<and> lockboxes u = jmSet k l (lockboxes s) \<and>
    turnover (ledger u) = turnover (ledger s)"
proof -
  let ?t = "lockboxes_update (jmSet k l) t3"
  note g = accounts_grow_trans [OF g2 g3]
  have "lockbox_ok (ledger t3) k l"
    using k account_is_grow [OF g a(1)] owned_by_grow [OF g a(2)] account_is_grow [OF g3 b] c
    by (simp add: lockbox_ok_def)
  then have "lockbox_inv ?t" by (rule lockbox_inv_store [OF inv])
  moreover have "lockbox_frame s ?t" using fr by (simp add: lockbox_frame_def)
  ultimately show ?thesis
    using lockbox_inv_log [OF _ log] lockbox_frame_trans [OF _ log_lockbox_frame [OF log]] boxes
      turnover_grow [OF accounts_grow_trans [OF g1 g]]
    by (simp add: log_ext_lockboxes [OF log] log_ext_ledger [OF log])
qed

lemma wp_createLockbox:
  assumes inv: "lockbox_inv s"
    and Q: "\<And>l t. lockbox_inv t \<Longrightarrow> lockbox_frame s t \<Longrightarrow> lb_status l = Lockbox_CREATED \<Longrightarrow> lb_subjectId l = subj \<Longrightarrow>
      lb_lockboxId l = opId (rt s) ''lockbox'' (uuidCount s) \<Longrightarrow>
      lockboxes t = jmSet (lb_lockboxId l) l (lockboxes s) \<Longrightarrow> turnover (ledger t) = turnover (ledger s) \<Longrightarrow> Q l t"
    and E: "\<And>e t. lockbox_inv t \<Longrightarrow> lockbox_frame s t \<Longrightarrow> E e t"
  shows "wp (LockboxService_createLockbox subj asset acct) Q E s"
proof -
  let ?s = "s\<lparr>clockCount := Suc (clockCount s), uuidCount := Suc (uuidCount s)\<rparr>"
  have "log_ext s ?s" by (auto simp: log_ext_def)
  then have inv0: "lockbox_inv ?s" and fr0: "lockbox_frame s ?s"
    using lockbox_inv_log [OF inv] log_lockbox_frame by blast+
  show ?thesis
    unfolding LockboxService_createLockbox_def createLockbox_def Let_def
    apply (auto simp: wp_simps intro: E inv split: sum.split)
    apply (rule wp_openAccount_lockbox [OF inv0 lockbox_account_enums(1,4)])
    subgoal for acct' chain a asset1 t1
      apply (rule wp_openAccount_lockbox [where s = t1, OF _ lockbox_account_enums(2,5)], assumption)
      subgoal for b asset2 t2
        apply (rule wp_openAccount_lockbox [where s = t2, OF _ lockbox_account_enums(3,4)], assumption)
        subgoal premises p for c asset3 t3
        proof -
          have fr: "lockbox_frame s t3" using p fr0 by (blast intro: lockbox_frame_trans)
          have boxes: "lockboxes t3 = lockboxes s" using p by simp
          have g: "accounts_grow (ledger s) (ledger t1)" using p by simp
          have own: "owned_by (ledger t1) (la_ledgerAccountId a) (opId (rt s) ''lockbox'' (uuidCount s))"
            using p by (auto simp: owned_by_def)
          show ?thesis
            by (rule wp_emitI; drule stored_after [OF \<open>lockbox_inv t3\<close> fr boxes g, rotated -1])
              (use p own in \<open>auto intro: Q E\<close>)
        qed
        apply (blast intro: E lockbox_frame_trans fr0)
        done
      apply (blast intro: E lockbox_frame_trans fr0)
      done
    apply (blast intro: E lockbox_frame_trans fr0)
    done
qed

lemma preserves_createLockbox: "preserves lockbox_inv (LockboxService_createLockbox subj asset acct)"
  by (rule preservesI, rule wp_createLockbox)

lemma preserves_sync: "preserves lockbox_inv (LockboxService_syncFromLedger l)"
proof (rule preservesI)
  fix s :: "'a lockbox_world_scheme"
  assume inv: "lockbox_inv s"
  have keep: "keeps_accounts (lb_balanceMinor_update f)" "keeps_accounts (lb_capturedRevenueMinor_update f)" for f
    by (simp_all add: keeps_accounts_def)
  have one: "lockbox_inv (lockboxes_update (jmModify (lb_lockboxId l) (lb_balanceMinor_update (\<lambda>_. b))) s)" for b
    by (rule lockbox_inv_modify [OF inv keep(1)])
  have two: "lockbox_inv (lockboxes_update (jmModify (lb_lockboxId l) (lb_capturedRevenueMinor_update (\<lambda>_. c)) \<circ>
      jmModify (lb_lockboxId l) (lb_balanceMinor_update (\<lambda>_. b))) s)" for b c
    using lockbox_inv_modify [OF one keep(2), of "lb_lockboxId l" "\<lambda>_. c" b] by simp
  show "wp (LockboxService_syncFromLedger l) (\<lambda>_. lockbox_inv) (\<lambda>_. lockbox_inv) s"
    using inv one two
    by (auto simp: LockboxService_syncFromLedger_def LedgerService_getAccountBalance_def
        LedgerService_getAccountTurnover_def LedgerService_requireAccount_def wp_simps split: option.split)
qed

lemma preserves_getLockbox: "preserves lockbox_inv (LockboxService_getLockbox k)"
  by (rule preservesI)
    (auto simp: LockboxService_getLockbox_def wp_simps split: option.split
      intro!: wp_conseq [OF preservesD [OF preserves_sync]])

lemma preserves_listLockboxes: "preserves lockbox_inv LockboxService_listLockboxes"
proof (rule preservesI)
  fix s :: "'a lockbox_world_scheme"
  assume inv: "lockbox_inv s"
  have "preserves lockbox_inv (thenM (LockboxService_syncFromLedger l) (LockboxService_requireLockbox i))" for l i
    by (rule preservesI)
      (auto simp: wp_simps split: option.split intro!: wp_conseq [OF preservesD [OF preserves_sync]])
  then show "wp LockboxService_listLockboxes (\<lambda>_. lockbox_inv) (\<lambda>_. lockbox_inv) s"
    unfolding LockboxService_listLockboxes_def wp_simps
    by (intro preservesD preserves_mapM inv)
qed

subsection \<open>Reachable lockboxes\<close>

inductive lockbox_step :: "'z lockbox_world_scheme \<Rightarrow> 'z lockbox_world_scheme \<Rightarrow> bool" where
  create: "LockboxService_createLockbox subj asset acct s = (r, t) \<Longrightarrow> lockbox_step s t"
| activate: "LockboxService_activateLockbox k s = (r, t) \<Longrightarrow> lockbox_step s t"
| freeze: "LockboxService_freezeLockbox k reason s = (r, t) \<Longrightarrow> lockbox_step s t"
| close: "LockboxService_closeLockbox k reason s = (r, t) \<Longrightarrow> lockbox_step s t"
| capture: "LockboxService_captureRevenue k v src key s = (r, t) \<Longrightarrow> lockbox_step s t"
| reduce: "LockboxService_reduceBalance k v reason key s = (r, t) \<Longrightarrow> lockbox_step s t"
| get: "LockboxService_getLockbox k s = (r, t) \<Longrightarrow> lockbox_step s t"
| list: "LockboxService_listLockboxes s = (ls, t) \<Longrightarrow> lockbox_step s t"
| log_append: "log_ext s t \<Longrightarrow> lockbox_step s t"

lemmas lockbox_preserves = preserves_createLockbox preserves_captureRevenue preserves_reduceBalance
  preserves_setStatus preserves_getLockbox preserves_listLockboxes

lemma preserves_run: "preserves P m \<Longrightarrow> P s \<Longrightarrow> m s = (r, t) \<Longrightarrow> P t"
  by (metis preserves_def snd_conv)

lemma lockbox_inv_step: "lockbox_inv s \<Longrightarrow> lockbox_step s t \<Longrightarrow> lockbox_inv t"
  by (erule lockbox_step.cases)
    (auto simp: LockboxService_activateLockbox_def LockboxService_freezeLockbox_def LockboxService_closeLockbox_def
      intro: lockbox_preserves [THEN preserves_run] lockbox_inv_log)

interpretation lockbox_ts: transition_system lockbox_step lockbox_inv
  by unfold_locales (rule lockbox_inv_step)

definition lockbox_init :: "'z lockbox_world_scheme \<Rightarrow> bool" where
  "lockbox_init s \<longleftrightarrow> ledger_init s \<and> lockboxes s = []"

lemma lockbox_init_inv: "lockbox_init s \<Longrightarrow> lockbox_inv s"
  by (simp add: lockbox_init_def lockbox_inv_def ledger_init_inv lockboxes_ok_def boxes_funded_def
      ledger_init_def ledger_empty_def)

subsection \<open>A concrete lockbox\<close>

definition demo_lockbox :: lockbox where
  "demo_lockbox = \<lparr>lb_lockboxId = ''lockbox_'', lb_lockboxHash = ''0xh'', lb_subjectId = JStr ''s1'',
     lb_chainId = ''eip155:1'', lb_assetId = JStr ''USDC'', lb_accountIdRef = JStr ''eip155:1:0xab'',
     lb_status = Lockbox_ACTIVE, lb_balanceMinor = 0, lb_capturedRevenueMinor = 0, lb_createdAt = 0,
     lb_updatedAt = 0, lb_ledgerAccountId = ''ledger_account_u'',
     lb_revenueLedgerAccountId = ''ledger_account_uu'', lb_repaymentLedgerAccountId = ''ledger_account_uuu'',
     lb_schemaVersion = ''lockbox.v1''\<rparr>"

definition demo_box_accounts :: "ledger_account jsmap" where
  "demo_box_accounts =
     [(''ledger_account_u'', (demo_account ''ledger_account_u'' ''lockbox_'' LedgerType_LOCKBOX_ASSET Normal_DEBIT)),
      (''ledger_account_uu'', demo_account ''ledger_account_uu'' ''r'' LedgerType_EXTERNAL_REVENUE Normal_CREDIT),
      (''ledger_account_uuu'', demo_account ''ledger_account_uuu'' ''p'' LedgerType_REPAYMENT_CLEARING Normal_DEBIT)]"

definition demo_boxes :: lockbox_world where
  "demo_boxes = \<lparr>rt = demo_runtime, uuidCount = 4, clockCount = 0, creditEvents = [], auditEvents = [],
     seenCreditIds = [], seenAuditIds = [], evidenceEnvelopes = [], aggregateVersions = [],
     ledger = ledger_empty\<lparr>lg_accounts := demo_box_accounts\<rparr>,
     lockboxes = [(''lockbox_'', demo_lockbox)]\<rparr>"

lemma demo_boxes_inv: "lockbox_inv demo_boxes"
proof -
  have "issued demo_boxes ''ledger_account'' =
      {''ledger_account_'', ''ledger_account_u'', ''ledger_account_uu'', ''ledger_account_uuu''}"
    by (auto simp: issued_def demo_boxes_def eval_simps lessThan_nat_numeral)
  then have "ledger_inv demo_boxes"
    by (simp add: ledger_inv_def ledger_ok_def accounts_ok_def transactions_ok_def entries_ok_def
        assets_balanced_def assetTotal_def entryTotal_def)
      (simp add: demo_boxes_def ledger_empty_def demo_box_accounts_def demo_account_def cong: eval_congs)
  moreover have "boxes_funded (ledger demo_boxes)"
    by (simp add: boxes_funded_def debitBalance_def turnover_def demo_boxes_def ledger_empty_def)
  moreover have "lockboxes_ok (ledger demo_boxes) (lockboxes demo_boxes)"
    by (auto simp: lockboxes_ok_def lockbox_ok_def account_is_def owned_by_def demo_boxes_def demo_lockbox_def
        ledger_empty_def demo_box_accounts_def demo_account_def split: if_splits)
  ultimately show ?thesis by (simp add: lockbox_inv_def)
qed

definition demo_box_request :: posting_request where
  "demo_box_request =
     \<lparr>rq_idempotencyKey = ''k'', rq_transactionType = ''lockbox_revenue_capture'', rq_assetId = ''USDC'',
      rq_referenceType = ''lockbox'', rq_referenceId = ''lockbox_'',
      rq_metadata = JObj [(''source'', JStr ''provider_sandbox'')],
      rq_normalizedEntries =
        [\<lparr>ne_ledgerAccountId = ''ledger_account_u'', ne_direction = Entry_DEBIT, ne_amountMinor = 250,
          ne_sequence = 0\<rparr>,
         \<lparr>ne_ledgerAccountId = ''ledger_account_uu'', ne_direction = Entry_CREDIT, ne_amountMinor = 250,
          ne_sequence = 1\<rparr>]\<rparr>"

lemma demo_box_validate:
  "validatePosting (ledger demo_boxes) (lockboxPosting demo_lockbox ''lockbox_revenue_capture'' (JStr ''k'')
     [(''source'', JStr ''provider_sandbox'')] ''ledger_account_u'' ''ledger_account_uu'' 250) = Inr demo_box_request"
  by code_simp

lemma demo_boxes_sel:
  "rt demo_boxes = demo_runtime" "uuidCount demo_boxes = 4" "clockCount demo_boxes = 0" "seenCreditIds demo_boxes = []"
  "aggregateVersions demo_boxes = []" "lg_transactions (ledger demo_boxes) = []"
  "lg_transactionIdsByIdempotencyKey (ledger demo_boxes) = []" "lg_entries (ledger demo_boxes) = []"
  "lg_accounts (ledger demo_boxes) = demo_box_accounts" "lockboxes demo_boxes = [(''lockbox_'', demo_lockbox)]"
  by (simp_all add: demo_boxes_def ledger_empty_def)

lemma demo_capture_run:
  "\<exists>l t. LockboxService_captureRevenue ''lockbox_'' (JStr ''250'') JUndefined (JStr ''k'') demo_boxes = (Inr l, t)"
proof -
  have amt: "assertPositiveMinorUnits amountMinorName (JStr ''250'') = Inr 250" by code_simp
  have fields: "lb_lockboxId demo_lockbox = ''lockbox_''" "lb_ledgerAccountId demo_lockbox = ''ledger_account_u''"
    "lb_revenueLedgerAccountId demo_lockbox = ''ledger_account_uu''" "lb_status demo_lockbox = Lockbox_ACTIVE"
    "lb_subjectId demo_lockbox = JStr ''s1''" "lb_assetId demo_lockbox = JStr ''USDC''"
    "lb_chainId demo_lockbox = ''eip155:1''"
    by (simp_all add: demo_lockbox_def)
  have args: "pa_now (lockboxPosting l ty key m x y a) = None" "pa_subjectId (lockboxPosting l ty key m x y a) = lb_subjectId l"
    for l ty key m x y a by (simp_all add: lockboxPosting_def)
  show ?thesis
    by (simp add: LockboxService_captureRevenue_def finishMovement_def LockboxService_syncFromLedger_def
        touchLockbox_def LedgerService_getAccountBalance_def LedgerService_getAccountTurnover_def
        LockboxService_requireLockbox_def LedgerService_requireAccount_def defaultKey_def amt fields args
        demo_box_validate ledger_eval demo_boxes_sel eval_simps demo_box_request_def jmModify_def
        demo_box_accounts_def demo_account_def cong: eval_congs)
qed

lemma box_accounts_distinct:
  "lockbox_ok L k l \<Longrightarrow> lb_ledgerAccountId l \<noteq> lb_revenueLedgerAccountId l \<and>
    lb_ledgerAccountId l \<noteq> lb_repaymentLedgerAccountId l"
  by (auto simp: lockbox_ok_def account_is_def)

lemma clean_prefix:
  assumes "CHR 0x00 \<notin> set k" and "CHR 0x00 \<notin> set k'" and "k @ CHR 0x00 # x = k' @ CHR 0x00 # y"
  shows "k' = k"
proof -
  have "takeWhile (\<lambda>c. c \<noteq> CHR 0x00) (w @ CHR 0x00 # z) = w" if "CHR 0x00 \<notin> set w" for w z
    using that by (subst takeWhile_append2) auto
  with assms show ?thesis by metis
qed

lemma owned_by_unique:
  assumes "owned_by L i k" and "owned_by L i k'" and "CHR 0x00 \<notin> set k" and "CHR 0x00 \<notin> set k'"
  shows "k' = k"
  using assms by (auto simp: owned_by_def ledgerNaturalKey_def intro: clean_prefix)

subsection \<open>What the lockboxes guarantee\<close>

text \<open>
  C7. The invariant holds initially and in every state the lockbox operations reach, returning or
  throwing; so in all of them no stored lockbox has a negative ledger balance, a read of a lockbox
  returns the ledger's figures, and a lockbox's asset account is its own.
\<close>

theorem lockbox_reachable:
  assumes init: "lockbox_inv s" and run: "rtranclp lockbox_step s t" and l: "jmGet (lockboxes t) k = Some l"
  shows "(lockbox_init s0 \<longrightarrow> lockbox_inv s0) \<and> lockbox_inv t \<and>
    0 \<le> debitBalance (turnover (ledger t)) (lb_ledgerAccountId l) \<and>
    (\<exists>u l'. LockboxService_getLockbox k t = (Inr l', u) \<and> ledger u = ledger t \<and>
       lb_balanceMinor l' = debitBalance (turnover (ledger t)) (lb_ledgerAccountId l) \<and>
       lb_capturedRevenueMinor l' = turnover (ledger t) (lb_ledgerAccountId l) Entry_DEBIT) \<and>
    (\<forall>k' l'. jmGet (lockboxes t) k' = Some l' \<and> lb_ledgerAccountId l' = lb_ledgerAccountId l \<and>
       CHR 0x00 \<notin> set k \<and> CHR 0x00 \<notin> set k' \<longrightarrow> k' = k)"
proof (intro conjI allI impI)
  show "lockbox_init s0 \<Longrightarrow> lockbox_inv s0" by (rule lockbox_init_inv)
  show inv: "lockbox_inv t" by (rule lockbox_ts.inv_run [OF run init])
  note ok = lockbox_invD [OF inv l]
  show "0 \<le> debitBalance (turnover (ledger t)) (lb_ledgerAccountId l)"
    using inv ok by (auto simp: lockbox_inv_def boxes_funded_def lockbox_ok_def account_is_def)
  have "wp (LockboxService_getLockbox k) (\<lambda>l' u. ledger u = ledger t \<and>
       lb_balanceMinor l' = debitBalance (turnover (ledger t)) (lb_ledgerAccountId l) \<and>
       lb_capturedRevenueMinor l' = turnover (ledger t) (lb_ledgerAccountId l) Entry_DEBIT) (\<lambda>_ _. False) t"
    unfolding LockboxService_getLockbox_def wp_simps
    by (auto simp: l synced_def intro!: wp_sync_inv [OF inv l])
  then show "\<exists>u l'. LockboxService_getLockbox k t = (Inr l', u) \<and> ledger u = ledger t \<and>
       lb_balanceMinor l' = debitBalance (turnover (ledger t)) (lb_ledgerAccountId l) \<and>
       lb_capturedRevenueMinor l' = turnover (ledger t) (lb_ledgerAccountId l) Entry_DEBIT"
    by (auto simp: wp_def split: prod.splits sum.splits)
next
  fix k' l'
  assume *: "jmGet (lockboxes t) k' = Some l' \<and> lb_ledgerAccountId l' = lb_ledgerAccountId l \<and>
       CHR 0x00 \<notin> set k \<and> CHR 0x00 \<notin> set k'"
  have inv: "lockbox_inv t" by (rule lockbox_ts.inv_run [OF run init])
  have "owned_by (ledger t) (lb_ledgerAccountId l) k" "owned_by (ledger t) (lb_ledgerAccountId l) k'"
    using lockbox_invD [OF inv l] lockbox_invD [OF inv, of k' l'] * by (auto simp: lockbox_ok_def)
  with * show "k' = k" using owned_by_unique by blast
qed

theorem lockbox_reachable_witness:
  "lockbox_inv (snd (LockboxService_freezeLockbox ''lockbox_'' (JStr ''r'') demo_boxes)) \<and>
   (\<exists>u l'. LockboxService_getLockbox ''lockbox_'' demo_boxes = (Inr l', u) \<and> lb_balanceMinor l' = 0)"
proof -
  have l: "jmGet (lockboxes demo_boxes) ''lockbox_'' = Some demo_lockbox" by (simp add: demo_boxes_sel)
  have "rtranclp lockbox_step demo_boxes demo_boxes" by simp
  note lockbox_reachable [OF demo_boxes_inv this l, of demo_boxes]
  moreover have "debitBalance (turnover (ledger demo_boxes)) (lb_ledgerAccountId demo_lockbox) = 0"
    by (simp add: debitBalance_def turnover_def demo_boxes_sel)
  moreover have "lockbox_step demo_boxes (snd (LockboxService_freezeLockbox ''lockbox_'' (JStr ''r'') demo_boxes))"
    by (rule lockbox_step.freeze) (rule surjective_pairing)
  ultimately show ?thesis using lockbox_inv_step [OF demo_boxes_inv] by auto
qed

text \<open>
  C8. Capturing revenue under a key the ledger has not seen debits the lockbox's account and credits
  the revenue account by exactly the amount, and returns the lockbox with its balance and captured
  revenue raised by it; only an active lockbox can capture, and no other lockbox object changes.
\<close>

theorem captureRevenue_effect:
  assumes inv: "lockbox_inv s"
    and run: "LockboxService_captureRevenue k v src (JStr key) s = (Inr l, t)"
    and fresh: "jmGet (lg_transactionIdsByIdempotencyKey (ledger s)) key = None"
  shows "\<exists>amount. assertPositiveMinorUnits amountMinorName v = Inr amount \<and> lb_status l = Lockbox_ACTIVE \<and>
    transferred (lb_ledgerAccountId l) (lb_revenueLedgerAccountId l) amount (turnover (ledger s)) (turnover (ledger t)) \<and>
    lb_balanceMinor l = debitBalance (turnover (ledger s)) (lb_ledgerAccountId l) + amount \<and>
    lb_capturedRevenueMinor l = turnover (ledger s) (lb_ledgerAccountId l) Entry_DEBIT + amount \<and>
    jmGet (lockboxes t) k = Some l \<and> (\<forall>k'. k' \<noteq> k \<longrightarrow> jmGet (lockboxes t) k' = jmGet (lockboxes s) k')"
proof -
  from wp_Inr [OF wp_captureRevenue [OF inv] run] fresh obtain amount where
    t: "lockbox_inv t" "settled s k l t" "lb_status l = Lockbox_ACTIVE"
    "assertPositiveMinorUnits amountMinorName v = Inr amount"
    "transferred (lb_ledgerAccountId l) (lb_revenueLedgerAccountId l) amount (turnover (ledger s)) (turnover (ledger t))"
    by (auto simp: known_key_def)
  have "lb_ledgerAccountId l \<noteq> lb_revenueLedgerAccountId l"
    using box_accounts_distinct [OF lockbox_invD [OF t(1), of k l]] t(2) by (simp add: settled_def)
  with t show ?thesis by (auto simp: settled_def transferred_def debitBalance_def)
qed

theorem captureRevenue_effect_witness:
  "\<exists>l t. LockboxService_captureRevenue ''lockbox_'' (JStr ''250'') JUndefined (JStr ''k'') demo_boxes = (Inr l, t) \<and>
     lb_balanceMinor l = 250"
proof -
  obtain l t where run: "LockboxService_captureRevenue ''lockbox_'' (JStr ''250'') JUndefined (JStr ''k'') demo_boxes = (Inr l, t)"
    using demo_capture_run by blast
  have "toMinorUnitBigInt amountMinorName (JStr ''250'') = Inr 250" by code_simp
  with captureRevenue_effect [OF demo_boxes_inv run] run show ?thesis
    by (auto simp: demo_boxes_sel debitBalance_def turnover_def assertPositive_Inr)
qed

lemma wp_reduce_low:
  assumes inv: "lockbox_inv s" and stored: "jmGet (lockboxes s) k = Some l0" and open_: "lb_status l0 \<noteq> Lockbox_CLOSED"
    and amount: "assertPositiveMinorUnits amountMinorName v = Inr amount"
    and low: "debitBalance (turnover (ledger s)) (lb_ledgerAccountId l0) < amount"
    and r: "assertNonEmptyString ''reason'' (js_default reason (JStr ''repayment'')) = Inr r"
    and E: "\<And>m t. ledger t = ledger s \<Longrightarrow> E (DomainError ''lockbox_insufficient_balance'' m) t"
  shows "wp (LockboxService_reduceBalance k v reason (JStr key)) Q E s"
proof -
  have "wp (LockboxService_syncFromLedger l0) (\<lambda>_ t. jmGet (lockboxes t) k = Some (synced (ledger s) l0) \<and>
      ledger t = ledger s) E s"
    by (rule wp_sync_inv [OF inv stored]) (simp add: stored)
  then show ?thesis
    unfolding LockboxService_reduceBalance_def defaultKey_def Let_def
    apply (simp add: wp_bindM wp_thenM wp_returnM wp_liftR wp_throwIf wp_requireLockbox stored open_ amount r)
    apply (erule wp_conseq)
    using low E by (auto simp: wp_throwIf synced_def)
qed

text \<open>
  C9. A reduction that returns was covered by the balance and leaves it non-negative. Under a key the ledger has not seen it
  debits the lockbox's repayment clearing account and credits its asset account by exactly the amount, and no other
  turnover changes; under a key already posted no turnover changes. The lockbox returned is the one stored, with the
  new balance, and no other lockbox changes. When the ledger balance is below the amount it throws
  \<open>lockbox_insufficient_balance\<close> and moves nothing, even for a key under which the very same debit was posted before.
\<close>

theorem reduceBalance_effect:
  assumes inv: "lockbox_inv s" and stored: "jmGet (lockboxes s) k = Some l0" and open_: "lb_status l0 \<noteq> Lockbox_CLOSED"
    and amount: "assertPositiveMinorUnits amountMinorName v = Inr amount"
  shows "(\<forall>l t. LockboxService_reduceBalance k v reason (JStr key) s = (Inr l, t) \<longrightarrow>
      amount \<le> debitBalance (turnover (ledger s)) (lb_ledgerAccountId l0) \<and> 0 \<le> lb_balanceMinor l \<and>
      (if jmGet (lg_transactionIdsByIdempotencyKey (ledger s)) key = None
       then transferred (lb_repaymentLedgerAccountId l0) (lb_ledgerAccountId l0) amount (turnover (ledger s)) (turnover (ledger t)) \<and>
         lb_balanceMinor l = debitBalance (turnover (ledger s)) (lb_ledgerAccountId l0) - amount
       else turnover (ledger t) = turnover (ledger s) \<and>
         lb_balanceMinor l = debitBalance (turnover (ledger s)) (lb_ledgerAccountId l0)) \<and>
      jmGet (lockboxes t) k = Some l \<and> (\<forall>k'. k' \<noteq> k \<longrightarrow> jmGet (lockboxes t) k' = jmGet (lockboxes s) k')) \<and>
    (debitBalance (turnover (ledger s)) (lb_ledgerAccountId l0) < amount \<and>
     assertNonEmptyString ''reason'' (js_default reason (JStr ''repayment'')) = Inr r \<longrightarrow>
      (\<exists>m t. LockboxService_reduceBalance k v reason (JStr key) s = (fail ''lockbox_insufficient_balance'' m, t) \<and>
        ledger t = ledger s))"
proof (intro conjI allI impI)
  fix l t assume run: "LockboxService_reduceBalance k v reason (JStr key) s = (Inr l, t)"
  let ?i = "lb_ledgerAccountId l0" and ?c = "lb_repaymentLedgerAccountId l0" and ?S = "turnover (ledger s)" and ?T = "turnover (ledger t)"
  obtain amount' where t: "lockbox_inv t" "settled s k l t"
    "assertPositiveMinorUnits amountMinorName v = Inr amount'" "amount' \<le> debitBalance ?S (lb_ledgerAccountId l)"
    "transferred (lb_repaymentLedgerAccountId l) (lb_ledgerAccountId l) amount' ?S ?T \<and> \<not> known_key (ledger s) (JStr key) \<or>
     ?T = ?S \<and> known_key (ledger s) (JStr key)" using wp_Inr [OF wp_reduceBalance [OF inv] run] by blast
  have a: "amount' = amount" using t(3) amount by simp
  have l: "lb_ledgerAccountId l = ?i" "lb_repaymentLedgerAccountId l = ?c" "lb_balanceMinor l = debitBalance ?T ?i"
    using t(2) stored by (auto simp: settled_def)
  show box: "jmGet (lockboxes t) k = Some l" "\<And>k'. k' \<noteq> k \<Longrightarrow> jmGet (lockboxes t) k' = jmGet (lockboxes s) k'"
    using t(2) by (auto simp: settled_def)
  have ok: "lockbox_ok (ledger t) k l" by (rule lockbox_invD [OF t(1) box(1)])
  have ne: "?i \<noteq> ?c" using box_accounts_distinct [OF ok] l by simp
  show "amount \<le> debitBalance ?S ?i" using t(4) l(1) a by simp
  show "0 \<le> lb_balanceMinor l"
    using t(1) ok l(1,3) by (auto simp: lockbox_inv_def boxes_funded_def lockbox_ok_def account_is_def)
  have "debitBalance ?T ?i = debitBalance ?S ?i - amount" if "transferred ?c ?i amount ?S ?T"
    using that ne by (simp add: transferred_def debitBalance_def)
  then show "if jmGet (lg_transactionIdsByIdempotencyKey (ledger s)) key = None
       then transferred ?c ?i amount ?S ?T \<and> lb_balanceMinor l = debitBalance ?S ?i - amount
       else ?T = ?S \<and> lb_balanceMinor l = debitBalance ?S ?i"
    using t(5) l a by (auto simp: known_key_def)
next
  assume low: "debitBalance (turnover (ledger s)) (lb_ledgerAccountId l0) < amount \<and>
     assertNonEmptyString ''reason'' (js_default reason (JStr ''repayment'')) = Inr r"
  have "wp (LockboxService_reduceBalance k v reason (JStr key)) (\<lambda>_ _. False)
      (\<lambda>e t. (\<exists>m. e = DomainError ''lockbox_insufficient_balance'' m) \<and> ledger t = ledger s) s"
    using low by (intro wp_reduce_low [OF inv stored open_ amount]) auto
  then show "\<exists>m t. LockboxService_reduceBalance k v reason (JStr key) s = (fail ''lockbox_insufficient_balance'' m, t) \<and>
        ledger t = ledger s"
    by (auto simp: wp_def split: prod.splits sum.splits)
qed

theorem reduceBalance_effect_witness:
  "\<exists>m t. LockboxService_reduceBalance ''lockbox_'' (JStr ''7'') JUndefined (JStr ''k'') demo_boxes =
     (fail ''lockbox_insufficient_balance'' m, t) \<and> ledger t = ledger demo_boxes"
proof -
  have amt: "assertPositiveMinorUnits amountMinorName (JStr ''7'') = Inr 7" by code_simp
  have "jmGet (lockboxes demo_boxes) ''lockbox_'' = Some demo_lockbox" "lb_status demo_lockbox \<noteq> Lockbox_CLOSED"
    by (simp_all add: demo_boxes_sel demo_lockbox_def)
  note reduceBalance_effect [OF demo_boxes_inv this amt, where r = "''repayment''" and key = "''k''" and reason = JUndefined]
  moreover have "debitBalance (turnover (ledger demo_boxes)) (lb_ledgerAccountId demo_lockbox) < 7"
    by (simp add: demo_boxes_sel debitBalance_def turnover_def)
  moreover have "assertNonEmptyString ''reason'' (js_default JUndefined (JStr ''repayment'')) = Inr ''repayment''"
    by (simp add: eval_simps)
  ultimately show ?thesis by blast
qed

end
