(* ===== verification/Obligation.thy ===== *)
theory Obligation
  imports Lockbox
begin

text \<open>
  \<open>modules/obligation/src/obligation-service.js\<close> with \<open>createObligation\<close> and \<open>createRepayment\<close> of
  \<open>models.js\<close>: the debts of a subject, their repayments and their lifecycle. Principal, outstanding
  and repaid amounts are integers here; the code keeps them as the decimal strings it was given.
\<close>

subsection \<open>State and operations\<close>

record obligation =
  ob_obligationId :: string
  ob_obligationHash :: string
  ob_subjectId :: js
  ob_principalId :: js
  ob_mandateId :: string
  ob_assetId :: js
  ob_principalAmountMinor :: int
  ob_outstandingPrincipalMinor :: int
  ob_accruedFeesMinor :: int
  ob_repaidAmountMinor :: int
  ob_spendPolicyId :: js
  ob_cashflowRouteId :: js
  ob_dueAt :: string
  ob_status :: ObligationStatus
  ob_repaymentPriority :: int
  ob_createdAt :: int
  ob_updatedAt :: int
  ob_schemaVersion :: string

record repayment =
  rp_repaymentId :: string
  rp_obligationId :: string
  rp_subjectId :: js
  rp_assetId :: js
  rp_amountMinor :: int
  rp_remainingMinor :: int
  rp_occurredAt :: int
  rp_schemaVersion :: string

record obligation_state =
  os_obligations :: "obligation jsmap"
  os_repayments :: "repayment jsmap"

record obligation_world = lockbox_world +
  obligationState :: obligation_state

text \<open>The named parameters of \<open>createObligation\<close>.\<close>

record obligation_args =
  oa_subjectId :: js
  oa_principalId :: js
  oa_mandateId :: js
  oa_assetId :: js
  oa_amountMinor :: js
  oa_dueAt :: string
  oa_spendPolicyId :: js
  oa_cashflowRouteId :: js
  oa_nonce :: js
  oa_now :: "int option"

definition createObligation :: "obligation_args \<Rightarrow> string \<Rightarrow> int \<Rightarrow> ('z host_scheme, obligation) M" where
  "createObligation a mandateId amount =
     bindM (nowOr (oa_now a)) (\<lambda>now.
     bindM (hashM ''obligation'' (JObj
       [(''subjectId'', oa_subjectId a), (''principalId'', oa_principalId a),
        (''mandateId'', JStr mandateId), (''assetId'', oa_assetId a),
        (''amountMinor'', oa_amountMinor a), (''dueAt'', JStr (oa_dueAt a)),
        (''spendPolicyId'', oa_spendPolicyId a), (''cashflowRouteId'', oa_cashflowRouteId a),
        (''nonce'', oa_nonce a)])) (\<lambda>obligationHash.
     bindM (createOperationalId ''obligation'') (\<lambda>obligationId.
     returnM
       \<lparr>ob_obligationId = obligationId, ob_obligationHash = obligationHash,
        ob_subjectId = oa_subjectId a, ob_principalId = oa_principalId a, ob_mandateId = mandateId,
        ob_assetId = oa_assetId a, ob_principalAmountMinor = amount,
        ob_outstandingPrincipalMinor = amount, ob_accruedFeesMinor = 0, ob_repaidAmountMinor = 0,
        ob_spendPolicyId = oa_spendPolicyId a, ob_cashflowRouteId = oa_cashflowRouteId a,
        ob_dueAt = oa_dueAt a, ob_status = Obl_CREATED, ob_repaymentPriority = 1,
        ob_createdAt = now, ob_updatedAt = now, ob_schemaVersion = ''obligation.v1''\<rparr>)))"

definition createRepayment ::
  "string \<Rightarrow> js \<Rightarrow> js \<Rightarrow> int \<Rightarrow> int \<Rightarrow> ('z host_scheme, repayment) M" where
  "createRepayment obligationId subjectId assetId amountMinor remainingMinor =
     bindM newDate (\<lambda>now.
     bindM (createOperationalId ''repayment'') (\<lambda>repaymentId.
     returnM
       \<lparr>rp_repaymentId = repaymentId, rp_obligationId = obligationId, rp_subjectId = subjectId,
        rp_assetId = assetId, rp_amountMinor = amountMinor, rp_remainingMinor = remainingMinor,
        rp_occurredAt = now, rp_schemaVersion = ''repayment.v1''\<rparr>))"

definition repayment_js :: "runtime \<Rightarrow> repayment \<Rightarrow> js" where
  "repayment_js r p = JObj
     [(''repaymentId'', JStr (rp_repaymentId p)), (''obligationId'', JStr (rp_obligationId p)),
      (''subjectId'', rp_subjectId p), (''assetId'', rp_assetId p),
      (''amountMinor'', JStr (dec (rp_amountMinor p))),
      (''remainingMinor'', JStr (dec (rp_remainingMinor p))),
      (''occurredAt'', JStr (rt_iso r (rp_occurredAt p))),
      (''schemaVersion'', JStr (rp_schemaVersion p))]"

definition ObligationService_requireObligation :: "string \<Rightarrow> ('z obligation_world_scheme, obligation) M" where
  "ObligationService_requireObligation obligationId =
     bindM (getsM (\<lambda>s. jmGet (os_obligations (obligationState s)) obligationId)) (\<lambda>found.
       case found of
         None \<Rightarrow> throwM (DomainError ''obligation_not_found'' ''obligation not found'')
       | Some ob \<Rightarrow> returnM ob)"

text \<open>An assignment to fields of the stored object.\<close>

definition updateObligation :: "string \<Rightarrow> (obligation \<Rightarrow> obligation) \<Rightarrow> ('z obligation_world_scheme, unit) M" where
  "updateObligation obligationId f =
     modifyM (obligationState_update (os_obligations_update (jmModify obligationId f)))"

definition ObligationService_createObligation ::
  "obligation_args \<Rightarrow> ('z obligation_world_scheme, obligation) M" where
  "ObligationService_createObligation a =
     bindM (liftR (assertNonEmptyString ''mandateId'' (oa_mandateId a))) (\<lambda>mandateId.
     bindM (liftR (assertPositiveMinorUnits amountMinorName (oa_amountMinor a))) (\<lambda>amount.
     bindM (getsM rt) (\<lambda>r.
     thenM (liftR (assertDueAt r (oa_dueAt a)))
     (bindM (createObligation a mandateId amount) (\<lambda>obligation.
     thenM (modifyM (obligationState_update (os_obligations_update
        (jmSet (ob_obligationId obligation) obligation))))
     (thenM (emitCreditEvent ((eventArgs ''obligation_created'' (ob_subjectId obligation) (JObj
         [(''obligationId'', JStr (ob_obligationId obligation)),
          (''obligationHash'', JStr (ob_obligationHash obligation)),
          (''principalId'', ob_principalId obligation), (''mandateId'', JStr mandateId),
          (''amountMinor'', oa_amountMinor a), (''dueAt'', JStr (ob_dueAt obligation))]))
         \<lparr>ca_obligationId := JStr (ob_obligationId obligation)\<rparr>))
     (returnM obligation)))))))"

definition ObligationService_emitStatusChange ::
  "obligation \<Rightarrow> ObligationStatus \<Rightarrow> ObligationStatus \<Rightarrow> js \<Rightarrow> ('z obligation_world_scheme, unit) M" where
  "ObligationService_emitStatusChange obligation previousStatus nextStatus reason =
     emitCreditEvent ((eventArgs ''obligation_status_changed'' (ob_subjectId obligation) (JObj
       [(''obligationId'', JStr (ob_obligationId obligation)),
        (''previousStatus'', JStr (ObligationStatus_str previousStatus)),
        (''newStatus'', JStr (ObligationStatus_str nextStatus)), (''reason'', reason)]))
       \<lparr>ca_obligationId := JStr (ob_obligationId obligation)\<rparr>)"

record repayment_result =
  rr_obligation :: obligation
  rr_repayment :: repayment
  rr_surplusMinor :: int

text \<open>The events of a repayment, read from the mutated obligation, and the value returned.\<close>

definition repaymentEvents ::
  "string \<Rightarrow> js \<Rightarrow> repayment \<Rightarrow> ObligationStatus \<Rightarrow> ObligationStatus \<Rightarrow> int \<Rightarrow> ('z obligation_world_scheme, repayment_result) M" where
  "repaymentEvents obligationId subjectId repayment previousStatus nextStatus surplus =
     bindM (getsM rt) (\<lambda>r.
     thenM (emitCreditEvent ((eventArgs ''repayment_captured'' subjectId (repayment_js r repayment))
        \<lparr>ca_obligationId := JStr obligationId\<rparr>))
     (bindM (ObligationService_requireObligation obligationId) (\<lambda>updated.
     thenM (emitCreditEvent ((eventArgs ''obligation_updated'' (ob_subjectId updated) (JObj
         [(''obligationId'', JStr obligationId),
          (''outstandingPrincipalMinor'', JStr (dec (ob_outstandingPrincipalMinor updated))),
          (''repaidAmountMinor'', JStr (dec (ob_repaidAmountMinor updated))),
          (''status'', JStr (ObligationStatus_str (ob_status updated)))]))
         \<lparr>ca_obligationId := JStr obligationId\<rparr>))
     (thenM (whenM (previousStatus \<noteq> nextStatus)
        (ObligationService_emitStatusChange updated previousStatus nextStatus (JStr ''repayment'')))
     (returnM \<lparr>rr_obligation = updated, rr_repayment = repayment, rr_surplusMinor = surplus\<rparr>)))))"

definition ObligationService_applyRepayment ::
  "string \<Rightarrow> js \<Rightarrow> ('z obligation_world_scheme, repayment_result) M" where
  "ObligationService_applyRepayment obligationId amountMinor =
     bindM (ObligationService_requireObligation obligationId) (\<lambda>obligation.
     bindM (liftR (assertPositiveMinorUnits amountMinorName amountMinor)) (\<lambda>amount.
     thenM (throwIf (ob_status obligation \<notin> {Obl_ACTIVE, Obl_PARTIALLY_REPAID, Obl_OVERDUE})
       ''obligation_not_repayable'' ''obligation is not in a repayable state'')
     (let outstanding = ob_outstandingPrincipalMinor obligation;
          applied = (if amount > outstanding then outstanding else amount);
          remaining = outstanding - applied;
          previousStatus = ob_status obligation;
          nextStatus = (if remaining = 0 then Obl_FULLY_REPAID else Obl_PARTIALLY_REPAID) in
     thenM (whenM (previousStatus \<noteq> nextStatus) (liftR
       (assertTransition ''obligation'' ObligationStatus_str ObligationTransitions previousStatus nextStatus)))
     (thenM (updateObligation obligationId (\<lambda>ob. ob
        \<lparr>ob_outstandingPrincipalMinor := remaining,
         ob_repaidAmountMinor := ob_repaidAmountMinor ob + applied, ob_status := nextStatus\<rparr>))
     (bindM newDate (\<lambda>now.
     thenM (updateObligation obligationId (ob_updatedAt_update (\<lambda>_. now)))
     (bindM (createRepayment obligationId (ob_subjectId obligation) (ob_assetId obligation) applied remaining)
       (\<lambda>repayment.
     thenM (modifyM (obligationState_update (os_repayments_update
        (jmSet (rp_repaymentId repayment) repayment))))
     (repaymentEvents obligationId (ob_subjectId obligation) repayment previousStatus nextStatus (amount - applied))))))))))"

definition ObligationService_setStatus ::
  "string \<Rightarrow> ObligationStatus \<Rightarrow> js \<Rightarrow> ('z obligation_world_scheme, obligation) M" where
  "ObligationService_setStatus obligationId nextStatus reason =
     bindM (ObligationService_requireObligation obligationId) (\<lambda>obligation.
     bindM (liftR (assertTransition ''obligation'' ObligationStatus_str ObligationTransitions
       (ob_status obligation) nextStatus)) (\<lambda>_.
     thenM (updateObligation obligationId (ob_status_update (\<lambda>_. nextStatus)))
     (bindM newDate (\<lambda>now.
     thenM (updateObligation obligationId (ob_updatedAt_update (\<lambda>_. now)))
     (thenM (ObligationService_emitStatusChange obligation (ob_status obligation) nextStatus reason)
     (ObligationService_requireObligation obligationId))))))"

definition ObligationService_activateObligation :: "string \<Rightarrow> ('z obligation_world_scheme, obligation) M" where
  "ObligationService_activateObligation obligationId =
     ObligationService_setStatus obligationId Obl_ACTIVE (JStr ''activate'')"

definition ObligationService_markOverdue :: "string \<Rightarrow> js \<Rightarrow> ('z obligation_world_scheme, obligation) M" where
  "ObligationService_markOverdue obligationId reason =
     ObligationService_setStatus obligationId Obl_OVERDUE (js_default reason (JStr ''due_date_passed''))"

definition ObligationService_markDefault :: "string \<Rightarrow> js \<Rightarrow> js \<Rightarrow> ('z obligation_world_scheme, obligation) M" where
  "ObligationService_markDefault obligationId dpdArg reasonArg =
     (let dpd = js_default dpdArg (JNum 90);
          reasonCode = js_default reasonArg (JStr ''default_threshold_reached'') in
      bindM (ObligationService_setStatus obligationId Obl_DEFAULTED reasonCode) (\<lambda>obligation.
      thenM (emitCreditEvent ((eventArgs ''default_recorded'' (ob_subjectId obligation) (JObj
          [(''obligationId'', JStr obligationId), (''dpd'', dpd), (''reasonCode'', reasonCode),
           (''amountMinor'', JStr (dec (ob_outstandingPrincipalMinor obligation)))]))
          \<lparr>ca_obligationId := JStr obligationId\<rparr>))
      (returnM obligation)))"

definition ObligationService_closeObligation :: "string \<Rightarrow> js \<Rightarrow> ('z obligation_world_scheme, obligation) M" where
  "ObligationService_closeObligation obligationId reason =
     ObligationService_setStatus obligationId Obl_CLOSED (js_default reason (JStr ''closed''))"

definition ObligationService_getObligation :: "string \<Rightarrow> ('z obligation_world_scheme, obligation) M" where
  "ObligationService_getObligation obligationId = ObligationService_requireObligation obligationId"

definition obligation_field :: "runtime \<Rightarrow> obligation \<Rightarrow> string \<Rightarrow> js" where
  "obligation_field r ob key =
     (case map_of
        [(''obligationId'', JStr (ob_obligationId ob)), (''obligationHash'', JStr (ob_obligationHash ob)),
         (''subjectId'', ob_subjectId ob), (''principalId'', ob_principalId ob),
         (''mandateId'', JStr (ob_mandateId ob)), (''assetId'', ob_assetId ob),
         (''principalAmountMinor'', JStr (dec (ob_principalAmountMinor ob))),
         (''outstandingPrincipalMinor'', JStr (dec (ob_outstandingPrincipalMinor ob))),
         (''accruedFeesMinor'', JStr (dec (ob_accruedFeesMinor ob))),
         (''repaidAmountMinor'', JStr (dec (ob_repaidAmountMinor ob))),
         (''spendPolicyId'', ob_spendPolicyId ob), (''cashflowRouteId'', ob_cashflowRouteId ob),
         (''dueAt'', JStr (ob_dueAt ob)), (''status'', JStr (ObligationStatus_str (ob_status ob))),
         (''repaymentPriority'', JNum (ob_repaymentPriority ob)),
         (''attestationIds'', JArr []), (''chainExecutions'', JArr []),
         (''createdAt'', JStr (rt_iso r (ob_createdAt ob))), (''updatedAt'', JStr (rt_iso r (ob_updatedAt ob))),
         (''schemaVersion'', JStr (ob_schemaVersion ob))] key of
        Some v \<Rightarrow> v | None \<Rightarrow> JUndefined)"

definition ObligationService_listObligations ::
  "runtime \<Rightarrow> (string \<times> js) list \<Rightarrow> obligation_state \<Rightarrow> obligation list" where
  "ObligationService_listObligations r filt S = filter (matchesFilter (obligation_field r) filt) (jmValues (os_obligations S))"

definition repayment_field :: "runtime \<Rightarrow> repayment \<Rightarrow> string \<Rightarrow> js" where
  "repayment_field r p key = js_get key (repayment_js r p)"

definition ObligationService_listRepayments ::
  "runtime \<Rightarrow> (string \<times> js) list \<Rightarrow> obligation_state \<Rightarrow> repayment list" where
  "ObligationService_listRepayments r filt S = filter (matchesFilter (repayment_field r) filt) (jmValues (os_repayments S))"

subsection \<open>The invariant\<close>

text \<open>
  Money is conserved on every obligation: what is outstanding and what has been repaid add up to the
  principal, and what has been repaid is the sum of the recorded repayments. \<open>I\<close> and \<open>J\<close> are the
  obligation and repayment identifiers handed out so far.
\<close>

definition repaidSum :: "obligation_state \<Rightarrow> string \<Rightarrow> int" where
  "repaidSum S k = sum_list (map rp_amountMinor
     (filter (\<lambda>p. rp_obligationId p = k) (jmValues (os_repayments S))))"

definition obligation_ok :: "obligation_state \<Rightarrow> string \<Rightarrow> obligation \<Rightarrow> bool" where
  "obligation_ok S k ob \<longleftrightarrow> ob_obligationId ob = k \<and> 0 < ob_principalAmountMinor ob \<and>
     0 \<le> ob_outstandingPrincipalMinor ob \<and> 0 \<le> ob_repaidAmountMinor ob \<and>
     ob_outstandingPrincipalMinor ob + ob_repaidAmountMinor ob = ob_principalAmountMinor ob \<and>
     ob_repaidAmountMinor ob = repaidSum S k \<and>
     (ob_outstandingPrincipalMinor ob = 0 \<longrightarrow> ob_status ob \<in> {Obl_FULLY_REPAID, Obl_CLOSED}) \<and>
     (ob_status ob = Obl_FULLY_REPAID \<longrightarrow> ob_outstandingPrincipalMinor ob = 0)"

definition obligations_ok :: "string set \<Rightarrow> string set \<Rightarrow> obligation_state \<Rightarrow> bool" where
  "obligations_ok I J S \<longleftrightarrow> fst ` set (os_obligations S) \<subseteq> I \<and>
     distinct (map fst (os_repayments S)) \<and> fst ` set (os_repayments S) \<subseteq> J \<and>
     (\<forall>p\<in>set (jmValues (os_repayments S)). rp_obligationId p \<in> fst ` set (os_obligations S)) \<and>
     (\<forall>k ob. jmGet (os_obligations S) k = Some ob \<longrightarrow> obligation_ok S k ob)"

definition obligation_inv :: "'z obligation_world_scheme \<Rightarrow> bool" where
  "obligation_inv s \<longleftrightarrow> uuid_unique (rt s) \<and>
     obligations_ok (issued s ''obligation'') (issued s ''repayment'') (obligationState s)"

lemma obligations_ok_mono: "obligations_ok I J S \<Longrightarrow> I \<subseteq> I' \<Longrightarrow> J \<subseteq> J' \<Longrightarrow> obligations_ok I' J' S"
  by (auto simp: obligations_ok_def)

lemma obligation_invD:
  "obligation_inv s \<Longrightarrow> jmGet (os_obligations (obligationState s)) k = Some ob \<Longrightarrow> obligation_ok (obligationState s) k ob"
  by (auto simp: obligation_inv_def obligations_ok_def)

lemma obligation_ok_cong: "repaidSum S' k = repaidSum S k \<Longrightarrow> obligation_ok S' k ob = obligation_ok S k ob"
  by (simp add: obligation_ok_def)

lemma repaidSum_frame [simp]: "repaidSum (os_obligations_update f S) k = repaidSum S k"
  by (simp add: repaidSum_def)

lemma obligation_ok_frame [simp]: "obligation_ok (os_obligations_update f S) k ob = obligation_ok S k ob"
  by (rule obligation_ok_cong) simp

lemma repaidSum_unknown:
  assumes "obligations_ok I J S" and "k \<notin> I"
  shows "repaidSum S k = 0"
proof -
  have "rp_obligationId p \<noteq> k" if "p \<in> set (jmValues (os_repayments S))" for p
    using assms that unfolding obligations_ok_def by blast
  then have "filter (\<lambda>p. rp_obligationId p = k) (jmValues (os_repayments S)) = []"
    by (simp add: filter_empty_conv)
  then show ?thesis by (simp add: repaidSum_def)
qed

lemma obligations_ok_add:
  assumes ok: "obligations_ok I J S" and new: "ob_obligationId ob \<notin> I"
    and ob: "0 < ob_principalAmountMinor ob" "ob_outstandingPrincipalMinor ob = ob_principalAmountMinor ob"
      "ob_repaidAmountMinor ob = 0" "ob_status ob = Obl_CREATED"
  shows "obligations_ok (insert (ob_obligationId ob) I) J
    (os_obligations_update (jmSet (ob_obligationId ob) ob) S)"
proof -
  have "obligation_ok (os_obligations_update (jmSet (ob_obligationId ob) ob) S) (ob_obligationId ob) ob"
    using ob repaidSum_unknown [OF ok new] by (simp add: obligation_ok_def)
  with ok show ?thesis
    by (auto simp: obligations_ok_def dom_update)
qed

text \<open>A repayment as it is recorded: the obligation's figures and the new repayment together.\<close>

definition recordRepayment :: "string \<Rightarrow> (obligation \<Rightarrow> obligation) \<Rightarrow> repayment \<Rightarrow> obligation_state \<Rightarrow> obligation_state" where
  "recordRepayment k f p S =
     os_repayments_update (jmSet (rp_repaymentId p) p) (os_obligations_update (jmModify k f) S)"

lemma obligations_ok_repay:
  assumes ok: "obligations_ok I J S" and new: "rp_repaymentId p \<notin> J"
    and stored: "jmGet (os_obligations S) k = Some ob"
    and p: "rp_obligationId p = k" "rp_amountMinor p = applied"
    and applied: "0 \<le> applied" "applied \<le> ob_outstandingPrincipalMinor ob"
    and f: "ob_obligationId (f ob) = k" "ob_principalAmountMinor (f ob) = ob_principalAmountMinor ob"
      "ob_outstandingPrincipalMinor (f ob) = ob_outstandingPrincipalMinor ob - applied"
      "ob_repaidAmountMinor (f ob) = ob_repaidAmountMinor ob + applied"
      "ob_status (f ob) = (if ob_outstandingPrincipalMinor ob - applied = 0 then Obl_FULLY_REPAID else Obl_PARTIALLY_REPAID)"
  shows "obligations_ok I (insert (rp_repaymentId p) J) (recordRepayment k f p S)"
proof -
  have fresh: "rp_repaymentId p \<notin> fst ` set (os_repayments S)" using ok new by (auto simp: obligations_ok_def)
  have vals: "jmValues (os_repayments (recordRepayment k f p S)) = jmValues (os_repayments S) @ [p]"
    using fresh by (simp add: recordRepayment_def jmSet_fresh jmValues_def)
  have sum: "repaidSum (recordRepayment k f p S) k' = repaidSum S k' + (if k' = k then applied else 0)" for k'
    unfolding repaidSum_def vals using p by simp
  have oblk: "obligation_ok S k ob" using ok stored by (simp add: obligations_ok_def)
  have "obligation_ok (recordRepayment k f p S) k (f ob)"
    using oblk f applied by (auto simp: obligation_ok_def sum)
  moreover have "obligation_ok (recordRepayment k f p S) k' ob'"
    if "jmGet (os_obligations S) k' = Some ob'" "k' \<noteq> k" for k' ob'
    using ok that obligation_ok_cong [of "recordRepayment k f p S" k' S ob'] by (simp add: obligations_ok_def sum)
  moreover have "k \<in> fst ` set (os_obligations S)" using stored by (rule jmGet_mem)
  ultimately show ?thesis
    using ok p stored unfolding obligations_ok_def vals
    by (auto simp: recordRepayment_def dom_update distinct_jmSet)
qed

text \<open>A status change that leaves the amounts alone.\<close>

lemma obligations_ok_status:
  assumes ok: "obligations_ok I J S" and stored: "jmGet (os_obligations S) k = Some ob"
    and f: "ob_obligationId (f ob) = k" "ob_principalAmountMinor (f ob) = ob_principalAmountMinor ob"
      "ob_outstandingPrincipalMinor (f ob) = ob_outstandingPrincipalMinor ob"
      "ob_repaidAmountMinor (f ob) = ob_repaidAmountMinor ob"
    and st: "ob_status (f ob) = ob_status ob \<or> ob_status (f ob) \<in> set (ObligationTransitions (ob_status ob)) \<and>
      ob_status (f ob) \<noteq> Obl_FULLY_REPAID"
  shows "obligations_ok I J (os_obligations_update (jmModify k f) S)"
proof -
  have oblk: "obligation_ok S k ob" using ok stored by (simp add: obligations_ok_def)
  have "ob_status (f ob) \<in> {Obl_FULLY_REPAID, Obl_CLOSED}" if "ob_outstandingPrincipalMinor ob = 0"
    using st oblk that by (auto simp: obligation_ok_def)
  then have "obligation_ok (os_obligations_update (jmModify k f) S) k (f ob)"
    using oblk f st by (auto simp: obligation_ok_def)
  with ok stored show ?thesis
    by (auto simp: obligations_ok_def split: if_splits)
qed

subsection \<open>Frames\<close>

text \<open>What an obligation operation leaves alone: the ledger, the lockboxes and the services above.\<close>

definition obligation_frame :: "'z obligation_world_scheme \<Rightarrow> 'z obligation_world_scheme \<Rightarrow> bool" where
  "obligation_frame s t \<longleftrightarrow> obligation_world.more t = obligation_world.more s \<and> rt t = rt s \<and>
     uuidCount s \<le> uuidCount t \<and> ledger t = ledger s \<and> lockboxes t = lockboxes s"

lemma obligation_frame_refl [simp]: "obligation_frame s s"
  by (simp add: obligation_frame_def)

lemma obligation_frame_trans: "obligation_frame s t \<Longrightarrow> obligation_frame t u \<Longrightarrow> obligation_frame s u"
  by (auto simp: obligation_frame_def)

lemma lockbox_frame_obligations: "lockbox_frame s t \<Longrightarrow> obligationState t = obligationState s"
  by (cases s, cases t) (simp add: lockbox_frame_def)

lemma lockbox_frame_obligation_more: "lockbox_frame s t \<Longrightarrow> obligation_world.more t = obligation_world.more s"
  by (cases s, cases t) (simp add: lockbox_frame_def)

lemma log_ext_obligations: "log_ext s t \<Longrightarrow> obligationState t = obligationState s"
  by (rule lockbox_frame_obligations [OF log_lockbox_frame])

lemma log_obligation_frame: "log_ext s t \<Longrightarrow> obligation_frame s t"
  using lockbox_frame_obligation_more [OF log_lockbox_frame, of s t]
  by (simp add: obligation_frame_def log_ext_ledger log_ext_lockboxes log_ext_rt log_ext_uuid)

lemma obligation_inv_issue:
  assumes "obligation_inv s" and "rt t = rt s" and "uuidCount s \<le> uuidCount t" and "obligationState t = obligationState s"
  shows "obligation_inv t"
  using assms obligations_ok_mono [OF _ issued_mono [OF assms(2,3)] issued_mono [OF assms(2,3)]]
  by (simp add: obligation_inv_def)

lemma obligation_inv_log: "obligation_inv s \<Longrightarrow> log_ext s t \<Longrightarrow> obligation_inv t"
  by (rule obligation_inv_issue) (auto simp: log_ext_obligations log_ext_rt log_ext_uuid)

lemma wp_requireObligation [wp_simps]:
  "wp (ObligationService_requireObligation k) Q E = (\<lambda>s. case jmGet (os_obligations (obligationState s)) k of
     None \<Rightarrow> E (DomainError ''obligation_not_found'' ''obligation not found'') s | Some ob \<Rightarrow> Q ob s)"
  by (rule ext) (simp add: ObligationService_requireObligation_def wp_simps split: option.split)

subsection \<open>The operations keep the invariant\<close>

lemma obligation_inv_add:
  assumes log: "log_ext (obligationState_update (os_obligations_update (jmSet i ob)) u) t"
    and u: "rt u = rt s" "uuidCount u = Suc (uuidCount s)" "obligationState u = obligationState s"
    and inv: "obligation_inv s"
    and ob: "i = opId (rt s) ''obligation'' (uuidCount s)" "ob_obligationId ob = i" "0 < ob_principalAmountMinor ob"
      "ob_outstandingPrincipalMinor ob = ob_principalAmountMinor ob" "ob_repaidAmountMinor ob = 0" "ob_status ob = Obl_CREATED"
  shows "obligation_inv t"
proof -
  have t: "rt t = rt s" "Suc (uuidCount s) \<le> uuidCount t"
      "obligationState t = os_obligations_update (jmSet (ob_obligationId ob) ob) (obligationState s)"
    using log_ext_rt [OF log] log_ext_uuid [OF log] log_ext_obligations [OF log] u ob(2) by auto
  have sub: "issued s p \<subseteq> issued t p" for p by (rule issued_mono) (use t in auto)
  have "ob_obligationId ob \<notin> issued s ''obligation''" using ob inv by (simp add: obligation_inv_def issued_fresh)
  then have "obligations_ok (insert (ob_obligationId ob) (issued s ''obligation'')) (issued s ''repayment'') (obligationState t)"
    unfolding t(3) using inv ob by (intro obligations_ok_add) (auto simp: obligation_inv_def)
  moreover have "ob_obligationId ob \<in> issued t ''obligation''" using ob t opId_issued [of "uuidCount s" t] by simp
  ultimately show ?thesis
    using obligations_ok_mono [OF _ _ sub] sub t inv by (simp add: obligation_inv_def)
qed

text \<open>The obligation after a repayment of \<open>amount\<close>, and the repayment itself.\<close>

definition appliedTo :: "obligation \<Rightarrow> int \<Rightarrow> int" where
  "appliedTo ob amount = min amount (ob_outstandingPrincipalMinor ob)"

definition afterRepayment :: "int \<Rightarrow> obligation \<Rightarrow> int \<Rightarrow> obligation \<Rightarrow> obligation" where
  "afterRepayment amount ob now ob' = ob'
     \<lparr>ob_outstandingPrincipalMinor := ob_outstandingPrincipalMinor ob - appliedTo ob amount,
      ob_repaidAmountMinor := ob_repaidAmountMinor ob' + appliedTo ob amount,
      ob_status := (if ob_outstandingPrincipalMinor ob - appliedTo ob amount = 0
        then Obl_FULLY_REPAID else Obl_PARTIALLY_REPAID),
      ob_updatedAt := now\<rparr>"

definition repaid ::
  "string \<Rightarrow> int \<Rightarrow> obligation \<Rightarrow> int \<Rightarrow> repayment \<Rightarrow> 'z obligation_world_scheme \<Rightarrow> 'z obligation_world_scheme \<Rightarrow> bool" where
  "repaid k amount ob now p s t \<longleftrightarrow>
     jmGet (os_obligations (obligationState s)) k = Some ob \<and>
     ob_status ob \<in> {Obl_ACTIVE, Obl_PARTIALLY_REPAID, Obl_OVERDUE} \<and> 0 < amount \<and>
     rp_obligationId p = k \<and> rp_amountMinor p = appliedTo ob amount \<and>
     rp_remainingMinor p = ob_outstandingPrincipalMinor ob - appliedTo ob amount \<and>
     rp_repaymentId p = opId (rt s) ''repayment'' (uuidCount s) \<and> Suc (uuidCount s) \<le> uuidCount t \<and>
     obligationState t = recordRepayment k (afterRepayment amount ob now) p (obligationState s)"

lemma repaid_inv:
  assumes inv: "obligation_inv s" and fr: "obligation_frame s t" and rep: "repaid k amount ob now p s t"
  shows "obligation_inv t"
proof -
  let ?I = "issued s ''obligation''" and ?J = "issued s ''repayment''"
  have sub: "issued s q \<subseteq> issued t q" for q
    by (rule issued_mono) (use fr in \<open>auto simp: obligation_frame_def\<close>)
  have ok: "obligation_ok (obligationState s) k ob"
    using obligation_invD [OF inv] rep by (simp add: repaid_def)
  then have out: "0 \<le> ob_outstandingPrincipalMinor ob" "ob_obligationId ob = k" by (simp_all add: obligation_ok_def)
  have "rp_repaymentId p \<notin> ?J" using rep inv by (simp add: repaid_def obligation_inv_def issued_fresh)
  then have "obligations_ok ?I (insert (rp_repaymentId p) ?J)
      (recordRepayment k (afterRepayment amount ob now) p (obligationState s))"
    by (rule obligations_ok_repay [rotated, where ob = ob and applied = "appliedTo ob amount"])
      (use inv rep out in \<open>auto simp: obligation_inv_def repaid_def appliedTo_def afterRepayment_def\<close>)
  moreover have "rp_repaymentId p \<in> issued t ''repayment''"
    using rep fr opId_issued [of "uuidCount s" t] by (simp add: repaid_def obligation_frame_def)
  ultimately show ?thesis
    using obligations_ok_mono [OF _ sub] sub [of "''repayment''"] rep inv fr
    by (simp add: obligation_inv_def repaid_def obligation_frame_def)
qed

lemma repaid_log: "repaid k amount ob now p s t \<Longrightarrow> log_ext t u \<Longrightarrow> repaid k amount ob now p s u"
  using log_ext_uuid [of t u] by (auto simp: repaid_def log_ext_obligations)

lemma wp_repaymentEvents:
  assumes at: "jmGet (os_obligations (obligationState u)) k = Some ob'"
    and Q: "\<And>t. log_ext u t \<Longrightarrow> Q \<lparr>rr_obligation = ob', rr_repayment = p, rr_surplusMinor = surplus\<rparr> t"
    and E: "\<And>e t. log_ext u t \<Longrightarrow> E e t"
  shows "wp (repaymentEvents k subj p st st' surplus) Q E u"
  using at unfolding repaymentEvents_def ObligationService_emitStatusChange_def
  by (auto simp: wp_simps log_ext_obligations intro!: wp_emitI Q E) (meson log_ext_trans)+

lemma wp_applyRepayment:
  assumes inv: "obligation_inv s"
    and Q: "\<And>amount ob now p t. assertPositiveMinorUnits amountMinorName v = Inr amount \<Longrightarrow>
      repaid k amount ob now p s t \<Longrightarrow> obligation_inv t \<Longrightarrow> obligation_frame s t \<Longrightarrow>
      Q \<lparr>rr_obligation = afterRepayment amount ob now ob, rr_repayment = p,
         rr_surplusMinor = amount - appliedTo ob amount\<rparr> t"
    and E: "\<And>e t. obligation_inv t \<Longrightarrow> obligation_frame s t \<Longrightarrow>
      obligationState t = obligationState s \<or> (\<exists>amount ob now p. repaid k amount ob now p s t) \<Longrightarrow> E e t"
  shows "wp (ObligationService_applyRepayment k v) Q E s"
proof -
  have done_: "obligation_inv t \<and> obligation_frame s t \<and> repaid k amount ob now p s t"
    if log: "log_ext u t" and rep: "repaid k amount ob now p s u" and fr: "obligation_frame s u" for amount ob now p u t
  proof -
    have fr': "obligation_frame s t" using obligation_frame_trans [OF fr log_obligation_frame [OF log]] .
    with repaid_inv [OF inv fr' repaid_log [OF rep log]] repaid_log [OF rep log] show ?thesis by simp
  qed
  have main: "wp (repaymentEvents k subj p st st' (amount - appliedTo ob amount)) Q E u"
    if "repaid k amount ob now p s u" "obligation_frame s u" "assertPositiveMinorUnits amountMinorName v = Inr amount"
    for subj st st' p amount ob now u
  proof (rule wp_repaymentEvents)
    show "jmGet (os_obligations (obligationState u)) k = Some (afterRepayment amount ob now ob)"
      using that by (simp add: repaid_def recordRepayment_def)
  qed (use that done_ Q E in blast)+
  have app: "(if outst < amount then outst else amount) = min amount outst" for outst amount :: int by simp
  show ?thesis
  proof (cases "jmGet (os_obligations (obligationState s)) k")
    case None
    then show ?thesis by (simp add: ObligationService_applyRepayment_def wp_simps E inv)
  next
    case ob: (Some ob)
    show ?thesis
    proof (cases "assertPositiveMinorUnits amountMinorName v")
      case (Inl e)
      with ob show ?thesis by (simp add: ObligationService_applyRepayment_def wp_simps E inv)
    next
      case amt: (Inr amount)
      show ?thesis
      proof (cases "ob_status ob \<in> {Obl_ACTIVE, Obl_PARTIALLY_REPAID, Obl_OVERDUE}")
        case False
        with ob amt show ?thesis by (simp add: ObligationService_applyRepayment_def wp_simps E inv)
      next
        case True
        with ob amt show ?thesis
          unfolding ObligationService_applyRepayment_def createRepayment_def updateObligation_def Let_def
            app appliedTo_def [symmetric]
          by (auto simp: wp_simps case_assertTransition intro!: main [where now = "rt_clock (rt s) (clockCount s)"])
            (auto simp: repaid_def obligation_frame_def recordRepayment_def afterRepayment_def [abs_def]
              assertPositive_Inr jmModify_jmModify comp_def)
      qed
    qed
  qed
qed

text \<open>How a stored obligation may change over a run: its terms never, what has been repaid only upwards,
  its status only along the transition table.\<close>

definition obligation_moves :: "obligation \<Rightarrow> obligation \<Rightarrow> bool" where
  "obligation_moves ob ob' \<longleftrightarrow> ob_obligationId ob' = ob_obligationId ob \<and> ob_obligationHash ob' = ob_obligationHash ob \<and>
     ob_subjectId ob' = ob_subjectId ob \<and> ob_assetId ob' = ob_assetId ob \<and>
     ob_principalAmountMinor ob' = ob_principalAmountMinor ob \<and> ob_dueAt ob' = ob_dueAt ob \<and>
     ob_repaidAmountMinor ob \<le> ob_repaidAmountMinor ob' \<and>
     evolves ObligationTransitions (ob_status ob) (ob_status ob')"

definition obligations_evolve :: "obligation_state \<Rightarrow> obligation_state \<Rightarrow> bool" where
  "obligations_evolve S S' \<longleftrightarrow> (\<forall>k ob. jmGet (os_obligations S) k = Some ob \<longrightarrow>
     (\<exists>ob'. jmGet (os_obligations S') k = Some ob' \<and> obligation_moves ob ob'))"

lemma obligation_moves_refl [simp]: "obligation_moves ob ob"
  by (simp add: obligation_moves_def)

lemma obligation_moves_trans: "obligation_moves a b \<Longrightarrow> obligation_moves b c \<Longrightarrow> obligation_moves a c"
  by (auto simp: obligation_moves_def intro: rtranclp_trans)

lemma obligations_evolve_refl [simp]: "obligations_evolve S S"
  by (simp add: obligations_evolve_def)

lemma obligations_evolve_trans: "obligations_evolve A B \<Longrightarrow> obligations_evolve B C \<Longrightarrow> obligations_evolve A C"
  unfolding obligations_evolve_def by (meson obligation_moves_trans)

lemma obligations_evolve_modify:
  "jmGet (os_obligations S) k = Some ob \<Longrightarrow> obligation_moves ob (f ob) \<Longrightarrow>
   obligations_evolve S (os_obligations_update (jmModify k f) S)"
  by (auto simp: obligations_evolve_def)

text \<open>The invariant with the history since a given state, the predicate every operation preserves.\<close>

definition obligation_since :: "obligation_state \<Rightarrow> 'z obligation_world_scheme \<Rightarrow> bool" where
  "obligation_since S s \<longleftrightarrow> obligation_inv s \<and> obligations_evolve S (obligationState s)"

lemma obligation_since_step:
  "obligation_since S s \<Longrightarrow> obligation_inv t \<Longrightarrow> obligations_evolve (obligationState s) (obligationState t) \<Longrightarrow>
   obligation_since S t"
  by (auto simp: obligation_since_def intro: obligations_evolve_trans)

lemma obligation_since_log: "obligation_since S s \<Longrightarrow> log_ext s t \<Longrightarrow> obligation_since S t"
  by (auto simp: obligation_since_def log_ext_obligations intro: obligation_inv_log)

lemma obligation_fresh:
  assumes "obligation_inv s"
  shows "opId (rt s) ''obligation'' (uuidCount s) \<notin> fst ` set (os_obligations (obligationState s))"
proof -
  have "fst ` set (os_obligations (obligationState s)) \<subseteq> issued s ''obligation''"
    using assms by (auto simp: obligation_inv_def obligations_ok_def)
  moreover have "opId (rt s) ''obligation'' (uuidCount s) \<notin> issued s ''obligation''"
    using assms by (simp add: obligation_inv_def issued_fresh)
  ultimately show ?thesis by blast
qed

lemma obligation_since_add:
  assumes log: "log_ext (obligationState_update (os_obligations_update (jmSet i ob)) u) t"
    and u: "rt u = rt s" "uuidCount u = Suc (uuidCount s)" "obligationState u = obligationState s"
    and since: "obligation_since S s"
    and ob: "i = opId (rt s) ''obligation'' (uuidCount s)" "ob_obligationId ob = i" "0 < ob_principalAmountMinor ob"
      "ob_outstandingPrincipalMinor ob = ob_principalAmountMinor ob" "ob_repaidAmountMinor ob = 0" "ob_status ob = Obl_CREATED"
  shows "obligation_since S t"
proof (rule obligation_since_step [OF since])
  have inv: "obligation_inv s" using since by (simp add: obligation_since_def)
  show "obligation_inv t" by (rule obligation_inv_add [OF log u inv ob])
  have "obligationState t = os_obligations_update (jmSet i ob) (obligationState s)"
    using log_ext_obligations [OF log] u by simp
  then show "obligations_evolve (obligationState s) (obligationState t)"
    using obligation_fresh [OF inv] ob(1) by (auto simp: obligations_evolve_def dest: jmGet_mem)
qed

lemma since_createObligation: "preserves (obligation_since S) (ObligationService_createObligation a)"
proof (rule preservesI)
  fix s :: "'a obligation_world_scheme"
  assume since: "obligation_since S s"
  then show "wp (ObligationService_createObligation a) (\<lambda>_. obligation_since S) (\<lambda>_. obligation_since S) s"
    unfolding ObligationService_createObligation_def createObligation_def
    by (auto simp: wp_simps assertPositive_Inr intro!: wp_emitI split: sum.split option.split)
      (erule obligation_since_add [OF _ _ _ _ since]; simp)+
qed

lemma evolvesI: "a = b \<or> moves T a b \<Longrightarrow> evolves T a b"
  by auto

lemma repaid_moves:
  "obligation_inv s \<Longrightarrow> repaid k amount ob now p s t \<Longrightarrow> obligation_moves ob (afterRepayment amount ob now ob)"
  by (auto simp: repaid_def obligation_moves_def afterRepayment_def appliedTo_def moves_def obligation_ok_def
      dest: obligation_invD intro!: evolvesI)

lemma since_applyRepayment: "preserves (obligation_since S) (ObligationService_applyRepayment k v)"
proof (rule preservesI)
  fix s :: "'a obligation_world_scheme"
  assume since: "obligation_since S s"
  then have inv: "obligation_inv s" by (simp add: obligation_since_def)
  have "obligations_evolve (obligationState s) (obligationState t)" if "repaid k amount ob now p s t" for amount ob now p t
    using that repaid_moves [OF inv that] by (auto simp: repaid_def recordRepayment_def obligations_evolve_def)
  then show "wp (ObligationService_applyRepayment k v) (\<lambda>_. obligation_since S) (\<lambda>_. obligation_since S) s"
    by (intro wp_applyRepayment [OF inv]) (auto intro!: obligation_since_step [OF since])
qed

lemma since_setStatus:
  assumes "st \<noteq> Obl_FULLY_REPAID"
  shows "preserves (obligation_since S) (ObligationService_setStatus k st reason)"
proof (rule preservesI)
  fix s :: "'a obligation_world_scheme"
  assume since: "obligation_since S s"
  then have inv: "obligation_inv s" by (simp add: obligation_since_def)
  have step: "obligation_since S t"
    if log: "log_ext (obligationState_update (os_obligations_update (jmModify k (\<lambda>ob. ob\<lparr>ob_status := st, ob_updatedAt := now\<rparr>))) u) t"
      and u: "rt u = rt s" "uuidCount u = uuidCount s" "obligationState u = obligationState s"
      and ob: "jmGet (os_obligations (obligationState s)) k = Some ob" "st \<in> set (ObligationTransitions (ob_status ob))"
    for t u ob now
  proof (rule obligation_since_step [OF since])
    have t: "rt t = rt s" "uuidCount s \<le> uuidCount t"
        "obligationState t = os_obligations_update (jmModify k (\<lambda>ob. ob\<lparr>ob_status := st, ob_updatedAt := now\<rparr>)) (obligationState s)"
      using log_ext_rt [OF log] log_ext_uuid [OF log] log_ext_obligations [OF log] u by auto
    have "obligations_ok (issued s ''obligation'') (issued s ''repayment'') (obligationState t)"
      unfolding t(3) using inv ob assms obligation_invD [OF inv ob(1)]
      by (intro obligations_ok_status [where ob = ob]) (auto simp: obligation_inv_def obligation_ok_def)
    then show "obligation_inv t"
      using obligations_ok_mono [OF _ issued_mono issued_mono] t inv by (simp add: obligation_inv_def)
    show "obligations_evolve (obligationState s) (obligationState t)"
      unfolding t(3) using ob by (intro obligations_evolve_modify [where ob = ob]) (auto simp: obligation_moves_def moves_def intro: evolvesI)
  qed
  show "wp (ObligationService_setStatus k st reason) (\<lambda>_. obligation_since S) (\<lambda>_. obligation_since S) s"
    using since unfolding ObligationService_setStatus_def updateObligation_def ObligationService_emitStatusChange_def
    by (auto simp: wp_simps case_assertTransition jmModify_jmModify comp_def intro!: wp_emitI split: option.split)
      (erule step; simp)+
qed

lemma since_markDefault: "preserves (obligation_since S) (ObligationService_markDefault k dpd reason)"
proof (rule preservesI)
  fix s :: "'a obligation_world_scheme"
  assume since: "obligation_since S s"
  show "wp (ObligationService_markDefault k dpd reason) (\<lambda>_. obligation_since S) (\<lambda>_. obligation_since S) s"
    unfolding ObligationService_markDefault_def Let_def wp_simps
    by (rule wp_conseq [OF preservesD [OF since_setStatus since]])
      (auto intro!: wp_emitI intro: obligation_since_log)
qed

subsection \<open>Reachable obligations\<close>

inductive obligation_step :: "'z obligation_world_scheme \<Rightarrow> 'z obligation_world_scheme \<Rightarrow> bool" where
  create: "ObligationService_createObligation a s = (r, t) \<Longrightarrow> obligation_step s t"
| activate: "ObligationService_activateObligation k s = (r, t) \<Longrightarrow> obligation_step s t"
| repay: "ObligationService_applyRepayment k v s = (rr, t) \<Longrightarrow> obligation_step s t"
| overdue: "ObligationService_markOverdue k reason s = (r, t) \<Longrightarrow> obligation_step s t"
| default: "ObligationService_markDefault k dpd reason s = (r, t) \<Longrightarrow> obligation_step s t"
| close: "ObligationService_closeObligation k reason s = (r, t) \<Longrightarrow> obligation_step s t"
| log_append: "log_ext s t \<Longrightarrow> obligation_step s t"

lemma obligation_since_stepI: "obligation_since S s \<Longrightarrow> obligation_step s t \<Longrightarrow> obligation_since S t"
  by (erule obligation_step.cases)
    (auto simp: ObligationService_activateObligation_def ObligationService_markOverdue_def ObligationService_closeObligation_def
      intro: since_createObligation [THEN preserves_run] since_applyRepayment [THEN preserves_run]
        since_setStatus [THEN preserves_run, rotated] since_markDefault [THEN preserves_run] obligation_since_log)

interpretation obligation_ts: transition_system obligation_step "obligation_since S" for S
  by unfold_locales (rule obligation_since_stepI)

definition obligation_init :: "'z obligation_world_scheme \<Rightarrow> bool" where
  "obligation_init s \<longleftrightarrow> uuid_unique (rt s) \<and> os_obligations (obligationState s) = [] \<and> os_repayments (obligationState s) = []"

lemma obligation_init_inv: "obligation_init s \<Longrightarrow> obligation_inv s"
  by (simp add: obligation_init_def obligation_inv_def obligations_ok_def jmValues_def)

subsection \<open>A concrete obligation\<close>

definition demo_obligation :: obligation where
  "demo_obligation = \<lparr>ob_obligationId = ''obligation_'', ob_obligationHash = ''0xh'', ob_subjectId = JStr ''s1'',
     ob_principalId = JStr ''p1'', ob_mandateId = ''m1'', ob_assetId = JStr ''USDC'', ob_principalAmountMinor = 1000,
     ob_outstandingPrincipalMinor = 1000, ob_accruedFeesMinor = 0, ob_repaidAmountMinor = 0,
     ob_spendPolicyId = JUndefined, ob_cashflowRouteId = JUndefined, ob_dueAt = ''2030-01-01'', ob_status = Obl_ACTIVE,
     ob_repaymentPriority = 1, ob_createdAt = 0, ob_updatedAt = 0, ob_schemaVersion = ''obligation.v1''\<rparr>"

definition demo_debts :: obligation_world where
  "demo_debts = \<lparr>rt = demo_runtime, uuidCount = 1, clockCount = 0, creditEvents = [], auditEvents = [],
     seenCreditIds = [], seenAuditIds = [], evidenceEnvelopes = [], aggregateVersions = [],
     ledger = ledger_empty, lockboxes = [],
     obligationState = \<lparr>os_obligations = [(''obligation_'', demo_obligation)], os_repayments = []\<rparr>\<rparr>"

lemma demo_debts_inv: "obligation_inv demo_debts"
proof -
  have "issued demo_debts ''obligation'' = {''obligation_''}"
    by (auto simp: issued_def demo_debts_def eval_simps lessThan_Suc)
  moreover have "obligation_ok (obligationState demo_debts) ''obligation_'' demo_obligation"
    by (simp add: obligation_ok_def demo_obligation_def repaidSum_def demo_debts_def jmValues_def)
  ultimately show ?thesis
    by (simp add: obligation_inv_def obligations_ok_def demo_debts_def jmValues_def)
qed

lemma demo_repay_run:
  "\<exists>res t. ObligationService_applyRepayment ''obligation_'' (JStr ''1250'') demo_debts = (Inr res, t)"
proof -
  have amt: "assertPositiveMinorUnits amountMinorName (JStr ''1250'') = Inr 1250" by code_simp
  show ?thesis
    by (simp add: ObligationService_applyRepayment_def ObligationService_requireObligation_def createRepayment_def
        updateObligation_def repaymentEvents_def ObligationService_emitStatusChange_def repayment_js_def
        demo_debts_def demo_obligation_def amt assertTransition_def eval_simps jmModify_def cong: eval_congs)
qed

subsection \<open>Properties\<close>

text \<open>
  C10. On every obligation the service can reach, outstanding and repaid principal add up to the principal,
  neither is negative, the repaid amount is the sum of the recorded repayments, and an obligation is marked
  fully repaid exactly when nothing is outstanding (a debt may also be closed); every repayment belongs to a
  stored obligation.
\<close>

theorem obligation_conservation:
  assumes "obligation_init s" and "rtranclp obligation_step s t"
    and "jmGet (os_obligations (obligationState t)) k = Some ob"
  shows "ob_outstandingPrincipalMinor ob + ob_repaidAmountMinor ob = ob_principalAmountMinor ob \<and>
    0 \<le> ob_outstandingPrincipalMinor ob \<and> 0 \<le> ob_repaidAmountMinor ob \<and>
    ob_repaidAmountMinor ob = sum_list (map rp_amountMinor
      (filter (\<lambda>p. rp_obligationId p = k) (jmValues (os_repayments (obligationState t))))) \<and>
    (ob_status ob \<noteq> Obl_CLOSED \<longrightarrow> (ob_status ob = Obl_FULLY_REPAID \<longleftrightarrow> ob_outstandingPrincipalMinor ob = 0)) \<and>
    (\<forall>p\<in>set (jmValues (os_repayments (obligationState t))).
       jmGet (os_obligations (obligationState t)) (rp_obligationId p) \<noteq> None)"
proof -
  have "obligation_since (obligationState s) s"
    using obligation_init_inv [OF assms(1)] by (simp add: obligation_since_def)
  from obligation_ts.inv_run [OF assms(2) this] have inv: "obligation_inv t" by (simp add: obligation_since_def)
  have "\<forall>p\<in>set (jmValues (os_repayments (obligationState t))).
      jmGet (os_obligations (obligationState t)) (rp_obligationId p) \<noteq> None"
    using inv by (auto simp: obligation_inv_def obligations_ok_def map_of_eq_None_iff)
  with obligation_invD [OF inv assms(3)] show ?thesis by (auto simp: obligation_ok_def repaidSum_def)
qed

definition demo_debt_args :: obligation_args where
  "demo_debt_args = \<lparr>oa_subjectId = JStr ''s1'', oa_principalId = JStr ''p1'', oa_mandateId = JStr ''m1'',
     oa_assetId = JStr ''USDC'', oa_amountMinor = JStr ''1000'', oa_dueAt = ''2030-01-01'',
     oa_spendPolicyId = JUndefined, oa_cashflowRouteId = JUndefined, oa_nonce = JStr ''n1'', oa_now = Some 0\<rparr>"

definition demo_no_debts :: obligation_world where
  "demo_no_debts = demo_debts\<lparr>uuidCount := 0, obligationState := \<lparr>os_obligations = [], os_repayments = []\<rparr>\<rparr>"

lemma demo_create_run:
  "\<exists>ob. jmGet (os_obligations (obligationState (snd (ObligationService_createObligation demo_debt_args demo_no_debts))))
     ''obligation_'' = Some ob \<and> ob_principalAmountMinor ob = 1000"
proof -
  have amt: "assertPositiveMinorUnits amountMinorName (JStr ''1000'') = Inr 1000" by code_simp
  show ?thesis
    by (simp add: ObligationService_createObligation_def createObligation_def demo_no_debts_def demo_debts_def
        demo_debt_args_def amt assertDueAt_def eval_simps cong: eval_congs)
qed

theorem obligation_conservation_witness:
  "\<exists>ob. jmGet (os_obligations (obligationState (snd (ObligationService_createObligation demo_debt_args demo_no_debts))))
     ''obligation_'' = Some ob \<and> ob_outstandingPrincipalMinor ob + ob_repaidAmountMinor ob = 1000"
proof -
  have "obligation_init demo_no_debts" by (simp add: obligation_init_def demo_no_debts_def demo_debts_def)
  moreover have "obligation_step demo_no_debts (snd (ObligationService_createObligation demo_debt_args demo_no_debts))"
    by (rule obligation_step.create) (rule surjective_pairing)
  ultimately show ?thesis
    using demo_create_run obligation_conservation [OF _ r_into_rtranclp] by metis
qed

text \<open>
  C11. A repayment that returns applies the smaller of the amount and the outstanding principal, returns the
  rest as surplus, lowers the outstanding and raises the repaid amount by it, marks the obligation fully or
  partially repaid, appends exactly one repayment under a new identifier, and touches no other obligation,
  no lockbox and no ledger account.
\<close>

theorem applyRepayment_effect:
  assumes inv: "obligation_inv s" and run: "ObligationService_applyRepayment k v s = (Inr res, t)"
  shows "\<exists>ob amount. jmGet (os_obligations (obligationState s)) k = Some ob \<and>
    assertPositiveMinorUnits amountMinorName v = Inr amount \<and>
    ob_status ob \<in> {Obl_ACTIVE, Obl_PARTIALLY_REPAID, Obl_OVERDUE} \<and>
    rr_surplusMinor res = max 0 (amount - ob_outstandingPrincipalMinor ob) \<and>
    rp_amountMinor (rr_repayment res) = min amount (ob_outstandingPrincipalMinor ob) \<and>
    ob_outstandingPrincipalMinor (rr_obligation res) = max 0 (ob_outstandingPrincipalMinor ob - amount) \<and>
    ob_repaidAmountMinor (rr_obligation res) = ob_repaidAmountMinor ob + min amount (ob_outstandingPrincipalMinor ob) \<and>
    ob_status (rr_obligation res) = (if ob_outstandingPrincipalMinor ob \<le> amount then Obl_FULLY_REPAID else Obl_PARTIALLY_REPAID) \<and>
    (\<forall>k'. jmGet (os_obligations (obligationState t)) k' =
       (if k' = k then Some (rr_obligation res) else jmGet (os_obligations (obligationState s)) k')) \<and>
    os_repayments (obligationState t) =
      os_repayments (obligationState s) @ [(rp_repaymentId (rr_repayment res), rr_repayment res)] \<and>
    ledger t = ledger s \<and> lockboxes t = lockboxes s"
proof -
  have fresh: "opId (rt s) ''repayment'' (uuidCount s) \<notin> fst ` set (os_repayments (obligationState s))"
    using inv issued_fresh [of s "''repayment''"] by (auto simp: obligation_inv_def obligations_ok_def)
  have "wp (ObligationService_applyRepayment k v) (\<lambda>res t. \<exists>amount ob now p.
      assertPositiveMinorUnits amountMinorName v = Inr amount \<and> repaid k amount ob now p s t \<and> obligation_frame s t \<and>
      res = \<lparr>rr_obligation = afterRepayment amount ob now ob, rr_repayment = p,
         rr_surplusMinor = amount - appliedTo ob amount\<rparr>) (\<lambda>_ _. True) s"
    by (rule wp_applyRepayment [OF inv]) auto
  from wp_Inr [OF this run] obtain amount ob now p where
    amt: "assertPositiveMinorUnits amountMinorName v = Inr amount" and rep: "repaid k amount ob now p s t"
    and fr: "obligation_frame s t" and res: "res = \<lparr>rr_obligation = afterRepayment amount ob now ob, rr_repayment = p,
         rr_surplusMinor = amount - appliedTo ob amount\<rparr>" by blast
  have "obligation_ok (obligationState s) k ob" using rep obligation_invD [OF inv] by (simp add: repaid_def)
  then have "0 \<le> ob_outstandingPrincipalMinor ob" by (simp add: obligation_ok_def)
  with amt rep fr fresh show ?thesis
    by (intro exI [of _ ob] exI [of _ amount])
      (auto simp: res repaid_def appliedTo_def afterRepayment_def recordRepayment_def obligation_frame_def jmSet_fresh)
qed

theorem applyRepayment_effect_witness:
  "\<exists>res t. ObligationService_applyRepayment ''obligation_'' (JStr ''1250'') demo_debts = (Inr res, t) \<and>
     rr_surplusMinor res = 250 \<and> ob_status (rr_obligation res) = Obl_FULLY_REPAID"
proof -
  obtain res t where run: "ObligationService_applyRepayment ''obligation_'' (JStr ''1250'') demo_debts = (Inr res, t)"
    using demo_repay_run by blast
  have "assertPositiveMinorUnits amountMinorName (JStr ''1250'') = Inr 1250" by code_simp
  with applyRepayment_effect [OF demo_debts_inv run] run show ?thesis
    by (auto simp: demo_debts_def demo_obligation_def)
qed

text \<open>
  C12. A repayment of an unknown obligation, of an amount that is not a positive number of minor units, or of
  an obligation that is not repayable throws the corresponding error and changes nothing, not even the clock.
\<close>

theorem applyRepayment_rejected:
  assumes "ObligationService_applyRepayment k v s = (r, t)"
    and "case jmGet (os_obligations (obligationState s)) k of None \<Rightarrow> True | Some ob \<Rightarrow>
      \<not> (\<exists>a. assertPositiveMinorUnits amountMinorName v = Inr a) \<or>
      ob_status ob \<in> {Obl_CREATED, Obl_FULLY_REPAID, Obl_DELINQUENT, Obl_DEFAULTED, Obl_RESTRUCTURED,
        Obl_REPURCHASED, Obl_WRITTEN_OFF, Obl_CLOSED}"
  shows "t = s \<and> (case jmGet (os_obligations (obligationState s)) k of
      None \<Rightarrow> r = Inl (DomainError ''obligation_not_found'' ''obligation not found'')
    | Some ob \<Rightarrow> (case assertPositiveMinorUnits amountMinorName v of Inl e \<Rightarrow> r = Inl e
      | Inr a \<Rightarrow> r = Inl (DomainError ''obligation_not_repayable'' ''obligation is not in a repayable state'')))"
  using assms
  by (auto simp: ObligationService_applyRepayment_def ObligationService_requireObligation_def bindM_def thenM_def
      getsM_def throwM_def returnM_def liftR_def throwIf_def guardR_def split: option.splits sum.splits)

theorem applyRepayment_rejected_witness:
  "ObligationService_applyRepayment ''obligation_'' (JStr ''0'') demo_debts =
     (Inl (DomainError ''invalid_minor_units'' (amountMinorName @ '' must be greater than zero'')), demo_debts) \<and>
   ObligationService_applyRepayment ''x'' (JStr ''5'') demo_debts =
     (Inl (DomainError ''obligation_not_found'' ''obligation not found''), demo_debts)"
proof -
  have bad: "assertPositiveMinorUnits amountMinorName (JStr ''0'') =
      Inl (DomainError ''invalid_minor_units'' (amountMinorName @ '' must be greater than zero''))" by code_simp
  show ?thesis
    using applyRepayment_rejected [OF surjective_pairing, where s = demo_debts and k = "''obligation_''" and v = "JStr ''0''"]
      applyRepayment_rejected [OF surjective_pairing, where s = demo_debts and k = "''x''" and v = "JStr ''5''"]
    by (simp add: demo_debts_def bad prod_eq_iff)
qed

text \<open>
  C13. Over any run of the service an obligation stays stored under its identifier with its hash, subject,
  asset, principal and due date unchanged, its repaid amount never falls, its status moves only along the
  transition table, and a closed obligation stays closed.
\<close>

theorem obligation_lifecycle_safe:
  assumes "obligation_inv s" and "rtranclp obligation_step s t"
    and "jmGet (os_obligations (obligationState s)) k = Some ob"
  shows "\<exists>ob'. jmGet (os_obligations (obligationState t)) k = Some ob' \<and>
    ob_obligationHash ob' = ob_obligationHash ob \<and> ob_subjectId ob' = ob_subjectId ob \<and> ob_assetId ob' = ob_assetId ob \<and>
    ob_principalAmountMinor ob' = ob_principalAmountMinor ob \<and> ob_dueAt ob' = ob_dueAt ob \<and>
    ob_repaidAmountMinor ob \<le> ob_repaidAmountMinor ob' \<and>
    evolves ObligationTransitions (ob_status ob) (ob_status ob') \<and>
    (ob_status ob = Obl_CLOSED \<longrightarrow> ob_status ob' = Obl_CLOSED)"
proof -
  have "obligation_since (obligationState s) s" using assms(1) by (simp add: obligation_since_def)
  from obligation_ts.inv_run [OF assms(2) this] assms(3) show ?thesis
    unfolding obligation_since_def obligations_evolve_def obligation_moves_def
    by (metis obligation_lifecycle.final_stays)
qed

theorem obligation_lifecycle_safe_witness:
  "\<exists>ob'. jmGet (os_obligations (obligationState (snd
      (ObligationService_closeObligation ''obligation_'' JUndefined demo_debts)))) ''obligation_'' = Some ob' \<and>
     ob_principalAmountMinor ob' = 1000"
proof -
  have "obligation_step demo_debts (snd (ObligationService_closeObligation ''obligation_'' JUndefined demo_debts))"
    by (rule obligation_step.close) (rule surjective_pairing)
  moreover have "jmGet (os_obligations (obligationState demo_debts)) ''obligation_'' = Some demo_obligation"
    by (simp add: demo_debts_def)
  ultimately show ?thesis
    using obligation_lifecycle_safe [OF demo_debts_inv r_into_rtranclp] by (fastforce simp: demo_obligation_def)
qed

end
