(* ===== verification/Mandate.thy ===== *)
theory Mandate
  imports Obligation
begin

text \<open>
  \<open>modules/authorization/src/mandate-service.js\<close> with \<open>createMandate\<close> of \<open>models.js\<close>: the mandates a
  principal gives a subject, the check every spending path makes before it acts, and the reservations of a
  mandate's budget with their releases. Amounts are integers and timestamps are milliseconds here; the code
  keeps both as the text it printed.
\<close>

subsection \<open>State\<close>

record mandate =
  md_mandateId :: string
  md_mandateHash :: string
  md_termsHash :: string
  md_principalId :: string
  md_subjectId :: string
  md_capabilities :: "MandateCapability list"
  md_allowedProviderIds :: "string list"
  md_allowedCategories :: "string list"
  md_assetIds :: "string list"
  md_perActionLimitMinor :: int
  md_aggregateLimitMinor :: int
  md_utilizedMinor :: int
  md_validFrom :: int
  md_expiresAt :: int
  md_nonce :: string
  md_termsRef :: string
  md_sandboxOnly :: bool
  md_productionAuthority :: bool
  md_status :: MandateStatus
  md_createdAt :: int
  md_updatedAt :: int
  md_schemaVersion :: string

record mandate_reservation =
  mr_reservationId :: string
  mr_reservationHash :: string
  mr_mandateId :: string
  mr_subjectId :: js
  mr_capability :: js
  mr_providerId :: js
  mr_category :: js
  mr_assetId :: js
  mr_amountMinor :: int
  mr_releasedMinor :: int
  mr_createdAt :: int
  mr_schemaVersion :: string

record mandate_release =
  ml_releaseId :: string
  ml_releaseHash :: string
  ml_mandateId :: string
  ml_reservationId :: string
  ml_amountMinor :: int
  ml_reason :: string
  ml_createdAt :: int
  ml_schemaVersion :: string

record mandate_state =
  ms_mandates :: "mandate jsmap"
  ms_idsByPrincipalNonce :: "string jsmap"
  ms_reservations :: "mandate_reservation jsmap"
  ms_releases :: "mandate_release jsmap"

record mandate_world = obligation_world +
  mandateState :: mandate_state

subsection \<open>createMandate\<close>

text \<open>\<open>new Date(value)\<close> with the check that it is a date.\<close>

definition parseTimestamp :: "runtime \<Rightarrow> string \<Rightarrow> js \<Rightarrow> int res" where
  "parseTimestamp r name value =
     bindR (assertNonEmptyString name value) (\<lambda>x.
       case rt_dateParse r x of
         None \<Rightarrow> fail ''invalid_timestamp'' (name @ '' must be an ISO timestamp'')
       | Some t \<Rightarrow> Inr t)"

definition uniqueStrings :: "string \<Rightarrow> js \<Rightarrow> bool \<Rightarrow> string list res" where
  "uniqueStrings name values allowEmpty =
     (let err = fail ''invalid_string_list''
            (name @ '' must be '' @ (if allowEmpty then ''an'' else ''a non-empty'') @ '' array'') in
      case values of
        JArr vs \<Rightarrow>
          if \<not> allowEmpty \<and> vs = [] then err
          else bindR (mapR (assertNonEmptyString name) vs) (\<lambda>normalized.
            if \<not> distinct normalized
            then fail ''duplicate_scope_value'' (name @ '' cannot contain duplicates'')
            else Inr normalized)
      | _ \<Rightarrow> err)"

text \<open>The fields of the object \<open>MandateService.createMandate\<close> is called with.\<close>

record mandate_input =
  mi_principalId :: js
  mi_subjectId :: js
  mi_nonce :: js
  mi_termsRef :: js
  mi_validFrom :: js
  mi_expiresAt :: js
  mi_capabilities :: js
  mi_allowedProviderIds :: js
  mi_allowedCategories :: js
  mi_assetIds :: js
  mi_perActionLimitMinor :: js
  mi_aggregateLimitMinor :: js
  mi_now :: "int option"

definition strs :: "string list \<Rightarrow> js" where
  "strs xs = JArr (map JStr xs)"

definition capability_strs :: "MandateCapability list \<Rightarrow> js" where
  "capability_strs cs = strs (map MandateCapability_str cs)"

text \<open>
  \<open>createMandate\<close> of \<open>models.js\<close>, on the validated terms \<open>m\<close>: it adds the identifier, the two hashes
  and the initial status to them.
\<close>

definition mandate_termsCore :: "runtime \<Rightarrow> mandate \<Rightarrow> (string \<times> js) list" where
  "mandate_termsCore r m =
     [(''capabilities'', capability_strs (md_capabilities m)),
      (''allowedProviderIds'', strs (md_allowedProviderIds m)),
      (''allowedCategories'', strs (md_allowedCategories m)), (''assetIds'', strs (md_assetIds m)),
      (''perActionLimitMinor'', JStr (dec (md_perActionLimitMinor m))),
      (''aggregateLimitMinor'', JStr (dec (md_aggregateLimitMinor m))),
      (''validFrom'', JStr (rt_iso r (md_validFrom m))), (''expiresAt'', JStr (rt_iso r (md_expiresAt m))),
      (''nonce'', JStr (md_nonce m)), (''termsRef'', JStr (md_termsRef m)),
      (''sandboxOnly'', JBool True), (''productionAuthority'', JBool False)]"

definition createMandate :: "mandate \<Rightarrow> int \<Rightarrow> ('z host_scheme, mandate) M" where
  "createMandate m now =
     bindM (getsM rt) (\<lambda>r.
     bindM (hashM ''mandate'' (JObj ([(''principalId'', JStr (md_principalId m)),
       (''subjectId'', JStr (md_subjectId m))] @ mandate_termsCore r m))) (\<lambda>mandateHash.
     bindM (createOperationalId ''mandate'') (\<lambda>mandateId.
     bindM (hashM ''mandate_terms'' (JObj (mandate_termsCore r m))) (\<lambda>termsHash.
     returnM (m
       \<lparr>md_mandateId := mandateId, md_mandateHash := mandateHash, md_termsHash := termsHash,
        md_utilizedMinor := 0, md_sandboxOnly := True, md_productionAuthority := False,
        md_status := Mandate_DRAFT, md_createdAt := now, md_updatedAt := now,
        md_schemaVersion := ''mandate.v3''\<rparr>)))))"

definition MandateService_requireMandate :: "string \<Rightarrow> ('z mandate_world_scheme, mandate) M" where
  "MandateService_requireMandate mandateId =
     bindM (getsM (\<lambda>s. jmGet (ms_mandates (mandateState s)) mandateId)) (\<lambda>found.
       case found of
         None \<Rightarrow> throwM (DomainError ''mandate_not_found'' ''mandate not found'')
       | Some m \<Rightarrow> returnM m)"

text \<open>An assignment to fields of the stored mandate.\<close>

definition updateMandate :: "string \<Rightarrow> (mandate \<Rightarrow> mandate) \<Rightarrow> ('z mandate_world_scheme, unit) M" where
  "updateMandate mandateId f = modifyM (mandateState_update (ms_mandates_update (jmModify mandateId f)))"

definition YEAR_MS :: int where
  "YEAR_MS = 365 * 86400000"

text \<open>The validation part of \<open>MandateService.createMandate\<close>: the terms it accepts. A validated timestamp is
  kept as the time it denotes; the code keeps the ISO text of that time and parses it on every use.\<close>

definition mandateTerms :: "runtime \<Rightarrow> mandate_input \<Rightarrow> int \<Rightarrow> string \<Rightarrow> string \<Rightarrow> string \<Rightarrow> string \<Rightarrow> mandate res" where
  "mandateTerms r input now principalId subjectId nonce termsRef =
     (let validFrom = js_coalesce (mi_validFrom input) (JStr (rt_iso r now));
          expiresAt = js_coalesce (mi_expiresAt input) (JStr (rt_iso r (now + YEAR_MS))) in
      bindR (parseTimestamp r ''validFrom'' validFrom) (\<lambda>validFromDate.
      bindR (parseTimestamp r ''expiresAt'' expiresAt) (\<lambda>expiresAtDate.
      bindR (guardR (expiresAtDate \<le> validFromDate) ''invalid_mandate_window'' ''expiresAt must be after validFrom'') (\<lambda>_.
      bindR (uniqueStrings ''capabilities'' (mi_capabilities input) False) (\<lambda>capabilityNames.
      bindR (mapR (\<lambda>c. assertEnumValue ''capability'' (JStr c) MandateCapability_values) capabilityNames) (\<lambda>capabilities.
      bindR (uniqueStrings ''allowedProviderIds'' (js_coalesce (mi_allowedProviderIds input) (JArr [])) True) (\<lambda>allowedProviderIds.
      bindR (uniqueStrings ''allowedCategories'' (js_coalesce (mi_allowedCategories input) (JArr [])) True) (\<lambda>allowedCategories.
      bindR (uniqueStrings ''assetIds'' (mi_assetIds input) False) (\<lambda>assetIds.
      bindR (assertPositiveMinorUnits ''perActionLimitMinor'' (mi_perActionLimitMinor input)) (\<lambda>perActionLimit.
      bindR (assertPositiveMinorUnits ''aggregateLimitMinor'' (mi_aggregateLimitMinor input)) (\<lambda>aggregateLimit.
      bindR (guardR (perActionLimit > aggregateLimit) ''invalid_mandate_limits''
        ''per-action limit cannot exceed aggregate limit'') (\<lambda>_.
      Inr \<lparr>md_mandateId = [], md_mandateHash = [], md_termsHash = [], md_principalId = principalId,
         md_subjectId = subjectId, md_capabilities = capabilities, md_allowedProviderIds = allowedProviderIds,
         md_allowedCategories = allowedCategories, md_assetIds = assetIds,
         md_perActionLimitMinor = perActionLimit, md_aggregateLimitMinor = aggregateLimit, md_utilizedMinor = 0,
         md_validFrom = validFromDate, md_expiresAt = expiresAtDate, md_nonce = nonce, md_termsRef = termsRef,
         md_sandboxOnly = True, md_productionAuthority = False, md_status = Mandate_DRAFT,
         md_createdAt = now, md_updatedAt = now, md_schemaVersion = []\<rparr>))))))))))))"

text \<open>What \<open>createMandate\<close> does with a mandate whose nonce is new: store it, index it, announce it.\<close>

definition MandateService_storeMandate :: "mandate \<Rightarrow> string \<Rightarrow> int \<Rightarrow> ('z mandate_world_scheme, mandate) M" where
  "MandateService_storeMandate mandate nonceKey now =
     thenM (modifyM (mandateState_update (ms_mandates_update (jmSet (md_mandateId mandate) mandate))))
     (thenM (modifyM (mandateState_update (ms_idsByPrincipalNonce_update (jmSet nonceKey (md_mandateId mandate)))))
     (bindM (getsM rt) (\<lambda>r.
     thenM (emitCreditEvent ((eventArgs ''mandate_created'' (JStr (md_subjectId mandate)) (JObj
         [(''mandateId'', JStr (md_mandateId mandate)), (''mandateHash'', JStr (md_mandateHash mandate)),
          (''principalId'', JStr (md_principalId mandate)),
          (''capabilities'', capability_strs (md_capabilities mandate)),
          (''assetIds'', strs (md_assetIds mandate)),
          (''expiresAt'', JStr (rt_iso r (md_expiresAt mandate)))]))\<lparr>ca_now := Some now\<rparr>))
     (returnM mandate))))"

definition mandateNonceKey :: "string \<Rightarrow> string \<Rightarrow> string" where
  "mandateNonceKey principalId nonce = principalId @ [CHR 0x00] @ nonce"

definition MandateService_createMandate :: "mandate_input \<Rightarrow> ('z mandate_world_scheme, mandate) M" where
  "MandateService_createMandate input =
     bindM (liftR (assertNonEmptyString ''principalId'' (mi_principalId input))) (\<lambda>principalId.
     bindM (liftR (assertNonEmptyString ''subjectId'' (mi_subjectId input))) (\<lambda>subjectId.
     bindM (liftR (assertNonEmptyString ''nonce'' (mi_nonce input))) (\<lambda>nonce.
     bindM (liftR (assertNonEmptyString ''termsRef'' (mi_termsRef input))) (\<lambda>termsRef.
     thenM (liftR (assertNoRawPiiReference (JObj [(''termsRef'', JStr termsRef)])))
     (bindM (nowOr (mi_now input)) (\<lambda>now.
     bindM (getsM rt) (\<lambda>r.
     bindM (liftR (mandateTerms r input now principalId subjectId nonce termsRef)) (\<lambda>terms.
     bindM (createMandate terms now) (\<lambda>mandate.
     let nonceKey = mandateNonceKey (md_principalId mandate) (md_nonce mandate) in
     bindM (getsM (\<lambda>s. jmGet (ms_idsByPrincipalNonce (mandateState s)) nonceKey)) (\<lambda>existingId.
       case existingId of
         Some i \<Rightarrow>
           bindM (MandateService_requireMandate i) (\<lambda>existing.
           thenM (throwIf (md_mandateHash existing \<noteq> md_mandateHash mandate) ''mandate_nonce_conflict''
             ''principal mandate nonce was reused with different terms'')
           (returnM existing))
       | None \<Rightarrow> MandateService_storeMandate mandate nonceKey now))))))))))"

subsection \<open>Status changes\<close>

definition MandateService_setStatus ::
  "string \<Rightarrow> MandateStatus \<Rightarrow> js \<Rightarrow> js \<Rightarrow> int \<Rightarrow> ('z mandate_world_scheme, mandate) M" where
  "MandateService_setStatus mandateId nextStatus actorArg reason now =
     bindM (MandateService_requireMandate mandateId) (\<lambda>mandate.
     if md_status mandate = nextStatus then returnM mandate
     else
     bindM (liftR (assertNonEmptyString ''actorId'' (js_default actorArg (JStr ''system'')))) (\<lambda>actorId.
     bindM (liftR (assertNonEmptyString ''reason'' reason)) (\<lambda>_.
     thenM (liftR (assertTransition ''mandate'' MandateStatus_str MandateTransitions (md_status mandate) nextStatus))
     (let previousStatus = md_status mandate;
          changed = [(''previousStatus'', JStr (MandateStatus_str previousStatus)),
                     (''newStatus'', JStr (MandateStatus_str nextStatus))] in
     thenM (updateMandate mandateId (\<lambda>m. m\<lparr>md_status := nextStatus, md_updatedAt := now\<rparr>))
     (thenM (emitCreditEvent ((eventArgs ''mandate_status_changed'' (JStr (md_subjectId mandate)) (JObj
         ([(''mandateId'', JStr (md_mandateId mandate))] @ changed @ [(''reason'', reason)])))\<lparr>ca_now := Some now\<rparr>))
     (thenM (emitAuditEvent (JStr actorId) (''mandate_'' @ MandateStatus_str nextStatus) ''mandate''
         (md_mandateId mandate) reason
         (JObj ([(''subjectId'', JStr (md_subjectId mandate))] @ changed)) (Some now))
     (MandateService_requireMandate mandateId)))))))"

definition MandateService_activateMandate ::
  "string \<Rightarrow> js \<Rightarrow> int option \<Rightarrow> ('z mandate_world_scheme, mandate) M" where
  "MandateService_activateMandate mandateId actorId nowArg =
     bindM (nowOr nowArg) (\<lambda>now.
     bindM (MandateService_requireMandate mandateId) (\<lambda>mandate.
     if md_status mandate = Mandate_ACTIVE then returnM mandate
     else
     thenM (throwIf (now < md_validFrom mandate) ''mandate_not_yet_valid'' ''mandate cannot activate before validFrom'')
     (if now \<ge> md_expiresAt mandate
      then MandateService_setStatus mandateId Mandate_EXPIRED actorId (JStr ''validity_window_elapsed'') now
      else MandateService_setStatus mandateId Mandate_ACTIVE actorId (JStr ''mandate_activated'') now)))"

definition MandateService_suspendMandate ::
  "string \<Rightarrow> js \<Rightarrow> js \<Rightarrow> int option \<Rightarrow> ('z mandate_world_scheme, mandate) M" where
  "MandateService_suspendMandate mandateId actorId reason nowArg =
     bindM (nowOr nowArg) (\<lambda>now.
     bindM (liftR (assertNonEmptyString ''reason'' reason)) (\<lambda>_.
     MandateService_setStatus mandateId Mandate_SUSPENDED actorId reason now))"

definition MandateService_revokeMandate ::
  "string \<Rightarrow> js \<Rightarrow> js \<Rightarrow> int option \<Rightarrow> ('z mandate_world_scheme, mandate) M" where
  "MandateService_revokeMandate mandateId actorId reason nowArg =
     bindM (nowOr nowArg) (\<lambda>now.
     bindM (liftR (assertNonEmptyString ''reason'' reason)) (\<lambda>_.
     MandateService_setStatus mandateId Mandate_REVOKED actorId reason now))"

subsection \<open>Authorization\<close>

record authorization_args =
  au_mandateId :: js
  au_subjectId :: js
  au_capability :: js
  au_providerId :: js
  au_category :: js
  au_assetId :: js
  au_amountMinor :: js
  au_enforceAggregateLimit :: bool
  au_now :: "int option"

text \<open>\<open>mandate.allowedProviderIds.includes(providerId)\<close> after the check that the value is a string.\<close>

definition checkScope :: "mandate \<Rightarrow> MandateCapability \<Rightarrow> js \<Rightarrow> js \<Rightarrow> unit res" where
  "checkScope mandate capability providerId category =
     (if capability = Cap_PROVIDER_SPEND then
        bindR (assertNonEmptyString ''providerId'' providerId) (\<lambda>p.
        bindR (assertNonEmptyString ''category'' category) (\<lambda>c.
        bindR (guardR (p \<notin> set (md_allowedProviderIds mandate)) ''mandate_provider_denied'' ''provider is outside the mandate scope'') (\<lambda>_.
        guardR (c \<notin> set (md_allowedCategories mandate)) ''mandate_category_denied'' ''category is outside the mandate scope'')))
      else Inr ())"

definition checkAmount :: "mandate \<Rightarrow> js \<Rightarrow> bool \<Rightarrow> unit res" where
  "checkAmount mandate amountMinor enforceAggregateLimit =
     (if amountMinor \<noteq> JUndefined then
        bindR (assertPositiveMinorUnits amountMinorName amountMinor) (\<lambda>amount.
        bindR (guardR (amount > md_perActionLimitMinor mandate) ''mandate_per_action_limit_exceeded''
          ''action exceeds the mandate per-action limit'') (\<lambda>_.
        guardR (enforceAggregateLimit \<and> amount + md_utilizedMinor mandate > md_aggregateLimitMinor mandate)
          ''mandate_aggregate_limit_exceeded'' ''action exceeds the mandate aggregate limit''))
      else Inr ())"

text \<open>The checks on a mandate whose expiry has been settled, in the order of the code.\<close>

definition checkMandate :: "mandate \<Rightarrow> authorization_args \<Rightarrow> int \<Rightarrow> string \<Rightarrow> MandateCapability \<Rightarrow> string \<Rightarrow> unit res" where
  "checkMandate mandate a now subjectId capability assetId =
     bindR (guardR (md_status mandate \<noteq> Mandate_ACTIVE) ''mandate_not_active'' ''an active mandate is required'') (\<lambda>_.
     bindR (guardR (now < md_validFrom mandate) ''mandate_not_yet_valid'' ''mandate is not yet valid'') (\<lambda>_.
     bindR (guardR (md_subjectId mandate \<noteq> subjectId) ''mandate_subject_mismatch'' ''mandate does not authorize this subject'') (\<lambda>_.
     bindR (guardR (capability \<notin> set (md_capabilities mandate)) ''mandate_capability_denied''
       ''mandate does not include the requested capability'') (\<lambda>_.
     bindR (guardR (assetId \<notin> set (md_assetIds mandate)) ''mandate_asset_denied'' ''mandate does not include the requested asset'') (\<lambda>_.
     bindR (checkScope mandate capability (au_providerId a) (au_category a)) (\<lambda>_.
     checkAmount mandate (au_amountMinor a) (au_enforceAggregateLimit a)))))))"

definition MandateService_assertAuthorized ::
  "authorization_args \<Rightarrow> ('z mandate_world_scheme, mandate) M" where
  "MandateService_assertAuthorized a =
     bindM (nowOr (au_now a)) (\<lambda>now.
     bindM (liftR (assertNonEmptyString ''mandateId'' (au_mandateId a))) (\<lambda>mandateId.
     bindM (liftR (assertNonEmptyString ''subjectId'' (au_subjectId a))) (\<lambda>subjectId.
     bindM (liftR (assertEnumValue ''capability'' (au_capability a) MandateCapability_values)) (\<lambda>capability.
     bindM (liftR (assertNonEmptyString ''assetId'' (au_assetId a))) (\<lambda>assetId.
     bindM (MandateService_requireMandate mandateId) (\<lambda>found.
     thenM (whenM (now \<ge> md_expiresAt found \<and> md_status found \<notin> {Mandate_EXPIRED, Mandate_REVOKED})
       (thenM (MandateService_setStatus mandateId Mandate_EXPIRED (JStr ''system'') (JStr ''validity_window_elapsed'') now)
         (returnM ())))
     (bindM (MandateService_requireMandate mandateId) (\<lambda>mandate.
     thenM (liftR (checkMandate mandate a now subjectId capability assetId))
     (returnM mandate)))))))))"

subsection \<open>Reservations and releases\<close>

text \<open>\<open>BigInt(value)\<close>: the strings that reach it have passed the amount check, so they are digits.\<close>

definition toBigInt :: "js \<Rightarrow> int res" where
  "toBigInt v =
     (case v of
        JBig i \<Rightarrow> Inr i
      | JNum i \<Rightarrow> Inr i
      | JBool b \<Rightarrow> Inr (of_bool b)
      | JStr x \<Rightarrow> (if list_all is_digit x then Inr (int (parseNat x)) else Inl (NativeError ''Cannot convert to a BigInt''))
      | _ \<Rightarrow> Inl (NativeError ''Cannot convert to a BigInt''))"

definition reservationHash :: "runtime \<Rightarrow> string \<Rightarrow> authorization_args \<Rightarrow> string" where
  "reservationHash r reservationId a = hashId r ''mandate_reservation'' (JObj
     [(''mandateId'', au_mandateId a), (''reservationId'', JStr reservationId),
      (''subjectId'', au_subjectId a), (''capability'', au_capability a),
      (''providerId'', js_coalesce (au_providerId a) JNull), (''category'', js_coalesce (au_category a) JNull),
      (''assetId'', au_assetId a), (''amountMinor'', au_amountMinor a)])"

record reserve_result =
  vr_mandate :: mandate
  vr_reservation :: mandate_reservation
  vr_replayed :: bool

text \<open>The mutation of an authorised reservation and its event.\<close>

definition MandateService_recordReservation ::
  "mandate \<Rightarrow> string \<Rightarrow> string \<Rightarrow> authorization_args \<Rightarrow> int \<Rightarrow> int \<Rightarrow> ('z mandate_world_scheme, reserve_result) M" where
  "MandateService_recordReservation mandate reservationId resHash a amount now =
     (let mandateId = js_string (au_mandateId a); storedId = md_mandateId mandate;
          reservation =
            \<lparr>mr_reservationId = reservationId, mr_reservationHash = resHash, mr_mandateId = mandateId,
             mr_subjectId = au_subjectId a, mr_capability = au_capability a, mr_providerId = au_providerId a,
             mr_category = au_category a, mr_assetId = au_assetId a, mr_amountMinor = amount,
             mr_releasedMinor = 0, mr_createdAt = now, mr_schemaVersion = ''mandate_reservation.v1''\<rparr> in
      thenM (MandateService_requireMandate storedId)
      (thenM (updateMandate storedId (\<lambda>m. m\<lparr>md_utilizedMinor := md_utilizedMinor m + amount, md_updatedAt := now\<rparr>))
      (thenM (modifyM (mandateState_update (ms_reservations_update (jmSet reservationId reservation))))
      (bindM (MandateService_requireMandate storedId) (\<lambda>stored.
      thenM (emitCreditEvent ((eventArgs ''mandate_utilization_reserved'' (au_subjectId a) (JObj
          [(''mandateId'', JStr mandateId), (''reservationId'', JStr reservationId), (''capability'', au_capability a),
           (''amountMinor'', JStr (dec amount)), (''utilizedMinor'', JStr (dec (md_utilizedMinor stored)))]))
          \<lparr>ca_now := Some now\<rparr>))
      (returnM \<lparr>vr_mandate = stored, vr_reservation = reservation, vr_replayed = False\<rparr>))))))"

text \<open>The call of \<open>reserveUtilization\<close> has no \<open>enforceAggregateLimit\<close>: its default is used.\<close>

definition MandateService_reserveUtilization ::
  "js \<Rightarrow> authorization_args \<Rightarrow> ('z mandate_world_scheme, reserve_result) M" where
  "MandateService_reserveUtilization reservationArg a =
     bindM (nowOr (au_now a)) (\<lambda>now.
     bindM (liftR (assertNonEmptyString ''reservationId'' reservationArg)) (\<lambda>reservationId.
     bindM (getsM rt) (\<lambda>r.
     let resHash = reservationHash r reservationId a in
     bindM (getsM (\<lambda>s. jmGet (ms_reservations (mandateState s)) reservationId)) (\<lambda>existing.
       case existing of
         Some reservation \<Rightarrow>
           thenM (throwIf (mr_reservationHash reservation \<noteq> resHash) ''mandate_reservation_conflict''
             ''reservation id was reused with a different authorization'')
           (bindM (MandateService_requireMandate (mr_mandateId reservation)) (\<lambda>mandate.
           returnM \<lparr>vr_mandate = mandate, vr_reservation = reservation, vr_replayed = True\<rparr>))
       | None \<Rightarrow>
           bindM (MandateService_assertAuthorized (a\<lparr>au_enforceAggregateLimit := True, au_now := Some now\<rparr>)) (\<lambda>mandate.
           bindM (liftR (toBigInt (au_amountMinor a))) (\<lambda>amount.
           MandateService_recordReservation mandate reservationId resHash a amount now))))))"

definition releaseHash :: "runtime \<Rightarrow> string \<Rightarrow> string \<Rightarrow> string \<Rightarrow> js \<Rightarrow> string \<Rightarrow> string" where
  "releaseHash r mandateId reservationId releaseId amountMinor reason = hashId r ''mandate_release'' (JObj
     [(''mandateId'', JStr mandateId), (''reservationId'', JStr reservationId), (''releaseId'', JStr releaseId),
      (''amountMinor'', amountMinor), (''reason'', JStr reason)])"

record release_result =
  vl_mandate :: mandate
  vl_release :: mandate_release
  vl_replayed :: bool

definition MandateService_recordRelease ::
  "mandate \<Rightarrow> string \<Rightarrow> string \<Rightarrow> string \<Rightarrow> string \<Rightarrow> int \<Rightarrow> string \<Rightarrow> int \<Rightarrow> ('z mandate_world_scheme, release_result) M" where
  "MandateService_recordRelease mandate mandateId reservationId releaseId relHash amount reason now =
     (let release =
            \<lparr>ml_releaseId = releaseId, ml_releaseHash = relHash, ml_mandateId = mandateId,
             ml_reservationId = reservationId, ml_amountMinor = amount, ml_reason = reason, ml_createdAt = now,
             ml_schemaVersion = ''mandate_release.v1''\<rparr> in
      thenM (modifyM (mandateState_update (ms_reservations_update
        (jmModify reservationId (\<lambda>v. v\<lparr>mr_releasedMinor := mr_releasedMinor v + amount\<rparr>)))))
      (thenM (updateMandate mandateId (\<lambda>m. m\<lparr>md_utilizedMinor := md_utilizedMinor m - amount, md_updatedAt := now\<rparr>))
      (thenM (modifyM (mandateState_update (ms_releases_update (jmSet releaseId release))))
      (bindM (MandateService_requireMandate mandateId) (\<lambda>stored.
      thenM (emitCreditEvent ((eventArgs ''mandate_utilization_released'' (JStr (md_subjectId mandate)) (JObj
          [(''mandateId'', JStr mandateId), (''reservationId'', JStr reservationId), (''releaseId'', JStr releaseId),
           (''amountMinor'', JStr (dec amount)), (''utilizedMinor'', JStr (dec (md_utilizedMinor stored))),
           (''reason'', JStr reason)]))\<lparr>ca_now := Some now\<rparr>))
      (returnM \<lparr>vl_mandate = stored, vl_release = release, vl_replayed = False\<rparr>))))))"

definition MandateService_releaseUtilization ::
  "string \<Rightarrow> string \<Rightarrow> js \<Rightarrow> js \<Rightarrow> js \<Rightarrow> int option \<Rightarrow> ('z mandate_world_scheme, release_result) M" where
  "MandateService_releaseUtilization mandateId reservationId releaseArg amountMinor reasonArg nowArg =
     bindM (nowOr nowArg) (\<lambda>now.
     bindM (liftR (assertNonEmptyString ''releaseId'' releaseArg)) (\<lambda>releaseId.
     bindM (liftR (assertNonEmptyString ''reason'' reasonArg)) (\<lambda>reason.
     bindM (liftR (assertPositiveMinorUnits amountMinorName amountMinor)) (\<lambda>amount.
     bindM (getsM rt) (\<lambda>r.
     let relHash = releaseHash r mandateId reservationId releaseId amountMinor reason in
     bindM (getsM (\<lambda>s. jmGet (ms_releases (mandateState s)) releaseId)) (\<lambda>existing.
       case existing of
         Some release \<Rightarrow>
           thenM (throwIf (ml_releaseHash release \<noteq> relHash) ''mandate_release_conflict''
             ''release id was reused with different terms'')
           (bindM (MandateService_requireMandate mandateId) (\<lambda>mandate.
           returnM \<lparr>vl_mandate = mandate, vl_release = release, vl_replayed = True\<rparr>))
       | None \<Rightarrow>
           bindM (MandateService_requireMandate mandateId) (\<lambda>mandate.
           bindM (getsM (\<lambda>s. jmGet (ms_reservations (mandateState s)) reservationId)) (\<lambda>found.
             case found of
               None \<Rightarrow> throwM (DomainError ''mandate_reservation_not_found'' ''mandate reservation not found'')
             | Some reservation \<Rightarrow>
                 thenM (throwIf (mr_mandateId reservation \<noteq> mandateId) ''mandate_reservation_not_found'' ''mandate reservation not found'')
                 (thenM (throwIf (amount > mr_amountMinor reservation - mr_releasedMinor reservation \<or> amount > md_utilizedMinor mandate)
                   ''mandate_release_exceeds_reservation'' ''release exceeds reserved utilization'')
                 (MandateService_recordRelease mandate mandateId reservationId releaseId relHash amount reason now))))))))))"

subsection \<open>Readers\<close>

definition MandateService_getMandate :: "string \<Rightarrow> ('z mandate_world_scheme, mandate) M" where
  "MandateService_getMandate mandateId = MandateService_requireMandate mandateId"

definition mandate_field :: "runtime \<Rightarrow> mandate \<Rightarrow> string \<Rightarrow> js" where
  "mandate_field r m key =
     (case map_of
        [(''mandateId'', JStr (md_mandateId m)), (''mandateHash'', JStr (md_mandateHash m)),
         (''termsHash'', JStr (md_termsHash m)), (''principalId'', JStr (md_principalId m)),
         (''subjectId'', JStr (md_subjectId m)), (''capabilities'', capability_strs (md_capabilities m)),
         (''allowedProviderIds'', strs (md_allowedProviderIds m)),
         (''allowedCategories'', strs (md_allowedCategories m)), (''assetIds'', strs (md_assetIds m)),
         (''perActionLimitMinor'', JStr (dec (md_perActionLimitMinor m))),
         (''aggregateLimitMinor'', JStr (dec (md_aggregateLimitMinor m))),
         (''utilizedMinor'', JStr (dec (md_utilizedMinor m))),
         (''validFrom'', JStr (rt_iso r (md_validFrom m))), (''expiresAt'', JStr (rt_iso r (md_expiresAt m))),
         (''nonce'', JStr (md_nonce m)), (''termsRef'', JStr (md_termsRef m)),
         (''sandboxOnly'', JBool (md_sandboxOnly m)), (''productionAuthority'', JBool (md_productionAuthority m)),
         (''status'', JStr (MandateStatus_str (md_status m))),
         (''createdAt'', JStr (rt_iso r (md_createdAt m))), (''updatedAt'', JStr (rt_iso r (md_updatedAt m))),
         (''schemaVersion'', JStr (md_schemaVersion m))] key of
        Some v \<Rightarrow> v | None \<Rightarrow> JUndefined)"

definition MandateService_listMandates :: "runtime \<Rightarrow> (string \<times> js) list \<Rightarrow> mandate_state \<Rightarrow> mandate list" where
  "MandateService_listMandates r filt S = filter (matchesFilter (mandate_field r) filt) (jmValues (ms_mandates S))"

definition MandateService_getReservation :: "string \<Rightarrow> ('z mandate_world_scheme, mandate_reservation) M" where
  "MandateService_getReservation reservationId =
     bindM (getsM (\<lambda>s. jmGet (ms_reservations (mandateState s)) reservationId)) (\<lambda>found.
       case found of
         None \<Rightarrow> throwM (DomainError ''mandate_reservation_not_found'' ''mandate reservation not found'')
       | Some reservation \<Rightarrow> returnM reservation)"

subsection \<open>The invariant\<close>

text \<open>
  The budget of a mandate is accounted for reservation by reservation: what a mandate has utilised is what
  its reservations hold, and what a reservation has released is what its releases returned. \<open>I\<close> is the set
  of mandate identifiers handed out so far.
\<close>

definition held :: "string \<Rightarrow> mandate_reservation \<Rightarrow> int" where
  "held k v = (if mr_mandateId v = k then mr_amountMinor v - mr_releasedMinor v else 0)"

definition heldSum :: "mandate_state \<Rightarrow> string \<Rightarrow> int" where
  "heldSum S k = sum_list (map (held k) (jmValues (ms_reservations S)))"

definition returned :: "string \<Rightarrow> mandate_release \<Rightarrow> int" where
  "returned i l = (if ml_reservationId l = i then ml_amountMinor l else 0)"

definition releasedSum :: "mandate_state \<Rightarrow> string \<Rightarrow> int" where
  "releasedSum S i = sum_list (map (returned i) (jmValues (ms_releases S)))"

definition mandate_ok :: "mandate_state \<Rightarrow> string \<Rightarrow> mandate \<Rightarrow> bool" where
  "mandate_ok S k m \<longleftrightarrow> md_mandateId m = k \<and> 0 < md_perActionLimitMinor m \<and>
     md_perActionLimitMinor m \<le> md_aggregateLimitMinor m \<and> md_validFrom m < md_expiresAt m \<and>
     md_utilizedMinor m = heldSum S k \<and> 0 \<le> md_utilizedMinor m \<and>
     md_utilizedMinor m \<le> md_aggregateLimitMinor m \<and>
     jmGet (ms_idsByPrincipalNonce S) (mandateNonceKey (md_principalId m) (md_nonce m)) = Some k"

definition reservation_ok :: "mandate_state \<Rightarrow> string \<Rightarrow> mandate_reservation \<Rightarrow> bool" where
  "reservation_ok S i v \<longleftrightarrow> mr_reservationId v = i \<and> 0 < mr_amountMinor v \<and>
     0 \<le> mr_releasedMinor v \<and> mr_releasedMinor v \<le> mr_amountMinor v \<and>
     mr_releasedMinor v = releasedSum S i \<and>
     (\<exists>m. jmGet (ms_mandates S) (mr_mandateId v) = Some m \<and> mr_amountMinor v \<le> md_perActionLimitMinor m \<and>
        mr_subjectId v = JStr (md_subjectId m))"

definition mandates_ok :: "string set \<Rightarrow> mandate_state \<Rightarrow> bool" where
  "mandates_ok I S \<longleftrightarrow> fst ` set (ms_mandates S) \<subseteq> I \<and>
     distinct (map fst (ms_reservations S)) \<and> distinct (map fst (ms_releases S)) \<and>
     (\<forall>l\<in>set (jmValues (ms_releases S)). ml_reservationId l \<in> fst ` set (ms_reservations S)) \<and>
     (\<forall>key i. jmGet (ms_idsByPrincipalNonce S) key = Some i \<longrightarrow> i \<in> fst ` set (ms_mandates S)) \<and>
     (\<forall>k m. jmGet (ms_mandates S) k = Some m \<longrightarrow> mandate_ok S k m) \<and>
     (\<forall>i v. jmGet (ms_reservations S) i = Some v \<longrightarrow> reservation_ok S i v)"

definition mandate_inv :: "'z mandate_world_scheme \<Rightarrow> bool" where
  "mandate_inv s \<longleftrightarrow> uuid_unique (rt s) \<and> mandates_ok (issued s ''mandate'') (mandateState s)"

lemma mandates_ok_mono: "mandates_ok I S \<Longrightarrow> I \<subseteq> J \<Longrightarrow> mandates_ok J S"
  by (auto simp: mandates_ok_def)

lemma mandates_okD:
  "mandates_ok I S \<Longrightarrow> jmGet (ms_mandates S) k = Some m \<Longrightarrow> mandate_ok S k m"
  "mandates_ok I S \<Longrightarrow> jmGet (ms_reservations S) i = Some v \<Longrightarrow> reservation_ok S i v"
  by (auto simp: mandates_ok_def)

lemma mandate_invD:
  "mandate_inv s \<Longrightarrow> jmGet (ms_mandates (mandateState s)) k = Some m \<Longrightarrow> mandate_ok (mandateState s) k m"
  "mandate_inv s \<Longrightarrow> jmGet (ms_reservations (mandateState s)) i = Some v \<Longrightarrow> reservation_ok (mandateState s) i v"
  by (auto simp: mandate_inv_def dest: mandates_okD)

lemma sums_frame [simp]:
  "heldSum (ms_mandates_update f S) k = heldSum S k" "releasedSum (ms_mandates_update f S) i = releasedSum S i"
  "heldSum (ms_idsByPrincipalNonce_update g S) k = heldSum S k"
  "releasedSum (ms_idsByPrincipalNonce_update g S) i = releasedSum S i"
  "heldSum (ms_releases_update h S) k = heldSum S k" "releasedSum (ms_reservations_update j S) i = releasedSum S i"
  by (simp_all add: heldSum_def releasedSum_def)

text \<open>The terms of a mandate: everything but its status, its utilisation and the time of the last change.\<close>

definition mandate_terms :: "mandate \<Rightarrow> mandate" where
  "mandate_terms m = m\<lparr>md_utilizedMinor := 0, md_status := Mandate_DRAFT, md_updatedAt := 0\<rparr>"

lemma mandate_terms_eqD:
  assumes "mandate_terms m = mandate_terms m'"
  shows "md_mandateId m = md_mandateId m'" "md_mandateHash m = md_mandateHash m'" "md_principalId m = md_principalId m'"
    "md_subjectId m = md_subjectId m'" "md_capabilities m = md_capabilities m'"
    "md_allowedProviderIds m = md_allowedProviderIds m'" "md_allowedCategories m = md_allowedCategories m'"
    "md_assetIds m = md_assetIds m'" "md_perActionLimitMinor m = md_perActionLimitMinor m'"
    "md_aggregateLimitMinor m = md_aggregateLimitMinor m'" "md_validFrom m = md_validFrom m'"
    "md_expiresAt m = md_expiresAt m'" "md_nonce m = md_nonce m'"
  using assms by (cases m; cases m'; simp add: mandate_terms_def)+

lemma mandate_terms_update [simp]:
  "mandate_terms (md_status_update f m) = mandate_terms m"
  "mandate_terms (md_updatedAt_update g m) = mandate_terms m"
  "mandate_terms (md_utilizedMinor_update h m) = mandate_terms m"
  by (simp_all add: mandate_terms_def)

text \<open>One mandate changes, its terms stay, and its utilisation follows the reservations.\<close>

lemma reservation_ok_modify:
  assumes "reservation_ok S i v" and "jmGet (ms_mandates S) k = Some m" and "mandate_terms (f m) = mandate_terms m"
  shows "reservation_ok (ms_mandates_update (jmModify k f) S) i v"
  using assms mandate_terms_eqD [OF assms(3)] by (auto simp: reservation_ok_def)

lemma mandates_ok_status:
  assumes ok: "mandates_ok I S" and m: "jmGet (ms_mandates S) k = Some m"
    and f: "mandate_terms (f m) = mandate_terms m" "md_utilizedMinor (f m) = md_utilizedMinor m"
  shows "mandates_ok I (ms_mandates_update (jmModify k f) S)"
proof -
  have "mandate_ok (ms_mandates_update (jmModify k f) S) k (f m)"
    using mandates_okD(1) [OF ok m] f mandate_terms_eqD [OF f(1)] by (simp add: mandate_ok_def)
  moreover have "mandate_ok (ms_mandates_update (jmModify k f) S) k' m' = mandate_ok S k' m'" for k' m'
    by (simp add: mandate_ok_def)
  ultimately show ?thesis
    using ok m reservation_ok_modify [where f = f, OF _ m f(1)] unfolding mandates_ok_def by auto
qed

lemma sum_list_zero: "(\<And>x. x \<in> set xs \<Longrightarrow> f x = (0::int)) \<Longrightarrow> sum_list (map f xs) = 0"
  by (induction xs) auto

lemma releasedSum_unknown:
  assumes "mandates_ok I S" and "jmGet (ms_reservations S) i = None"
  shows "releasedSum S i = 0"
  unfolding releasedSum_def
proof (rule sum_list_zero)
  fix l assume "l \<in> set (jmValues (ms_releases S))"
  then have "ml_reservationId l \<in> fst ` set (ms_reservations S)" using assms(1) by (simp add: mandates_ok_def)
  then show "returned i l = 0" using assms(2) by (auto simp: returned_def map_of_eq_None_iff)
qed

text \<open>The two movements of a budget, as state transformers.\<close>

definition reserveIn :: "string \<Rightarrow> mandate_reservation \<Rightarrow> int \<Rightarrow> mandate_state \<Rightarrow> mandate_state" where
  "reserveIn i v now S = ms_reservations_update (jmSet i v) (ms_mandates_update
     (jmModify (mr_mandateId v) (\<lambda>m. m\<lparr>md_utilizedMinor := md_utilizedMinor m + mr_amountMinor v, md_updatedAt := now\<rparr>)) S)"

definition releaseIn :: "string \<Rightarrow> mandate_release \<Rightarrow> int \<Rightarrow> mandate_state \<Rightarrow> mandate_state" where
  "releaseIn i l now S = ms_releases_update (jmSet i l) (ms_mandates_update
     (jmModify (ml_mandateId l) (\<lambda>m. m\<lparr>md_utilizedMinor := md_utilizedMinor m - ml_amountMinor l, md_updatedAt := now\<rparr>))
     (ms_reservations_update
       (jmModify (ml_reservationId l) (\<lambda>v. v\<lparr>mr_releasedMinor := mr_releasedMinor v + ml_amountMinor l\<rparr>)) S))"

lemma heldSum_reserveIn:
  assumes "distinct (map fst (ms_reservations S))" and "jmGet (ms_reservations S) i = None"
  shows "heldSum (reserveIn i v now S) k = heldSum S k + held k v"
  using sum_list_jmSet [OF assms(1), of "held k" i v] assms(2) by (simp add: heldSum_def reserveIn_def)

lemma heldSum_releaseIn:
  assumes "distinct (map fst (ms_reservations S))" and "jmGet (ms_reservations S) (ml_reservationId l) = Some v"
  shows "heldSum (releaseIn i l now S) k = heldSum S k - (if mr_mandateId v = k then ml_amountMinor l else 0)"
  using sum_list_jmSet [OF assms(1), of "held k" "ml_reservationId l"] assms(2)
  by (simp add: heldSum_def releaseIn_def jmModify_at held_def)

lemma releasedSum_releaseIn:
  assumes "distinct (map fst (ms_releases S))" and "jmGet (ms_releases S) i = None"
  shows "releasedSum (releaseIn i l now S) r = releasedSum S r + returned r l"
  using sum_list_jmSet [OF assms(1), of "returned r" i l] assms(2) by (simp add: releasedSum_def releaseIn_def)

lemma releasedSum_reserveIn [simp]: "releasedSum (reserveIn i v now S) r = releasedSum S r"
  by (simp add: reserveIn_def)

lemma mandates_ok_reserve:
  assumes ok: "mandates_ok I S" and fresh: "jmGet (ms_reservations S) i = None"
    and m: "jmGet (ms_mandates S) (mr_mandateId v) = Some m"
    and v: "mr_reservationId v = i" "mr_releasedMinor v = 0" "mr_subjectId v = JStr (md_subjectId m)"
    and amount: "0 < mr_amountMinor v" "mr_amountMinor v \<le> md_perActionLimitMinor m"
      "mr_amountMinor v + md_utilizedMinor m \<le> md_aggregateLimitMinor m"
  shows "mandates_ok I (reserveIn i v now S)"
proof -
  let ?S = "reserveIn i v now S"
  let ?f = "\<lambda>m. m\<lparr>md_utilizedMinor := md_utilizedMinor m + mr_amountMinor v, md_updatedAt := now\<rparr>"
  have dist: "distinct (map fst (ms_reservations S))" using ok by (simp add: mandates_ok_def)
  have sum: "heldSum ?S k = heldSum S k + (if k = mr_mandateId v then mr_amountMinor v else 0)" for k
    using heldSum_reserveIn [OF dist fresh, of v now k] v(2) by (simp add: held_def)
  have idx: "ms_idsByPrincipalNonce ?S = ms_idsByPrincipalNonce S" by (simp add: reserveIn_def)
  have self: "mandate_ok ?S (mr_mandateId v) (?f m)"
    using mandates_okD(1) [OF ok m] amount by (simp add: mandate_ok_def sum idx)
  have other: "mandate_ok ?S k' m'" if "jmGet (ms_mandates S) k' = Some m'" "k' \<noteq> mr_mandateId v" for k' m'
    using mandates_okD(1) [OF ok that(1)] that(2) by (simp add: mandate_ok_def sum idx)
  have new: "reservation_ok ?S i v"
    using v amount m releasedSum_unknown [OF ok fresh] by (auto simp: reservation_ok_def reserveIn_def)
  have old: "reservation_ok ?S i' v'" if "jmGet (ms_reservations S) i' = Some v'" for i' v'
    using reservation_ok_modify [OF mandates_okD(2) [OF ok that] m, of ?f]
    by (simp add: reservation_ok_def reserveIn_def)
  have dist': "distinct (map fst (ms_reservations ?S))" using dist by (simp add: reserveIn_def distinct_jmSet)
  show ?thesis
    using ok m self other new old dist' unfolding mandates_ok_def
    by (auto simp: reserveIn_def dom_update split: if_splits)
qed

lemma mandates_ok_release:
  assumes ok: "mandates_ok I S" and fresh: "jmGet (ms_releases S) i = None"
    and v: "jmGet (ms_reservations S) (ml_reservationId l) = Some v" "mr_mandateId v = ml_mandateId l"
    and m: "jmGet (ms_mandates S) (ml_mandateId l) = Some m"
    and amount: "0 < ml_amountMinor l" "ml_amountMinor l \<le> mr_amountMinor v - mr_releasedMinor v"
      "ml_amountMinor l \<le> md_utilizedMinor m"
  shows "mandates_ok I (releaseIn i l now S)"
proof -
  let ?S = "releaseIn i l now S"
  let ?f = "\<lambda>m. m\<lparr>md_utilizedMinor := md_utilizedMinor m - ml_amountMinor l, md_updatedAt := now\<rparr>"
  have dist: "distinct (map fst (ms_reservations S))" "distinct (map fst (ms_releases S))"
    using ok by (simp_all add: mandates_ok_def)
  have sum: "heldSum ?S k = heldSum S k - (if k = ml_mandateId l then ml_amountMinor l else 0)" for k
    using heldSum_releaseIn [OF dist(1) v(1), of i now k] v(2) by auto
  have rel: "releasedSum ?S r = releasedSum S r + (if r = ml_reservationId l then ml_amountMinor l else 0)" for r
    using releasedSum_releaseIn [OF dist(2) fresh, of l now r] by (auto simp: returned_def)
  have idx: "ms_idsByPrincipalNonce ?S = ms_idsByPrincipalNonce S" by (simp add: releaseIn_def)
  have mg: "ms_mandates ?S = jmModify (ml_mandateId l) ?f (ms_mandates S)" by (simp add: releaseIn_def)
  have rg: "ms_reservations ?S = jmModify (ml_reservationId l)
      (\<lambda>v. v\<lparr>mr_releasedMinor := mr_releasedMinor v + ml_amountMinor l\<rparr>) (ms_reservations S)" by (simp add: releaseIn_def)
  have self: "mandate_ok ?S (ml_mandateId l) (?f m)"
    using mandates_okD(1) [OF ok m] amount by (simp add: mandate_ok_def sum idx)
  have other: "mandate_ok ?S k' m'" if "jmGet (ms_mandates S) k' = Some m'" "k' \<noteq> ml_mandateId l" for k' m'
    using mandates_okD(1) [OF ok that(1)] that(2) by (simp add: mandate_ok_def sum idx)
  have res: "reservation_ok ?S i' (if i' = ml_reservationId l then v'\<lparr>mr_releasedMinor := mr_releasedMinor v' + ml_amountMinor l\<rparr> else v')"
    if "jmGet (ms_reservations S) i' = Some v'" for i' v'
    using reservation_ok_modify [OF mandates_okD(2) [OF ok that] m, of ?f] that v amount
    by (auto simp: reservation_ok_def rel mg)
  have dist': "distinct (map fst (ms_reservations ?S))" "distinct (map fst (ms_releases ?S))"
    using dist by (simp_all add: releaseIn_def distinct_jmSet distinct_jmModify)
  have rels: "\<forall>l'\<in>set (jmValues (ms_releases ?S)). ml_reservationId l' \<in> fst ` set (ms_reservations ?S)"
    using ok fresh jmGet_mem [OF v(1)]
    by (auto simp: mandates_ok_def releaseIn_def jmSet_fresh map_of_eq_None_iff jmValues_def)
  have mans: "jmGet (ms_mandates ?S) k' = Some m' \<Longrightarrow> mandate_ok ?S k' m'" for k' m'
    using self other m by (auto simp: releaseIn_def split: if_splits)
  have ress: "jmGet (ms_reservations ?S) i' = Some v' \<Longrightarrow> reservation_ok ?S i' v'" for i' v'
    using res [OF v(1)] res [of i' v'] v(1) by (auto simp: rg split: if_splits)
  show ?thesis
    using ok mans ress dist' rels unfolding mandates_ok_def idx by (simp add: releaseIn_def)
qed

definition addMandate :: "mandate \<Rightarrow> mandate_state \<Rightarrow> mandate_state" where
  "addMandate m S = ms_idsByPrincipalNonce_update
     (jmSet (mandateNonceKey (md_principalId m) (md_nonce m)) (md_mandateId m))
     (ms_mandates_update (jmSet (md_mandateId m) m) S)"

lemma reservation_known:
  assumes "mandates_ok I S" and "v \<in> set (jmValues (ms_reservations S))"
  shows "mr_mandateId v \<in> I"
proof -
  have "distinct (map fst (ms_reservations S))" and sub: "fst ` set (ms_mandates S) \<subseteq> I"
    using assms(1) by (simp_all add: mandates_ok_def)
  then obtain i where "jmGet (ms_reservations S) i = Some v" using jmValues_jmGet [OF assms(2)] by metis
  from mandates_okD(2) [OF assms(1) this] obtain m where "jmGet (ms_mandates S) (mr_mandateId v) = Some m"
    unfolding reservation_ok_def by blast
  from jmGet_mem [OF this] sub show ?thesis by (rule rev_subsetD)
qed

lemma heldSum_unknown: "mandates_ok I S \<Longrightarrow> k \<notin> I \<Longrightarrow> heldSum S k = 0"
  unfolding heldSum_def by (rule sum_list_zero) (auto simp: held_def dest: reservation_known)

lemma mandates_ok_add:
  assumes ok: "mandates_ok I S" and new: "md_mandateId m \<notin> I"
    and nonce: "jmGet (ms_idsByPrincipalNonce S) (mandateNonceKey (md_principalId m) (md_nonce m)) = None"
    and m: "0 < md_perActionLimitMinor m" "md_perActionLimitMinor m \<le> md_aggregateLimitMinor m"
      "md_validFrom m < md_expiresAt m" "md_utilizedMinor m = 0"
  shows "mandates_ok (insert (md_mandateId m) I) (addMandate m S)"
proof -
  let ?S = "addMandate m S"
  have unknown: "jmGet (ms_mandates S) (md_mandateId m) = None"
    using ok new by (auto simp: mandates_ok_def map_of_eq_None_iff)
  have sums: "heldSum ?S k = heldSum S k" "releasedSum ?S i = releasedSum S i" for k i
    by (simp_all add: addMandate_def)
  have self: "mandate_ok ?S (md_mandateId m) m"
    using m heldSum_unknown [OF ok new] by (simp add: mandate_ok_def sums) (simp add: addMandate_def)
  have other: "mandate_ok ?S k m'" if "jmGet (ms_mandates S) k = Some m'" for k m'
    using mandates_okD(1) [OF ok that] nonce by (auto simp: mandate_ok_def sums) (auto simp: addMandate_def)
  have res: "reservation_ok ?S i v" if "jmGet (ms_reservations S) i = Some v" for i v
    using mandates_okD(2) [OF ok that] unknown by (auto simp: reservation_ok_def sums) (auto simp: addMandate_def)
  show ?thesis
    using ok self other res unfolding mandates_ok_def by (auto simp: addMandate_def dom_update split: if_splits)
qed

subsection \<open>Frames and history\<close>

definition mandate_frame :: "'z mandate_world_scheme \<Rightarrow> 'z mandate_world_scheme \<Rightarrow> bool" where
  "mandate_frame s t \<longleftrightarrow> mandate_world.more t = mandate_world.more s \<and> rt t = rt s \<and>
     uuidCount s \<le> uuidCount t \<and> ledger t = ledger s \<and> lockboxes t = lockboxes s \<and>
     obligationState t = obligationState s"

lemma mandate_frame_refl [simp]: "mandate_frame s s"
  by (simp add: mandate_frame_def)

lemma mandate_frame_trans: "mandate_frame s t \<Longrightarrow> mandate_frame t u \<Longrightarrow> mandate_frame s u"
  by (auto simp: mandate_frame_def)

lemma mandate_frame_issued: "mandate_frame s t \<Longrightarrow> issued s p \<subseteq> issued t p"
  by (rule issued_mono) (auto simp: mandate_frame_def)

lemma obligation_frame_mandates: "obligation_frame s t \<Longrightarrow> mandateState t = mandateState s"
  by (cases s, cases t) (simp add: obligation_frame_def)

lemma obligation_frame_mandate_more: "obligation_frame s t \<Longrightarrow> mandate_world.more t = mandate_world.more s"
  by (cases s, cases t) (simp add: obligation_frame_def)

lemma log_ext_mandates: "log_ext s t \<Longrightarrow> mandateState t = mandateState s"
  by (rule obligation_frame_mandates [OF log_obligation_frame])

lemma log_mandate_frame: "log_ext s t \<Longrightarrow> mandate_frame s t"
  using obligation_frame_mandate_more [OF log_obligation_frame, of s t]
  by (simp add: mandate_frame_def log_ext_ledger log_ext_lockboxes log_ext_obligations log_ext_rt log_ext_uuid)

lemma mandate_frame_state [simp]: "mandate_frame s (mandateState_update f s)"
  by (simp add: mandate_frame_def)

lemma mandate_frame_log: "mandate_frame s t \<Longrightarrow> log_ext t u \<Longrightarrow> mandate_frame s u"
  by (rule mandate_frame_trans [OF _ log_mandate_frame])

text \<open>
  How a stored mandate and a stored reservation may change over a run: a mandate keeps its terms and its status
  follows the transition table; a reservation keeps everything but what has been released of it, which only grows.
\<close>

definition mandate_moves :: "mandate \<Rightarrow> mandate \<Rightarrow> bool" where
  "mandate_moves m m' \<longleftrightarrow> mandate_terms m' = mandate_terms m \<and> evolves MandateTransitions (md_status m) (md_status m')"

definition reservation_moves :: "mandate_reservation \<Rightarrow> mandate_reservation \<Rightarrow> bool" where
  "reservation_moves v v' \<longleftrightarrow> v'\<lparr>mr_releasedMinor := 0\<rparr> = v\<lparr>mr_releasedMinor := 0\<rparr> \<and> mr_releasedMinor v \<le> mr_releasedMinor v'"

definition mandates_evolve :: "mandate_state \<Rightarrow> mandate_state \<Rightarrow> bool" where
  "mandates_evolve S S' \<longleftrightarrow>
     (\<forall>k m. jmGet (ms_mandates S) k = Some m \<longrightarrow> (\<exists>m'. jmGet (ms_mandates S') k = Some m' \<and> mandate_moves m m')) \<and>
     (\<forall>i v. jmGet (ms_reservations S) i = Some v \<longrightarrow>
        (\<exists>v'. jmGet (ms_reservations S') i = Some v' \<and> reservation_moves v v'))"

lemma mandate_moves_refl [simp]: "mandate_moves m m"
  by (simp add: mandate_moves_def)

lemma reservation_moves_refl [simp]: "reservation_moves v v"
  by (simp add: reservation_moves_def)

lemma mandate_moves_trans: "mandate_moves a b \<Longrightarrow> mandate_moves b c \<Longrightarrow> mandate_moves a c"
  by (auto simp: mandate_moves_def intro: rtranclp_trans)

lemma reservation_moves_trans: "reservation_moves a b \<Longrightarrow> reservation_moves b c \<Longrightarrow> reservation_moves a c"
  by (auto simp: reservation_moves_def)

lemma mandates_evolve_refl [simp]: "mandates_evolve S S"
  by (simp add: mandates_evolve_def)

lemma mandates_evolve_trans: "mandates_evolve A B \<Longrightarrow> mandates_evolve B C \<Longrightarrow> mandates_evolve A C"
  unfolding mandates_evolve_def by (meson mandate_moves_trans reservation_moves_trans)

definition mandate_since :: "mandate_state \<Rightarrow> 'z mandate_world_scheme \<Rightarrow> bool" where
  "mandate_since S s \<longleftrightarrow> mandate_inv s \<and> mandates_evolve S (mandateState s)"

lemma mandate_inv_issue:
  assumes "mandate_inv s" and "mandate_frame s t" and "mandates_ok (issued s ''mandate'') (mandateState t)"
  shows "mandate_inv t"
  using assms mandates_ok_mono [OF assms(3) mandate_frame_issued [OF assms(2)]]
  by (simp add: mandate_inv_def mandate_frame_def)

lemma mandate_inv_log: "mandate_inv s \<Longrightarrow> log_ext s t \<Longrightarrow> mandate_inv t"
  by (rule mandate_inv_issue) (auto simp: log_mandate_frame mandate_inv_def log_ext_mandates)

lemma mandate_since_step:
  "mandate_since S s \<Longrightarrow> mandate_inv t \<Longrightarrow> mandates_evolve (mandateState s) (mandateState t) \<Longrightarrow> mandate_since S t"
  by (auto simp: mandate_since_def intro: mandates_evolve_trans)

lemma mandate_since_log: "mandate_since S s \<Longrightarrow> log_ext s t \<Longrightarrow> mandate_since S t"
  by (auto simp: mandate_since_def log_ext_mandates intro: mandate_inv_log)

text \<open>The three kinds of change, each as a relation between states.\<close>

definition status_changed :: "'z mandate_world_scheme \<Rightarrow> 'z mandate_world_scheme \<Rightarrow> bool" where
  "status_changed s t \<longleftrightarrow> mandate_frame s t \<and> (\<exists>k m st now.
     jmGet (ms_mandates (mandateState s)) k = Some m \<and> st \<in> set (MandateTransitions (md_status m)) \<and>
     mandateState t = ms_mandates_update (jmModify k (\<lambda>m. m\<lparr>md_status := st, md_updatedAt := now\<rparr>)) (mandateState s))"

definition mandate_kept :: "'z mandate_world_scheme \<Rightarrow> 'z mandate_world_scheme \<Rightarrow> bool" where
  "mandate_kept s t \<longleftrightarrow> mandate_frame s t \<and> mandateState t = mandateState s"

definition reserved :: "string \<Rightarrow> mandate_reservation \<Rightarrow> int \<Rightarrow> mandate \<Rightarrow> 'z mandate_world_scheme \<Rightarrow> 'z mandate_world_scheme \<Rightarrow> bool" where
  "reserved i v now m s t \<longleftrightarrow> mandate_frame s t \<and> jmGet (ms_reservations (mandateState s)) i = None \<and>
     jmGet (ms_mandates (mandateState s)) (mr_mandateId v) = Some m \<and> md_status m = Mandate_ACTIVE \<and>
     mr_reservationId v = i \<and> mr_releasedMinor v = 0 \<and> mr_subjectId v = JStr (md_subjectId m) \<and>
     0 < mr_amountMinor v \<and> mr_amountMinor v \<le> md_perActionLimitMinor m \<and>
     mr_amountMinor v + md_utilizedMinor m \<le> md_aggregateLimitMinor m \<and>
     mandateState t = reserveIn i v now (mandateState s)"

definition released :: "string \<Rightarrow> mandate_release \<Rightarrow> int \<Rightarrow> mandate \<Rightarrow> mandate_reservation \<Rightarrow> 'z mandate_world_scheme \<Rightarrow> 'z mandate_world_scheme \<Rightarrow> bool" where
  "released i l now m v s t \<longleftrightarrow> mandate_frame s t \<and> jmGet (ms_releases (mandateState s)) i = None \<and>
     jmGet (ms_mandates (mandateState s)) (ml_mandateId l) = Some m \<and>
     jmGet (ms_reservations (mandateState s)) (ml_reservationId l) = Some v \<and> mr_mandateId v = ml_mandateId l \<and>
     0 < ml_amountMinor l \<and> ml_amountMinor l \<le> mr_amountMinor v - mr_releasedMinor v \<and>
     ml_amountMinor l \<le> md_utilizedMinor m \<and> mandateState t = releaseIn i l now (mandateState s)"

lemma kept_log: "mandate_kept s t \<Longrightarrow> log_ext t u \<Longrightarrow> mandate_kept s u"
  by (auto simp: mandate_kept_def log_ext_mandates intro: mandate_frame_log)

lemma log_kept: "log_ext s t \<Longrightarrow> mandate_kept s t"
  by (simp add: mandate_kept_def log_mandate_frame log_ext_mandates)

lemma status_log: "status_changed s t \<Longrightarrow> log_ext t u \<Longrightarrow> status_changed s u"
  unfolding status_changed_def log_ext_mandates by (metis log_ext_mandates mandate_frame_log)

lemma reserved_log: "reserved i v now m s t \<Longrightarrow> log_ext t u \<Longrightarrow> reserved i v now m s u"
  by (auto simp: reserved_def log_ext_mandates intro: mandate_frame_log)

lemma released_log: "released i l now m v s t \<Longrightarrow> log_ext t u \<Longrightarrow> released i l now m v s u"
  by (auto simp: released_def log_ext_mandates intro: mandate_frame_log)

lemma since_kept: "mandate_since S s \<Longrightarrow> mandate_kept s t \<Longrightarrow> mandate_since S t"
  by (rule mandate_since_step, assumption, rule mandate_inv_issue)
    (auto simp: mandate_kept_def mandate_since_def mandate_inv_def)

lemma since_status: "mandate_since S s \<Longrightarrow> status_changed s t \<Longrightarrow> mandate_since S t"
  by (rule mandate_since_step, assumption, rule mandate_inv_issue)
    (auto simp: status_changed_def mandate_since_def mandate_inv_def mandates_evolve_def mandate_moves_def moves_def
      intro!: mandates_ok_status evolvesI)

lemma since_reserved:
  assumes since: "mandate_since S s" and res: "reserved i v now m s t"
  shows "mandate_since S t"
proof (rule mandate_since_step [OF since], rule mandate_inv_issue)
  show "mandate_inv s" using since by (simp add: mandate_since_def)
  then show "mandates_ok (issued s ''mandate'') (mandateState t)"
    using res mandates_ok_reserve by (auto simp: reserved_def mandate_inv_def)
  show "mandates_evolve (mandateState s) (mandateState t)"
    using res by (auto simp: reserved_def mandates_evolve_def reserveIn_def mandate_moves_def)
qed (use res in \<open>simp add: reserved_def\<close>)

lemma since_released:
  assumes since: "mandate_since S s" and rel: "released i l now m v s t"
  shows "mandate_since S t"
proof (rule mandate_since_step [OF since], rule mandate_inv_issue)
  show "mandate_inv s" using since by (simp add: mandate_since_def)
  then show "mandates_ok (issued s ''mandate'') (mandateState t)"
    using rel mandates_ok_release by (auto simp: released_def mandate_inv_def)
  show "mandates_evolve (mandateState s) (mandateState t)"
    using rel by (auto simp: released_def mandates_evolve_def releaseIn_def mandate_moves_def reservation_moves_def)
qed (use rel in \<open>simp add: released_def\<close>)

subsection \<open>What each operation does\<close>

lemma wp_requireMandate [wp_simps]:
  "wp (MandateService_requireMandate k) Q E = (\<lambda>s. case jmGet (ms_mandates (mandateState s)) k of
     None \<Rightarrow> E (DomainError ''mandate_not_found'' ''mandate not found'') s | Some m \<Rightarrow> Q m s)"
  by (rule ext) (simp add: MandateService_requireMandate_def wp_simps split: option.split)

text \<open>The events of a status change, after which the mandate is read back.\<close>

lemma wp_statusEvents:
  assumes at: "jmGet (ms_mandates (mandateState u)) k = Some m"
    and Q: "\<And>t. log_ext u t \<Longrightarrow> Q m t" and E: "\<And>e t. log_ext u t \<Longrightarrow> E e t"
  shows "wp (thenM (emitCreditEvent a) (thenM (emitAuditEvent b c d e r p n) (MandateService_requireMandate k))) Q E u"
  unfolding wp_thenM
proof (rule wp_emitI)
  fix t assume ut: "log_ext u t"
  show "wp (emitAuditEvent b c d e r p n) (\<lambda>_. wp (MandateService_requireMandate k) Q E) E t"
  proof (rule wp_emitAuditI)
    fix t' assume "log_ext t t'"
    with ut have "log_ext u t'" by (rule log_ext_trans)
    then show "wp (MandateService_requireMandate k) Q E t'" using at Q by (simp add: wp_simps log_ext_mandates)
  qed (use ut E log_ext_trans in metis)
qed (rule E)

lemma wp_setStatus:
  assumes Q: "\<And>t m. t = s \<or> status_changed s t \<Longrightarrow> jmGet (ms_mandates (mandateState t)) k = Some m \<Longrightarrow> md_status m = st \<Longrightarrow> Q m t"
    and E: "\<And>e t. t = s \<or> status_changed s t \<Longrightarrow> E e t"
  shows "wp (MandateService_setStatus k st actor reason now) Q E s"
proof (cases "jmGet (ms_mandates (mandateState s)) k")
  case None
  then show ?thesis by (simp add: MandateService_setStatus_def wp_simps E)
next
  case m: (Some m)
  let ?u = "mandateState_update (ms_mandates_update (jmModify k (\<lambda>m. m\<lparr>md_status := st, md_updatedAt := now\<rparr>))) s"
  have at: "jmGet (ms_mandates (mandateState ?u)) k = Some (m\<lparr>md_status := st, md_updatedAt := now\<rparr>)" using m by simp
  have changed: "status_changed s t" if "log_ext ?u t" "st \<in> set (MandateTransitions (md_status m))" for t
    using that m log_ext_mandates [OF that(1)] mandate_frame_log [OF mandate_frame_state that(1)]
    unfolding status_changed_def by auto
  have after: "Q (m\<lparr>md_status := st, md_updatedAt := now\<rparr>) t" if "log_ext ?u t" "st \<in> set (MandateTransitions (md_status m))" for t
    using changed [OF that] at log_ext_mandates [OF that(1)] by (intro Q) auto
  have tail: "wp (thenM (emitCreditEvent a) (thenM (emitAuditEvent b c d e r p n) (MandateService_requireMandate k))) Q E ?u"
    if "st \<in> set (MandateTransitions (md_status m))" for a b c d e r p n
    using at by (rule wp_statusEvents) (use that changed after E in auto)
  show ?thesis
    unfolding MandateService_setStatus_def updateMandate_def Let_def wp_bindM wp_thenM [where m = "liftR _"]
      wp_thenM [where m = "modifyM _"] wp_liftR wp_modifyM wp_requireMandate wp_if wp_returnM
    by (simp add: m tail E Q case_assertTransition split: sum.split)
qed

definition nowValue :: "'z host_scheme \<Rightarrow> int option \<Rightarrow> int" where
  "nowValue s now = (case now of None \<Rightarrow> rt_clock (rt s) (clockCount s) | Some t \<Rightarrow> t)"

text \<open>What a mandate permits: the specification of \<open>assertAuthorized\<close>.\<close>

definition authorizes :: "authorization_args \<Rightarrow> int \<Rightarrow> mandate \<Rightarrow> bool" where
  "authorizes a now m \<longleftrightarrow> md_status m = Mandate_ACTIVE \<and> md_validFrom m \<le> now \<and> now < md_expiresAt m \<and>
     assertNonEmptyString ''subjectId'' (au_subjectId a) = Inr (md_subjectId m) \<and>
     (\<exists>asset\<in>set (md_assetIds m). assertNonEmptyString ''assetId'' (au_assetId a) = Inr asset) \<and>
     (\<exists>c\<in>set (md_capabilities m). assertEnumValue ''capability'' (au_capability a) MandateCapability_values = Inr c \<and>
        (c = Cap_PROVIDER_SPEND \<longrightarrow>
          (\<exists>p\<in>set (md_allowedProviderIds m). assertNonEmptyString ''providerId'' (au_providerId a) = Inr p) \<and>
          (\<exists>g\<in>set (md_allowedCategories m). assertNonEmptyString ''category'' (au_category a) = Inr g))) \<and>
     (au_amountMinor a \<noteq> JUndefined \<longrightarrow> (\<exists>amount. assertPositiveMinorUnits amountMinorName (au_amountMinor a) = Inr amount \<and>
        amount \<le> md_perActionLimitMinor m \<and>
        (au_enforceAggregateLimit a \<longrightarrow> amount + md_utilizedMinor m \<le> md_aggregateLimitMinor m)))"

lemma checkScope_Inr:
  "checkScope m c p g = Inr () \<longleftrightarrow> (c = Cap_PROVIDER_SPEND \<longrightarrow>
     (\<exists>x\<in>set (md_allowedProviderIds m). assertNonEmptyString ''providerId'' p = Inr x) \<and>
     (\<exists>x\<in>set (md_allowedCategories m). assertNonEmptyString ''category'' g = Inr x))"
  by (auto simp: checkScope_def bindR_Inr)

lemma checkAmount_Inr:
  "checkAmount m v enforce = Inr () \<longleftrightarrow> (v \<noteq> JUndefined \<longrightarrow>
     (\<exists>amount. assertPositiveMinorUnits amountMinorName v = Inr amount \<and> amount \<le> md_perActionLimitMinor m \<and>
        (enforce \<longrightarrow> amount + md_utilizedMinor m \<le> md_aggregateLimitMinor m)))"
  by (auto simp: checkAmount_def bindR_Inr not_less)

lemma checkMandate_Inr:
  assumes "assertNonEmptyString ''subjectId'' (au_subjectId a) = Inr subjectId"
    and "assertEnumValue ''capability'' (au_capability a) MandateCapability_values = Inr capability"
    and "assertNonEmptyString ''assetId'' (au_assetId a) = Inr assetId"
    and "now < md_expiresAt m"
  shows "checkMandate m a now subjectId capability assetId = Inr () \<longleftrightarrow> authorizes a now m"
  using assms by (auto simp: checkMandate_def bindR_Inr checkScope_Inr checkAmount_Inr authorizes_def not_less)

definition nowState :: "int option \<Rightarrow> 'z host_scheme \<Rightarrow> 'z host_scheme" where
  "nowState now s = (case now of None \<Rightarrow> s\<lparr>clockCount := Suc (clockCount s)\<rparr> | Some t \<Rightarrow> s)"

lemma wp_nowOr_eq: "wp (nowOr now) Q E s = Q (nowValue s now) (nowState now s)"
  by (cases now) (simp_all add: wp_simps nowValue_def nowState_def)

lemma log_nowState [simp]: "log_ext s (nowState now s)"
  by (cases now) (simp_all add: nowState_def)

lemma nowState_mandates [simp]: "mandateState (nowState now s) = mandateState s"
  by (rule log_ext_mandates) simp

text \<open>\<open>assertAuthorized\<close> after its arguments have been read: an expired mandate is marked, any other is checked.\<close>

lemma wp_authorizeFound:
  assumes m: "jmGet (ms_mandates (mandateState s)) k = Some m"
    and args: "assertNonEmptyString ''subjectId'' (au_subjectId a) = Inr subjectId"
      "assertEnumValue ''capability'' (au_capability a) MandateCapability_values = Inr capability"
      "assertNonEmptyString ''assetId'' (au_assetId a) = Inr assetId"
    and Q: "authorizes a now m \<Longrightarrow> Q m s"
    and E: "\<And>e t. t = s \<or> status_changed s t \<Longrightarrow> \<not> authorizes a now m \<Longrightarrow> E e t"
  shows "wp (thenM (whenM (now \<ge> md_expiresAt m \<and> md_status m \<notin> {Mandate_EXPIRED, Mandate_REVOKED})
       (thenM (MandateService_setStatus k Mandate_EXPIRED (JStr ''system'') (JStr ''validity_window_elapsed'') now) (returnM ())))
     (bindM (MandateService_requireMandate k) (\<lambda>mandate.
     thenM (liftR (checkMandate mandate a now subjectId capability assetId)) (returnM mandate)))) Q E s"
proof (cases "now < md_expiresAt m")
  case True
  with m Q E checkMandate_Inr [OF args True] show ?thesis
    by (cases "checkMandate m a now subjectId capability assetId") (auto simp: wp_simps not_le)
next
  case False
  then have no: "\<not> authorizes a now m" by (simp add: authorizes_def)
  have rejected: "checkMandate m' a now subjectId capability assetId =
      Inl (DomainError ''mandate_not_active'' ''an active mandate is required'')" if "md_status m' \<noteq> Mandate_ACTIVE" for m'
    using that by (simp add: checkMandate_def guardR_def)
  show ?thesis
  proof (cases "md_status m \<in> {Mandate_EXPIRED, Mandate_REVOKED}")
    case True
    then show ?thesis using m E no rejected [of m] by (auto simp: wp_simps)
  next
    case open_: False
    have "wp (MandateService_setStatus k Mandate_EXPIRED (JStr ''system'') (JStr ''validity_window_elapsed'') now)
      (\<lambda>_. wp (bindM (MandateService_requireMandate k) (\<lambda>mandate.
         thenM (liftR (checkMandate mandate a now subjectId capability assetId)) (returnM mandate))) Q E) E s"
      by (rule wp_setStatus) (auto simp: wp_simps rejected no intro: E)
    with False open_ show ?thesis by (simp add: wp_thenM wp_whenM wp_returnM not_less)
  qed
qed

lemma wp_assertAuthorized:
  assumes Q: "\<And>t k m. log_ext s t \<Longrightarrow> assertNonEmptyString ''mandateId'' (au_mandateId a) = Inr k \<Longrightarrow>
      jmGet (ms_mandates (mandateState s)) k = Some m \<Longrightarrow> authorizes a (nowValue s (au_now a)) m \<Longrightarrow> Q m t"
    and E: "\<And>e t. mandate_kept s t \<or> status_changed s t \<Longrightarrow>
      \<not> (\<exists>k m. assertNonEmptyString ''mandateId'' (au_mandateId a) = Inr k \<and>
        jmGet (ms_mandates (mandateState s)) k = Some m \<and> authorizes a (nowValue s (au_now a)) m) \<Longrightarrow> E e t"
  shows "wp (MandateService_assertAuthorized a) Q E s"
proof -
  let ?n = "nowState (au_now a) s" and ?now = "nowValue s (au_now a)"
  have kept: "mandate_kept s ?n" by (rule log_kept) simp
  have after: "status_changed s t" if "status_changed ?n t" for t
    using that mandate_frame_trans [OF log_mandate_frame [OF log_nowState], of "au_now a" s t]
    by (auto simp: status_changed_def)
  show ?thesis
  proof (cases "\<exists>k subj c asset m. assertNonEmptyString ''mandateId'' (au_mandateId a) = Inr k \<and>
      assertNonEmptyString ''subjectId'' (au_subjectId a) = Inr subj \<and>
      assertEnumValue ''capability'' (au_capability a) MandateCapability_values = Inr c \<and>
      assertNonEmptyString ''assetId'' (au_assetId a) = Inr asset \<and> jmGet (ms_mandates (mandateState s)) k = Some m")
    case True
    then obtain k subj c asset m where args: "assertNonEmptyString ''mandateId'' (au_mandateId a) = Inr k"
      "assertNonEmptyString ''subjectId'' (au_subjectId a) = Inr subj"
      "assertEnumValue ''capability'' (au_capability a) MandateCapability_values = Inr c"
      "assertNonEmptyString ''assetId'' (au_assetId a) = Inr asset" and m: "jmGet (ms_mandates (mandateState s)) k = Some m"
      by blast
    have m': "jmGet (ms_mandates (mandateState ?n)) k = Some m" using m by simp
    show ?thesis
      unfolding MandateService_assertAuthorized_def wp_bindM [where m = "nowOr _"] wp_nowOr_eq wp_bindM [where m = "liftR _"]
        wp_liftR wp_bindM [where m = "MandateService_requireMandate _"] wp_requireMandate args sum.case m' option.case
      by (rule wp_authorizeFound [OF m' args(2-4)]) (use Q E kept after args(1) m in auto)
  next
    case False
    have "E e ?n" for e
      by (rule E) (use False kept in \<open>auto simp: authorizes_def\<close>)
    with False show ?thesis
      unfolding MandateService_assertAuthorized_def wp_bindM [where m = "nowOr _"] wp_nowOr_eq wp_bindM [where m = "liftR _"]
        wp_liftR wp_bindM [where m = "MandateService_requireMandate _"] wp_requireMandate
      by (auto split: sum.split option.split)
  qed
qed

lemma toBigInt_checked:
  assumes "assertPositiveMinorUnits n v = Inr i"
  shows "toBigInt v = Inr i \<and> 0 < i"
proof -
  have "list_all is_digit x" if "unsigned_decimal x" for x
    using that by (auto simp: unsigned_decimal_def is_digit_def)
  then show ?thesis
    using assms by (cases v) (auto simp: assertPositive_Inr toMinorUnitBigInt_def toBigInt_def split: if_splits)
qed

text \<open>The reservation an authorised call records.\<close>

definition reservationFor :: "string \<Rightarrow> string \<Rightarrow> string \<Rightarrow> authorization_args \<Rightarrow> int \<Rightarrow> int \<Rightarrow> mandate_reservation" where
  "reservationFor i h k a amount now =
     \<lparr>mr_reservationId = i, mr_reservationHash = h, mr_mandateId = k,
      mr_subjectId = au_subjectId a, mr_capability = au_capability a, mr_providerId = au_providerId a,
      mr_category = au_category a, mr_assetId = au_assetId a, mr_amountMinor = amount,
      mr_releasedMinor = 0, mr_createdAt = now, mr_schemaVersion = ''mandate_reservation.v1''\<rparr>"

lemma wp_recordReservation:
  assumes m: "jmGet (ms_mandates (mandateState s)) k = Some m" "md_mandateId m = k" "au_mandateId a = JStr k"
    and fresh: "jmGet (ms_reservations (mandateState s)) i = None"
    and auth: "authorizes (a\<lparr>au_enforceAggregateLimit := True, au_now := Some now\<rparr>) now m"
    and amount: "assertPositiveMinorUnits amountMinorName (au_amountMinor a) = Inr amount"
    and Q: "\<And>t. reserved i (reservationFor i h k a amount now) now m s t \<Longrightarrow>
      Q \<lparr>vr_mandate = m\<lparr>md_utilizedMinor := md_utilizedMinor m + amount, md_updatedAt := now\<rparr>,
         vr_reservation = reservationFor i h k a amount now, vr_replayed = False\<rparr> t"
    and E: "\<And>e t. reserved i (reservationFor i h k a amount now) now m s t \<Longrightarrow> E e t"
  shows "wp (MandateService_recordReservation m i h a amount now) Q E s"
proof -
  let ?v = "reservationFor i h k a amount now"
  let ?u = "mandateState_update (reserveIn i ?v now) s"
  have "au_amountMinor a \<noteq> JUndefined" using amount by (auto simp: assertPositive_Inr toMinorUnitBigInt_def)
  with auth amount have res: "reserved i ?v now m s ?u"
    using m fresh toBigInt_checked [OF amount]
    by (auto simp: reserved_def reservationFor_def authorizes_def assertNonEmptyString_Inr)
  have u: "mandateState_update (ms_reservations_update (jmSet i ?v))
      (mandateState_update (ms_mandates_update (jmModify k (\<lambda>m. m\<lparr>md_utilizedMinor := md_utilizedMinor m + amount, md_updatedAt := now\<rparr>))) s) = ?u"
    by (simp add: reserveIn_def reservationFor_def comp_def)
  have at: "jmGet (ms_mandates (mandateState ?u)) k = Some (m\<lparr>md_utilizedMinor := md_utilizedMinor m + amount, md_updatedAt := now\<rparr>)"
    using m by (simp add: reserveIn_def reservationFor_def)
  show ?thesis
    unfolding MandateService_recordReservation_def updateMandate_def Let_def m(2,3) js_string.simps reservationFor_def [symmetric]
    using m(1) at by (simp add: wp_simps u del: mandate_world.update_convs) (rule wp_emitI; rule Q E; rule reserved_log [OF res])
qed

lemma wp_reserveUtilization:
  assumes inv: "mandate_inv s"
    and replay: "\<And>t i v m. log_ext s t \<Longrightarrow> arg = JStr i \<Longrightarrow> jmGet (ms_reservations (mandateState s)) i = Some v \<Longrightarrow>
      mr_reservationHash v = reservationHash (rt s) i a \<Longrightarrow> jmGet (ms_mandates (mandateState s)) (mr_mandateId v) = Some m \<Longrightarrow>
      Q \<lparr>vr_mandate = m, vr_reservation = v, vr_replayed = True\<rparr> t"
    and fresh: "\<And>t i k m amount. arg = JStr i \<Longrightarrow> au_mandateId a = JStr k \<Longrightarrow>
      assertPositiveMinorUnits amountMinorName (au_amountMinor a) = Inr amount \<Longrightarrow>
      authorizes (a\<lparr>au_enforceAggregateLimit := True, au_now := Some (nowValue s (au_now a))\<rparr>) (nowValue s (au_now a)) m \<Longrightarrow>
      reserved i (reservationFor i (reservationHash (rt s) i a) k a amount (nowValue s (au_now a))) (nowValue s (au_now a)) m s t \<Longrightarrow>
      Q \<lparr>vr_mandate = m\<lparr>md_utilizedMinor := md_utilizedMinor m + amount, md_updatedAt := nowValue s (au_now a)\<rparr>,
         vr_reservation = reservationFor i (reservationHash (rt s) i a) k a amount (nowValue s (au_now a)), vr_replayed = False\<rparr> t"
    and E: "\<And>e t. mandate_kept s t \<or> status_changed s t \<or> (\<exists>i v now m. reserved i v now m s t) \<Longrightarrow> E e t"
  shows "wp (MandateService_reserveUtilization arg a) Q E s"
proof (cases "assertNonEmptyString ''reservationId'' arg")
  case (Inl e)
  then show ?thesis
    using E [OF disjI1, OF log_kept [OF log_nowState]] unfolding MandateService_reserveUtilization_def wp_bindM wp_nowOr_eq
    by (simp add: wp_simps)
next
  case i: (Inr i)
  then have arg: "arg = JStr i" by (simp add: assertNonEmptyString_Inr)
  let ?n = "nowState (au_now a) s" and ?now = "nowValue s (au_now a)" and ?h = "reservationHash (rt s) i a"
  let ?a = "a\<lparr>au_enforceAggregateLimit := True, au_now := Some ?now\<rparr>"
  have rt: "rt ?n = rt s" by (rule log_ext_rt) simp
  have kept: "mandate_kept s ?n" by (rule log_kept) simp
  have trans: "mandate_kept ?n t \<Longrightarrow> mandate_kept s t" "status_changed ?n t \<Longrightarrow> status_changed s t"
      "reserved j v' now' m' ?n t \<Longrightarrow> reserved j v' now' m' s t" for t j v' now' m'
    using mandate_frame_trans [OF log_mandate_frame [OF log_nowState], of "au_now a" s t]
    by (auto simp: mandate_kept_def status_changed_def reserved_def)
  show ?thesis
  proof (cases "jmGet (ms_reservations (mandateState s)) i")
    case (Some v)
    then obtain m where "jmGet (ms_mandates (mandateState s)) (mr_mandateId v) = Some m"
      using mandate_invD(2) [OF inv] by (auto simp: reservation_ok_def)
    with Some show ?thesis
      using i rt kept replay [OF log_nowState arg Some] E unfolding MandateService_reserveUtilization_def wp_bindM wp_nowOr_eq
      by (simp add: wp_simps Let_def)
  next
    case None
    have recd: "wp (MandateService_recordReservation m i ?h a amount ?now) Q E t"
      if auth: "log_ext ?n t" "authorizes ?a ?now m" "au_mandateId a = JStr k" "jmGet (ms_mandates (mandateState s)) k = Some m"
        and amount: "assertPositiveMinorUnits amountMinorName (au_amountMinor a) = Inr amount" for t m k amount
    proof -
      have t: "mandateState t = mandateState s" using log_ext_mandates [OF auth(1)] by simp
      have lifted: "reserved j v' now' m' t u \<Longrightarrow> reserved j v' now' m' s u" for j v' now' m' u
        using mandate_frame_trans [OF log_mandate_frame [OF log_ext_trans [OF log_nowState auth(1)]], of u] t
        by (auto simp: reserved_def)
      have err: "reserved j v' now' m' t u \<Longrightarrow> E e u" for j v' now' m' u e
        using E lifted by blast
      have id: "md_mandateId m = k" using mandate_invD(1) [OF inv auth(4)] by (simp add: mandate_ok_def)
      show ?thesis
        by (rule wp_recordReservation [of t k m])
          (use auth amount None t id lifted fresh [OF arg auth(3) amount auth(2)] err in auto)
    qed
    have "wp (MandateService_assertAuthorized ?a)
        (\<lambda>m. wp (bindM (liftR (toBigInt (au_amountMinor a))) (\<lambda>amount. MandateService_recordReservation m i ?h a amount ?now)) Q E) E ?n"
    proof (rule wp_assertAuthorized)
      fix t k m
      assume log: "log_ext ?n t" and k: "assertNonEmptyString ''mandateId'' (au_mandateId ?a) = Inr k"
        and m: "jmGet (ms_mandates (mandateState ?n)) k = Some m" and "authorizes ?a (nowValue ?n (au_now ?a)) m"
      then have auth: "authorizes ?a ?now m" by (simp add: nowValue_def)
      have k': "au_mandateId a = JStr k" using k by (simp add: assertNonEmptyString_Inr)
      show "wp (bindM (liftR (toBigInt (au_amountMinor a))) (\<lambda>amount. MandateService_recordReservation m i ?h a amount ?now)) Q E t"
      proof (cases "au_amountMinor a = JUndefined")
        case True
        then show ?thesis using E trans(1) [OF log_kept [OF log]] by (simp add: wp_simps toBigInt_def)
      next
        case False
        with auth obtain amount where amount: "assertPositiveMinorUnits amountMinorName (au_amountMinor a) = Inr amount"
          by (auto simp: authorizes_def)
        with recd [OF log auth k' _ amount] m show ?thesis by (simp add: wp_simps toBigInt_checked [OF amount])
      qed
    qed (use trans E in blast)
    with None show ?thesis
      using i rt unfolding MandateService_reserveUtilization_def wp_bindM [where m = "nowOr _"] wp_nowOr_eq
      by (simp add: wp_simps Let_def)
  qed
qed

definition releaseFor :: "string \<Rightarrow> string \<Rightarrow> string \<Rightarrow> string \<Rightarrow> int \<Rightarrow> string \<Rightarrow> int \<Rightarrow> mandate_release" where
  "releaseFor i h k rid amount reason now =
     \<lparr>ml_releaseId = i, ml_releaseHash = h, ml_mandateId = k, ml_reservationId = rid, ml_amountMinor = amount,
      ml_reason = reason, ml_createdAt = now, ml_schemaVersion = ''mandate_release.v1''\<rparr>"

lemma wp_recordRelease:
  assumes m: "jmGet (ms_mandates (mandateState s)) k = Some m"
    and rel: "\<And>t. log_ext (mandateState_update (releaseIn i (releaseFor i h k rid amount reason now) now) s) t \<Longrightarrow>
      released i (releaseFor i h k rid amount reason now) now m v s t"
    and Q: "\<And>t. released i (releaseFor i h k rid amount reason now) now m v s t \<Longrightarrow>
      Q \<lparr>vl_mandate = m\<lparr>md_utilizedMinor := md_utilizedMinor m - amount, md_updatedAt := now\<rparr>,
         vl_release = releaseFor i h k rid amount reason now, vl_replayed = False\<rparr> t"
    and E: "\<And>e t. released i (releaseFor i h k rid amount reason now) now m v s t \<Longrightarrow> E e t"
  shows "wp (MandateService_recordRelease m k rid i h amount reason now) Q E s"
proof -
  let ?l = "releaseFor i h k rid amount reason now"
  let ?u = "mandateState_update (releaseIn i ?l now) s"
  have at: "jmGet (ms_mandates (mandateState ?u)) k = Some (m\<lparr>md_utilizedMinor := md_utilizedMinor m - amount, md_updatedAt := now\<rparr>)"
    using m by (simp add: releaseIn_def releaseFor_def)
  show ?thesis
    unfolding MandateService_recordRelease_def updateMandate_def Let_def releaseFor_def [symmetric]
    using m at by (simp add: wp_simps)
      (rule wp_emitI; rule Q E; rule rel; simp add: releaseIn_def [abs_def] releaseFor_def comp_def)
qed

lemma wp_releaseUtilization:
  assumes replay: "\<And>t i reason l m. log_ext s t \<Longrightarrow> arg = JStr i \<Longrightarrow> reasonArg = JStr reason \<Longrightarrow>
      jmGet (ms_releases (mandateState s)) i = Some l \<Longrightarrow> ml_releaseHash l = releaseHash (rt s) k rid i amountArg reason \<Longrightarrow>
      jmGet (ms_mandates (mandateState s)) k = Some m \<Longrightarrow> Q \<lparr>vl_mandate = m, vl_release = l, vl_replayed = True\<rparr> t"
    and fresh: "\<And>t i reason amount m v h. arg = JStr i \<Longrightarrow> assertPositiveMinorUnits amountMinorName amountArg = Inr amount \<Longrightarrow>
      released i (releaseFor i h k rid amount reason (nowValue s nowArg)) (nowValue s nowArg) m v s t \<Longrightarrow>
      Q \<lparr>vl_mandate = m\<lparr>md_utilizedMinor := md_utilizedMinor m - amount, md_updatedAt := nowValue s nowArg\<rparr>,
         vl_release = releaseFor i h k rid amount reason (nowValue s nowArg), vl_replayed = False\<rparr> t"
    and E: "\<And>e t. mandate_kept s t \<or> (\<exists>i l now m v. released i l now m v s t) \<Longrightarrow> E e t"
  shows "wp (MandateService_releaseUtilization k rid arg amountArg reasonArg nowArg) Q E s"
proof -
  let ?n = "nowState nowArg s" and ?now = "nowValue s nowArg"
  have rt: "rt ?n = rt s" by (rule log_ext_rt) simp
  have err: "E e ?n" for e by (rule E) (simp add: log_kept)
  have go: "wp (MandateService_recordRelease m k rid i h amount reason ?now) Q E ?n"
    if "arg = JStr i" "assertPositiveMinorUnits amountMinorName amountArg = Inr amount"
      "jmGet (ms_releases (mandateState s)) i = None" "jmGet (ms_mandates (mandateState s)) k = Some m"
      "jmGet (ms_reservations (mandateState s)) rid = Some v" "mr_mandateId v = k"
      "amount \<le> mr_amountMinor v - mr_releasedMinor v" "amount \<le> md_utilizedMinor m" for i h amount reason m v
  proof -
    have rel: "released i (releaseFor i h k rid amount reason ?now) ?now m v s t"
      if log: "log_ext (mandateState_update (releaseIn i (releaseFor i h k rid amount reason ?now) ?now) ?n) t" for t
      using \<open>arg = JStr i\<close> \<open>assertPositiveMinorUnits _ _ = _\<close> \<open>jmGet (ms_releases _) i = None\<close> \<open>jmGet (ms_mandates _) k = _\<close>
        \<open>jmGet (ms_reservations _) rid = _\<close> \<open>mr_mandateId v = k\<close> \<open>amount \<le> mr_amountMinor v - _\<close> \<open>amount \<le> md_utilizedMinor m\<close>
        log_ext_mandates [OF log]
        mandate_frame_trans [OF log_mandate_frame [OF log_nowState] mandate_frame_log [OF mandate_frame_state log]]
      by (auto simp: released_def releaseFor_def assertPositive_Inr)
    have lifted: "released i (releaseFor i h k rid amount reason ?now) ?now m v ?n t \<Longrightarrow>
        released i (releaseFor i h k rid amount reason ?now) ?now m v s t" for t
      using mandate_frame_trans [OF log_mandate_frame [OF log_nowState], of nowArg s t] by (auto simp: released_def)
    have unlift: "released i (releaseFor i h k rid amount reason ?now) ?now m v ?n t"
      if log: "log_ext (mandateState_update (releaseIn i (releaseFor i h k rid amount reason ?now) ?now) ?n) t" for t
      using rel [OF log] mandate_frame_log [OF mandate_frame_state log] by (simp add: released_def)
    have q: "Q \<lparr>vl_mandate = m\<lparr>md_utilizedMinor := md_utilizedMinor m - amount, md_updatedAt := ?now\<rparr>,
         vl_release = releaseFor i h k rid amount reason ?now, vl_replayed = False\<rparr> t"
      if "released i (releaseFor i h k rid amount reason ?now) ?now m v ?n t" for t
      by (rule fresh [OF \<open>arg = JStr i\<close> \<open>assertPositiveMinorUnits _ _ = _\<close> lifted [OF that]])
    have e: "E e t" if "released i (releaseFor i h k rid amount reason ?now) ?now m v ?n t" for e t
      using E lifted [OF that] by blast
    show ?thesis
      by (rule wp_recordRelease [where m = m and v = v]) (simp_all add: \<open>jmGet (ms_mandates _) k = _\<close> unlift q e)
  qed
  have go': "wp (MandateService_recordRelease m k' rid i h amount reason ?now) Q E ?n"
    if "k' = k" "arg = JStr i" "assertPositiveMinorUnits amountMinorName amountArg = Inr amount"
      "jmGet (ms_releases (mandateState s)) i = None" "jmGet (ms_mandates (mandateState s)) k = Some m"
      "jmGet (ms_reservations (mandateState s)) rid = Some v" "mr_mandateId v = k"
      "amount \<le> mr_amountMinor v - mr_releasedMinor v" "amount \<le> md_utilizedMinor m" for k' i h amount reason m v
    using go that by blast
  show ?thesis
    unfolding MandateService_releaseUtilization_def wp_bindM [where m = "nowOr _"] wp_nowOr_eq wp_bindM [where m = "liftR _"]
      wp_liftR wp_bindM [where m = "getsM _"] wp_getsM Let_def rt
    by (auto simp: wp_simps assertNonEmptyString_Inr err not_less intro!: go' intro: replay split: sum.split option.split)
qed

lemma mandateTerms_Inr:
  assumes "mandateTerms r input now p u n tr = Inr m"
  shows "0 < md_perActionLimitMinor m \<and> md_perActionLimitMinor m \<le> md_aggregateLimitMinor m \<and> md_validFrom m < md_expiresAt m"
  using assms by (auto simp: mandateTerms_def bindR_Inr Let_def assertPositive_Inr)

lemma wp_storeMandate:
  assumes "\<And>t. log_ext (mandateState_update (addMandate m) u) t \<Longrightarrow> Q m t"
    and "\<And>e t. log_ext (mandateState_update (addMandate m) u) t \<Longrightarrow> E e t"
  shows "wp (MandateService_storeMandate m (mandateNonceKey (md_principalId m) (md_nonce m)) now) Q E u"
  unfolding MandateService_storeMandate_def
  by (simp add: wp_simps) (rule wp_emitI; rule assms; simp add: addMandate_def [abs_def] comp_def)

lemma since_createMandate: "preserves (mandate_since S) (MandateService_createMandate input)"
proof (rule preservesI)
  fix s :: "'a mandate_world_scheme"
  assume since: "mandate_since S s"
  have add: "mandate_since S t"
    if log: "log_ext (mandateState_update (addMandate m) u) t" and u: "log_ext s u" "Suc (uuidCount s) \<le> uuidCount u"
      and id: "md_mandateId m = opId (rt s) ''mandate'' (uuidCount s)" and z: "md_utilizedMinor m = 0"
      and nonce: "jmGet (ms_idsByPrincipalNonce (mandateState s)) (mandateNonceKey (md_principalId m) (md_nonce m)) = None"
      and m: "0 < md_perActionLimitMinor m" "md_perActionLimitMinor m \<le> md_aggregateLimitMinor m" "md_validFrom m < md_expiresAt m"
    for t u m
  proof (rule mandate_since_step [OF since])
    have inv: "mandate_inv s" using since by (simp add: mandate_since_def)
    have t: "mandateState t = addMandate m (mandateState s)" "rt t = rt s" "Suc (uuidCount s) \<le> uuidCount t"
      using log_ext_mandates [OF log] log_ext_mandates [OF u(1)] log_ext_rt [OF log] log_ext_rt [OF u(1)] log_ext_uuid [OF log] u(2)
      by auto
    have new: "md_mandateId m \<notin> issued s ''mandate''" using inv id by (simp add: mandate_inv_def issued_fresh)
    have "insert (md_mandateId m) (issued s ''mandate'') \<subseteq> issued t ''mandate''"
      using issued_mono [of t s "''mandate''"] opId_issued [of "uuidCount s" t "''mandate''"] t id by simp
    then show "mandate_inv t"
      using mandates_ok_mono mandates_ok_add [OF _ new nonce m z] inv t by (fastforce simp: mandate_inv_def)
    have "jmGet (ms_mandates (mandateState s)) (md_mandateId m) = None"
      using inv new by (auto simp: mandate_inv_def mandates_ok_def map_of_eq_None_iff)
    then show "mandates_evolve (mandateState s) (mandateState t)"
      by (auto simp: t mandates_evolve_def addMandate_def)
  qed
  let ?n = "nowState (mi_now input) s"
  have rt: "rt ?n = rt s" and uc: "uuidCount ?n = uuidCount s" by (simp_all add: nowState_def split: option.split)
  have n: "mandate_since S ?n" and u: "log_ext s (?n\<lparr>uuidCount := Suc (uuidCount s)\<rparr>)"
    using mandate_since_log [OF since log_nowState] log_ext_trans [OF log_nowState [of s "mi_now input"] log_ext_counters(2)] uc by simp_all
  have n': "mandate_since S (?n\<lparr>uuidCount := Suc (uuidCount s)\<rparr>)" by (rule mandate_since_log [OF since u])
  have inv: "mandate_inv s" using since by (simp add: mandate_since_def)
  have store: "wp (MandateService_storeMandate m key now) (\<lambda>_. mandate_since S) (\<lambda>_. mandate_since S) (?n\<lparr>uuidCount := Suc (uuidCount s)\<rparr>)"
    if "key = mandateNonceKey (md_principalId m) (md_nonce m)" "md_mandateId m = opId (rt s) ''mandate'' (uuidCount s)" "md_utilizedMinor m = 0"
      "jmGet (ms_idsByPrincipalNonce (mandateState s)) (mandateNonceKey (md_principalId m) (md_nonce m)) = None"
      "0 < md_perActionLimitMinor m \<and> md_perActionLimitMinor m \<le> md_aggregateLimitMinor m \<and> md_validFrom m < md_expiresAt m" for m key now
    unfolding that(1) by (rule wp_storeMandate; rule add [OF _ u]) (use that in auto)
  have ms: "mandateState (?n\<lparr>uuidCount := Suc (uuidCount s)\<rparr>) = mandateState s" using log_ext_mandates [OF u] .
  show "wp (MandateService_createMandate input) (\<lambda>_. mandate_since S) (\<lambda>_. mandate_since S) s"
    unfolding MandateService_createMandate_def createMandate_def wp_bindM [where m = "nowOr _"] wp_nowOr_eq
    by (auto simp: wp_simps wp_nowOr_eq Let_def rt uc n n' since ms intro!: store dest: mandateTerms_Inr split: sum.split option.split
        simp del: wp_nowOr)
qed

lemma since_setMandateStatus: "preserves (mandate_since S) (MandateService_setStatus k st actor reason now)"
  by (rule preservesI, rule wp_setStatus) (auto intro: since_status)

lemma since_activate: "preserves (mandate_since S) (MandateService_activateMandate k actor now)"
proof (rule preservesI)
  fix s :: "'a mandate_world_scheme"
  assume "mandate_since S s"
  from mandate_since_log [OF this log_nowState] have n: "mandate_since S (nowState now s)" .
  note set = preservesD [OF since_setMandateStatus n]
  show "wp (MandateService_activateMandate k actor now) (\<lambda>_. mandate_since S) (\<lambda>_. mandate_since S) s"
    unfolding MandateService_activateMandate_def wp_bindM [where m = "nowOr _"] wp_nowOr_eq
    by (simp add: wp_simps n set split: option.split)
qed

lemma since_end:
  "preserves (mandate_since S) (bindM (nowOr now) (\<lambda>n. bindM (liftR r) (\<lambda>_. MandateService_setStatus k st actor reason n)))"
proof (rule preservesI)
  fix s :: "'a mandate_world_scheme"
  assume "mandate_since S s"
  from mandate_since_log [OF this log_nowState] have n: "mandate_since S (nowState now s)" .
  note set = preservesD [OF since_setMandateStatus n]
  show "wp (bindM (nowOr now) (\<lambda>n. bindM (liftR r) (\<lambda>_. MandateService_setStatus k st actor reason n)))
      (\<lambda>_. mandate_since S) (\<lambda>_. mandate_since S) s"
    unfolding wp_bindM [where m = "nowOr _"] wp_nowOr_eq by (simp add: wp_simps n set split: sum.split)
qed

lemma since_assertAuthorized: "preserves (mandate_since S) (MandateService_assertAuthorized a)"
  by (rule preservesI, rule wp_assertAuthorized) (auto intro: mandate_since_log since_kept since_status)

lemma since_inv: "mandate_since S s \<Longrightarrow> mandate_inv s"
  by (simp add: mandate_since_def)

lemma since_reserveUtilization: "preserves (mandate_since S) (MandateService_reserveUtilization arg a)"
  by (rule preservesI, rule wp_reserveUtilization)
    (auto intro: since_inv mandate_since_log since_kept since_status since_reserved)

lemma since_releaseUtilization: "preserves (mandate_since S) (MandateService_releaseUtilization k rid arg v reason now)"
  by (rule preservesI, rule wp_releaseUtilization) (auto intro: mandate_since_log since_kept since_released)

subsection \<open>Reachable mandates\<close>

inductive mandate_step :: "'z mandate_world_scheme \<Rightarrow> 'z mandate_world_scheme \<Rightarrow> bool" where
  create: "MandateService_createMandate input s = (r, t) \<Longrightarrow> mandate_step s t"
| activate: "MandateService_activateMandate k actor now s = (r, t) \<Longrightarrow> mandate_step s t"
| suspend: "MandateService_suspendMandate k actor reason now s = (r, t) \<Longrightarrow> mandate_step s t"
| revoke: "MandateService_revokeMandate k actor reason now s = (r, t) \<Longrightarrow> mandate_step s t"
| authorize: "MandateService_assertAuthorized a s = (r, t) \<Longrightarrow> mandate_step s t"
| reserve: "MandateService_reserveUtilization i a s = (rv, t) \<Longrightarrow> mandate_step s t"
| release: "MandateService_releaseUtilization k rid i v reason now s = (rl, t) \<Longrightarrow> mandate_step s t"
| other: "mandate_kept s t \<Longrightarrow> mandate_step s t"

lemma mandate_since_stepI: "mandate_since S s \<Longrightarrow> mandate_step s t \<Longrightarrow> mandate_since S t"
  by (erule mandate_step.cases)
    (auto simp: MandateService_suspendMandate_def MandateService_revokeMandate_def
      intro: since_createMandate [THEN preserves_run] since_activate [THEN preserves_run] since_end [THEN preserves_run]
        since_assertAuthorized [THEN preserves_run] since_reserveUtilization [THEN preserves_run]
        since_releaseUtilization [THEN preserves_run] since_kept)

interpretation mandate_ts: transition_system mandate_step "mandate_since S" for S
  by unfold_locales (rule mandate_since_stepI)

definition mandate_init :: "'z mandate_world_scheme \<Rightarrow> bool" where
  "mandate_init s \<longleftrightarrow> uuid_unique (rt s) \<and> ms_mandates (mandateState s) = [] \<and> ms_idsByPrincipalNonce (mandateState s) = [] \<and>
     ms_reservations (mandateState s) = [] \<and> ms_releases (mandateState s) = []"

lemma mandate_init_inv: "mandate_init s \<Longrightarrow> mandate_inv s"
  by (simp add: mandate_init_def mandate_inv_def mandates_ok_def jmValues_def)

lemma mandate_since_refl: "mandate_inv s \<Longrightarrow> mandate_since (mandateState s) s"
  by (simp add: mandate_since_def)

subsection \<open>A concrete mandate\<close>

definition demo_mandate :: mandate where
  "demo_mandate = \<lparr>md_mandateId = ''mandate_'', md_mandateHash = ''0xh'', md_termsHash = ''0xh'', md_principalId = ''p'',
     md_subjectId = ''s1'', md_capabilities = [Cap_REQUEST_CREDIT, Cap_PROVIDER_SPEND], md_allowedProviderIds = [''provider_''],
     md_allowedCategories = [''model_api''], md_assetIds = [''USDC''], md_perActionLimitMinor = 500,
     md_aggregateLimitMinor = 1000, md_utilizedMinor = 300, md_validFrom = 0, md_expiresAt = 5000, md_nonce = ''n'',
     md_termsRef = ''t'', md_sandboxOnly = True, md_productionAuthority = False, md_status = Mandate_ACTIVE,
     md_createdAt = 0, md_updatedAt = 0, md_schemaVersion = ''mandate.v3''\<rparr>"

definition demo_auth :: "string \<Rightarrow> authorization_args" where
  "demo_auth amount = \<lparr>au_mandateId = JStr ''mandate_'', au_subjectId = JStr ''s1'', au_capability = JStr ''provider_spend'',
     au_providerId = JStr ''provider_'', au_category = JStr ''model_api'', au_assetId = JStr ''USDC'', au_amountMinor = JStr amount,
     au_enforceAggregateLimit = True, au_now = Some 100\<rparr>"

definition demo_reservation :: mandate_reservation where
  "demo_reservation = reservationFor ''r0'' ''0xh'' ''mandate_'' (demo_auth ''300'') 300 50"

definition demo_mandates :: mandate_world where
  "demo_mandates = \<lparr>rt = demo_runtime, uuidCount = 1, clockCount = 0, creditEvents = [], auditEvents = [],
     seenCreditIds = [], seenAuditIds = [], evidenceEnvelopes = [], aggregateVersions = [],
     ledger = ledger_empty, lockboxes = [], obligationState = \<lparr>os_obligations = [], os_repayments = []\<rparr>,
     mandateState = \<lparr>ms_mandates = [(''mandate_'', demo_mandate)],
       ms_idsByPrincipalNonce = [(mandateNonceKey ''p'' ''n'', ''mandate_'')],
       ms_reservations = [(''r0'', demo_reservation)], ms_releases = []\<rparr>\<rparr>"

lemma demo_mandates_inv: "mandate_inv demo_mandates"
proof -
  let ?S = "mandateState demo_mandates"
  have "issued demo_mandates ''mandate'' = {''mandate_''}"
    by (auto simp: issued_def demo_mandates_def eval_simps lessThan_Suc)
  moreover have "mandate_ok ?S ''mandate_'' demo_mandate"
    by (simp add: mandate_ok_def demo_mandate_def heldSum_def held_def demo_mandates_def jmValues_def demo_reservation_def reservationFor_def)
  moreover have "reservation_ok ?S ''r0'' demo_reservation"
    by (simp add: reservation_ok_def demo_mandate_def releasedSum_def demo_mandates_def jmValues_def demo_reservation_def
        reservationFor_def demo_auth_def)
  ultimately show ?thesis
    by (simp add: mandate_inv_def mandates_ok_def demo_mandates_def jmValues_def)
qed

lemma demo_amounts:
  "assertPositiveMinorUnits amountMinorName (JStr ''400'') = Inr 400"
  "assertPositiveMinorUnits amountMinorName (JStr ''600'') = Inr 600"
  by code_simp+

lemma demo_authorizes: "authorizes (demo_auth ''400'') 100 demo_mandate"
  by (simp add: authorizes_def demo_auth_def demo_mandate_def demo_amounts eval_simps assertEnumValue_def
      MandateCapability_values_def)

subsection \<open>Properties\<close>

text \<open>
  C14. In every state the mandate service can reach, what a mandate has utilised is exactly what its reservations
  still hold, it lies between zero and the aggregate limit, no reservation exceeds the per-action limit of its
  mandate, what a reservation has released is the sum of its releases and never more than the reserved amount,
  and no two mandates share a principal and nonce.
\<close>

theorem mandate_budget:
  assumes "mandate_init s" and "rtranclp mandate_step s t"
  shows "(\<forall>k m. jmGet (ms_mandates (mandateState t)) k = Some m \<longrightarrow>
      md_utilizedMinor m = sum_list (map (\<lambda>v. if mr_mandateId v = k then mr_amountMinor v - mr_releasedMinor v else 0)
        (jmValues (ms_reservations (mandateState t)))) \<and>
      0 \<le> md_utilizedMinor m \<and> md_utilizedMinor m \<le> md_aggregateLimitMinor m) \<and>
    (\<forall>i v. jmGet (ms_reservations (mandateState t)) i = Some v \<longrightarrow>
      (\<exists>m. jmGet (ms_mandates (mandateState t)) (mr_mandateId v) = Some m \<and> mr_amountMinor v \<le> md_perActionLimitMinor m) \<and>
      0 \<le> mr_releasedMinor v \<and> mr_releasedMinor v \<le> mr_amountMinor v \<and>
      mr_releasedMinor v = sum_list (map (\<lambda>l. if ml_reservationId l = i then ml_amountMinor l else 0)
        (jmValues (ms_releases (mandateState t))))) \<and>
    (\<forall>k m k' m'. jmGet (ms_mandates (mandateState t)) k = Some m \<longrightarrow> jmGet (ms_mandates (mandateState t)) k' = Some m' \<longrightarrow>
      md_principalId m = md_principalId m' \<and> md_nonce m = md_nonce m' \<longrightarrow> k = k')"
proof -
  have inv: "mandate_inv t"
    by (rule since_inv, rule mandate_ts.inv_run [OF assms(2)], rule mandate_since_refl, rule mandate_init_inv [OF assms(1)])
  note ok = mandate_invD [OF inv]
  have same: "k = k'" if "jmGet (ms_mandates (mandateState t)) k = Some m" "jmGet (ms_mandates (mandateState t)) k' = Some m'"
      "md_principalId m = md_principalId m'" "md_nonce m = md_nonce m'" for k k' m m'
    using ok(1) [OF that(1)] ok(1) [OF that(2)] that(3,4) by (simp add: mandate_ok_def)
  show ?thesis
  proof (intro conjI allI impI)
    fix i v assume "jmGet (ms_reservations (mandateState t)) i = Some v"
    from ok(2) [OF this]
    show "\<exists>m. jmGet (ms_mandates (mandateState t)) (mr_mandateId v) = Some m \<and> mr_amountMinor v \<le> md_perActionLimitMinor m"
      by (auto simp: reservation_ok_def)
  qed (auto dest: ok same simp: mandate_ok_def reservation_ok_def heldSum_def releasedSum_def held_def [abs_def] returned_def [abs_def])
qed

definition demo_no_mandates :: mandate_world where
  "demo_no_mandates = demo_mandates\<lparr>mandateState :=
     \<lparr>ms_mandates = [], ms_idsByPrincipalNonce = [], ms_reservations = [], ms_releases = []\<rparr>\<rparr>"

theorem mandate_budget_witness:
  "\<exists>t. mandate_step demo_no_mandates t \<and>
     (\<forall>k m. jmGet (ms_mandates (mandateState t)) k = Some m \<longrightarrow> md_utilizedMinor m \<le> md_aggregateLimitMinor m)"
proof -
  have "mandate_init demo_no_mandates" by (simp add: mandate_init_def demo_no_mandates_def demo_mandates_def)
  moreover have "mandate_step demo_no_mandates (snd (MandateService_assertAuthorized (demo_auth ''400'') demo_no_mandates))"
    by (rule mandate_step.authorize) (rule surjective_pairing)
  ultimately show ?thesis using mandate_budget [OF _ r_into_rtranclp] by metis
qed

text \<open>
  C15. \<open>assertAuthorized\<close> returns exactly when the stored mandate permits the action: active, inside its validity
  window, given to this subject, covering the capability, the asset and, for provider spend, the provider and
  category, and within both limits. It then returns that mandate and changes nothing but the log's clock;
  otherwise it throws, and the only change it may leave is a status moved along the transition table.
\<close>

theorem authorization_exact:
  "case MandateService_assertAuthorized a s of
     (Inr m, t) \<Rightarrow> mandateState t = mandateState s \<and> (\<exists>k. assertNonEmptyString ''mandateId'' (au_mandateId a) = Inr k \<and>
       jmGet (ms_mandates (mandateState s)) k = Some m \<and> authorizes a (nowValue s (au_now a)) m)
   | (Inl e, t) \<Rightarrow> \<not> (\<exists>k m. assertNonEmptyString ''mandateId'' (au_mandateId a) = Inr k \<and>
       jmGet (ms_mandates (mandateState s)) k = Some m \<and> authorizes a (nowValue s (au_now a)) m) \<and>
     (mandate_kept s t \<or> status_changed s t)"
proof -
  have "wp (MandateService_assertAuthorized a)
    (\<lambda>m t. mandateState t = mandateState s \<and> (\<exists>k. assertNonEmptyString ''mandateId'' (au_mandateId a) = Inr k \<and>
       jmGet (ms_mandates (mandateState s)) k = Some m \<and> authorizes a (nowValue s (au_now a)) m))
    (\<lambda>e t. \<not> (\<exists>k m. assertNonEmptyString ''mandateId'' (au_mandateId a) = Inr k \<and>
       jmGet (ms_mandates (mandateState s)) k = Some m \<and> authorizes a (nowValue s (au_now a)) m) \<and>
     (mandate_kept s t \<or> status_changed s t)) s"
    by (rule wp_assertAuthorized) (auto simp: log_ext_mandates)
  then show ?thesis by (auto simp: wp_def split: prod.splits sum.splits)
qed

text \<open>
  C16. A reservation that returns either replays: the identifier was reserved before under the same authorisation,
  the stored reservation comes back and no mandate or reservation changes; or it is new: the mandate authorises
  the action with the aggregate limit enforced, exactly the amount is added to the mandate's utilisation, one
  reservation is appended, and no other mandate, obligation, lockbox or ledger account is touched.
\<close>

theorem reserveUtilization_effect:
  assumes "mandate_inv s" and "MandateService_reserveUtilization arg a s = (Inr res, t)"
  shows "\<exists>i. arg = JStr i \<and>
    (case jmGet (ms_reservations (mandateState s)) i of
       Some v \<Rightarrow> res = \<lparr>vr_mandate = vr_mandate res, vr_reservation = v, vr_replayed = True\<rparr> \<and>
         mr_reservationHash v = reservationHash (rt s) i a \<and> mandateState t = mandateState s
     | None \<Rightarrow> \<not> vr_replayed res \<and> (\<exists>k m amount. au_mandateId a = JStr k \<and>
         jmGet (ms_mandates (mandateState s)) k = Some m \<and> assertPositiveMinorUnits amountMinorName (au_amountMinor a) = Inr amount \<and>
         authorizes (a\<lparr>au_enforceAggregateLimit := True, au_now := Some (nowValue s (au_now a))\<rparr>) (nowValue s (au_now a)) m \<and>
         md_utilizedMinor (vr_mandate res) = md_utilizedMinor m + amount \<and>
         (\<forall>k'. jmGet (ms_mandates (mandateState t)) k' = (if k' = k then Some (vr_mandate res) else jmGet (ms_mandates (mandateState s)) k')) \<and>
         ms_reservations (mandateState t) = ms_reservations (mandateState s) @ [(i, vr_reservation res)] \<and>
         mr_amountMinor (vr_reservation res) = amount \<and>
         ledger t = ledger s \<and> lockboxes t = lockboxes s \<and> obligationState t = obligationState s))" (is "?P res t")
proof -
  have "wp (MandateService_reserveUtilization arg a) ?P (\<lambda>_ _. True) s"
  proof (rule wp_reserveUtilization [OF assms(1)])
    fix t i k m amount
    let ?v = "reservationFor i (reservationHash (rt s) i a) k a amount (nowValue s (au_now a))"
    assume *: "arg = JStr i" "au_mandateId a = JStr k" "assertPositiveMinorUnits amountMinorName (au_amountMinor a) = Inr amount"
      "authorizes (a\<lparr>au_enforceAggregateLimit := True, au_now := Some (nowValue s (au_now a))\<rparr>) (nowValue s (au_now a)) m"
      "reserved i ?v (nowValue s (au_now a)) m s t"
    then have "i \<notin> fst ` set (ms_reservations (mandateState s))" by (simp add: reserved_def map_of_eq_None_iff)
    with * show "?P \<lparr>vr_mandate = m\<lparr>md_utilizedMinor := md_utilizedMinor m + amount, md_updatedAt := nowValue s (au_now a)\<rparr>,
         vr_reservation = ?v, vr_replayed = False\<rparr> t"
      by (auto simp: reserved_def mandate_frame_def reserveIn_def reservationFor_def jmSet_fresh)
  qed (auto simp: log_ext_mandates)
  from wp_Inr [OF this assms(2)] show ?thesis .
qed

theorem reserveUtilization_effect_witness:
  "\<exists>res t. MandateService_reserveUtilization (JStr ''r0'') (demo_auth ''300'') demo_mandates = (Inr res, t) \<and>
     vr_replayed res \<and> mandateState t = mandateState demo_mandates"
proof -
  have "\<exists>res t. MandateService_reserveUtilization (JStr ''r0'') (demo_auth ''300'') demo_mandates = (Inr res, t)"
    by (simp add: MandateService_reserveUtilization_def MandateService_requireMandate_def demo_mandates_def demo_auth_def
        demo_reservation_def reservationFor_def reservationHash_def eval_simps cong: eval_congs)
  then obtain res t where run: "MandateService_reserveUtilization (JStr ''r0'') (demo_auth ''300'') demo_mandates = (Inr res, t)"
    by blast
  from reserveUtilization_effect [OF demo_mandates_inv run] run show ?thesis
    by (auto simp: demo_mandates_def) (metis reserve_result.select_convs(3))
qed

text \<open>
  C17. Over any run of the service a mandate keeps its terms, its status moves only along the transition table, and
  a mandate that was revoked or has expired keeps that status: from then on no call is authorised by it.
\<close>

theorem mandate_end_is_final:
  assumes "mandate_inv s" and "rtranclp mandate_step s t" and "jmGet (ms_mandates (mandateState s)) k = Some m"
  shows "\<exists>m'. jmGet (ms_mandates (mandateState t)) k = Some m' \<and> mandate_terms m' = mandate_terms m \<and>
    evolves MandateTransitions (md_status m) (md_status m') \<and>
    (md_status m \<in> {Mandate_REVOKED, Mandate_EXPIRED} \<longrightarrow> md_status m' = md_status m \<and>
      (\<forall>a u. au_mandateId a = JStr k \<longrightarrow> fst (MandateService_assertAuthorized a t) \<noteq> Inr u))"
proof -
  have "mandate_since (mandateState s) t" by (rule mandate_ts.inv_run [OF assms(2) mandate_since_refl [OF assms(1)]])
  then obtain m' where m': "jmGet (ms_mandates (mandateState t)) k = Some m'" "mandate_moves m m'"
    using assms(3) unfolding mandate_since_def mandates_evolve_def by blast
  have no: "fst (MandateService_assertAuthorized a t) \<noteq> Inr u"
    if "md_status m' \<noteq> Mandate_ACTIVE" "au_mandateId a = JStr k" for a u
  proof -
    have "wp (MandateService_assertAuthorized a) (\<lambda>_ _. False) (\<lambda>_ _. True) t"
      by (rule wp_assertAuthorized) (use that m' in \<open>auto simp: authorizes_def assertNonEmptyString_Inr\<close>)
    then show ?thesis by (auto simp: wp_def split: prod.splits sum.splits)
  qed
  show ?thesis
    using m' no mandate_lifecycle.final_stays [of "md_status m" "md_status m'"] unfolding mandate_moves_def by auto
qed

theorem mandate_end_is_final_witness:
  "\<exists>m'. jmGet (ms_mandates (mandateState (snd (MandateService_revokeMandate ''mandate_'' JUndefined (JStr ''done'') (Some 200) demo_mandates))))
     ''mandate_'' = Some m' \<and> mandate_terms m' = mandate_terms demo_mandate"
proof -
  have "mandate_step demo_mandates (snd (MandateService_revokeMandate ''mandate_'' JUndefined (JStr ''done'') (Some 200) demo_mandates))"
    by (rule mandate_step.revoke) (rule surjective_pairing)
  moreover have "jmGet (ms_mandates (mandateState demo_mandates)) ''mandate_'' = Some demo_mandate"
    by (simp add: demo_mandates_def)
  ultimately show ?thesis using mandate_end_is_final [OF demo_mandates_inv r_into_rtranclp] by blast
qed

end
