(* ===== verification/Risk.thy ===== *)
theory Risk
  imports Mandate
begin

text \<open>
  \<open>modules/risk/src/risk-service.js\<close> with \<open>createCreditLine\<close> and \<open>createRiskDecision\<close> of \<open>models.js\<close>: the
  rule-based credit decision, the one credit line of a subject and asset, and the reservation, release,
  adjustment, freezing and closing of that line.
\<close>

subsection \<open>State\<close>

record credit_line =
  cl_creditLineId :: string
  cl_subjectId :: string
  cl_mandateId :: js
  cl_assetId :: string
  cl_limitMinor :: int
  cl_utilizedMinor :: int
  cl_status :: CreditLineStatus
  cl_riskSnapshotId :: string
  cl_createdAt :: int
  cl_updatedAt :: int
  cl_schemaVersion :: string

record risk_decision =
  rd_riskDecisionId :: string
  rd_subjectId :: string
  rd_mandateId :: js
  rd_assetId :: string
  rd_status :: CreditLineStatus
  rd_modelVersion :: string
  rd_limitMinor :: int
  rd_utilizationMinor :: int
  rd_action :: RiskAction
  rd_reasons :: "(string \<times> string) list"
  rd_createdAt :: int
  rd_schemaVersion :: string

text \<open>The configuration of the constructor is part of the state; it never changes.\<close>

record risk_state =
  rs_hasAuthorization :: bool
  rs_globalSubjectCapMinor :: int
  rs_advanceRate30dBps :: int
  rs_advanceRate7dBps :: int
  rs_creditLines :: "credit_line jsmap"
  rs_idsBySubjectAsset :: "string jsmap"
  rs_decisions :: "risk_decision jsmap"

record risk_world = mandate_world +
  riskState :: risk_state

subsection \<open>The records and their JSON form\<close>

definition createCreditLine ::
  "string \<Rightarrow> js \<Rightarrow> string \<Rightarrow> int \<Rightarrow> string \<Rightarrow> ('z host_scheme, credit_line) M" where
  "createCreditLine subjectId mandateId assetId limitMinor riskSnapshotId =
     bindM newDate (\<lambda>now.
     bindM (createOperationalId ''credit_line'') (\<lambda>creditLineId.
     returnM
       \<lparr>cl_creditLineId = creditLineId, cl_subjectId = subjectId, cl_mandateId = mandateId, cl_assetId = assetId,
        cl_limitMinor = limitMinor, cl_utilizedMinor = 0, cl_status = Line_APPROVED,
        cl_riskSnapshotId = riskSnapshotId, cl_createdAt = now, cl_updatedAt = now,
        cl_schemaVersion = ''credit_line.v1''\<rparr>))"

definition createRiskDecision ::
  "string \<Rightarrow> js \<Rightarrow> string \<Rightarrow> CreditLineStatus \<Rightarrow> int \<Rightarrow> int \<Rightarrow> RiskAction \<Rightarrow> (string \<times> string) list \<Rightarrow>
    ('z host_scheme, risk_decision) M" where
  "createRiskDecision subjectId mandateId assetId status limitMinor utilizationMinor action reasons =
     bindM newDate (\<lambda>now.
     bindM (createOperationalId ''risk_decision'') (\<lambda>riskDecisionId.
     returnM
       \<lparr>rd_riskDecisionId = riskDecisionId, rd_subjectId = subjectId, rd_mandateId = mandateId,
        rd_assetId = assetId, rd_status = status, rd_modelVersion = ''risk-rules-v0'', rd_limitMinor = limitMinor,
        rd_utilizationMinor = utilizationMinor, rd_action = action, rd_reasons = reasons, rd_createdAt = now,
        rd_schemaVersion = ''risk_decision.v1''\<rparr>))"

definition credit_line_fields :: "runtime \<Rightarrow> credit_line \<Rightarrow> (string \<times> js) list" where
  "credit_line_fields r c =
     [(''creditLineId'', JStr (cl_creditLineId c)), (''subjectId'', JStr (cl_subjectId c)),
      (''mandateId'', cl_mandateId c), (''assetId'', JStr (cl_assetId c)),
      (''limitMinor'', JStr (dec (cl_limitMinor c))), (''utilizedMinor'', JStr (dec (cl_utilizedMinor c))),
      (''status'', JStr (CreditLineStatus_str (cl_status c))), (''riskSnapshotId'', JStr (cl_riskSnapshotId c)),
      (''createdAt'', JStr (rt_iso r (cl_createdAt c))), (''updatedAt'', JStr (rt_iso r (cl_updatedAt c))),
      (''schemaVersion'', JStr (cl_schemaVersion c))]"

definition risk_decision_js :: "runtime \<Rightarrow> risk_decision \<Rightarrow> js" where
  "risk_decision_js r d = JObj
     [(''riskDecisionId'', JStr (rd_riskDecisionId d)), (''subjectId'', JStr (rd_subjectId d)),
      (''mandateId'', rd_mandateId d), (''assetId'', JStr (rd_assetId d)),
      (''status'', JStr (CreditLineStatus_str (rd_status d))), (''modelVersion'', JStr (rd_modelVersion d)),
      (''limitMinor'', JStr (dec (rd_limitMinor d))), (''utilizationMinor'', JStr (dec (rd_utilizationMinor d))),
      (''action'', JStr (RiskAction_str (rd_action d))),
      (''reasons'', JArr (map (\<lambda>(c, m). JObj [(''code'', JStr c), (''message'', JStr m)]) (rd_reasons d))),
      (''createdAt'', JStr (rt_iso r (rd_createdAt d))), (''schemaVersion'', JStr (rd_schemaVersion d))]"

subsection \<open>The decision\<close>

text \<open>
  The inputs of a request. The three counts are numbers that may be missing; the amounts are validated.
\<close>

record risk_inputs =
  ri_lockboxStatus :: js
  ri_principalStatus :: js
  ri_allowlistedProviderCount :: "int option"
  ri_overdueCount :: "int option"
  ri_revenueCaptureRatioBps :: "int option"
  ri_capturedRevenue30dMinor :: js
  ri_capturedRevenue7dMinor :: js
  ri_existingOutstandingMinor :: js
  ri_perChainCapRemainingMinor :: js
  ri_providerCapRemainingMinor :: js

definition opt_or :: "int option \<Rightarrow> int \<Rightarrow> int" where
  "opt_or x d = (case x of None \<Rightarrow> d | Some v \<Rightarrow> v)"

text \<open>The accumulated reasons, status and action of a request.\<close>

type_synonym verdict = "(string \<times> string) list \<times> CreditLineStatus \<times> RiskAction"

fun verdictIf :: "bool \<Rightarrow> string \<Rightarrow> string \<Rightarrow> CreditLineStatus \<Rightarrow> RiskAction option \<Rightarrow> verdict \<Rightarrow> verdict" where
  "verdictIf bad c m st act (reasons, status, action) =
     (if bad then (reasons @ [(c, m)], st, case act of None \<Rightarrow> action | Some a \<Rightarrow> a) else (reasons, status, action))"

definition riskChecks :: "risk_inputs \<Rightarrow> verdict" where
  "riskChecks inputs =
     verdictIf (opt_or (ri_revenueCaptureRatioBps inputs) 10000 < 9000) ''capture_ratio_below_threshold''
       ''Revenue capture ratio is below the MVP threshold.'' Line_FROZEN (Some RiskAction_REDUCE_LIMIT)
    (verdictIf (opt_or (ri_overdueCount inputs) 0 > 0) ''overdue_obligation''
       ''Open overdue obligations freeze new credit.'' Line_FROZEN (Some RiskAction_FREEZE_LOCKBOX)
    (verdictIf (opt_or (ri_allowlistedProviderCount inputs) 0 \<le> 0) ''no_allowlisted_provider''
       ''At least one allowlisted Provider is required.'' Line_REJECTED None
    (verdictIf (ri_principalStatus inputs \<noteq> JStr (PrincipalStatus_str Principal_ACTIVE)) ''principal_not_active''
       ''Principal must be active.'' Line_REJECTED None
    (verdictIf (ri_lockboxStatus inputs \<noteq> JStr (LockboxStatus_str Lockbox_ACTIVE)) ''lockbox_not_active''
       ''Lockbox must be active before credit approval.'' Line_REJECTED None
    ([], Line_APPROVED, RiskAction_NONE)))))"

text \<open>Division of BigInts truncates towards zero.\<close>

definition bigIntDiv :: "int \<Rightarrow> int \<Rightarrow> int" where
  "bigIntDiv a b = sgn a * sgn b * (\<bar>a\<bar> div \<bar>b\<bar>)"

fun minBigInt :: "int list \<Rightarrow> int" where
  "minBigInt [] = 0"
| "minBigInt (x # xs) = foldl (\<lambda>m v. if v < m then v else m) x xs"

text \<open>The limit the inputs allow and the outstanding amount they report.\<close>

definition riskLimit :: "risk_state \<Rightarrow> risk_inputs \<Rightarrow> (int \<times> int) res" where
  "riskLimit S inputs =
     (let cap = JStr (dec (rs_globalSubjectCapMinor S)) in
      bindR (assertNonNegativeMinorUnits ''capturedRevenue30dMinor'' (js_coalesce (ri_capturedRevenue30dMinor inputs) (JStr ''0''))) (\<lambda>captured30d.
      bindR (assertNonNegativeMinorUnits ''capturedRevenue7dMinor'' (js_coalesce (ri_capturedRevenue7dMinor inputs) (JStr ''0''))) (\<lambda>captured7d.
      bindR (assertNonNegativeMinorUnits ''existingOutstandingMinor'' (js_coalesce (ri_existingOutstandingMinor inputs) (JStr ''0''))) (\<lambda>existingOutstanding.
      bindR (assertNonNegativeMinorUnits ''perChainCapRemainingMinor'' (js_coalesce (ri_perChainCapRemainingMinor inputs) cap)) (\<lambda>perChainRemaining.
      bindR (assertNonNegativeMinorUnits ''providerCapRemainingMinor'' (js_coalesce (ri_providerCapRemainingMinor inputs) cap)) (\<lambda>providerCapRemaining.
      let limitFrom30d = bigIntDiv (captured30d * rs_advanceRate30dBps S) 10000;
          limitFrom7d = bigIntDiv (captured7d * rs_advanceRate7dBps S) 10000;
          grossLimit = minBigInt [limitFrom30d, limitFrom7d, rs_globalSubjectCapMinor S, perChainRemaining, providerCapRemaining] in
      Inr (if grossLimit > existingOutstanding then grossLimit - existingOutstanding else 0, existingOutstanding)))))))"

text \<open>The authorization a request asks for: the amount only when there is one, the aggregate limit not enforced.\<close>

definition creditAuthorization :: "string \<Rightarrow> js \<Rightarrow> string \<Rightarrow> int \<Rightarrow> authorization_args" where
  "creditAuthorization subjectId mandateId assetId availableLimit =
     \<lparr>au_mandateId = mandateId, au_subjectId = JStr subjectId,
      au_capability = JStr (MandateCapability_str Cap_REQUEST_CREDIT), au_providerId = JUndefined,
      au_category = JUndefined, au_assetId = JStr assetId,
      au_amountMinor = (if availableLimit > 0 then JStr (dec availableLimit) else JUndefined),
      au_enforceAggregateLimit = False, au_now = None\<rparr>"

text \<open>The \<open>try\<close> block: a domain error of the authorization becomes a reason, any other error is rethrown.\<close>

definition RiskService_authorize ::
  "string \<Rightarrow> js \<Rightarrow> string \<Rightarrow> int \<Rightarrow> verdict \<Rightarrow> ('z risk_world_scheme, verdict) M" where
  "RiskService_authorize subjectId mandateId assetId availableLimit v =
     catchM
       (bindM (getsM (\<lambda>s. rs_hasAuthorization (riskState s))) (\<lambda>present.
        thenM (throwIf (\<not> present) ''authorization_unavailable'' ''authorization service is unavailable'')
        (thenM (MandateService_assertAuthorized (creditAuthorization subjectId mandateId assetId availableLimit))
        (returnM v))))
       (\<lambda>e. case e of
          NativeError m \<Rightarrow> throwM e
        | DomainError c m \<Rightarrow>
            (case v of (reasons, status, action) \<Rightarrow>
               returnM (reasons @ [(c, error_message e)],
                 if status = Line_APPROVED then Line_REJECTED else status, action)))"

definition riskConclude :: "int \<Rightarrow> verdict \<Rightarrow> verdict" where
  "riskConclude availableLimit v =
     (case verdictIf (availableLimit \<le> 0 \<and> fst (snd v) = Line_APPROVED) ''no_available_limit''
         ''Calculated credit line is zero.'' Line_REJECTED None v of
        (reasons, status, action) \<Rightarrow>
          (if status = Line_APPROVED
           then reasons @ [(''approved_by_rules_v0'', ''Deterministic v0 rules approved the request.'')] else reasons,
           status, action))"

definition RiskService_requireCreditLine :: "string \<Rightarrow> ('z risk_world_scheme, credit_line) M" where
  "RiskService_requireCreditLine creditLineId =
     bindM (getsM (\<lambda>s. jmGet (rs_creditLines (riskState s)) creditLineId)) (\<lambda>found.
       case found of
         None \<Rightarrow> throwM (DomainError ''credit_line_not_found'' ''credit line not found'')
       | Some line \<Rightarrow> returnM line)"

definition updateLine :: "string \<Rightarrow> (credit_line \<Rightarrow> credit_line) \<Rightarrow> ('z risk_world_scheme, unit) M" where
  "updateLine creditLineId f = modifyM (riskState_update (rs_creditLines_update (jmModify creditLineId f)))"

definition subjectAssetKey :: "string \<Rightarrow> string \<Rightarrow> string" where
  "subjectAssetKey subjectId assetId = subjectId @ [CHR 0x00] @ assetId"

record risk_result =
  rr_decision :: risk_decision
  rr_creditLine :: "credit_line option"

text \<open>The line already open for the subject and asset, with the checks an approved request makes of it.\<close>

definition RiskService_existingLine ::
  "string \<Rightarrow> string \<Rightarrow> int \<Rightarrow> CreditLineStatus \<Rightarrow> ('z risk_world_scheme, credit_line option) M" where
  "RiskService_existingLine subjectId assetId existingOutstanding status =
     bindM (getsM (\<lambda>s. jmGet (rs_idsBySubjectAsset (riskState s)) (subjectAssetKey subjectId assetId))) (\<lambda>found.
       case found of
         None \<Rightarrow> returnM None
       | Some i \<Rightarrow>
           bindM (RiskService_requireCreditLine i) (\<lambda>line.
           thenM (throwIf (status = Line_APPROVED \<and> cl_status line = Line_CLOSED) ''credit_line_closed''
             ''closed credit lines require an explicit replacement workflow'')
           (thenM (throwIf (status = Line_APPROVED \<and> cl_utilizedMinor line \<noteq> existingOutstanding) ''risk_state_mismatch''
             ''reported outstanding does not match credit line utilization'')
           (returnM (Some line)))))"

text \<open>The credit line of an approved request: the open one, touched, or a new one, stored and indexed.\<close>

definition RiskService_grantLine ::
  "string \<Rightarrow> js \<Rightarrow> string \<Rightarrow> int \<Rightarrow> credit_line option \<Rightarrow> string \<Rightarrow> ('z risk_world_scheme, credit_line) M" where
  "RiskService_grantLine subjectId mandateId assetId availableLimit existing riskDecisionId =
     (case existing of
        Some line \<Rightarrow>
          bindM newDate (\<lambda>now.
          thenM (updateLine (cl_creditLineId line) (\<lambda>c. c
            \<lparr>cl_riskSnapshotId := riskDecisionId, cl_mandateId := mandateId, cl_updatedAt := now\<rparr>))
          (RiskService_requireCreditLine (cl_creditLineId line)))
      | None \<Rightarrow>
          bindM (createCreditLine subjectId mandateId assetId availableLimit riskDecisionId) (\<lambda>line.
          thenM (modifyM (riskState_update (rs_creditLines_update (jmSet (cl_creditLineId line) line))))
          (thenM (modifyM (riskState_update (rs_idsBySubjectAsset_update
             (jmSet (subjectAssetKey subjectId assetId) (cl_creditLineId line)))))
          (returnM line))))"

definition RiskService_decisionEvents ::
  "string \<Rightarrow> risk_decision \<Rightarrow> credit_line option \<Rightarrow> bool \<Rightarrow> ('z risk_world_scheme, risk_result) M" where
  "RiskService_decisionEvents subjectId decision creditLine granted =
     bindM (getsM rt) (\<lambda>r.
     thenM (emitCreditEvent (eventArgs ''risk_decision_created'' (JStr subjectId) (JObj
       [(''decision'', risk_decision_js r decision),
        (''creditLine'', case creditLine of None \<Rightarrow> JUndefined | Some c \<Rightarrow> JObj (credit_line_fields r c))])))
     (thenM (case creditLine of
        Some c \<Rightarrow> whenM granted (emitCreditEvent (eventArgs ''credit_line_granted'' (JStr subjectId) (JObj
          [(''creditLineId'', JStr (cl_creditLineId c)), (''limitMinor'', JStr (dec (cl_limitMinor c))),
           (''riskDecisionId'', JStr (rd_riskDecisionId decision))])))
      | None \<Rightarrow> returnM ())
     (returnM \<lparr>rr_decision = decision, rr_creditLine = creditLine\<rparr>)))"

text \<open>What follows the verdict: the decision is recorded, the line opened or touched, the events appended.\<close>

definition RiskService_decide ::
  "string \<Rightarrow> js \<Rightarrow> string \<Rightarrow> int \<Rightarrow> int \<Rightarrow> verdict \<Rightarrow> ('z risk_world_scheme, risk_result) M" where
  "RiskService_decide subjectId mandateId assetId availableLimit existingOutstanding v =
     (case v of (reasons, status, action) \<Rightarrow>
     bindM (RiskService_existingLine subjectId assetId existingOutstanding status) (\<lambda>existing.
     bindM (createRiskDecision subjectId mandateId assetId status
        (if status = Line_APPROVED then (case existing of Some c \<Rightarrow> cl_limitMinor c | None \<Rightarrow> availableLimit) else 0)
        (case existing of Some c \<Rightarrow> cl_utilizedMinor c | None \<Rightarrow> existingOutstanding) action
        (if status = Line_APPROVED \<and> existing \<noteq> None
         then reasons @ [(''existing_credit_line_reused'', ''Existing subject and asset credit line was reused.'')]
         else reasons)) (\<lambda>decision.
     thenM (modifyM (riskState_update (rs_decisions_update (jmSet (rd_riskDecisionId decision) decision))))
     (bindM (if status = Line_APPROVED
             then bindM (RiskService_grantLine subjectId mandateId assetId availableLimit existing (rd_riskDecisionId decision))
               (\<lambda>c. returnM (Some c))
             else returnM None) (\<lambda>creditLine.
     RiskService_decisionEvents subjectId decision creditLine (existing = None))))))"

definition RiskService_requestCreditLine ::
  "string \<Rightarrow> js \<Rightarrow> string \<Rightarrow> risk_inputs \<Rightarrow> ('z risk_world_scheme, risk_result) M" where
  "RiskService_requestCreditLine subjectId mandateId assetId inputs =
     bindM (getsM riskState) (\<lambda>S.
     bindM (liftR (riskLimit S inputs)) (\<lambda>(availableLimit, existingOutstanding).
     bindM (RiskService_authorize subjectId mandateId assetId availableLimit (riskChecks inputs)) (\<lambda>v.
     RiskService_decide subjectId mandateId assetId availableLimit existingOutstanding (riskConclude availableLimit v))))"

subsection \<open>Operations on a credit line\<close>

text \<open>The event of a change of a credit line and the clone that is returned.\<close>

definition lineEvent :: "string \<Rightarrow> string \<Rightarrow> (credit_line \<Rightarrow> (string \<times> js) list) \<Rightarrow> ('z risk_world_scheme, unit) M" where
  "lineEvent creditLineId eventType payload =
     bindM (RiskService_requireCreditLine creditLineId) (\<lambda>line.
       emitCreditEvent (eventArgs eventType (JStr (cl_subjectId line)) (JObj ((''creditLineId'', JStr creditLineId) # payload line))))"

definition RiskService_reserveUtilization :: "string \<Rightarrow> js \<Rightarrow> ('z risk_world_scheme, credit_line) M" where
  "RiskService_reserveUtilization creditLineId amountMinor =
     bindM (RiskService_requireCreditLine creditLineId) (\<lambda>line.
     thenM (throwIf (cl_status line \<noteq> Line_APPROVED) ''credit_line_not_approved'' ''credit line is not approved'')
     (bindM (liftR (assertPositiveMinorUnits amountMinorName amountMinor)) (\<lambda>amount.
     let nextUtilized = cl_utilizedMinor line + amount in
     thenM (throwIf (nextUtilized > cl_limitMinor line) ''credit_line_limit_exceeded'' ''credit line utilization exceeds limit'')
     (bindM newDate (\<lambda>now.
     thenM (updateLine creditLineId (\<lambda>c. c\<lparr>cl_utilizedMinor := nextUtilized, cl_updatedAt := now\<rparr>))
     (thenM (lineEvent creditLineId ''credit_line_utilized'' (\<lambda>c.
        [(''amountMinor'', JStr (dec amount)), (''utilizedMinor'', JStr (dec (cl_utilizedMinor c)))]))
     (RiskService_requireCreditLine creditLineId)))))))"

definition RiskService_releaseUtilization :: "string \<Rightarrow> js \<Rightarrow> ('z risk_world_scheme, credit_line) M" where
  "RiskService_releaseUtilization creditLineId amountMinor =
     bindM (RiskService_requireCreditLine creditLineId) (\<lambda>line.
     thenM (throwIf (cl_status line = Line_CLOSED) ''credit_line_closed'' ''closed credit line utilization cannot change'')
     (bindM (liftR (assertPositiveMinorUnits amountMinorName amountMinor)) (\<lambda>releaseAmount.
     thenM (throwIf (releaseAmount > cl_utilizedMinor line) ''release_exceeds_utilization''
       ''released utilization exceeds the reserved amount'')
     (bindM newDate (\<lambda>now.
     thenM (updateLine creditLineId (\<lambda>c. c\<lparr>cl_utilizedMinor := cl_utilizedMinor line - releaseAmount, cl_updatedAt := now\<rparr>))
     (thenM (lineEvent creditLineId ''credit_line_released'' (\<lambda>c.
        [(''amountMinor'', JStr (dec releaseAmount)), (''utilizedMinor'', JStr (dec (cl_utilizedMinor c)))]))
     (RiskService_requireCreditLine creditLineId)))))))"

definition RiskService_adjustCreditLine :: "string \<Rightarrow> js \<Rightarrow> js \<Rightarrow> js \<Rightarrow> ('z risk_world_scheme, credit_line) M" where
  "RiskService_adjustCreditLine creditLineId limitMinor adminArg reason =
     bindM (RiskService_requireCreditLine creditLineId) (\<lambda>line.
     bindM (liftR (assertNonEmptyString ''reason'' reason)) (\<lambda>_.
     bindM (liftR (assertNonNegativeMinorUnits ''limitMinor'' limitMinor)) (\<lambda>nextLimit.
     thenM (throwIf (nextLimit < cl_utilizedMinor line) ''limit_below_utilization'' ''new limit cannot be below utilization'')
     (bindM newDate (\<lambda>now.
     let limits = [(''previousLimitMinor'', JStr (dec (cl_limitMinor line))), (''limitMinor'', JStr (dec nextLimit))] in
     thenM (updateLine creditLineId (\<lambda>c. c\<lparr>cl_limitMinor := nextLimit, cl_updatedAt := now\<rparr>))
     (thenM (lineEvent creditLineId ''credit_line_adjusted'' (\<lambda>c. limits @ [(''reason'', reason)]))
     (thenM (emitAuditEvent (js_default adminArg (JStr ''system'')) ''adjust_credit_line'' ''credit_line'' creditLineId reason
        (JObj ((''subjectId'', JStr (cl_subjectId line)) # limits)) None)
     (RiskService_requireCreditLine creditLineId))))))))"

definition RiskService_setCreditLineStatus ::
  "string \<Rightarrow> CreditLineStatus \<Rightarrow> js \<Rightarrow> js \<Rightarrow> ('z risk_world_scheme, credit_line) M" where
  "RiskService_setCreditLineStatus creditLineId nextStatus adminId reason =
     bindM (RiskService_requireCreditLine creditLineId) (\<lambda>line.
     bindM (liftR (assertNonEmptyString ''reason'' reason)) (\<lambda>_.
     thenM (throwIf (cl_status line = Line_CLOSED) ''credit_line_closed'' ''closed credit line status cannot change'')
     (if cl_status line = nextStatus then returnM line
      else
      bindM newDate (\<lambda>now.
      let changed = [(''previousStatus'', JStr (CreditLineStatus_str (cl_status line))),
                     (''newStatus'', JStr (CreditLineStatus_str nextStatus))] in
      thenM (updateLine creditLineId (\<lambda>c. c\<lparr>cl_status := nextStatus, cl_updatedAt := now\<rparr>))
      (thenM (lineEvent creditLineId ''credit_line_status_changed'' (\<lambda>c. changed @ [(''reason'', reason)]))
      (thenM (emitAuditEvent adminId (''credit_line_'' @ CreditLineStatus_str nextStatus) ''credit_line'' creditLineId reason
         (JObj ((''subjectId'', JStr (cl_subjectId line)) # changed)) None)
      (RiskService_requireCreditLine creditLineId)))))))"

definition RiskService_freezeCreditLine :: "string \<Rightarrow> js \<Rightarrow> js \<Rightarrow> ('z risk_world_scheme, credit_line) M" where
  "RiskService_freezeCreditLine creditLineId adminArg reason =
     RiskService_setCreditLineStatus creditLineId Line_FROZEN (js_default adminArg (JStr ''system'')) reason"

definition RiskService_closeCreditLine :: "string \<Rightarrow> js \<Rightarrow> js \<Rightarrow> ('z risk_world_scheme, credit_line) M" where
  "RiskService_closeCreditLine creditLineId adminArg reason =
     RiskService_setCreditLineStatus creditLineId Line_CLOSED (js_default adminArg (JStr ''system'')) reason"

definition RiskService_getCreditLine :: "string \<Rightarrow> ('z risk_world_scheme, credit_line) M" where
  "RiskService_getCreditLine creditLineId = RiskService_requireCreditLine creditLineId"

definition credit_line_field :: "runtime \<Rightarrow> credit_line \<Rightarrow> string \<Rightarrow> js" where
  "credit_line_field r c key = js_get key (JObj (credit_line_fields r c))"

definition RiskService_listCreditLines :: "runtime \<Rightarrow> (string \<times> js) list \<Rightarrow> risk_state \<Rightarrow> credit_line list" where
  "RiskService_listCreditLines r filt S = filter (matchesFilter (credit_line_field r) filt) (jmValues (rs_creditLines S))"

subsection \<open>The invariant\<close>

definition line_ok :: "risk_state \<Rightarrow> string \<Rightarrow> credit_line \<Rightarrow> bool" where
  "line_ok S k c \<longleftrightarrow> cl_creditLineId c = k \<and> 0 \<le> cl_utilizedMinor c \<and> cl_utilizedMinor c \<le> cl_limitMinor c \<and>
     jmGet (rs_idsBySubjectAsset S) (subjectAssetKey (cl_subjectId c) (cl_assetId c)) = Some k"

definition risk_ok :: "string set \<Rightarrow> risk_state \<Rightarrow> bool" where
  "risk_ok I S \<longleftrightarrow> fst ` set (rs_creditLines S) \<subseteq> I \<and>
     (\<forall>key i. jmGet (rs_idsBySubjectAsset S) key = Some i \<longrightarrow>
        (\<exists>c. jmGet (rs_creditLines S) i = Some c \<and> subjectAssetKey (cl_subjectId c) (cl_assetId c) = key)) \<and>
     (\<forall>k c. jmGet (rs_creditLines S) k = Some c \<longrightarrow> line_ok S k c)"

definition risk_inv :: "'z risk_world_scheme \<Rightarrow> bool" where
  "risk_inv s \<longleftrightarrow> uuid_unique (rt s) \<and> risk_ok (issued s ''credit_line'') (riskState s)"

lemma risk_ok_mono: "risk_ok I S \<Longrightarrow> I \<subseteq> J \<Longrightarrow> risk_ok J S"
  unfolding risk_ok_def by blast

lemma risk_invD: "risk_inv s \<Longrightarrow> jmGet (rs_creditLines (riskState s)) k = Some c \<Longrightarrow> line_ok (riskState s) k c"
  by (simp add: risk_inv_def risk_ok_def)

lemma line_ok_frame [simp]:
  "line_ok (rs_creditLines_update f S) k c = line_ok S k c" "line_ok (rs_decisions_update g S) k c = line_ok S k c"
  by (simp_all add: line_ok_def)

lemma risk_ok_decision [simp]: "risk_ok I (rs_decisions_update g S) = risk_ok I S"
  by (simp add: risk_ok_def)

text \<open>How a stored line may change: it keeps its subject and asset; freezing and closing are never undone, and a
  closed line keeps what it has utilised.\<close>

definition line_moves :: "credit_line \<Rightarrow> credit_line \<Rightarrow> bool" where
  "line_moves c c' \<longleftrightarrow> cl_creditLineId c' = cl_creditLineId c \<and> cl_subjectId c' = cl_subjectId c \<and> cl_assetId c' = cl_assetId c \<and>
     (cl_status c \<noteq> Line_APPROVED \<longrightarrow> cl_status c' \<noteq> Line_APPROVED) \<and>
     (cl_status c = Line_CLOSED \<longrightarrow> cl_status c' = Line_CLOSED \<and> cl_utilizedMinor c' = cl_utilizedMinor c)"

lemma line_moves_refl [simp]: "line_moves c c"
  by (simp add: line_moves_def)

lemma line_moves_trans: "line_moves a b \<Longrightarrow> line_moves b c \<Longrightarrow> line_moves a c"
  by (auto simp: line_moves_def)

definition lines_evolve :: "risk_state \<Rightarrow> risk_state \<Rightarrow> bool" where
  "lines_evolve S S' \<longleftrightarrow> (\<forall>k c. jmGet (rs_creditLines S) k = Some c \<longrightarrow>
     (\<exists>c'. jmGet (rs_creditLines S') k = Some c' \<and> line_moves c c'))"

lemma lines_evolve_refl [simp]: "lines_evolve S S"
  by (simp add: lines_evolve_def)

lemma lines_evolve_trans: "lines_evolve A B \<Longrightarrow> lines_evolve B C \<Longrightarrow> lines_evolve A C"
  unfolding lines_evolve_def by (meson line_moves_trans)

lemma risk_ok_modify:
  assumes ok: "risk_ok I S" and c: "jmGet (rs_creditLines S) k = Some c"
    and f: "line_moves c (f c)" "0 \<le> cl_utilizedMinor (f c)" "cl_utilizedMinor (f c) \<le> cl_limitMinor (f c)"
  shows "risk_ok I (rs_creditLines_update (jmModify k f) S)"
proof -
  have keys: "fst ` set (rs_creditLines S) \<subseteq> I" and lines: "\<And>k c. jmGet (rs_creditLines S) k = Some c \<Longrightarrow> line_ok S k c"
    using ok by (simp_all add: risk_ok_def)
  have "line_ok S k c" using c by (rule lines)
  then have self: "line_ok S k (f c)" using f by (simp add: line_ok_def line_moves_def)
  have idx: "\<exists>c'. jmGet (jmModify k f (rs_creditLines S)) i = Some c' \<and> subjectAssetKey (cl_subjectId c') (cl_assetId c') = key"
    if at: "jmGet (rs_idsBySubjectAsset S) key = Some i" for key i
  proof -
    obtain c' where "jmGet (rs_creditLines S) i = Some c'" "subjectAssetKey (cl_subjectId c') (cl_assetId c') = key"
      using ok at unfolding risk_ok_def by blast
    moreover have "cl_subjectId (f c) = cl_subjectId c" "cl_assetId (f c) = cl_assetId c" using f(1) by (simp_all add: line_moves_def)
    ultimately show ?thesis using c by (cases "i = k") simp_all
  qed
  show ?thesis
    unfolding risk_ok_def
  proof (intro conjI allI impI)
    fix k' c' assume "jmGet (rs_creditLines (rs_creditLines_update (jmModify k f) S)) k' = Some c'"
    then show "line_ok (rs_creditLines_update (jmModify k f) S) k' c'"
      using self lines [of k' c'] c by (simp split: if_splits)
  next
    fix key i assume "jmGet (rs_idsBySubjectAsset (rs_creditLines_update (jmModify k f) S)) key = Some i"
    then have "jmGet (rs_idsBySubjectAsset S) key = Some i" by simp
    from idx [OF this] show "\<exists>c. jmGet (rs_creditLines (rs_creditLines_update (jmModify k f) S)) i = Some c \<and>
        subjectAssetKey (cl_subjectId c) (cl_assetId c) = key" by simp
  qed (use keys in simp)
qed

definition addLine :: "credit_line \<Rightarrow> risk_state \<Rightarrow> risk_state" where
  "addLine c S = rs_idsBySubjectAsset_update (jmSet (subjectAssetKey (cl_subjectId c) (cl_assetId c)) (cl_creditLineId c))
     (rs_creditLines_update (jmSet (cl_creditLineId c) c) S)"

lemma risk_ok_add:
  assumes ok: "risk_ok I S" and new: "cl_creditLineId c \<notin> I"
    and key: "jmGet (rs_idsBySubjectAsset S) (subjectAssetKey (cl_subjectId c) (cl_assetId c)) = None"
    and c: "0 \<le> cl_utilizedMinor c" "cl_utilizedMinor c \<le> cl_limitMinor c"
  shows "risk_ok (insert (cl_creditLineId c) I) (addLine c S)"
proof -
  have unknown: "jmGet (rs_creditLines S) (cl_creditLineId c) = None"
    using ok new by (auto simp: risk_ok_def map_of_eq_None_iff)
  have self: "line_ok (addLine c S) (cl_creditLineId c) c" using c by (simp add: line_ok_def addLine_def)
  have other: "line_ok (addLine c S) k c'" if "jmGet (rs_creditLines S) k = Some c'" for k c'
  proof -
    have "line_ok S k c'" using ok that by (simp add: risk_ok_def)
    then show ?thesis using key by (auto simp: line_ok_def addLine_def)
  qed
  have idx: "\<exists>c'. jmGet (rs_creditLines (addLine c S)) i = Some c' \<and> subjectAssetKey (cl_subjectId c') (cl_assetId c') = key'"
    if "jmGet (rs_idsBySubjectAsset (addLine c S)) key' = Some i" for key' i
  proof (cases "key' = subjectAssetKey (cl_subjectId c) (cl_assetId c)")
    case True
    with that show ?thesis by (simp add: addLine_def)
  next
    case False
    with that have "jmGet (rs_idsBySubjectAsset S) key' = Some i" by (simp add: addLine_def)
    with ok obtain c' where "jmGet (rs_creditLines S) i = Some c'" "subjectAssetKey (cl_subjectId c') (cl_assetId c') = key'"
      unfolding risk_ok_def by blast
    with unknown show ?thesis by (auto simp: addLine_def)
  qed
  show ?thesis
    using ok self other idx unfolding risk_ok_def by (auto simp: addLine_def dom_update split: if_splits)
qed

subsection \<open>Frames\<close>

definition risk_frame :: "'z risk_world_scheme \<Rightarrow> 'z risk_world_scheme \<Rightarrow> bool" where
  "risk_frame s t \<longleftrightarrow> risk_world.more t = risk_world.more s \<and> rt t = rt s \<and> uuidCount s \<le> uuidCount t \<and>
     ledger t = ledger s \<and> lockboxes t = lockboxes s \<and> obligationState t = obligationState s"

lemma risk_frame_refl [simp]: "risk_frame s s"
  by (simp add: risk_frame_def)

lemma risk_frame_trans: "risk_frame s t \<Longrightarrow> risk_frame t u \<Longrightarrow> risk_frame s u"
  by (auto simp: risk_frame_def)

lemma risk_frame_issued: "risk_frame s t \<Longrightarrow> issued s p \<subseteq> issued t p"
  by (rule issued_mono) (auto simp: risk_frame_def)

lemma mandate_frame_risk: "mandate_frame s t \<Longrightarrow> riskState t = riskState s"
  by (cases s, cases t) (simp add: mandate_frame_def)

lemma mandate_risk_frame: "mandate_frame s t \<Longrightarrow> risk_frame s t"
  by (cases s, cases t) (simp add: mandate_frame_def risk_frame_def)

lemma log_ext_risk: "log_ext s t \<Longrightarrow> riskState t = riskState s"
  by (rule mandate_frame_risk [OF log_mandate_frame])

lemma log_risk_frame: "log_ext s t \<Longrightarrow> risk_frame s t"
  by (rule mandate_risk_frame [OF log_mandate_frame])

lemma risk_frame_state [simp]: "risk_frame s (riskState_update f s)"
  by (simp add: risk_frame_def)

lemma risk_frame_log: "risk_frame s t \<Longrightarrow> log_ext t u \<Longrightarrow> risk_frame s u"
  by (rule risk_frame_trans [OF _ log_risk_frame])

text \<open>The invariant with the history since \<open>S\<close>, and the moves that keep it.\<close>

definition risk_since :: "risk_state \<Rightarrow> 'z risk_world_scheme \<Rightarrow> bool" where
  "risk_since S s \<longleftrightarrow> risk_inv s \<and> lines_evolve S (riskState s)"

lemma risk_since_kept:
  assumes "risk_since S s" and "risk_frame s t" and "riskState t = riskState s"
  shows "risk_since S t"
  using assms risk_ok_mono [OF _ risk_frame_issued [OF assms(2)]]
  by (auto simp: risk_since_def risk_inv_def risk_frame_def)

lemma risk_since_log: "risk_since S s \<Longrightarrow> log_ext s t \<Longrightarrow> risk_since S t"
  by (rule risk_since_kept) (auto simp: log_risk_frame log_ext_risk)

lemma risk_since_mandate: "risk_since S s \<Longrightarrow> mandate_frame s t \<Longrightarrow> risk_since S t"
  by (rule risk_since_kept) (auto simp: mandate_risk_frame mandate_frame_risk)

lemma risk_since_step:
  assumes "risk_since S s" and "risk_frame s t" and "risk_ok (issued t ''credit_line'') (riskState t)"
    and "lines_evolve (riskState s) (riskState t)"
  shows "risk_since S t"
  using assms by (auto simp: risk_since_def risk_inv_def risk_frame_def intro: lines_evolve_trans)

text \<open>One line has been changed by \<open>f\<close>.\<close>

definition line_changed :: "string \<Rightarrow> (credit_line \<Rightarrow> credit_line) \<Rightarrow> 'z risk_world_scheme \<Rightarrow> 'z risk_world_scheme \<Rightarrow> bool" where
  "line_changed k f s t \<longleftrightarrow> risk_frame s t \<and> mandateState t = mandateState s \<and>
     riskState t = rs_creditLines_update (jmModify k f) (riskState s)"

lemma line_changed_since:
  assumes since: "risk_since S s" and ch: "line_changed k f s t" and c: "jmGet (rs_creditLines (riskState s)) k = Some c"
    and f: "line_moves c (f c)" "0 \<le> cl_utilizedMinor (f c)" "cl_utilizedMinor (f c) \<le> cl_limitMinor (f c)"
  shows "risk_since S t"
proof (rule risk_since_step [OF since])
  show fr: "risk_frame s t" using ch by (simp add: line_changed_def)
  have "risk_ok (issued s ''credit_line'') (riskState t)"
    using risk_ok_modify [where f = f, OF _ c f] since ch by (simp add: risk_since_def risk_inv_def line_changed_def)
  then show "risk_ok (issued t ''credit_line'') (riskState t)" by (rule risk_ok_mono [OF _ risk_frame_issued [OF fr]])
  show "lines_evolve (riskState s) (riskState t)"
    using ch c f(1) by (auto simp: line_changed_def lines_evolve_def)
qed

subsection \<open>What each operation does\<close>

lemma wp_requireCreditLine [wp_simps]:
  "wp (RiskService_requireCreditLine k) Q E = (\<lambda>s. case jmGet (rs_creditLines (riskState s)) k of
     None \<Rightarrow> E (DomainError ''credit_line_not_found'' ''credit line not found'') s | Some c \<Rightarrow> Q c s)"
  by (rule ext) (simp add: RiskService_requireCreditLine_def wp_simps split: option.split)

lemma line_changed_log:
  assumes "log_ext s u" and "log_ext (riskState_update (rs_creditLines_update (jmModify k f)) u) t"
  shows "line_changed k f s t"
  using risk_frame_trans [OF log_risk_frame [OF assms(1)] risk_frame_log [OF risk_frame_state assms(2)]]
    log_ext_risk [OF assms(1)] log_ext_risk [OF assms(2)] log_ext_mandates [OF assms(1)] log_ext_mandates [OF assms(2)]
  by (simp add: line_changed_def)

text \<open>Assign, announce, read back: with and without an audit event.\<close>

lemma wp_lineTail:
  assumes u: "log_ext s u" and c: "jmGet (rs_creditLines (riskState u)) k = Some c"
    and Q: "\<And>t. line_changed k f s t \<Longrightarrow> Q (f c) t" and E: "\<And>e t. line_changed k f s t \<Longrightarrow> E e t"
  shows "wp (thenM (updateLine k f) (thenM (lineEvent k ty p) (RiskService_requireCreditLine k))) Q E u"
  unfolding updateLine_def lineEvent_def
  using c by (simp add: wp_simps) (rule wp_emitI; insert line_changed_log [OF u] Q E; simp add: wp_simps log_ext_risk)

lemma wp_lineTailAudit:
  assumes u: "log_ext s u" and c: "jmGet (rs_creditLines (riskState u)) k = Some c"
    and Q: "\<And>t. line_changed k f s t \<Longrightarrow> Q (f c) t" and E: "\<And>e t. line_changed k f s t \<Longrightarrow> E e t"
  shows "wp (thenM (updateLine k f) (thenM (lineEvent k ty p)
    (thenM (emitAuditEvent a b d e' r q n) (RiskService_requireCreditLine k)))) Q E u"
proof -
  have audit: "wp (thenM (emitAuditEvent a b d e' r q n) (RiskService_requireCreditLine k)) Q E t"
    if t: "log_ext (riskState_update (rs_creditLines_update (jmModify k f)) u) t" for t
    unfolding wp_thenM
  proof (rule wp_emitAuditI)
    fix t' assume "log_ext t t'"
    from log_ext_trans [OF t this] show "wp (RiskService_requireCreditLine k) Q E t'"
      using c Q line_changed_log [OF u] by (simp add: wp_simps log_ext_risk)
  next
    fix e t' assume "log_ext t t'"
    from log_ext_trans [OF t this] show "E e t'" by (rule E [OF line_changed_log [OF u]])
  qed
  show ?thesis
    unfolding updateLine_def lineEvent_def
    unfolding wp_thenM [where m = "modifyM _"] wp_thenM [where m = "bindM _ _"] wp_modifyM wp_bindM wp_requireCreditLine
    using c by simp (rule wp_emitI; insert line_changed_log [OF u] audit E; simp)
qed

lemma log_newDate: "log_ext s (s\<lparr>clockCount := Suc (clockCount s)\<rparr>)"
  by simp

lemma wp_reserveLine:
  assumes Q: "\<And>t c amount now. assertPositiveMinorUnits amountMinorName v = Inr amount \<Longrightarrow>
      jmGet (rs_creditLines (riskState s)) k = Some c \<Longrightarrow> cl_status c = Line_APPROVED \<Longrightarrow> cl_utilizedMinor c + amount \<le> cl_limitMinor c \<Longrightarrow>
      line_changed k (\<lambda>c'. c'\<lparr>cl_utilizedMinor := cl_utilizedMinor c + amount, cl_updatedAt := now\<rparr>) s t \<Longrightarrow>
      Q (c\<lparr>cl_utilizedMinor := cl_utilizedMinor c + amount, cl_updatedAt := now\<rparr>) t"
    and E: "\<And>e t. t = s \<and> \<not> (\<exists>c amount. assertPositiveMinorUnits amountMinorName v = Inr amount \<and>
      jmGet (rs_creditLines (riskState s)) k = Some c \<and> cl_status c = Line_APPROVED \<and> cl_utilizedMinor c + amount \<le> cl_limitMinor c) \<or>
      (\<exists>c amount now. assertPositiveMinorUnits amountMinorName v = Inr amount \<and>
      jmGet (rs_creditLines (riskState s)) k = Some c \<and> cl_status c = Line_APPROVED \<and> cl_utilizedMinor c + amount \<le> cl_limitMinor c \<and>
      line_changed k (\<lambda>c'. c'\<lparr>cl_utilizedMinor := cl_utilizedMinor c + amount, cl_updatedAt := now\<rparr>) s t) \<Longrightarrow> E e t"
  shows "wp (RiskService_reserveUtilization k v) Q E s"
proof (cases "jmGet (rs_creditLines (riskState s)) k")
  case None
  then show ?thesis by (simp add: RiskService_reserveUtilization_def wp_simps E)
next
  case c: (Some c)
  have tail: "wp (thenM (updateLine k (\<lambda>c'. c'\<lparr>cl_utilizedMinor := cl_utilizedMinor c + amount, cl_updatedAt := now\<rparr>))
      (thenM (lineEvent k ty p) (RiskService_requireCreditLine k))) Q E (s\<lparr>clockCount := Suc (clockCount s)\<rparr>)"
    if "assertPositiveMinorUnits amountMinorName v = Inr amount" "cl_status c = Line_APPROVED" "cl_utilizedMinor c + amount \<le> cl_limitMinor c"
    for amount now ty p
    by (rule wp_lineTail [OF log_newDate], simp add: c, erule Q [OF that(1) c that(2,3)], rule E)
      (use that c in blast)
  show ?thesis
    unfolding RiskService_reserveUtilization_def Let_def wp_bindM [where m = "RiskService_requireCreditLine _"] wp_requireCreditLine c option.case
      wp_thenM [where m = "throwIf _ _ _"] wp_throwIf wp_bindM [where m = "liftR _"] wp_liftR wp_bindM [where m = newDate] wp_newDate
    by (auto simp: c not_less intro!: E tail split: sum.split)
qed

lemma wp_releaseLine:
  assumes Q: "\<And>t c amount now. assertPositiveMinorUnits amountMinorName v = Inr amount \<Longrightarrow>
      jmGet (rs_creditLines (riskState s)) k = Some c \<Longrightarrow> cl_status c \<noteq> Line_CLOSED \<Longrightarrow> amount \<le> cl_utilizedMinor c \<Longrightarrow>
      line_changed k (\<lambda>c'. c'\<lparr>cl_utilizedMinor := cl_utilizedMinor c - amount, cl_updatedAt := now\<rparr>) s t \<Longrightarrow>
      Q (c\<lparr>cl_utilizedMinor := cl_utilizedMinor c - amount, cl_updatedAt := now\<rparr>) t"
    and E: "\<And>e t. t = s \<and> \<not> (\<exists>c amount. assertPositiveMinorUnits amountMinorName v = Inr amount \<and>
      jmGet (rs_creditLines (riskState s)) k = Some c \<and> cl_status c \<noteq> Line_CLOSED \<and> amount \<le> cl_utilizedMinor c) \<or>
      (\<exists>c amount now. assertPositiveMinorUnits amountMinorName v = Inr amount \<and>
      jmGet (rs_creditLines (riskState s)) k = Some c \<and> cl_status c \<noteq> Line_CLOSED \<and> amount \<le> cl_utilizedMinor c \<and>
      line_changed k (\<lambda>c'. c'\<lparr>cl_utilizedMinor := cl_utilizedMinor c - amount, cl_updatedAt := now\<rparr>) s t) \<Longrightarrow> E e t"
  shows "wp (RiskService_releaseUtilization k v) Q E s"
proof (cases "jmGet (rs_creditLines (riskState s)) k")
  case None
  then show ?thesis by (simp add: RiskService_releaseUtilization_def wp_simps E)
next
  case c: (Some c)
  have tail: "wp (thenM (updateLine k (\<lambda>c'. c'\<lparr>cl_utilizedMinor := cl_utilizedMinor c - amount, cl_updatedAt := now\<rparr>))
      (thenM (lineEvent k ty p) (RiskService_requireCreditLine k))) Q E (s\<lparr>clockCount := Suc (clockCount s)\<rparr>)"
    if "assertPositiveMinorUnits amountMinorName v = Inr amount" "cl_status c \<noteq> Line_CLOSED" "amount \<le> cl_utilizedMinor c"
    for amount now ty p
    by (rule wp_lineTail [OF log_newDate], simp add: c, erule Q [OF that(1) c that(2,3)], rule E)
      (use that c in blast)
  show ?thesis
    unfolding RiskService_releaseUtilization_def Let_def wp_bindM [where m = "RiskService_requireCreditLine _"] wp_requireCreditLine c option.case
      wp_thenM [where m = "throwIf _ _ _"] wp_throwIf wp_bindM [where m = "liftR _"] wp_liftR wp_bindM [where m = newDate] wp_newDate
    by (auto simp: c not_less intro!: E tail split: sum.split)
qed

lemma since_reserveLine: "preserves (risk_since S) (RiskService_reserveUtilization k v)"
proof (rule preservesI)
  fix s :: "'a risk_world_scheme"
  assume since: "risk_since S s"
  have step: "risk_since S t"
    if "jmGet (rs_creditLines (riskState s)) k = Some c" "assertPositiveMinorUnits amountMinorName v = Inr amount"
      "cl_status c = Line_APPROVED" "cl_utilizedMinor c + amount \<le> cl_limitMinor c"
      "line_changed k (\<lambda>c'. c'\<lparr>cl_utilizedMinor := cl_utilizedMinor c + amount, cl_updatedAt := now\<rparr>) s t" for t c amount now
    using risk_invD [OF _ that(1)] since that
    by (intro line_changed_since [OF since that(5,1)]) (auto simp: risk_since_def line_ok_def line_moves_def assertPositive_Inr)
  show "wp (RiskService_reserveUtilization k v) (\<lambda>_. risk_since S) (\<lambda>_. risk_since S) s"
    by (rule wp_reserveLine) (use since step in blast)+
qed

lemma since_releaseLine: "preserves (risk_since S) (RiskService_releaseUtilization k v)"
proof (rule preservesI)
  fix s :: "'a risk_world_scheme"
  assume since: "risk_since S s"
  have step: "risk_since S t"
    if "jmGet (rs_creditLines (riskState s)) k = Some c" "assertPositiveMinorUnits amountMinorName v = Inr amount"
      "cl_status c \<noteq> Line_CLOSED" "amount \<le> cl_utilizedMinor c"
      "line_changed k (\<lambda>c'. c'\<lparr>cl_utilizedMinor := cl_utilizedMinor c - amount, cl_updatedAt := now\<rparr>) s t" for t c amount now
    using risk_invD [OF _ that(1)] since that
    by (intro line_changed_since [OF since that(5,1)]) (auto simp: risk_since_def line_ok_def line_moves_def assertPositive_Inr)
  show "wp (RiskService_releaseUtilization k v) (\<lambda>_. risk_since S) (\<lambda>_. risk_since S) s"
    by (rule wp_releaseLine) (use since step in blast)+
qed

lemma since_adjustLine: "preserves (risk_since S) (RiskService_adjustCreditLine k v admin reason)"
proof (rule preservesI)
  fix s :: "'a risk_world_scheme"
  assume since: "risk_since S s"
  have step: "risk_since S t"
    if "jmGet (rs_creditLines (riskState s)) k = Some c" "\<not> limit < cl_utilizedMinor c"
      "line_changed k (\<lambda>c'. c'\<lparr>cl_limitMinor := limit, cl_updatedAt := now\<rparr>) s t" for t c limit now
    using risk_invD [OF _ that(1)] since that
    by (intro line_changed_since [OF since that(3,1)]) (auto simp: risk_since_def line_ok_def line_moves_def)
  have tail: "wp (thenM (updateLine k (\<lambda>c'. c'\<lparr>cl_limitMinor := limit, cl_updatedAt := now\<rparr>)) (thenM (lineEvent k ty p)
      (thenM (emitAuditEvent a b d e' r q n) (RiskService_requireCreditLine k)))) (\<lambda>_. risk_since S) (\<lambda>_. risk_since S)
      (s\<lparr>clockCount := Suc (clockCount s)\<rparr>)"
    if "jmGet (rs_creditLines (riskState s)) k = Some c" "\<not> limit < cl_utilizedMinor c" for c limit now ty p a b d e' r q n
    by (rule wp_lineTailAudit [OF log_newDate]) (use that step in auto)
  show "wp (RiskService_adjustCreditLine k v admin reason) (\<lambda>_. risk_since S) (\<lambda>_. risk_since S) s"
    unfolding RiskService_adjustCreditLine_def Let_def wp_bindM [where m = "RiskService_requireCreditLine _"] wp_requireCreditLine
      wp_thenM [where m = "throwIf _ _ _"] wp_throwIf wp_bindM [where m = "liftR _"] wp_liftR wp_bindM [where m = newDate] wp_newDate
    by (simp add: since tail split: sum.split option.split)
qed

lemma since_lineStatus:
  assumes "st \<noteq> Line_APPROVED"
  shows "preserves (risk_since S) (RiskService_setCreditLineStatus k st admin reason)"
proof (rule preservesI)
  fix s :: "'a risk_world_scheme"
  assume since: "risk_since S s"
  have step: "risk_since S t"
    if "jmGet (rs_creditLines (riskState s)) k = Some c" "cl_status c \<noteq> Line_CLOSED"
      "line_changed k (\<lambda>c'. c'\<lparr>cl_status := st, cl_updatedAt := now\<rparr>) s t" for t c now
    using risk_invD [OF _ that(1)] since that assms
    by (intro line_changed_since [OF since that(3,1)]) (auto simp: risk_since_def line_ok_def line_moves_def)
  have tail: "wp (thenM (updateLine k (\<lambda>c'. c'\<lparr>cl_status := st, cl_updatedAt := now\<rparr>)) (thenM (lineEvent k ty p)
      (thenM (emitAuditEvent a b d e' r q n) (RiskService_requireCreditLine k)))) (\<lambda>_. risk_since S) (\<lambda>_. risk_since S)
      (s\<lparr>clockCount := Suc (clockCount s)\<rparr>)"
    if "jmGet (rs_creditLines (riskState s)) k = Some c" "cl_status c \<noteq> Line_CLOSED" for c now ty p a b d e' r q n
    by (rule wp_lineTailAudit [OF log_newDate]) (use that step in auto)
  show "wp (RiskService_setCreditLineStatus k st admin reason) (\<lambda>_. risk_since S) (\<lambda>_. risk_since S) s"
    unfolding RiskService_setCreditLineStatus_def Let_def wp_bindM [where m = "RiskService_requireCreditLine _"] wp_requireCreditLine
      wp_thenM [where m = "throwIf _ _ _"] wp_throwIf wp_bindM [where m = "liftR _"] wp_liftR wp_bindM [where m = newDate] wp_newDate
      wp_if wp_returnM
    by (simp add: since tail split: sum.split option.split)
qed

lemma wp_case_error [wp_simps]:
  "wp (case e of DomainError c m \<Rightarrow> f c m | NativeError m \<Rightarrow> g m) Q E =
    (\<lambda>s. case e of DomainError c m \<Rightarrow> wp (f c m) Q E s | NativeError m \<Rightarrow> wp (g m) Q E s)"
  by (cases e) auto

definition creditAuthorized :: "string \<Rightarrow> js \<Rightarrow> string \<Rightarrow> int \<Rightarrow> 'z risk_world_scheme \<Rightarrow> bool" where
  "creditAuthorized subj mid asset limit s \<longleftrightarrow> rs_hasAuthorization (riskState s) \<and>
     (\<exists>k m. assertNonEmptyString ''mandateId'' mid = Inr k \<and> jmGet (ms_mandates (mandateState s)) k = Some m \<and>
        authorizes (creditAuthorization subj mid asset limit) (nowValue s None) m)"

lemma wp_authorize:
  assumes Q: "\<And>t v'. mandate_frame s t \<Longrightarrow> v' = v \<and> creditAuthorized subj mid asset limit s \<or> fst (snd v') \<noteq> Line_APPROVED \<Longrightarrow> Q v' t"
    and E: "\<And>e t. mandate_frame s t \<Longrightarrow> E e t"
  shows "wp (RiskService_authorize subj mid asset limit v) Q E s"
proof -
  obtain reasons status action where v: "v = (reasons, status, action)" by (cases v)
  have caught: "wp (case e of NativeError m \<Rightarrow> throwM e | DomainError c m \<Rightarrow>
      (case v of (reasons, status, action) \<Rightarrow> returnM (reasons @ [(c, error_message e)],
         if status = Line_APPROVED then Line_REJECTED else status, action))) Q E t" if "mandate_frame s t" for e t
    using Q E that by (cases e) (auto simp: wp_simps v)
  have auth: "wp (MandateService_assertAuthorized (creditAuthorization subj mid asset limit)) (\<lambda>_. Q v)
      (\<lambda>e. wp (case e of NativeError m \<Rightarrow> throwM e | DomainError c m \<Rightarrow>
      (case v of (reasons, status, action) \<Rightarrow> returnM (reasons @ [(c, error_message e)],
         if status = Line_APPROVED then Line_REJECTED else status, action))) Q E) s" if "rs_hasAuthorization (riskState s)"
  proof (rule wp_assertAuthorized)
    fix t k m
    assume "log_ext s t" "assertNonEmptyString ''mandateId'' (au_mandateId (creditAuthorization subj mid asset limit)) = Inr k"
      "jmGet (ms_mandates (mandateState s)) k = Some m"
      "authorizes (creditAuthorization subj mid asset limit) (nowValue s (au_now (creditAuthorization subj mid asset limit))) m"
    then show "Q v t"
      using that by (intro Q [OF log_mandate_frame]) (auto simp: creditAuthorized_def creditAuthorization_def)
  qed (rule caught, auto simp: mandate_kept_def status_changed_def)
  show ?thesis
    unfolding RiskService_authorize_def wp_catchM wp_bindM wp_getsM wp_thenM wp_throwIf wp_returnM
    using auth caught [OF mandate_frame_refl,
      of "DomainError ''authorization_unavailable'' ''authorization service is unavailable''"] by simp
qed

text \<open>The outcome of a decision with status \<open>st\<close> taken in state \<open>u\<close>.\<close>

definition touched :: "string \<Rightarrow> js \<Rightarrow> int \<Rightarrow> credit_line \<Rightarrow> credit_line" where
  "touched snapshot mid now c = c\<lparr>cl_riskSnapshotId := snapshot, cl_mandateId := mid, cl_updatedAt := now\<rparr>"

definition line_outcome ::
  "CreditLineStatus \<Rightarrow> string \<Rightarrow> js \<Rightarrow> string \<Rightarrow> int \<Rightarrow> int \<Rightarrow> string set \<Rightarrow> risk_state \<Rightarrow> credit_line option \<Rightarrow> risk_state \<Rightarrow> bool" where
  "line_outcome st subj mid asset avail outst I S line S' \<longleftrightarrow>
     (if st \<noteq> Line_APPROVED then line = None \<and> S' = S
      else case jmGet (rs_idsBySubjectAsset S) (subjectAssetKey subj asset) of
        None \<Rightarrow> (\<exists>c. line = Some c \<and> cl_creditLineId c \<notin> I \<and> cl_subjectId c = subj \<and> cl_assetId c = asset \<and>
          cl_mandateId c = mid \<and> cl_limitMinor c = avail \<and> cl_utilizedMinor c = 0 \<and> cl_status c = Line_APPROVED \<and>
          S' = addLine c S)
      | Some i \<Rightarrow> (\<exists>c snapshot now. jmGet (rs_creditLines S) i = Some c \<and> cl_status c \<noteq> Line_CLOSED \<and>
          cl_utilizedMinor c = outst \<and> line = Some (touched snapshot mid now c) \<and>
          S' = rs_creditLines_update (jmModify i (touched snapshot mid now)) S))"

definition decided ::
  "CreditLineStatus \<Rightarrow> string \<Rightarrow> js \<Rightarrow> string \<Rightarrow> int \<Rightarrow> int \<Rightarrow> 'z risk_world_scheme \<Rightarrow> risk_result \<Rightarrow> 'z risk_world_scheme \<Rightarrow> bool" where
  "decided st subj mid asset avail outst u res t \<longleftrightarrow> risk_frame u t \<and> mandateState t = mandateState u \<and>
     rd_status (rr_decision res) = st \<and>
     (\<forall>c. rr_creditLine res = Some c \<longrightarrow> cl_creditLineId c \<in> issued t ''credit_line'') \<and>
     (\<exists>g. line_outcome st subj mid asset avail outst (issued u ''credit_line'') (rs_decisions_update g (riskState u))
        (rr_creditLine res) (riskState t))"

lemma decided_log:
  assumes "decided st subj mid asset avail outst u res t" and "log_ext t t'"
  shows "decided st subj mid asset avail outst u res t'"
  using assms log_ext_issued [OF assms(2), of "''credit_line''"] risk_frame_log [OF _ assms(2)]
    log_ext_risk [OF assms(2)] log_ext_mandates [OF assms(2)]
  unfolding decided_def by (simp add: subset_eq)

lemma wp_decisionEvents:
  assumes "\<And>t. log_ext u t \<Longrightarrow> Q \<lparr>rr_decision = d, rr_creditLine = c\<rparr> t" and "\<And>e t. log_ext u t \<Longrightarrow> E e t"
  shows "wp (RiskService_decisionEvents subj d c granted) Q E u"
  unfolding RiskService_decisionEvents_def wp_bindM wp_getsM wp_thenM
proof (rule wp_emitI)
  fix t assume t: "log_ext u t"
  have done_: "Q \<lparr>rr_decision = d, rr_creditLine = c\<rparr> t'" "E e t'" if "log_ext t t'" for t' e
    using assms log_ext_trans [OF t that] by blast+
  show "wp (case c of None \<Rightarrow> returnM () | Some c' \<Rightarrow> whenM granted (emitCreditEvent (a c')))
      (\<lambda>_. wp (returnM \<lparr>rr_decision = d, rr_creditLine = c\<rparr>) Q E) E t" for a
    using done_ log_ext_refl [of t] by (cases c; cases granted) (auto simp: wp_simps intro!: wp_emitI)
qed (rule assms)

lemma opId_later: "uuid_unique (rt s) \<Longrightarrow> uuidCount s \<le> n \<Longrightarrow> opId (rt s) p n \<notin> issued s p"
  by (auto simp: issued_def opId_inj)

lemma decided_since:
  assumes since: "risk_since S u" and dec: "decided st subj mid asset avail outst u res t"
    and avail: "st = Line_APPROVED \<Longrightarrow> 0 \<le> avail"
  shows "risk_since S t"
proof (rule risk_since_step [OF since])
  show fr: "risk_frame u t" using dec by (simp add: decided_def)
  have sub: "issued u ''credit_line'' \<subseteq> issued t ''credit_line''" by (rule risk_frame_issued [OF fr])
  obtain g where out: "line_outcome st subj mid asset avail outst (issued u ''credit_line'') (rs_decisions_update g (riskState u))
        (rr_creditLine res) (riskState t)" using dec by (auto simp: decided_def)
  have ok: "risk_ok (issued u ''credit_line'') (rs_decisions_update g (riskState u))"
    using since by (simp add: risk_since_def risk_inv_def)
  have "risk_ok (issued t ''credit_line'') (riskState t) \<and> lines_evolve (riskState u) (riskState t)"
  proof (cases "st = Line_APPROVED")
    case False
    then have t: "riskState t = rs_decisions_update g (riskState u)" using out by (simp add: line_outcome_def)
    show ?thesis unfolding t using risk_ok_mono [OF ok sub] by (simp add: lines_evolve_def)
  next
    case approved: True
    show ?thesis
    proof (cases "jmGet (rs_idsBySubjectAsset (riskState u)) (subjectAssetKey subj asset)")
      case None
      have "line_outcome Line_APPROVED subj mid asset avail outst (issued u ''credit_line'') (rs_decisions_update g (riskState u))
        (rr_creditLine res) (riskState t)" using out approved by simp
      then obtain c where c: "rr_creditLine res = Some c" "cl_creditLineId c \<notin> issued u ''credit_line''"
        "subjectAssetKey (cl_subjectId c) (cl_assetId c) = subjectAssetKey subj asset" "cl_limitMinor c = avail" "cl_utilizedMinor c = 0"
        and t: "riskState t = addLine c (rs_decisions_update g (riskState u))"
        unfolding line_outcome_def by (simp add: None) blast
      have "cl_creditLineId c \<in> issued t ''credit_line''" using dec c(1) by (simp add: decided_def)
      with sub have sub': "insert (cl_creditLineId c) (issued u ''credit_line'') \<subseteq> issued t ''credit_line''" by simp
      have "risk_ok (insert (cl_creditLineId c) (issued u ''credit_line'')) (riskState t)"
        unfolding t using c None avail [OF approved] by (intro risk_ok_add [OF ok]) auto
      then have "risk_ok (issued t ''credit_line'') (riskState t)" by (rule risk_ok_mono [OF _ sub'])
      moreover have "jmGet (rs_creditLines (riskState u)) (cl_creditLineId c) = None"
        using ok c(2) by (auto simp: risk_ok_def map_of_eq_None_iff)
      then have "lines_evolve (riskState u) (riskState t)" by (auto simp: t lines_evolve_def addLine_def)
      ultimately show ?thesis by simp
    next
      case (Some i)
      have "line_outcome Line_APPROVED subj mid asset avail outst (issued u ''credit_line'') (rs_decisions_update g (riskState u))
        (rr_creditLine res) (riskState t)" using out approved by simp
      then obtain c snapshot now where c: "jmGet (rs_creditLines (riskState u)) i = Some c"
        and t: "riskState t = rs_creditLines_update (jmModify i (touched snapshot mid now)) (rs_decisions_update g (riskState u))"
        unfolding line_outcome_def by (simp add: Some) blast
      have mv: "line_moves c (touched snapshot mid now c)" by (simp add: line_moves_def touched_def)
      have "line_ok (riskState u) i c" using since c by (auto simp: risk_since_def dest: risk_invD)
      then have "risk_ok (issued u ''credit_line'') (riskState t)"
        unfolding t using c mv by (intro risk_ok_modify [OF ok, where c = c]) (auto simp: line_ok_def touched_def)
      then have "risk_ok (issued t ''credit_line'') (riskState t)" by (rule risk_ok_mono [OF _ sub])
      moreover have "lines_evolve (riskState u) (riskState t)" using c mv by (auto simp: t lines_evolve_def)
      ultimately show ?thesis by simp
    qed
  qed
  then show "risk_ok (issued t ''credit_line'') (riskState t)" and "lines_evolve (riskState u) (riskState t)" by simp_all
qed

lemma wp_existingLine:
  assumes inv: "risk_inv u"
    and none: "jmGet (rs_idsBySubjectAsset (riskState u)) (subjectAssetKey subj asset) = None \<Longrightarrow> Q None u"
    and some: "\<And>i c. jmGet (rs_idsBySubjectAsset (riskState u)) (subjectAssetKey subj asset) = Some i \<Longrightarrow>
      jmGet (rs_creditLines (riskState u)) i = Some c \<Longrightarrow> cl_creditLineId c = i \<Longrightarrow>
      (st = Line_APPROVED \<Longrightarrow> cl_status c \<noteq> Line_CLOSED \<and> cl_utilizedMinor c = outst) \<Longrightarrow> Q (Some c) u"
    and E: "\<And>e. E e u"
  shows "wp (RiskService_existingLine subj asset outst st) Q E u"
proof (cases "jmGet (rs_idsBySubjectAsset (riskState u)) (subjectAssetKey subj asset)")
  case None
  then show ?thesis using none by (simp add: RiskService_existingLine_def wp_simps)
next
  case (Some i)
  with inv obtain c where c: "jmGet (rs_creditLines (riskState u)) i = Some c"
    unfolding risk_inv_def risk_ok_def by blast
  have "cl_creditLineId c = i" using risk_invD [OF inv c] by (simp add: line_ok_def)
  with Some c some [OF Some c] E show ?thesis by (simp add: RiskService_existingLine_def wp_simps)
qed

lemma wp_createRiskDecision:
  assumes "\<And>d. rd_riskDecisionId d = opId (rt u) ''risk_decision'' (uuidCount u) \<Longrightarrow> rd_status d = st \<Longrightarrow>
    Q d (u\<lparr>clockCount := Suc (clockCount u), uuidCount := Suc (uuidCount u)\<rparr>)"
  shows "wp (createRiskDecision subj mid asset st limit util action rs) Q E u"
  by (simp add: createRiskDecision_def wp_simps assms)

lemma wp_decide:
  assumes inv: "risk_inv u"
    and Q: "\<And>res t. decided st subj mid asset avail outst u res t \<Longrightarrow> Q res t"
    and E: "\<And>e t. risk_frame u t \<and> mandateState t = mandateState u \<and> riskState t = riskState u \<or>
      (\<exists>res. decided st subj mid asset avail outst u res t) \<Longrightarrow> E e t"
  shows "wp (RiskService_decide subj mid asset avail outst (reasons, st, action)) Q E u"
proof -
  have finish: "wp (RiskService_decisionEvents subj d line granted) Q E t"
    if "decided st subj mid asset avail outst u \<lparr>rr_decision = d, rr_creditLine = line\<rparr> t" for d line granted t
  proof (rule wp_decisionEvents)
    fix t' assume t': "log_ext t t'"
    note done_ = decided_log [OF that t']
    show "Q \<lparr>rr_decision = d, rr_creditLine = line\<rparr> t'" by (rule Q [OF done_])
    show "E e t'" for e by (rule E) (use done_ in blast)
  qed
  have uniq: "uuid_unique (rt u)" using inv by (simp add: risk_inv_def)
  let ?u1 = "u\<lparr>clockCount := Suc (clockCount u), uuidCount := Suc (uuidCount u)\<rparr>"
  let ?id = "opId (rt u) ''risk_decision'' (uuidCount u)"
  have grant: "wp (bindM (if st = Line_APPROVED
       then bindM (RiskService_grantLine subj mid asset avail existing ?id) (\<lambda>c. returnM (Some c)) else returnM None)
       (\<lambda>line. RiskService_decisionEvents subj d line (existing = None))) Q E (riskState_update (rs_decisions_update (jmSet ?id d)) ?u1)"
    if d: "rd_status d = st" and ex: "case existing of
        None \<Rightarrow> jmGet (rs_idsBySubjectAsset (riskState u)) (subjectAssetKey subj asset) = None
      | Some c \<Rightarrow> jmGet (rs_idsBySubjectAsset (riskState u)) (subjectAssetKey subj asset) = Some (cl_creditLineId c) \<and>
          jmGet (rs_creditLines (riskState u)) (cl_creditLineId c) = Some c \<and>
          (st = Line_APPROVED \<longrightarrow> cl_status c \<noteq> Line_CLOSED \<and> cl_utilizedMinor c = outst)" for d existing
  proof (cases "st = Line_APPROVED")
    case False
    then have "decided st subj mid asset avail outst u \<lparr>rr_decision = d, rr_creditLine = None\<rparr>
        (riskState_update (rs_decisions_update (jmSet ?id d)) ?u1)"
      using d by (auto simp: decided_def line_outcome_def risk_frame_def)
    from finish [OF this] False show ?thesis by (simp add: wp_bindM wp_returnM)
  next
    case True
    show ?thesis
    proof (cases existing)
      case None
      let ?c = "\<lparr>cl_creditLineId = opId (rt u) ''credit_line'' (Suc (uuidCount u)), cl_subjectId = subj, cl_mandateId = mid,
        cl_assetId = asset, cl_limitMinor = avail, cl_utilizedMinor = 0, cl_status = Line_APPROVED, cl_riskSnapshotId = ?id,
        cl_createdAt = rt_clock (rt u) (Suc (clockCount u)), cl_updatedAt = rt_clock (rt u) (Suc (clockCount u)),
        cl_schemaVersion = ''credit_line.v1''\<rparr>"
      let ?t = "riskState_update (\<lambda>S. addLine ?c (rs_decisions_update (jmSet ?id d) S))
        (u\<lparr>clockCount := Suc (Suc (clockCount u)), uuidCount := Suc (Suc (uuidCount u))\<rparr>)"
      have "cl_creditLineId ?c \<in> issued ?t ''credit_line''"
        using opId_issued [of "Suc (uuidCount u)" ?t "''credit_line''"] by simp
      moreover have "cl_creditLineId ?c \<notin> issued u ''credit_line''" using opId_later [OF uniq, of "Suc (uuidCount u)"] by simp
      ultimately have "decided st subj mid asset avail outst u \<lparr>rr_decision = d, rr_creditLine = Some ?c\<rparr> ?t"
        unfolding decided_def line_outcome_def using d ex None True
        by (intro conjI exI [of _ "jmSet ?id d"]) (auto simp: risk_frame_def)
      from finish [OF this, of True] None True show ?thesis
        unfolding RiskService_grantLine_def createCreditLine_def by (simp add: wp_simps addLine_def comp_def)
    next
      case (Some c)
      let ?i = "cl_creditLineId c" and ?now = "rt_clock (rt u) (Suc (clockCount u))"
      let ?t = "riskState_update (\<lambda>S. rs_creditLines_update (jmModify ?i (touched ?id mid ?now)) (rs_decisions_update (jmSet ?id d) S))
        (u\<lparr>uuidCount := Suc (uuidCount u), clockCount := Suc (Suc (clockCount u))\<rparr>)"
      have "?i \<in> issued u ''credit_line''" using inv ex Some jmGet_mem [of "rs_creditLines (riskState u)" ?i c]
        by (auto simp: risk_inv_def risk_ok_def)
      then have "?i \<in> issued ?t ''credit_line''" by (auto simp: issued_def)
      then have "decided st subj mid asset avail outst u \<lparr>rr_decision = d, rr_creditLine = Some (touched ?id mid ?now c)\<rparr> ?t"
        unfolding decided_def line_outcome_def using d ex Some True
        by (intro conjI exI [of _ "jmSet ?id d"]) (auto simp: risk_frame_def touched_def)
      from finish [OF this, of False] Some True ex show ?thesis
        unfolding RiskService_grantLine_def updateLine_def by (simp add: wp_simps touched_def [abs_def] comp_def)
    qed
  qed
  have cont: "wp (bindM (createRiskDecision subj mid asset st l x action rs) (\<lambda>decision.
       thenM (modifyM (riskState_update (rs_decisions_update (jmSet (rd_riskDecisionId decision) decision))))
       (bindM (if st = Line_APPROVED then bindM (RiskService_grantLine subj mid asset avail existing (rd_riskDecisionId decision))
         (\<lambda>c. returnM (Some c)) else returnM None)
       (\<lambda>line. RiskService_decisionEvents subj decision line (existing = None))))) Q E u"
    if "case existing of
        None \<Rightarrow> jmGet (rs_idsBySubjectAsset (riskState u)) (subjectAssetKey subj asset) = None
      | Some c \<Rightarrow> jmGet (rs_idsBySubjectAsset (riskState u)) (subjectAssetKey subj asset) = Some (cl_creditLineId c) \<and>
          jmGet (rs_creditLines (riskState u)) (cl_creditLineId c) = Some c \<and>
          (st = Line_APPROVED \<longrightarrow> cl_status c \<noteq> Line_CLOSED \<and> cl_utilizedMinor c = outst)" for l x rs existing
    unfolding wp_bindM [where m = "createRiskDecision _ _ _ _ _ _ _ _"]
    by (rule wp_createRiskDecision)
      (simp only: wp_thenM wp_modifyM, rule grant [OF _ that])
  show ?thesis
    unfolding RiskService_decide_def prod.case wp_bindM [where m = "RiskService_existingLine _ _ _ _"]
    by (rule wp_existingLine [OF inv]; (rule cont | rule E); simp)
qed

lemma verdictIf_status:
  "fst (snd (verdictIf bad c m st act v)) = (if bad then st else fst (snd v))"
  by (cases v) simp

lemma riskChecks_approved:
  "fst (snd (riskChecks inputs)) = Line_APPROVED \<longleftrightarrow>
     ri_lockboxStatus inputs = JStr ''active'' \<and> ri_principalStatus inputs = JStr ''active'' \<and>
     0 < opt_or (ri_allowlistedProviderCount inputs) 0 \<and> opt_or (ri_overdueCount inputs) 0 \<le> 0 \<and>
     9000 \<le> opt_or (ri_revenueCaptureRatioBps inputs) 10000"
  unfolding riskChecks_def verdictIf_status by (simp add: not_less)

lemma riskConclude_approved:
  "fst (snd (riskConclude limit v)) = Line_APPROVED \<longleftrightarrow> fst (snd v) = Line_APPROVED \<and> 0 < limit"
  by (cases v) (auto simp: riskConclude_def)

lemma minBigInt_Min: "minBigInt (x # xs) = Min (insert x (set xs))"
proof (induction xs arbitrary: x)
  case (Cons y ys)
  have "minBigInt (x # y # ys) = minBigInt ((if y < x then y else x) # ys)" by simp
  also have "\<dots> = min (min x y) (if ys = [] then min x y else Min (set ys))" by (subst Cons) (simp add: min_def)
  also have "\<dots> = Min (insert x (insert y (set ys)))" by (auto simp: min_def)
  finally show ?case by simp
qed simp

text \<open>
  The bounds of a limit, with the outstanding amount added back: the advance on the revenue of thirty and of seven days,
  the cap of a subject, and what is left of the caps of the chain and of the provider, each of which is the subject's cap
  when it is not given. The gross limit is the least of the five.
\<close>

definition limit_backed :: "risk_state \<Rightarrow> risk_inputs \<Rightarrow> int \<Rightarrow> int \<Rightarrow> bool" where
  "limit_backed S inputs limit outst \<longleftrightarrow> 0 < limit \<and> 0 \<le> outst \<and>
     assertNonNegativeMinorUnits ''existingOutstandingMinor'' (js_coalesce (ri_existingOutstandingMinor inputs) (JStr ''0'')) = Inr outst \<and>
     (\<exists>c30 c7 chain prov.
       assertNonNegativeMinorUnits ''capturedRevenue30dMinor'' (js_coalesce (ri_capturedRevenue30dMinor inputs) (JStr ''0'')) = Inr c30 \<and>
       assertNonNegativeMinorUnits ''capturedRevenue7dMinor'' (js_coalesce (ri_capturedRevenue7dMinor inputs) (JStr ''0'')) = Inr c7 \<and>
       assertNonNegativeMinorUnits ''perChainCapRemainingMinor''
         (js_coalesce (ri_perChainCapRemainingMinor inputs) (JStr (dec (rs_globalSubjectCapMinor S)))) = Inr chain \<and>
       assertNonNegativeMinorUnits ''providerCapRemainingMinor''
         (js_coalesce (ri_providerCapRemainingMinor inputs) (JStr (dec (rs_globalSubjectCapMinor S)))) = Inr prov \<and>
       limit + outst = Min {bigIntDiv (c30 * rs_advanceRate30dBps S) 10000, bigIntDiv (c7 * rs_advanceRate7dBps S) 10000,
         rs_globalSubjectCapMinor S, chain, prov})"

lemma riskLimit_Inr:
  assumes "riskLimit S inputs = Inr (limit, outst)"
  shows "0 \<le> limit \<and> 0 \<le> outst \<and> (0 < limit \<longrightarrow> limit_backed S inputs limit outst)"
proof -
  from assms obtain c30 c7 chain prov where
    c: "assertNonNegativeMinorUnits ''capturedRevenue30dMinor'' (js_coalesce (ri_capturedRevenue30dMinor inputs) (JStr ''0'')) = Inr c30"
      "assertNonNegativeMinorUnits ''capturedRevenue7dMinor'' (js_coalesce (ri_capturedRevenue7dMinor inputs) (JStr ''0'')) = Inr c7"
      "assertNonNegativeMinorUnits ''perChainCapRemainingMinor''
        (js_coalesce (ri_perChainCapRemainingMinor inputs) (JStr (dec (rs_globalSubjectCapMinor S)))) = Inr chain"
      "assertNonNegativeMinorUnits ''providerCapRemainingMinor''
        (js_coalesce (ri_providerCapRemainingMinor inputs) (JStr (dec (rs_globalSubjectCapMinor S)))) = Inr prov"
    and o: "assertNonNegativeMinorUnits ''existingOutstandingMinor'' (js_coalesce (ri_existingOutstandingMinor inputs) (JStr ''0'')) = Inr outst"
    and limit: "limit = (let g = minBigInt [bigIntDiv (c30 * rs_advanceRate30dBps S) 10000, bigIntDiv (c7 * rs_advanceRate7dBps S) 10000,
      rs_globalSubjectCapMinor S, chain, prov] in if g > outst then g - outst else 0)"
    unfolding riskLimit_def Let_def by (auto simp: bindR_Inr simp del: minBigInt.simps)
  have "limit + outst = Min {bigIntDiv (c30 * rs_advanceRate30dBps S) 10000, bigIntDiv (c7 * rs_advanceRate7dBps S) 10000,
      rs_globalSubjectCapMinor S, chain, prov}" if "0 < limit"
    using that unfolding limit Let_def minBigInt_Min by (simp split: if_splits)
  moreover have pos: "0 \<le> outst" using o by (simp add: assertNonNegative_Inr)
  ultimately have "0 < limit \<Longrightarrow> limit_backed S inputs limit outst"
    unfolding limit_backed_def using c o by blast
  moreover have "0 \<le> limit" by (simp add: limit Let_def del: minBigInt.simps)
  ultimately show ?thesis using pos by blast
qed

lemma wp_requestCreditLine:
  assumes inv: "risk_inv s"
    and Q: "\<And>limit outst v u res t. riskLimit (riskState s) inputs = Inr (limit, outst) \<Longrightarrow> mandate_frame s u \<Longrightarrow>
      v = riskChecks inputs \<and> creditAuthorized subj mid asset limit s \<or> fst (snd v) \<noteq> Line_APPROVED \<Longrightarrow>
      decided (fst (snd (riskConclude limit v))) subj mid asset limit outst u res t \<Longrightarrow> Q res t"
    and E: "\<And>e t. mandate_frame s t \<or> (\<exists>u. mandate_frame s u \<and> (risk_frame u t \<and> riskState t = riskState u \<or>
      (\<exists>limit outst v res. riskLimit (riskState s) inputs = Inr (limit, outst) \<and>
        decided (fst (snd (riskConclude limit v))) subj mid asset limit outst u res t))) \<Longrightarrow> E e t"
  shows "wp (RiskService_requestCreditLine subj mid asset inputs) Q E s"
proof (cases "riskLimit (riskState s) inputs")
  case (Inl e)
  then show ?thesis unfolding RiskService_requestCreditLine_def using E [OF disjI1 [OF mandate_frame_refl]] by (simp add: wp_simps)
next
  case (Inr p)
  obtain limit outst where lim: "riskLimit (riskState s) inputs = Inr (limit, outst)" using Inr by (cases p) auto
  have decide: "wp (RiskService_decide subj mid asset limit outst (riskConclude limit v)) Q E u"
    if u: "mandate_frame s u" and v: "v = riskChecks inputs \<and> creditAuthorized subj mid asset limit s \<or> fst (snd v) \<noteq> Line_APPROVED"
    for v u
  proof -
    obtain reasons st action where c: "riskConclude limit v = (reasons, st, action)" by (cases "riskConclude limit v")
    have inv': "risk_inv u"
      using risk_since_mandate [OF _ u, of "riskState s"] inv by (simp add: risk_since_def)
    have q: "Q res t" if "decided st subj mid asset limit outst u res t" for res t
      by (rule Q [OF lim u v]) (use that c in simp)
    have "decided (fst (snd (riskConclude limit v))) subj mid asset limit outst u res t"
      if "decided st subj mid asset limit outst u res t" for res t using that c by simp
    then have e: "E e t" if "risk_frame u t \<and> mandateState t = mandateState u \<and> riskState t = riskState u \<or>
      (\<exists>res. decided st subj mid asset limit outst u res t)" for e t
      using that E u lim by blast
    show ?thesis unfolding c by (rule wp_decide [OF inv' q e])
  qed
  show ?thesis
    unfolding RiskService_requestCreditLine_def wp_bindM [where m = "getsM _"] wp_getsM wp_bindM [where m = "liftR _"] wp_liftR lim
      sum.case prod.case wp_bindM [where m = "RiskService_authorize _ _ _ _ _"]
    by (rule wp_authorize; (rule decide | rule E); simp)
qed

lemma since_requestCreditLine: "preserves (risk_since S) (RiskService_requestCreditLine subj mid asset inputs)"
proof (rule preservesI)
  fix s :: "'a risk_world_scheme"
  assume since: "risk_since S s"
  have inv: "risk_inv s" using since by (simp add: risk_since_def)
  have step: "risk_since S t" if "mandate_frame s u" "riskLimit (riskState s) inputs = Inr (limit, outst)"
      "decided st subj mid asset limit outst u res t" for u limit outst st res t
    by (rule decided_since [OF risk_since_mandate [OF since that(1)] that(3)]) (use riskLimit_Inr [OF that(2)] in simp)
  have kept: "risk_since S t" if "mandate_frame s u" "risk_frame u t" "riskState t = riskState u" for u t
    by (rule risk_since_kept [OF risk_since_mandate [OF since that(1)] that(2,3)])
  show "wp (RiskService_requestCreditLine subj mid asset inputs) (\<lambda>_. risk_since S) (\<lambda>_. risk_since S) s"
    by (rule wp_requestCreditLine [OF inv]) (use step kept risk_since_mandate [OF since] in blast)+
qed

subsection \<open>Reachable credit lines\<close>

inductive risk_step :: "'z risk_world_scheme \<Rightarrow> 'z risk_world_scheme \<Rightarrow> bool" where
  request: "RiskService_requestCreditLine subj mid asset inputs s = (res, t) \<Longrightarrow> risk_step s t"
| reserve: "RiskService_reserveUtilization k v s = (r, t) \<Longrightarrow> risk_step s t"
| release: "RiskService_releaseUtilization k v s = (r, t) \<Longrightarrow> risk_step s t"
| adjust: "RiskService_adjustCreditLine k v admin reason s = (r, t) \<Longrightarrow> risk_step s t"
| freeze: "RiskService_freezeCreditLine k admin reason s = (r, t) \<Longrightarrow> risk_step s t"
| close: "RiskService_closeCreditLine k admin reason s = (r, t) \<Longrightarrow> risk_step s t"
| other: "risk_frame s t \<Longrightarrow> riskState t = riskState s \<Longrightarrow> risk_step s t"

lemma risk_since_stepI: "risk_since S s \<Longrightarrow> risk_step s t \<Longrightarrow> risk_since S t"
  by (erule risk_step.cases)
    (auto simp: RiskService_freezeCreditLine_def RiskService_closeCreditLine_def
      intro: since_requestCreditLine [THEN preserves_run] since_reserveLine [THEN preserves_run]
        since_releaseLine [THEN preserves_run] since_adjustLine [THEN preserves_run]
        since_lineStatus [THEN preserves_run, rotated] risk_since_kept)

interpretation risk_ts: transition_system risk_step "risk_since S" for S
  by unfold_locales (rule risk_since_stepI)

definition risk_init :: "'z risk_world_scheme \<Rightarrow> bool" where
  "risk_init s \<longleftrightarrow> uuid_unique (rt s) \<and> rs_creditLines (riskState s) = [] \<and> rs_idsBySubjectAsset (riskState s) = []"

lemma risk_init_inv: "risk_init s \<Longrightarrow> risk_inv s"
  by (simp add: risk_init_def risk_inv_def risk_ok_def)

lemma risk_since_refl: "risk_inv s \<Longrightarrow> risk_since (riskState s) s"
  by (simp add: risk_since_def)

subsection \<open>A concrete credit line\<close>

definition demo_line :: credit_line where
  "demo_line = \<lparr>cl_creditLineId = ''credit_line_'', cl_subjectId = ''s1'', cl_mandateId = JStr ''mandate_'', cl_assetId = ''USDC'',
     cl_limitMinor = 1000, cl_utilizedMinor = 200, cl_status = Line_APPROVED, cl_riskSnapshotId = ''risk_decision_'',
     cl_createdAt = 0, cl_updatedAt = 0, cl_schemaVersion = ''credit_line.v1''\<rparr>"

definition demo_lines :: "CreditLineStatus \<Rightarrow> risk_state" where
  "demo_lines st = \<lparr>rs_hasAuthorization = True, rs_globalSubjectCapMinor = 1000000, rs_advanceRate30dBps = 3000,
     rs_advanceRate7dBps = 9000, rs_creditLines = [(''credit_line_'', demo_line\<lparr>cl_status := st\<rparr>)],
     rs_idsBySubjectAsset = [(subjectAssetKey ''s1'' ''USDC'', ''credit_line_'')], rs_decisions = []\<rparr>"

definition demo_credit :: "CreditLineStatus \<Rightarrow> risk_world" where
  "demo_credit st = \<lparr>rt = demo_runtime, uuidCount = 1, clockCount = 0, creditEvents = [], auditEvents = [],
     seenCreditIds = [], seenAuditIds = [], evidenceEnvelopes = [], aggregateVersions = [],
     ledger = ledger_empty, lockboxes = [], obligationState = \<lparr>os_obligations = [], os_repayments = []\<rparr>,
     mandateState = mandateState demo_mandates, riskState = demo_lines st\<rparr>"

lemma demo_credit_inv: "risk_inv (demo_credit st)"
proof -
  have "issued (demo_credit st) ''credit_line'' = {''credit_line_''}"
    by (auto simp: issued_def demo_credit_def eval_simps lessThan_Suc)
  then show ?thesis
    by (simp add: risk_inv_def risk_ok_def line_ok_def demo_credit_def demo_lines_def demo_line_def)
qed

definition demo_inputs :: risk_inputs where
  "demo_inputs = \<lparr>ri_lockboxStatus = JStr ''active'', ri_principalStatus = JStr ''active'', ri_allowlistedProviderCount = Some 1,
     ri_overdueCount = None, ri_revenueCaptureRatioBps = None, ri_capturedRevenue30dMinor = JStr ''1600'',
     ri_capturedRevenue7dMinor = JStr ''600'', ri_existingOutstandingMinor = JStr ''200'', ri_perChainCapRemainingMinor = JUndefined,
     ri_providerCapRemainingMinor = JUndefined\<rparr>"

lemma demo_reported:
  "assertNonNegativeMinorUnits n (JStr ''1600'') = Inr 1600" "assertNonNegativeMinorUnits n (JStr ''600'') = Inr 600"
  "assertNonNegativeMinorUnits n (JStr ''200'') = Inr 200"
  "assertPositiveMinorUnits n (JStr (dec 280)) = Inr 280"
  "assertNonNegativeMinorUnits n (JStr (dec 1000000)) = Inr 1000000"
  by (code_simp, code_simp, code_simp) (simp_all add: assertNonNegative_Inr assertPositive_Inr toMinorUnit_print)

lemma demo_limit: "riskLimit (demo_lines st) demo_inputs = Inr (280, 200)"
  by (simp add: riskLimit_def demo_lines_def demo_inputs_def demo_reported bigIntDiv_def)

lemma demo_checks: "riskChecks demo_inputs = ([], Line_APPROVED, RiskAction_NONE)"
  by (simp add: riskChecks_def demo_inputs_def opt_or_def)

lemma demo_authorized:
  "RiskService_authorize ''s1'' (JStr ''mandate_'') ''USDC'' 280 v (demo_credit st) = (Inr v, (demo_credit st)\<lparr>clockCount := 1\<rparr>)"
  by (simp add: RiskService_authorize_def MandateService_assertAuthorized_def MandateService_requireMandate_def checkMandate_def
      checkScope_def checkAmount_def creditAuthorization_def demo_reported demo_credit_def demo_lines_def demo_mandates_def
      demo_mandate_def assertEnumValue_def MandateCapability_values_def eval_simps cong: eval_congs)

lemma demo_request:
  assumes "st \<noteq> Line_CLOSED"
  shows "\<exists>res t. RiskService_requestCreditLine ''s1'' (JStr ''mandate_'') ''USDC'' demo_inputs (demo_credit st) = (Inr res, t) \<and>
    rd_status (rr_decision res) = Line_APPROVED \<and> rr_creditLine res = Some (touched ''risk_decision_u'' (JStr ''mandate_'') 2 (demo_line\<lparr>cl_status := st\<rparr>)) \<and>
    jmGet (rs_creditLines (riskState t)) ''credit_line_'' = rr_creditLine res"
proof -
  have "riskState (demo_credit st) = demo_lines st" by (simp add: demo_credit_def)
  then have "RiskService_requestCreditLine ''s1'' (JStr ''mandate_'') ''USDC'' demo_inputs (demo_credit st) =
      RiskService_decide ''s1'' (JStr ''mandate_'') ''USDC'' 280 200
        ([(''approved_by_rules_v0'', ''Deterministic v0 rules approved the request.'')], Line_APPROVED, RiskAction_NONE)
        ((demo_credit st)\<lparr>clockCount := 1\<rparr>)"
    by (simp add: RiskService_requestCreditLine_def bindM_def getsM_def liftR_def demo_limit demo_checks demo_authorized riskConclude_def)
  with assms show ?thesis
    by (simp add: RiskService_decide_def RiskService_existingLine_def RiskService_requireCreditLine_def createRiskDecision_def
      RiskService_grantLine_def RiskService_decisionEvents_def updateLine_def risk_decision_js_def credit_line_fields_def
      demo_credit_def demo_lines_def demo_line_def jmModify_def touched_def eval_simps cong: eval_congs)
qed

text \<open>The line of an approved decision.\<close>

lemma line_outcome_line:
  assumes inv: "risk_inv s" and out: "line_outcome st subj mid asset limit outst I (rs_decisions_update g (riskState s)) line S'"
    and st: "st = Line_APPROVED"
  shows "\<exists>c. line = Some c \<and> jmGet (rs_creditLines S') (cl_creditLineId c) = Some c \<and>
    subjectAssetKey (cl_subjectId c) (cl_assetId c) = subjectAssetKey subj asset \<and>
    (case jmGet (rs_idsBySubjectAsset (riskState s)) (subjectAssetKey subj asset) of
       None \<Rightarrow> cl_limitMinor c = limit \<and> cl_utilizedMinor c = 0 \<and> cl_status c = Line_APPROVED
     | Some i \<Rightarrow> (\<exists>c0. jmGet (rs_creditLines (riskState s)) i = Some c0 \<and> cl_limitMinor c = cl_limitMinor c0 \<and>
         cl_utilizedMinor c = outst \<and> cl_status c = cl_status c0 \<and> cl_status c0 \<noteq> Line_CLOSED))"
proof (cases "jmGet (rs_idsBySubjectAsset (riskState s)) (subjectAssetKey subj asset)")
  case None
  from out show ?thesis unfolding line_outcome_def by (auto simp: st None addLine_def)
next
  case (Some i)
  from out obtain c snapshot now where c: "jmGet (rs_creditLines (riskState s)) i = Some c" "cl_status c \<noteq> Line_CLOSED"
      "cl_utilizedMinor c = outst" and line: "line = Some (touched snapshot mid now c)"
      and S': "S' = rs_creditLines_update (jmModify i (touched snapshot mid now)) (rs_decisions_update g (riskState s))"
    unfolding line_outcome_def by (simp add: st Some) blast
  obtain c1 where "jmGet (rs_creditLines (riskState s)) i = Some c1"
      "subjectAssetKey (cl_subjectId c1) (cl_assetId c1) = subjectAssetKey subj asset"
    using inv Some unfolding risk_inv_def risk_ok_def by blast
  with c have key: "subjectAssetKey (cl_subjectId c) (cl_assetId c) = subjectAssetKey subj asset" by simp
  have id: "cl_creditLineId c = i" using risk_invD [OF inv c(1)] by (simp add: line_ok_def)
  show ?thesis using c key id by (simp add: line S' Some touched_def)
qed

definition demo_no_credit :: risk_world where
  "demo_no_credit = (demo_credit Line_APPROVED)\<lparr>riskState := (demo_lines Line_APPROVED)\<lparr>rs_creditLines := [], rs_idsBySubjectAsset := []\<rparr>\<rparr>"

text \<open>A run that freezes a line and asks again: a request that opens the line, the freeze, a second request.\<close>

definition demo_asked :: risk_inputs where
  "demo_asked = demo_inputs\<lparr>ri_existingOutstandingMinor := JUndefined\<rparr>"

definition demo_opened :: "CreditLineStatus \<Rightarrow> int \<Rightarrow> (string \<times> risk_decision) list \<Rightarrow> risk_state" where
  "demo_opened st now ds = (demo_lines st)\<lparr>rs_decisions := ds,
     rs_creditLines := [(''credit_line_uu'', demo_line\<lparr>cl_creditLineId := ''credit_line_uu'', cl_limitMinor := 480, cl_utilizedMinor := 0,
       cl_status := st, cl_riskSnapshotId := ''risk_decision_u'', cl_createdAt := 2, cl_updatedAt := now\<rparr>)],
     rs_idsBySubjectAsset := [(subjectAssetKey ''s1'' ''USDC'', ''credit_line_uu'')]\<rparr>"

definition demo_stage :: "nat \<Rightarrow> nat \<Rightarrow> string list \<Rightarrow> int \<Rightarrow> int \<Rightarrow> risk_world \<Rightarrow> bool" where
  "demo_stage n k seen v w s \<longleftrightarrow> rt s = demo_runtime \<and> uuidCount s = n \<and> clockCount s = k \<and> seenCreditIds s = seen \<and>
     aggregateVersions s = [(''subject'' @ [CHR 0x00] @ ''s1'', v), (''credit_line'' @ [CHR 0x00] @ ''credit_line_uu'', w)] \<and>
     mandateState s = mandateState demo_mandates"

lemma demo_printed: "assertNonNegativeMinorUnits n (JStr ''0'') = Inr 0" "assertPositiveMinorUnits n (JStr (dec 480)) = Inr 480"
  by code_simp (simp add: assertPositive_Inr toMinorUnit_print)

lemma demo_asked_decide:
  fixes s :: risk_world
  assumes "rt s = demo_runtime" "clockCount s < 5000" "mandateState s = mandateState demo_mandates"
    and S: "rs_hasAuthorization (riskState s)" "rs_globalSubjectCapMinor (riskState s) = 1000000"
      "rs_advanceRate30dBps (riskState s) = 3000" "rs_advanceRate7dBps (riskState s) = 9000"
  shows "RiskService_requestCreditLine ''s1'' (JStr ''mandate_'') ''USDC'' demo_asked s =
      RiskService_decide ''s1'' (JStr ''mandate_'') ''USDC'' 480 0
        ([(''approved_by_rules_v0'', ''Deterministic v0 rules approved the request.'')], Line_APPROVED, RiskAction_NONE)
        (s\<lparr>clockCount := Suc (clockCount s)\<rparr>)"
proof -
  have "riskLimit (riskState s) demo_asked = Inr (480, 0)"
    using S by (simp add: riskLimit_def demo_asked_def demo_inputs_def demo_reported demo_printed bigIntDiv_def)
  moreover have "riskChecks demo_asked = ([], Line_APPROVED, RiskAction_NONE)"
    by (simp add: riskChecks_def demo_asked_def demo_inputs_def opt_or_def)
  moreover have "RiskService_authorize ''s1'' (JStr ''mandate_'') ''USDC'' 480 v s = (Inr v, s\<lparr>clockCount := Suc (clockCount s)\<rparr>)" for v
    using assms by (simp add: RiskService_authorize_def MandateService_assertAuthorized_def MandateService_requireMandate_def checkMandate_def
      checkScope_def checkAmount_def creditAuthorization_def demo_printed demo_mandates_def
      demo_mandate_def assertEnumValue_def MandateCapability_values_def eval_simps cong: eval_congs)
  ultimately show ?thesis
    by (simp add: RiskService_requestCreditLine_def bindM_def getsM_def liftR_def riskConclude_def)
qed

lemmas decide_eval = RiskService_decide_def RiskService_existingLine_def RiskService_requireCreditLine_def createRiskDecision_def
  RiskService_grantLine_def createCreditLine_def RiskService_decisionEvents_def updateLine_def risk_decision_js_def
  credit_line_fields_def jmModify_def touched_def eval_simps

lemma demo_line_open:
  "\<exists>res t ds. RiskService_requestCreditLine ''s1'' (JStr ''mandate_'') ''USDC'' demo_asked demo_no_credit = (Inr res, t) \<and>
    demo_stage 5 7 [''credit_event_uuu'', ''credit_event_uuuu''] 1 1 t \<and> seenAuditIds t = [] \<and> riskState t = demo_opened Line_APPROVED 2 ds"
  by (subst demo_asked_decide)
    (simp_all add: decide_eval demo_stage_def demo_opened_def demo_no_credit_def demo_credit_def demo_lines_def demo_line_def cong: eval_congs)

lemma demo_freeze:
  assumes "demo_stage 5 7 [''credit_event_uuu'', ''credit_event_uuuu''] 1 1 s" and "seenAuditIds s = []"
    and "riskState s = demo_opened Line_APPROVED 2 ds"
  shows "\<exists>r t. RiskService_freezeCreditLine ''credit_line_uu'' JUndefined (JStr ''x'') s = (Inr r, t) \<and>
    demo_stage 7 12 [''credit_event_uuu'', ''credit_event_uuuu'', ''credit_event_uuuuu''] 1 3 t \<and> riskState t = demo_opened Line_FROZEN 7 ds"
  using assms
  by (simp add: RiskService_freezeCreditLine_def RiskService_setCreditLineStatus_def lineEvent_def emitAuditEvent_def decide_eval
      demo_stage_def demo_opened_def demo_lines_def demo_line_def cong: eval_congs)

lemma demo_ask_again:
  assumes "demo_stage 7 12 [''credit_event_uuu'', ''credit_event_uuuu'', ''credit_event_uuuuu''] 1 3 s" and "riskState s = demo_opened Line_FROZEN 7 ds"
  shows "\<exists>res t. RiskService_requestCreditLine ''s1'' (JStr ''mandate_'') ''USDC'' demo_asked s = (Inr res, t) \<and>
    rd_status (rr_decision res) = Line_APPROVED"
  using assms
  by (subst demo_asked_decide)
    (simp_all add: decide_eval demo_stage_def demo_opened_def demo_lines_def demo_line_def cong: eval_congs)

lemma reserve_refused:
  "jmGet (rs_creditLines (riskState t)) k = Some c \<Longrightarrow> cl_status c \<noteq> Line_APPROVED \<Longrightarrow>
    RiskService_reserveUtilization k v t = (Inl (DomainError ''credit_line_not_approved'' ''credit line is not approved''), t)"
  by (simp add: RiskService_reserveUtilization_def RiskService_requireCreditLine_def eval_simps)

subsection \<open>Properties\<close>

text \<open>
  C18. In every state the risk service can reach, each credit line has utilised between nothing and its limit, and
  there is at most one credit line for a subject and asset.
\<close>

theorem credit_lines_bounded:
  assumes "risk_init s" and "rtranclp risk_step s t"
  shows "(\<forall>k c. jmGet (rs_creditLines (riskState t)) k = Some c \<longrightarrow>
      cl_creditLineId c = k \<and> 0 \<le> cl_utilizedMinor c \<and> cl_utilizedMinor c \<le> cl_limitMinor c) \<and>
    (\<forall>k c k' c'. jmGet (rs_creditLines (riskState t)) k = Some c \<longrightarrow> jmGet (rs_creditLines (riskState t)) k' = Some c' \<longrightarrow>
      cl_subjectId c = cl_subjectId c' \<and> cl_assetId c = cl_assetId c' \<longrightarrow> k = k')"
proof -
  have "risk_since (riskState s) t"
    by (rule risk_ts.inv_run [OF assms(2) risk_since_refl [OF risk_init_inv [OF assms(1)]]])
  then have ok: "jmGet (rs_creditLines (riskState t)) k = Some c \<Longrightarrow> line_ok (riskState t) k c" for k c
    by (auto simp: risk_since_def dest: risk_invD)
  have "k = k'" if "jmGet (rs_creditLines (riskState t)) k = Some c" "jmGet (rs_creditLines (riskState t)) k' = Some c'"
      "cl_subjectId c = cl_subjectId c'" "cl_assetId c = cl_assetId c'" for k c k' c'
    using ok [OF that(1)] ok [OF that(2)] that(3,4) by (simp add: line_ok_def)
  then show ?thesis using ok by (auto simp: line_ok_def)
qed

theorem credit_lines_bounded_witness:
  "\<exists>t. risk_step demo_no_credit t \<and> (\<forall>k c. jmGet (rs_creditLines (riskState t)) k = Some c \<longrightarrow> cl_utilizedMinor c \<le> cl_limitMinor c)"
proof -
  have "risk_init demo_no_credit" by (simp add: risk_init_def demo_no_credit_def demo_credit_def)
  moreover have "risk_step demo_no_credit (snd (RiskService_requestCreditLine ''s1'' (JStr ''mandate_'') ''USDC'' demo_inputs demo_no_credit))"
    by (rule risk_step.request) (rule surjective_pairing)
  ultimately show ?thesis using credit_lines_bounded [OF _ r_into_rtranclp] by metis
qed



text \<open>
  C20. A reservation that returns raises the utilisation of exactly that approved line by the amount, within its limit,
  and touches no other line, mandate, obligation, lockbox or ledger account; releasing the same amount right
  after restores the utilisation.
\<close>

theorem line_reserve_release:
  assumes "RiskService_reserveUtilization k v s = (Inr c', t)"
  shows "\<exists>c amount. jmGet (rs_creditLines (riskState s)) k = Some c \<and> cl_status c = Line_APPROVED \<and>
    assertPositiveMinorUnits amountMinorName v = Inr amount \<and>
    cl_utilizedMinor c' = cl_utilizedMinor c + amount \<and> cl_utilizedMinor c' \<le> cl_limitMinor c' \<and> cl_limitMinor c' = cl_limitMinor c \<and>
    (\<forall>k'. jmGet (rs_creditLines (riskState t)) k' = (if k' = k then Some c' else jmGet (rs_creditLines (riskState s)) k')) \<and>
    mandateState t = mandateState s \<and> obligationState t = obligationState s \<and> lockboxes t = lockboxes s \<and> ledger t = ledger s \<and>
    (0 \<le> cl_utilizedMinor c \<longrightarrow> (\<exists>c''. jmGet (rs_creditLines (riskState (snd (RiskService_releaseUtilization k v t)))) k = Some c'' \<and>
      cl_utilizedMinor c'' = cl_utilizedMinor c))" (is "?P c' t")
proof -
  have "wp (RiskService_reserveUtilization k v) ?P (\<lambda>_ _. True) s"
  proof (rule wp_reserveLine)
    fix t c amount now
    assume amt: "assertPositiveMinorUnits amountMinorName v = Inr amount" and c: "jmGet (rs_creditLines (riskState s)) k = Some c"
      and st: "cl_status c = Line_APPROVED" and le: "cl_utilizedMinor c + amount \<le> cl_limitMinor c"
      and ch: "line_changed k (\<lambda>c'. c'\<lparr>cl_utilizedMinor := cl_utilizedMinor c + amount, cl_updatedAt := now\<rparr>) s t"
    let ?c = "c\<lparr>cl_utilizedMinor := cl_utilizedMinor c + amount, cl_updatedAt := now\<rparr>"
    have t: "jmGet (rs_creditLines (riskState t)) k = Some ?c" using ch c by (simp add: line_changed_def)
    have "wp (RiskService_releaseUtilization k v)
        (\<lambda>_ t'. \<exists>c''. jmGet (rs_creditLines (riskState t')) k = Some c'' \<and> cl_utilizedMinor c'' = cl_utilizedMinor c)
        (\<lambda>_ t'. \<exists>c''. jmGet (rs_creditLines (riskState t')) k = Some c'' \<and> cl_utilizedMinor c'' = cl_utilizedMinor c) t"
      if "0 \<le> cl_utilizedMinor c"
      by (rule wp_releaseLine) (use t amt st that in \<open>auto simp: line_changed_def\<close>)
    then show "?P ?c t" using amt c st le ch by (auto simp: wp_snd line_changed_def risk_frame_def)
  qed simp
  from wp_Inr [OF this assms] show ?thesis .
qed

theorem line_reserve_release_witness:
  "\<exists>c' t. RiskService_reserveUtilization ''credit_line_'' (JStr ''400'') (demo_credit Line_APPROVED) = (Inr c', t) \<and>
     cl_utilizedMinor c' = 600"
proof -
  have "\<exists>c' t. RiskService_reserveUtilization ''credit_line_'' (JStr ''400'') (demo_credit Line_APPROVED) = (Inr c', t)"
    by (simp add: RiskService_reserveUtilization_def RiskService_requireCreditLine_def updateLine_def lineEvent_def demo_credit_def
        demo_lines_def demo_line_def demo_amounts jmModify_def eval_simps cong: eval_congs)
  then obtain c' t where run: "RiskService_reserveUtilization ''credit_line_'' (JStr ''400'') (demo_credit Line_APPROVED) = (Inr c', t)"
    by blast
  from line_reserve_release [OF run] run show ?thesis
    by (auto simp: demo_credit_def demo_lines_def demo_line_def demo_amounts)
qed

text \<open>
  C21. Freezing and closing a credit line are final: over any run a line keeps its subject and asset, one that is
  frozen or closed is never approved again, so every later reservation on it is refused without an effect, and a
  closed line stays closed with its utilisation unchanged.
\<close>

theorem line_freeze_is_final:
  assumes "risk_inv s" and "rtranclp risk_step s t" and "jmGet (rs_creditLines (riskState s)) k = Some c"
  shows "\<exists>c'. jmGet (rs_creditLines (riskState t)) k = Some c' \<and> cl_subjectId c' = cl_subjectId c \<and> cl_assetId c' = cl_assetId c \<and>
    (cl_status c \<noteq> Line_APPROVED \<longrightarrow> cl_status c' \<noteq> Line_APPROVED \<and>
      (\<forall>v. RiskService_reserveUtilization k v t =
        (Inl (DomainError ''credit_line_not_approved'' ''credit line is not approved''), t))) \<and>
    (cl_status c = Line_CLOSED \<longrightarrow> cl_status c' = Line_CLOSED \<and> cl_utilizedMinor c' = cl_utilizedMinor c)"
proof -
  have "risk_since (riskState s) t" by (rule risk_ts.inv_run [OF assms(2) risk_since_refl [OF assms(1)]])
  then obtain c' where c': "jmGet (rs_creditLines (riskState t)) k = Some c'" "line_moves c c'"
    using assms(3) unfolding risk_since_def lines_evolve_def by blast
  with reserve_refused [OF c'(1)] show ?thesis unfolding line_moves_def by auto
qed

theorem line_freeze_is_final_witness:
  "fst (RiskService_reserveUtilization ''credit_line_'' (JStr ''1'')
      (snd (RiskService_adjustCreditLine ''credit_line_'' (JStr ''5000'') JUndefined (JStr ''x'') (demo_credit Line_FROZEN)))) =
    Inl (DomainError ''credit_line_not_approved'' ''credit line is not approved'')"
proof -
  have "risk_step (demo_credit Line_FROZEN)
      (snd (RiskService_adjustCreditLine ''credit_line_'' (JStr ''5000'') JUndefined (JStr ''x'') (demo_credit Line_FROZEN)))"
    by (rule risk_step.adjust) (rule surjective_pairing)
  moreover have "jmGet (rs_creditLines (riskState (demo_credit Line_FROZEN))) ''credit_line_'' = Some (demo_line\<lparr>cl_status := Line_FROZEN\<rparr>)"
    by (simp add: demo_credit_def demo_lines_def)
  ultimately show ?thesis
    using line_freeze_is_final [OF demo_credit_inv r_into_rtranclp] by fastforce
qed



end
