(* ===== verification/Spend.thy ===== *)
theory Spend
  imports Risk
begin

text \<open>
  \<open>modules/spend-policy/src/spend-policy-service.js\<close> with \<open>createProvider\<close>, \<open>createSpendPolicy\<close> and
  \<open>createSpendRequest\<close> of \<open>models.js\<close>: allowlisted providers, the per-transaction and daily limits of a spend
  policy, and the spend request that is approved only when the policy, the mandate and the available credit all
  allow it. The service calls the mandate service for authorization and for the reservation of the budget.
\<close>

subsection \<open>State\<close>

record provider =
  pv_providerId :: string
  pv_providerHash :: string
  pv_name :: js
  pv_settlementAccountIdRef :: string
  pv_status :: ProviderStatus
  pv_riskTier :: js
  pv_createdAt :: int
  pv_schemaVersion :: string

record spend_policy =
  sp_spendPolicyId :: string
  sp_spendPolicyHash :: string
  sp_subjectId :: js
  sp_providerId :: js
  sp_assetId :: js
  sp_category :: js
  sp_perTxLimitMinor :: int
  sp_dailyLimitMinor :: int
  sp_obligationCapMinor :: int
  sp_dailySpentMinor :: int
  sp_dailySpentDate :: string
  sp_status :: SpendPolicyStatus
  sp_createdAt :: int
  sp_schemaVersion :: string

record spend_request =
  sr_spendRequestId :: string
  sr_subjectId :: js
  sr_mandateId :: js
  sr_providerId :: js
  sr_spendPolicyId :: js
  sr_assetId :: js
  sr_amountMinor :: js
  sr_purposeCode :: js
  sr_status :: SpendRequestStatus
  sr_rejectionReason :: "string option"
  sr_createdAt :: int
  sr_updatedAt :: int
  sr_schemaVersion :: string

record spend_state =
  ss_hasAuthorization :: bool
  ss_providers :: "provider jsmap"
  ss_policies :: "spend_policy jsmap"
  ss_spendRequests :: "spend_request jsmap"

record spend_world = risk_world +
  spendState :: spend_state

text \<open>\<open>Map.get\<close> with a value that may not be a string.\<close>

definition jsGet :: "'v jsmap \<Rightarrow> js \<Rightarrow> 'v option" where
  "jsGet m v = (case v of JStr k \<Rightarrow> jmGet m k | _ \<Rightarrow> None)"

subsection \<open>Providers and policies\<close>

record provider_input =
  pi_name :: js
  pi_settlementAccountId :: js
  pi_riskTier :: js
  pi_now :: "int option"

definition createProvider :: "provider_input \<Rightarrow> string \<Rightarrow> ('z host_scheme, provider) M" where
  "createProvider input settlementAccountId =
     bindM (nowOr (pi_now input)) (\<lambda>now.
     bindM (createOperationalId ''provider'') (\<lambda>providerId.
     bindM (hashM ''provider'' (JObj [(''name'', pi_name input), (''settlementAccountId'', JStr settlementAccountId)])) (\<lambda>providerHash.
     returnM
       \<lparr>pv_providerId = providerId, pv_providerHash = providerHash, pv_name = pi_name input,
        pv_settlementAccountIdRef = settlementAccountId, pv_status = Provider_ALLOWLISTED,
        pv_riskTier = js_default (pi_riskTier input) (JStr ''tier_1''), pv_createdAt = now,
        pv_schemaVersion = ''provider.v1''\<rparr>)))"

definition SpendPolicyService_allowProvider :: "provider_input \<Rightarrow> ('z spend_world_scheme, provider) M" where
  "SpendPolicyService_allowProvider input =
     bindM (liftR (assertCAIP10 (pi_settlementAccountId input))) (\<lambda>settlementAccountId.
     bindM (createProvider input settlementAccountId) (\<lambda>provider.
     thenM (modifyM (spendState_update (ss_providers_update (jmSet (pv_providerId provider) provider))))
     (thenM (emitCreditEvent (eventArgs ''provider_allowlisted'' JUndefined (JObj
         [(''providerId'', JStr (pv_providerId provider)), (''providerHash'', JStr (pv_providerHash provider)),
          (''riskTier'', pv_riskTier provider)])))
     (returnM provider))))"

record policy_input =
  pl_subjectId :: js
  pl_providerId :: js
  pl_assetId :: js
  pl_perTxLimitMinor :: js
  pl_dailyLimitMinor :: js
  pl_obligationCapMinor :: js
  pl_category :: js
  pl_now :: "int option"

definition isoDate :: "runtime \<Rightarrow> int \<Rightarrow> string" where
  "isoDate r now = take 10 (rt_iso r now)"

definition createSpendPolicy :: "policy_input \<Rightarrow> int \<Rightarrow> int \<Rightarrow> int \<Rightarrow> ('z host_scheme, spend_policy) M" where
  "createSpendPolicy input perTx daily cap =
     (let category = js_default (pl_category input) (JStr ''model_api'') in
     bindM (nowOr (pl_now input)) (\<lambda>now.
     bindM (hashM ''spend_policy'' (JObj
       [(''subjectId'', pl_subjectId input), (''providerId'', pl_providerId input), (''assetId'', pl_assetId input),
        (''perTxLimitMinor'', pl_perTxLimitMinor input), (''dailyLimitMinor'', pl_dailyLimitMinor input),
        (''obligationCapMinor'', pl_obligationCapMinor input), (''category'', category)])) (\<lambda>spendPolicyHash.
     bindM (createOperationalId ''spend_policy'') (\<lambda>spendPolicyId.
     bindM (getsM rt) (\<lambda>r.
     returnM
       \<lparr>sp_spendPolicyId = spendPolicyId, sp_spendPolicyHash = spendPolicyHash, sp_subjectId = pl_subjectId input,
        sp_providerId = pl_providerId input, sp_assetId = pl_assetId input, sp_category = category,
        sp_perTxLimitMinor = perTx, sp_dailyLimitMinor = daily, sp_obligationCapMinor = cap,
        sp_dailySpentMinor = 0, sp_dailySpentDate = isoDate r now, sp_status = Policy_ACTIVE,
        sp_createdAt = now, sp_schemaVersion = ''spend_policy.v1''\<rparr>)))))"

definition SpendPolicyService_requireProvider :: "js \<Rightarrow> ('z spend_world_scheme, provider) M" where
  "SpendPolicyService_requireProvider providerId =
     bindM (getsM (\<lambda>s. jsGet (ss_providers (spendState s)) providerId)) (\<lambda>found.
       case found of
         None \<Rightarrow> throwM (DomainError ''provider_not_found'' ''provider not found'')
       | Some provider \<Rightarrow> returnM provider)"

definition SpendPolicyService_createSpendPolicy :: "policy_input \<Rightarrow> ('z spend_world_scheme, spend_policy) M" where
  "SpendPolicyService_createSpendPolicy input =
     bindM (SpendPolicyService_requireProvider (pl_providerId input)) (\<lambda>provider.
     thenM (throwIf (pv_status provider \<noteq> Provider_ALLOWLISTED) ''provider_not_allowlisted''
       ''spend policy requires allowlisted provider'')
     (bindM (liftR (assertPositiveMinorUnits ''perTxLimitMinor'' (pl_perTxLimitMinor input))) (\<lambda>perTx.
     bindM (liftR (assertPositiveMinorUnits ''dailyLimitMinor'' (pl_dailyLimitMinor input))) (\<lambda>daily.
     bindM (liftR (assertPositiveMinorUnits ''obligationCapMinor'' (pl_obligationCapMinor input))) (\<lambda>cap.
     thenM (throwIf (perTx > daily) ''invalid_spend_policy_limits'' ''per transaction limit cannot exceed daily limit'')
     (bindM (createSpendPolicy input perTx daily cap) (\<lambda>policy.
     thenM (modifyM (spendState_update (ss_policies_update (jmSet (sp_spendPolicyId policy) policy))))
     (thenM (emitCreditEvent (eventArgs ''spend_policy_created'' (sp_subjectId policy) (JObj
         [(''spendPolicyId'', JStr (sp_spendPolicyId policy)), (''providerId'', sp_providerId policy),
          (''assetId'', sp_assetId policy), (''policyHash'', JStr (sp_spendPolicyHash policy))])))
     (returnM policy)))))))))"

subsection \<open>Spend requests\<close>

record spend_args =
  sa_mandateId :: js
  sa_subjectId :: js
  sa_providerId :: js
  sa_spendPolicyId :: js
  sa_assetId :: js
  sa_amountMinor :: js
  sa_purposeCode :: js
  sa_creditAvailableMinor :: js

definition createSpendRequest :: "spend_args \<Rightarrow> ('z host_scheme, spend_request) M" where
  "createSpendRequest a =
     bindM newDate (\<lambda>now.
     bindM (createOperationalId ''spend_request'') (\<lambda>spendRequestId.
     returnM
       \<lparr>sr_spendRequestId = spendRequestId, sr_subjectId = sa_subjectId a, sr_mandateId = sa_mandateId a,
        sr_providerId = sa_providerId a, sr_spendPolicyId = sa_spendPolicyId a, sr_assetId = sa_assetId a,
        sr_amountMinor = sa_amountMinor a, sr_purposeCode = sa_purposeCode a, sr_status = Spend_REQUESTED,
        sr_rejectionReason = None, sr_createdAt = now, sr_updatedAt = now, sr_schemaVersion = ''spend_request.v1''\<rparr>))"

definition spendAuthorization :: "spend_args \<Rightarrow> authorization_args" where
  "spendAuthorization a =
     \<lparr>au_mandateId = sa_mandateId a, au_subjectId = sa_subjectId a,
      au_capability = JStr (MandateCapability_str Cap_PROVIDER_SPEND), au_providerId = sa_providerId a,
      au_category = sa_purposeCode a, au_assetId = sa_assetId a, au_amountMinor = sa_amountMinor a,
      au_enforceAggregateLimit = True, au_now = None\<rparr>"

text \<open>The daily total of the policy starts again on a new day.\<close>

definition SpendPolicyService_rollDay :: "js \<Rightarrow> string \<Rightarrow> ('z spend_world_scheme, unit) M" where
  "SpendPolicyService_rollDay spendPolicyId today =
     bindM (getsM (\<lambda>s. jsGet (ss_policies (spendState s)) spendPolicyId)) (\<lambda>policy.
       case policy of
         None \<Rightarrow> returnM ()
       | Some p \<Rightarrow>
           whenM (sp_dailySpentDate p \<noteq> today)
             (modifyM (spendState_update (ss_policies_update (jmModify (js_string spendPolicyId)
               (\<lambda>q. q\<lparr>sp_dailySpentMinor := 0, sp_dailySpentDate := today\<rparr>))))))"

text \<open>The checks before the limits: provider, policy, scope, purpose and authorization. The policy that passed them
  comes back, or the reason of the rejection.\<close>

definition SpendPolicyService_authorize ::
  "spend_args \<Rightarrow> provider option \<Rightarrow> spend_policy option \<Rightarrow> ('z spend_world_scheme, string option) M" where
  "SpendPolicyService_authorize a provider policy =
     (case (provider, policy) of
        (None, _) \<Rightarrow> returnM (Some ''provider_not_allowlisted'')
      | (Some pv, None) \<Rightarrow>
          returnM (Some (if pv_status pv \<noteq> Provider_ALLOWLISTED then ''provider_not_allowlisted'' else ''policy_not_active''))
      | (Some pv, Some p) \<Rightarrow>
          if pv_status pv \<noteq> Provider_ALLOWLISTED then returnM (Some ''provider_not_allowlisted'')
          else if sp_status p \<noteq> Policy_ACTIVE then returnM (Some ''policy_not_active'')
          else if \<not> js_strict_eq (sp_subjectId p) (sa_subjectId a) \<or> \<not> js_strict_eq (sp_providerId p) (sa_providerId a) \<or>
            \<not> js_strict_eq (sp_assetId p) (sa_assetId a) then returnM (Some ''policy_scope_mismatch'')
          else if \<not> js_strict_eq (sp_category p) (sa_purposeCode a) then returnM (Some ''purpose_not_allowed'')
          else bindM (getsM (\<lambda>s. ss_hasAuthorization (spendState s))) (\<lambda>present.
            if \<not> present then returnM (Some ''authorization_unavailable'')
            else catchM (thenM (MandateService_assertAuthorized (spendAuthorization a)) (returnM None))
              (\<lambda>e. case e of NativeError m \<Rightarrow> throwM e | DomainError c m \<Rightarrow> returnM (Some c))))"

definition spendLimits :: "spend_policy \<Rightarrow> int \<Rightarrow> int \<Rightarrow> string option" where
  "spendLimits p amount creditAvailable =
     (if amount > sp_perTxLimitMinor p then Some ''per_tx_limit_exceeded''
      else if amount + sp_dailySpentMinor p > sp_dailyLimitMinor p then Some ''daily_limit_exceeded''
      else if amount > sp_obligationCapMinor p then Some ''obligation_cap_exceeded''
      else if amount > creditAvailable then Some ''credit_available_exceeded''
      else None)"

definition spendEventFields :: "spend_args \<Rightarrow> string \<Rightarrow> js \<Rightarrow> (string \<times> js) list" where
  "spendEventFields a spendRequestId amount =
     [(''spendRequestId'', JStr spendRequestId), (''mandateId'', sa_mandateId a), (''providerId'', sa_providerId a),
      (''spendPolicyId'', sa_spendPolicyId a), (''assetId'', sa_assetId a), (''amountMinor'', amount)]"

text \<open>The outcome: an approved request reserves the mandate's budget and the day's allowance; the request is stored
  and announced either way.\<close>

definition SpendPolicyService_conclude ::
  "spend_args \<Rightarrow> spend_request \<Rightarrow> int \<Rightarrow> string option \<Rightarrow> ('z spend_world_scheme, spend_request) M" where
  "SpendPolicyService_conclude a created amount rejectionReason =
     (let nextStatus = (if rejectionReason \<noteq> None then Spend_REJECTED else Spend_APPROVED) in
      thenM (liftR (assertTransition ''spend_request'' SpendRequestStatus_str SpendRequestTransitions (sr_status created) nextStatus))
      (bindM newDate (\<lambda>now.
      let request = created\<lparr>sr_status := nextStatus, sr_rejectionReason := rejectionReason, sr_updatedAt := now\<rparr> in
      thenM (whenM (rejectionReason = None)
        (thenM (MandateService_reserveUtilization (JStr (sr_spendRequestId request)) (spendAuthorization a))
        (modifyM (spendState_update (ss_policies_update (jmModify (js_string (sa_spendPolicyId a))
          (\<lambda>q. q\<lparr>sp_dailySpentMinor := sp_dailySpentMinor q + amount\<rparr>)))))))
      (thenM (modifyM (spendState_update (ss_spendRequests_update (jmSet (sr_spendRequestId request) request))))
      (thenM (emitCreditEvent (eventArgs (if rejectionReason \<noteq> None then ''spend_rejected'' else ''spend_approved'') (sa_subjectId a)
         (JObj (spendEventFields a (sr_spendRequestId request) (sa_amountMinor a) @ [(''rejectionReason'', js_opt rejectionReason)]))))
      (returnM request))))))"

definition SpendPolicyService_requestSpend :: "spend_args \<Rightarrow> ('z spend_world_scheme, spend_request) M" where
  "SpendPolicyService_requestSpend a =
     bindM (createSpendRequest a) (\<lambda>request.
     bindM (getsM (\<lambda>s. jsGet (ss_providers (spendState s)) (sa_providerId a))) (\<lambda>provider.
     bindM (liftR (assertPositiveMinorUnits amountMinorName (sa_amountMinor a))) (\<lambda>amount.
     bindM (liftR (assertNonNegativeMinorUnits ''creditAvailableMinor'' (sa_creditAvailableMinor a))) (\<lambda>creditAvailable.
     bindM (liftR (assertNonEmptyString ''purposeCode'' (sa_purposeCode a))) (\<lambda>purposeCode.
     thenM (emitCreditEvent (eventArgs ''spend_requested'' (sa_subjectId a)
       (JObj (spendEventFields a (sr_spendRequestId request) (JStr (dec amount)) @ [(''purposeCode'', sa_purposeCode a)]))))
     (bindM newDate (\<lambda>now.
     bindM (getsM rt) (\<lambda>r.
     thenM (SpendPolicyService_rollDay (sa_spendPolicyId a) (isoDate r now))
     (bindM (getsM (\<lambda>s. jsGet (ss_policies (spendState s)) (sa_spendPolicyId a))) (\<lambda>policy.
     bindM (SpendPolicyService_authorize a provider policy) (\<lambda>reason.
     SpendPolicyService_conclude a request amount
       (case reason of Some c \<Rightarrow> Some c | None \<Rightarrow>
          (case policy of Some p \<Rightarrow> spendLimits p amount creditAvailable | None \<Rightarrow> None)))))))))))))"

definition SpendPolicyService_requireSpendRequest :: "string \<Rightarrow> ('z spend_world_scheme, spend_request) M" where
  "SpendPolicyService_requireSpendRequest spendRequestId =
     bindM (getsM (\<lambda>s. jmGet (ss_spendRequests (spendState s)) spendRequestId)) (\<lambda>found.
       case found of
         None \<Rightarrow> throwM (DomainError ''spend_request_not_found'' ''spend request not found'')
       | Some request \<Rightarrow> returnM request)"

definition SpendPolicyService_settleSpend :: "string \<Rightarrow> ('z spend_world_scheme, spend_request) M" where
  "SpendPolicyService_settleSpend spendRequestId =
     bindM (SpendPolicyService_requireSpendRequest spendRequestId) (\<lambda>request.
     thenM (liftR (assertTransition ''spend_request'' SpendRequestStatus_str SpendRequestTransitions (sr_status request) Spend_SETTLED))
     (bindM newDate (\<lambda>now.
     thenM (modifyM (spendState_update (ss_spendRequests_update (jmModify spendRequestId
       (\<lambda>q. q\<lparr>sr_status := Spend_SETTLED, sr_updatedAt := now\<rparr>)))))
     (thenM (emitCreditEvent (eventArgs ''spend_settled'' (sr_subjectId request) (JObj
         [(''spendRequestId'', JStr spendRequestId), (''providerId'', sr_providerId request), (''amountMinor'', sr_amountMinor request)])))
     (SpendPolicyService_requireSpendRequest spendRequestId)))))"

definition SpendPolicyService_getProvider :: "js \<Rightarrow> ('z spend_world_scheme, provider) M" where
  "SpendPolicyService_getProvider providerId = SpendPolicyService_requireProvider providerId"

definition SpendPolicyService_getSpendPolicy :: "string \<Rightarrow> ('z spend_world_scheme, spend_policy) M" where
  "SpendPolicyService_getSpendPolicy spendPolicyId =
     bindM (getsM (\<lambda>s. jmGet (ss_policies (spendState s)) spendPolicyId)) (\<lambda>found.
       case found of
         None \<Rightarrow> throwM (DomainError ''spend_policy_not_found'' ''spend policy not found'')
       | Some policy \<Rightarrow> returnM policy)"

definition SpendPolicyService_getSpendRequest :: "string \<Rightarrow> ('z spend_world_scheme, spend_request) M" where
  "SpendPolicyService_getSpendRequest spendRequestId = SpendPolicyService_requireSpendRequest spendRequestId"


subsection \<open>The invariant\<close>

text \<open>The authorization a stored request was approved under.\<close>

definition requestAuthorization :: "spend_request \<Rightarrow> authorization_args" where
  "requestAuthorization q = spendAuthorization
     \<lparr>sa_mandateId = sr_mandateId q, sa_subjectId = sr_subjectId q, sa_providerId = sr_providerId q,
      sa_spendPolicyId = sr_spendPolicyId q, sa_assetId = sr_assetId q, sa_amountMinor = sr_amountMinor q,
      sa_purposeCode = sr_purposeCode q, sa_creditAvailableMinor = JUndefined\<rparr>"

definition policy_ok :: "string \<Rightarrow> spend_policy \<Rightarrow> bool" where
  "policy_ok k p \<longleftrightarrow> sp_spendPolicyId p = k \<and> 0 < sp_perTxLimitMinor p \<and> sp_perTxLimitMinor p \<le> sp_dailyLimitMinor p \<and>
     0 < sp_obligationCapMinor p \<and> 0 \<le> sp_dailySpentMinor p \<and> sp_dailySpentMinor p \<le> sp_dailyLimitMinor p"

definition spend_reserved :: "runtime \<Rightarrow> mandate_state \<Rightarrow> string \<Rightarrow> spend_request \<Rightarrow> bool" where
  "spend_reserved r M k q \<longleftrightarrow> (\<exists>v. jmGet (ms_reservations M) k = Some v \<and>
     mr_reservationHash v = reservationHash r k (requestAuthorization q))"

definition request_ok :: "runtime \<Rightarrow> mandate_state \<Rightarrow> string \<Rightarrow> spend_request \<Rightarrow> bool" where
  "request_ok r M k q \<longleftrightarrow> sr_spendRequestId q = k \<and> sr_status q \<in> {Spend_APPROVED, Spend_REJECTED, Spend_SETTLED} \<and>
     (sr_rejectionReason q = None \<longleftrightarrow> sr_status q \<noteq> Spend_REJECTED) \<and>
     (sr_status q \<noteq> Spend_REJECTED \<longrightarrow> spend_reserved r M k q)"

definition spend_ok :: "string set \<Rightarrow> string set \<Rightarrow> runtime \<Rightarrow> mandate_state \<Rightarrow> spend_state \<Rightarrow> bool" where
  "spend_ok I J r M T \<longleftrightarrow> fst ` set (ss_spendRequests T) \<subseteq> I \<and> fst ` set (ss_policies T) \<subseteq> J \<and>
     (\<forall>k p. jmGet (ss_policies T) k = Some p \<longrightarrow> policy_ok k p) \<and>
     (\<forall>k q. jmGet (ss_spendRequests T) k = Some q \<longrightarrow> request_ok r M k q)"

definition spend_inv :: "'z spend_world_scheme \<Rightarrow> bool" where
  "spend_inv s \<longleftrightarrow> mandate_inv s \<and>
     spend_ok (issued s ''spend_request'') (issued s ''spend_policy'') (rt s) (mandateState s) (spendState s)"

lemma spend_invD:
  assumes "spend_inv s"
  shows "mandate_inv s" "jmGet (ss_policies (spendState s)) k = Some p \<Longrightarrow> policy_ok k p"
    "jmGet (ss_spendRequests (spendState s)) k = Some q \<Longrightarrow> request_ok (rt s) (mandateState s) k q"
  using assms by (simp_all add: spend_inv_def spend_ok_def)

text \<open>How stored requests and policies change: a request keeps what was asked and moves along the transition table; a
  policy keeps its limits.\<close>

definition request_moves :: "spend_request \<Rightarrow> spend_request \<Rightarrow> bool" where
  "request_moves q q' \<longleftrightarrow> q'\<lparr>sr_status := Spend_REQUESTED, sr_updatedAt := 0\<rparr> = q\<lparr>sr_status := Spend_REQUESTED, sr_updatedAt := 0\<rparr> \<and>
     evolves SpendRequestTransitions (sr_status q) (sr_status q')"

definition policy_moves :: "spend_policy \<Rightarrow> spend_policy \<Rightarrow> bool" where
  "policy_moves p p' \<longleftrightarrow> p'\<lparr>sp_dailySpentMinor := 0, sp_dailySpentDate := []\<rparr> = p\<lparr>sp_dailySpentMinor := 0, sp_dailySpentDate := []\<rparr>"

definition spend_evolve :: "spend_state \<Rightarrow> spend_state \<Rightarrow> bool" where
  "spend_evolve T T' \<longleftrightarrow>
     (\<forall>k q. jmGet (ss_spendRequests T) k = Some q \<longrightarrow> (\<exists>q'. jmGet (ss_spendRequests T') k = Some q' \<and> request_moves q q')) \<and>
     (\<forall>k p. jmGet (ss_policies T) k = Some p \<longrightarrow> (\<exists>p'. jmGet (ss_policies T') k = Some p' \<and> policy_moves p p'))"

lemma request_moves_refl [simp]: "request_moves q q"
  by (simp add: request_moves_def)

lemma request_moves_trans: "request_moves a b \<Longrightarrow> request_moves b c \<Longrightarrow> request_moves a c"
  by (auto simp: request_moves_def intro: rtranclp_trans)

lemma policy_moves_refl [simp]: "policy_moves p p"
  by (simp add: policy_moves_def)

lemma policy_moves_trans: "policy_moves a b \<Longrightarrow> policy_moves b c \<Longrightarrow> policy_moves a c"
  by (simp add: policy_moves_def)

lemma policy_movesD:
  assumes "policy_moves p p'"
  shows "sp_spendPolicyId p' = sp_spendPolicyId p" "sp_perTxLimitMinor p' = sp_perTxLimitMinor p"
    "sp_dailyLimitMinor p' = sp_dailyLimitMinor p" "sp_obligationCapMinor p' = sp_obligationCapMinor p"
  using assms by (cases p; cases p'; simp add: policy_moves_def)+

lemma request_movesD:
  assumes "request_moves q q'"
  shows "sr_spendRequestId q' = sr_spendRequestId q" "sr_rejectionReason q' = sr_rejectionReason q"
    "requestAuthorization q' = requestAuthorization q"
  using assms by (cases q; cases q'; simp add: request_moves_def requestAuthorization_def)+

lemma spend_evolve_refl [simp]: "spend_evolve T T"
  by (simp add: spend_evolve_def)

lemma spend_evolve_trans: "spend_evolve A B \<Longrightarrow> spend_evolve B C \<Longrightarrow> spend_evolve A C"
  unfolding spend_evolve_def by (meson request_moves_trans policy_moves_trans)

definition spend_since :: "spend_state \<Rightarrow> 'z spend_world_scheme \<Rightarrow> bool" where
  "spend_since T s \<longleftrightarrow> spend_inv s \<and> spend_evolve T (spendState s)"

lemma spend_ok_mono:
  assumes "spend_ok I J r M T" and "I \<subseteq> I'" and "J \<subseteq> J'"
    and "\<And>k v. jmGet (ms_reservations M) k = Some v \<Longrightarrow>
      \<exists>v'. jmGet (ms_reservations M') k = Some v' \<and> mr_reservationHash v' = mr_reservationHash v"
  shows "spend_ok I' J' r M' T"
proof -
  have "spend_reserved r M k q \<Longrightarrow> spend_reserved r M' k q" for k q
    using assms(4) [of k] unfolding spend_reserved_def by force
  then show ?thesis using assms(1-3) unfolding spend_ok_def request_ok_def by blast
qed

subsection \<open>Frames\<close>

definition spend_frame :: "'z spend_world_scheme \<Rightarrow> 'z spend_world_scheme \<Rightarrow> bool" where
  "spend_frame s t \<longleftrightarrow> spend_world.more t = spend_world.more s \<and> rt t = rt s \<and> uuidCount s \<le> uuidCount t \<and>
     ledger t = ledger s \<and> lockboxes t = lockboxes s \<and> obligationState t = obligationState s \<and> riskState t = riskState s"

lemma spend_frame_refl [simp]: "spend_frame s s"
  by (simp add: spend_frame_def)

lemma spend_frame_trans: "spend_frame s t \<Longrightarrow> spend_frame t u \<Longrightarrow> spend_frame s u"
  by (auto simp: spend_frame_def)

lemma spend_frame_issued: "spend_frame s t \<Longrightarrow> issued s p \<subseteq> issued t p"
  by (rule issued_mono) (auto simp: spend_frame_def)

lemma mandate_frame_spend: "mandate_frame s t \<Longrightarrow> spendState t = spendState s"
  by (cases s, cases t) (simp add: mandate_frame_def)

lemma mandate_spend_frame: "mandate_frame s t \<Longrightarrow> spend_frame s t"
  by (cases s, cases t) (simp add: mandate_frame_def spend_frame_def)

lemma log_ext_spend: "log_ext s t \<Longrightarrow> spendState t = spendState s"
  by (rule mandate_frame_spend [OF log_mandate_frame])

lemma log_spend_frame: "log_ext s t \<Longrightarrow> spend_frame s t"
  by (rule mandate_spend_frame [OF log_mandate_frame])

lemma spend_frame_state [simp]: "spend_frame s (spendState_update f s)"
  by (simp add: spend_frame_def)

text \<open>The moves that keep the invariant: the mandate service's own, and those of the spend state.\<close>

lemma mandate_inv_spendState [simp]: "mandate_inv (spendState_update f s) = mandate_inv s"
  by (simp add: mandate_inv_def issued_def)

lemma spend_since_mandate:
  assumes since: "spend_since T s" and frame: "mandate_frame s t" and m: "mandate_since (mandateState s) t"
  shows "spend_since T t"
proof -
  have res: "\<exists>v'. jmGet (ms_reservations (mandateState t)) k = Some v' \<and> mr_reservationHash v' = mr_reservationHash v"
    if at: "jmGet (ms_reservations (mandateState s)) k = Some v" for k v
  proof -
    obtain v' where v': "jmGet (ms_reservations (mandateState t)) k = Some v'" "reservation_moves v v'"
      using m at unfolding mandate_since_def mandates_evolve_def by blast
    then have "mr_reservationHash v' = mr_reservationHash v" by (cases v; cases v'; simp add: reservation_moves_def)
    with v' show ?thesis by blast
  qed
  have rt: "rt t = rt s" using frame by (simp add: mandate_frame_def)
  have "spend_ok (issued t ''spend_request'') (issued t ''spend_policy'') (rt s) (mandateState t) (spendState s)"
    by (rule spend_ok_mono [OF _ mandate_frame_issued [OF frame] mandate_frame_issued [OF frame] res])
      (use since in \<open>simp_all add: spend_since_def spend_inv_def\<close>)
  then show ?thesis
    using since m rt mandate_frame_spend [OF frame] by (simp add: spend_since_def spend_inv_def mandate_since_def)
qed

lemma spend_since_log:
  assumes "spend_since T s" and "log_ext s t"
  shows "spend_since T t"
proof (rule spend_since_mandate [OF assms(1) log_mandate_frame [OF assms(2)]])
  have "mandate_inv s" using assms(1) by (simp add: spend_since_def spend_inv_def)
  from mandate_since_log [OF mandate_since_refl [OF this] assms(2)] show "mandate_since (mandateState s) t" .
qed

lemma spend_since_state:
  assumes "spend_since T s" and "spend_evolve (spendState s) (f (spendState s))"
    and "spend_ok (issued s ''spend_request'') (issued s ''spend_policy'') (rt s) (mandateState s) (spendState s) \<Longrightarrow>
      spend_ok (issued s ''spend_request'') (issued s ''spend_policy'') (rt s) (mandateState s) (f (spendState s))"
  shows "spend_since T (spendState_update f s)"
proof -
  have "issued (spendState_update f s) p = issued s p" for p by (simp add: issued_def)
  then show ?thesis using assms by (auto simp: spend_since_def spend_inv_def intro: spend_evolve_trans)
qed

subsection \<open>What each operation does\<close>

lemma wp_requireProvider [wp_simps]:
  "wp (SpendPolicyService_requireProvider k) Q E = (\<lambda>s. case jsGet (ss_providers (spendState s)) k of
     None \<Rightarrow> E (DomainError ''provider_not_found'' ''provider not found'') s | Some p \<Rightarrow> Q p s)"
  by (rule ext) (simp add: SpendPolicyService_requireProvider_def wp_simps split: option.split)

lemma wp_requireSpendRequest [wp_simps]:
  "wp (SpendPolicyService_requireSpendRequest k) Q E = (\<lambda>s. case jmGet (ss_spendRequests (spendState s)) k of
     None \<Rightarrow> E (DomainError ''spend_request_not_found'' ''spend request not found'') s | Some q \<Rightarrow> Q q s)"
  by (rule ext) (simp add: SpendPolicyService_requireSpendRequest_def wp_simps split: option.split)

text \<open>The new day.\<close>

definition rollPolicy :: "string \<Rightarrow> spend_policy \<Rightarrow> spend_policy" where
  "rollPolicy today p = (if sp_dailySpentDate p = today then p else p\<lparr>sp_dailySpentMinor := 0, sp_dailySpentDate := today\<rparr>)"

definition onPolicy :: "js \<Rightarrow> (spend_policy \<Rightarrow> spend_policy) \<Rightarrow> spend_state \<Rightarrow> spend_state" where
  "onPolicy sid f T = (case jsGet (ss_policies T) sid of None \<Rightarrow> T
     | Some p \<Rightarrow> ss_policies_update (jmSet (js_string sid) (f p)) T)"

lemma jsGet_Some: "jsGet m v = Some x \<longleftrightarrow> (\<exists>k. v = JStr k \<and> jmGet m k = Some x)"
  by (cases v) (auto simp: jsGet_def)

lemma jsGet_JStr [simp]: "jsGet m (JStr k) = jmGet m k"
  by (simp add: jsGet_def)

lemma onPolicy_get: "jmGet (ss_policies (onPolicy sid f T)) k = (if sid = JStr k then map_option f (jmGet (ss_policies T) k) else jmGet (ss_policies T) k)"
  by (cases "jsGet (ss_policies T) sid") (auto simp: onPolicy_def jsGet_Some split: if_splits)

lemma onPolicy_jsGet [simp]: "jsGet (ss_policies (onPolicy sid f T)) sid = map_option f (jsGet (ss_policies T) sid)"
  by (cases sid) (simp_all add: jsGet_def onPolicy_get)

lemma onPolicy_select [simp]:
  "ss_spendRequests (onPolicy sid f T) = ss_spendRequests T" "ss_providers (onPolicy sid f T) = ss_providers T"
  "ss_hasAuthorization (onPolicy sid f T) = ss_hasAuthorization T"
  by (simp_all add: onPolicy_def split: option.split)

lemma onPolicy_keys [simp]: "fst ` set (ss_policies (onPolicy sid f T)) = fst ` set (ss_policies T)"
  by (auto simp: onPolicy_def dom_update jsGet_Some dest: jmGet_mem split: option.split)

lemma wp_rollDay [wp_simps]:
  "wp (SpendPolicyService_rollDay sid today) Q E = (\<lambda>s. Q () (spendState_update (onPolicy sid (rollPolicy today)) s))"
proof
  fix s :: "'a spend_world_scheme"
  have upd: "spendState_update (onPolicy sid g) s = spendState_update (\<lambda>_. onPolicy sid g (spendState s)) s" for g by simp
  have same: "jmSet k p m = m" if "jmGet m k = Some p" for k p and m :: "spend_policy jsmap"
    using that by (induction m) (auto split: if_splits)
  show "wp (SpendPolicyService_rollDay sid today) Q E s = Q () (spendState_update (onPolicy sid (rollPolicy today)) s)"
  proof (cases "jsGet (ss_policies (spendState s)) sid")
    case None
    then show ?thesis by (simp add: SpendPolicyService_rollDay_def wp_simps upd onPolicy_def)
  next
    case (Some p)
    then obtain k where k: "sid = JStr k" "jmGet (ss_policies (spendState s)) k = Some p" by (auto simp: jsGet_Some)
    then show ?thesis
      by (auto simp: SpendPolicyService_rollDay_def wp_simps onPolicy_def rollPolicy_def jmModify_def same
          intro!: arg_cong [where f = "Q ()"] spend_world.fold_congs spend_state.fold_congs)
  qed
qed

text \<open>A change of one policy that keeps its limits and its daily total in range.\<close>

lemma spend_since_policy:
  assumes since: "spend_since T s"
    and f: "\<And>p. jsGet (ss_policies (spendState s)) sid = Some p \<Longrightarrow> policy_moves p (f p) \<and>
      0 \<le> sp_dailySpentMinor (f p) \<and> sp_dailySpentMinor (f p) \<le> sp_dailyLimitMinor p"
  shows "spend_since T (spendState_update (onPolicy sid f) s)"
proof (rule spend_since_state [OF since])
  show "spend_evolve (spendState s) (onPolicy sid f (spendState s))"
    using f by (auto simp: spend_evolve_def onPolicy_get jsGet_def)
next
  assume ok: "spend_ok (issued s ''spend_request'') (issued s ''spend_policy'') (rt s) (mandateState s) (spendState s)"
  have "policy_ok k (f p)" if "sid = JStr k" "jmGet (ss_policies (spendState s)) k = Some p" for k p
    using ok f [of p] policy_movesD [of p "f p"] that unfolding spend_ok_def policy_ok_def by (auto simp: jsGet_def)
  with ok show "spend_ok (issued s ''spend_request'') (issued s ''spend_policy'') (rt s) (mandateState s) (onPolicy sid f (spendState s))"
    unfolding spend_ok_def by (auto simp: onPolicy_get split: if_splits)
qed

lemma spend_since_roll: "spend_since T s \<Longrightarrow> spend_since T (spendState_update (onPolicy sid (rollPolicy today)) s)"
  by (rule spend_since_policy)
    (auto simp: rollPolicy_def policy_moves_def jsGet_Some spend_since_def policy_ok_def dest!: spend_invD(2))

text \<open>A new request is stored under an identifier that has not been used before.\<close>

lemma spend_since_request:
  assumes since: "spend_since T s" and new: "jmGet (ss_spendRequests (spendState s)) (sr_spendRequestId q) = None"
    and ok: "sr_spendRequestId q \<in> issued s ''spend_request''" "request_ok (rt s) (mandateState s) (sr_spendRequestId q) q"
  shows "spend_since T (spendState_update (ss_spendRequests_update (jmSet (sr_spendRequestId q) q)) s)"
  by (rule spend_since_state [OF since])
    (use new ok in \<open>auto simp: spend_evolve_def spend_ok_def dom_update split: if_splits\<close>)

text \<open>What a provider and a policy have to satisfy for a spend.\<close>

definition policy_covers :: "spend_args \<Rightarrow> provider \<Rightarrow> spend_policy \<Rightarrow> bool" where
  "policy_covers a pv p \<longleftrightarrow> pv_status pv = Provider_ALLOWLISTED \<and> sp_status p = Policy_ACTIVE \<and>
     js_strict_eq (sp_subjectId p) (sa_subjectId a) \<and> js_strict_eq (sp_providerId p) (sa_providerId a) \<and>
     js_strict_eq (sp_assetId p) (sa_assetId a) \<and> js_strict_eq (sp_category p) (sa_purposeCode a)"

definition spendAuthorized :: "spend_args \<Rightarrow> int \<Rightarrow> mandate_state \<Rightarrow> bool" where
  "spendAuthorized a now M \<longleftrightarrow> (\<exists>k m. sa_mandateId a = JStr k \<and> jmGet (ms_mandates M) k = Some m \<and>
     authorizes (spendAuthorization a) now m)"

lemma wp_spendAuthorize:
  assumes pass: "\<And>t pv p. log_ext s t \<Longrightarrow> provider = Some pv \<Longrightarrow> policy = Some p \<Longrightarrow> policy_covers a pv p \<Longrightarrow>
      spendAuthorized a (nowValue s None) (mandateState s) \<Longrightarrow> Q None t"
    and reject: "\<And>t c. mandate_kept s t \<or> status_changed s t \<Longrightarrow> Q (Some c) t"
    and E: "\<And>t e. mandate_kept s t \<or> status_changed s t \<Longrightarrow> E e t"
  shows "wp (SpendPolicyService_authorize a provider policy) Q E s"
proof -
  have here: "mandate_kept s s" by (simp add: mandate_kept_def)
  have caught: "wp (case e of NativeError m \<Rightarrow> throwM e | DomainError c m \<Rightarrow> returnM (Some c)) Q E t"
    if "mandate_kept s t \<or> status_changed s t" for e t
    using reject [OF that] E [OF that] by (cases e) (simp_all add: wp_simps)
  have auth: "wp (MandateService_assertAuthorized (spendAuthorization a)) (\<lambda>_. Q None)
      (\<lambda>e. wp (case e of NativeError m \<Rightarrow> throwM e | DomainError c m \<Rightarrow> returnM (Some c)) Q E) s"
    if "provider = Some pv" "policy = Some p" "policy_covers a pv p" for pv p
  proof (rule wp_assertAuthorized)
    fix t k m
    assume "log_ext s t" "assertNonEmptyString ''mandateId'' (au_mandateId (spendAuthorization a)) = Inr k"
      "jmGet (ms_mandates (mandateState s)) k = Some m"
      "authorizes (spendAuthorization a) (nowValue s (au_now (spendAuthorization a))) m"
    then show "Q None t" using that
      by (intro pass) (auto simp: spendAuthorized_def spendAuthorization_def assertNonEmptyString_Inr)
  qed (rule caught)
  show ?thesis
  proof (cases "\<exists>pv p. provider = Some pv \<and> policy = Some p \<and> policy_covers a pv p \<and> ss_hasAuthorization (spendState s)")
    case True
    then show ?thesis
      using auth by (auto simp: SpendPolicyService_authorize_def policy_covers_def wp_bindM wp_getsM wp_catchM wp_thenM wp_returnM)
  next
    case False
    then show ?thesis
      using reject [OF disjI1, OF here]
      by (cases provider; cases policy; simp add: SpendPolicyService_authorize_def policy_covers_def wp_simps; auto)
  qed
qed

text \<open>The outcome of a request: stored, with the budget and the day's allowance taken when it is approved.\<close>

definition addRequest :: "spend_request \<Rightarrow> spend_state \<Rightarrow> spend_state" where
  "addRequest q = ss_spendRequests_update (jmSet (sr_spendRequestId q) q)"

definition spent :: "int \<Rightarrow> spend_policy \<Rightarrow> spend_policy" where
  "spent amount p = p\<lparr>sp_dailySpentMinor := sp_dailySpentMinor p + amount\<rparr>"

definition budget_taken :: "spend_args \<Rightarrow> int \<Rightarrow> string \<Rightarrow> mandate_state \<Rightarrow> mandate_state \<Rightarrow> bool" where
  "budget_taken a amount i M M' \<longleftrightarrow> (\<exists>k m m' v. sa_mandateId a = JStr k \<and> jmGet (ms_mandates M) k = Some m \<and>
     jmGet (ms_mandates M') k = Some m' \<and> md_utilizedMinor m' = md_utilizedMinor m + amount \<and>
     md_utilizedMinor m' \<le> md_aggregateLimitMinor m \<and> ms_reservations M' = ms_reservations M @ [(i, v)] \<and>
     mr_amountMinor v = amount \<and> mr_mandateId v = k)"

definition concluded :: "spend_args \<Rightarrow> int \<Rightarrow> spend_request \<Rightarrow> 'z spend_world_scheme \<Rightarrow> 'z spend_world_scheme \<Rightarrow> bool" where
  "concluded a amount q s t \<longleftrightarrow> spend_frame s t \<and> mandate_since (mandateState s) t \<and>
     (if sr_rejectionReason q = None then spend_reserved (rt s) (mandateState t) (sr_spendRequestId q) q \<and>
        spendState t = addRequest q (onPolicy (sa_spendPolicyId a) (spent amount) (spendState s)) \<and>
        (jmGet (ms_reservations (mandateState s)) (sr_spendRequestId q) = None \<longrightarrow>
           budget_taken a amount (sr_spendRequestId q) (mandateState s) (mandateState t))
      else mandateState t = mandateState s \<and> spendState t = addRequest q (spendState s))"

lemma concluded_log:
  assumes "concluded a amount q s t" and "log_ext t u"
  shows "concluded a amount q s u"
  using assms spend_frame_trans [OF _ log_spend_frame [OF assms(2)]] mandate_since_log [OF _ assms(2)]
    log_ext_spend [OF assms(2)] log_ext_mandates [OF assms(2)] by (simp add: concluded_def)

lemma mandate_since_spendState [simp]: "mandate_since M (spendState_update f s) = mandate_since M s"
  by (simp add: mandate_since_def)

lemma reserved_budget:
  assumes "reserved i v now m s t" and "sa_mandateId a = JStr (mr_mandateId v)"
  shows "budget_taken a (mr_amountMinor v) i (mandateState s) (mandateState t)"
proof -
  have "i \<notin> fst ` set (ms_reservations (mandateState s))" using assms by (simp add: reserved_def map_of_eq_None_iff)
  then show ?thesis using assms unfolding budget_taken_def by (auto simp: reserved_def reserveIn_def jmSet_fresh)
qed

lemma changed_frame: "mandate_kept s t \<or> status_changed s t \<or> (\<exists>i v now m. reserved i v now m s t) \<Longrightarrow> mandate_frame s t"
  by (auto simp: mandate_kept_def status_changed_def reserved_def)

text \<open>The reservation an approved request makes: every way it can end keeps the mandate service's invariant.\<close>

lemma wp_spendReserve:
  assumes inv: "mandate_inv s" and amount: "assertPositiveMinorUnits amountMinorName (sa_amountMinor a) = Inr amount"
    and Q: "\<And>r t v. mandate_frame s t \<Longrightarrow> mandate_since (mandateState s) t \<Longrightarrow> jmGet (ms_reservations (mandateState t)) i = Some v \<Longrightarrow>
      mr_reservationHash v = reservationHash (rt s) i (spendAuthorization a) \<Longrightarrow>
      (jmGet (ms_reservations (mandateState s)) i = None \<Longrightarrow> budget_taken a amount i (mandateState s) (mandateState t)) \<Longrightarrow> Q r t"
    and E: "\<And>e t. mandate_frame s t \<Longrightarrow> mandate_since (mandateState s) t \<Longrightarrow> E e t"
  shows "wp (MandateService_reserveUtilization (JStr i) (spendAuthorization a)) Q E s"
proof -
  note start = mandate_since_refl [OF inv]
  show ?thesis
  proof (rule wp_reserveUtilization [OF inv])
    fix t j v m
    assume "log_ext s t" "JStr i = JStr j" "jmGet (ms_reservations (mandateState s)) j = Some v"
      "mr_reservationHash v = reservationHash (rt s) j (spendAuthorization a)"
    then show "Q \<lparr>vr_mandate = m, vr_reservation = v, vr_replayed = True\<rparr> t"
      by (intro Q [of _ v]) (auto simp: log_mandate_frame log_ext_mandates intro: mandate_since_log [OF start])
  next
    fix t j k m amt
    let ?now = "nowValue s (au_now (spendAuthorization a))"
    let ?v = "reservationFor j (reservationHash (rt s) j (spendAuthorization a)) k (spendAuthorization a) amt ?now"
    assume j: "JStr i = JStr j" and k: "au_mandateId (spendAuthorization a) = JStr k"
      and amt: "assertPositiveMinorUnits amountMinorName (au_amountMinor (spendAuthorization a)) = Inr amt"
      and res: "reserved j ?v ?now m s t"
    have "amt = amount" using amt amount by (simp add: spendAuthorization_def)
    with reserved_budget [OF res, of a] k j
    have "budget_taken a amount i (mandateState s) (mandateState t)" by (simp add: spendAuthorization_def reservationFor_def)
    then show "Q \<lparr>vr_mandate = m\<lparr>md_utilizedMinor := md_utilizedMinor m + amt, md_updatedAt := ?now\<rparr>,
        vr_reservation = ?v, vr_replayed = False\<rparr> t"
      using res j by (intro Q [of _ ?v]) (auto simp: reserved_def reserveIn_def reservationFor_def intro: since_reserved [OF start res])
  next
    fix e t
    assume "mandate_kept s t \<or> status_changed s t \<or> (\<exists>i v now m. reserved i v now m s t)"
    then have "mandate_frame s t \<and> mandate_since (mandateState s) t"
      using since_kept [OF start] since_status [OF start] since_reserved [OF start] changed_frame by blast
    then show "E e t" by (intro E) simp_all
  qed
qed

definition concludedRequest :: "spend_request \<Rightarrow> string option \<Rightarrow> int \<Rightarrow> spend_request" where
  "concludedRequest q reason now = q\<lparr>sr_status := (if reason \<noteq> None then Spend_REJECTED else Spend_APPROVED),
     sr_rejectionReason := reason, sr_updatedAt := now\<rparr>"

lemma concludedRequest_simps [simp]:
  "sr_spendRequestId (concludedRequest q reason now) = sr_spendRequestId q"
  "sr_rejectionReason (concludedRequest q reason now) = reason"
  "requestAuthorization (concludedRequest q reason now) = requestAuthorization q"
  by (simp_all add: concludedRequest_def requestAuthorization_def)

lemma wp_conclude:
  assumes inv: "mandate_inv s" and amount: "assertPositiveMinorUnits amountMinorName (sa_amountMinor a) = Inr amount"
    and q: "sr_status q = Spend_REQUESTED" "requestAuthorization q = spendAuthorization a"
    and policy: "reason = None \<Longrightarrow> \<exists>p. jsGet (ss_policies (spendState s)) (sa_spendPolicyId a) = Some p"
    and Q: "\<And>t now. concluded a amount (concludedRequest q reason now) s t \<Longrightarrow> Q (concludedRequest q reason now) t"
    and E: "\<And>e t. mandate_frame s t \<and> mandate_since (mandateState s) t \<or>
      (\<exists>now. concluded a amount (concludedRequest q reason now) s t) \<Longrightarrow> E e t"
  shows "wp (SpendPolicyService_conclude a q amount reason) Q E s"
proof -
  let ?now = "rt_clock (rt s) (clockCount s)" and ?u = "s\<lparr>clockCount := Suc (clockCount s)\<rparr>"
  let ?q = "concludedRequest q reason ?now"
  note start = mandate_since_refl [OF inv]
  have tail: "wp (thenM (modifyM (spendState_update (ss_spendRequests_update (jmSet (sr_spendRequestId ?q) ?q))))
      (thenM (emitCreditEvent ev) (returnM ?q))) Q E u"
    if con: "concluded a amount ?q s (spendState_update (addRequest ?q) u)" for u ev
    unfolding wp_thenM wp_modifyM wp_returnM addRequest_def [symmetric]
    by (rule wp_emitI) (use concluded_log [OF con] Q E in blast)+
  have inv_u: "mandate_inv ?u" using mandate_inv_log [OF inv log_newDate] .
  show ?thesis
  proof (cases reason)
    case (Some c)
    have "concluded a amount ?q s (spendState_update (addRequest ?q) ?u)"
      using Some mandate_since_log [OF start log_newDate] by (simp add: concluded_def spend_frame_def)
    from tail [OF this] show ?thesis
      unfolding SpendPolicyService_conclude_def Let_def wp_thenM [where m = "liftR _"] wp_liftR wp_bindM wp_newDate
        wp_thenM [where m = "whenM _ _"] wp_whenM concludedRequest_def
      using Some by (simp add: q assertTransition_def)
  next
    case None
    from policy [OF this] obtain p k where p: "sa_spendPolicyId a = JStr k" "jmGet (ss_policies (spendState s)) k = Some p"
      by (auto simp: jsGet_Some)
    have step: "concluded a amount ?q s (spendState_update (addRequest ?q)
        (spendState_update (ss_policies_update (jmModify (js_string (sa_spendPolicyId a)) (spent amount))) t))"
      if t: "mandate_frame ?u t" "mandate_since (mandateState s) t" "jmGet (ms_reservations (mandateState t)) (sr_spendRequestId q) = Some v"
        "mr_reservationHash v = reservationHash (rt s) (sr_spendRequestId q) (spendAuthorization a)"
        "jmGet (ms_reservations (mandateState s)) (sr_spendRequestId q) = None \<Longrightarrow>
          budget_taken a amount (sr_spendRequestId q) (mandateState s) (mandateState t)" for t v
    proof -
      have "mandate_frame s t" by (rule mandate_frame_trans [OF log_mandate_frame [OF log_newDate] t(1)])
      then have fr: "spend_frame s t" and sp: "spendState t = spendState s"
        by (simp_all add: mandate_spend_frame mandate_frame_spend)
      have "ss_policies_update (jmModify (js_string (sa_spendPolicyId a)) (spent amount)) (spendState s) =
          onPolicy (sa_spendPolicyId a) (spent amount) (spendState s)"
        using p by (auto simp: onPolicy_def jmModify_def intro!: spend_state.fold_congs)
      then show ?thesis using t fr sp None q
        by (auto simp: concluded_def spend_frame_def spend_reserved_def)
    qed
    have "wp (MandateService_reserveUtilization (JStr (sr_spendRequestId q)) (spendAuthorization a))
       (\<lambda>_. wp (thenM (modifyM (spendState_update (ss_policies_update (jmModify (js_string (sa_spendPolicyId a)) (spent amount)))))
         (thenM (modifyM (spendState_update (ss_spendRequests_update (jmSet (sr_spendRequestId ?q) ?q))))
          (thenM (emitCreditEvent ev) (returnM ?q)))) Q E) E ?u" for ev
    proof (rule wp_spendReserve [OF inv_u amount])
      fix t r v
      assume t: "mandate_frame ?u t" "mandate_since (mandateState ?u) t" "jmGet (ms_reservations (mandateState t)) (sr_spendRequestId q) = Some v"
        "mr_reservationHash v = reservationHash (rt ?u) (sr_spendRequestId q) (spendAuthorization a)"
        "jmGet (ms_reservations (mandateState ?u)) (sr_spendRequestId q) = None \<Longrightarrow>
          budget_taken a amount (sr_spendRequestId q) (mandateState ?u) (mandateState t)"
      show "wp (thenM (modifyM (spendState_update (ss_policies_update (jmModify (js_string (sa_spendPolicyId a)) (spent amount)))))
         (thenM (modifyM (spendState_update (ss_spendRequests_update (jmSet (sr_spendRequestId ?q) ?q))))
          (thenM (emitCreditEvent ev) (returnM ?q)))) Q E t"
        unfolding wp_thenM [where m = "modifyM (spendState_update (ss_policies_update _))"] wp_modifyM
        by (rule tail [OF step [of t v]]) (use t in simp_all)
    next
      fix e t assume "mandate_frame ?u t" "mandate_since (mandateState ?u) t"
      then show "E e t" using mandate_frame_trans [OF log_mandate_frame [OF log_newDate], of s t] by (intro E) simp
    qed
    then show ?thesis
      unfolding SpendPolicyService_conclude_def Let_def wp_thenM [where m = "liftR _"] wp_liftR wp_bindM wp_newDate
        wp_thenM [where m = "whenM _ _"] wp_whenM concludedRequest_def
      using None by (simp add: q assertTransition_def spent_def [abs_def] wp_thenM wp_modifyM)
  qed
qed

text \<open>Over a whole request: the policy is rolled to the day first, and the reason of a rejection is the first check
  that fails.\<close>

definition requestOf :: "spend_args \<Rightarrow> string \<Rightarrow> int \<Rightarrow> spend_request" where
  "requestOf a i now =
     \<lparr>sr_spendRequestId = i, sr_subjectId = sa_subjectId a, sr_mandateId = sa_mandateId a,
      sr_providerId = sa_providerId a, sr_spendPolicyId = sa_spendPolicyId a, sr_assetId = sa_assetId a,
      sr_amountMinor = sa_amountMinor a, sr_purposeCode = sa_purposeCode a, sr_status = Spend_REQUESTED,
      sr_rejectionReason = None, sr_createdAt = now, sr_updatedAt = now, sr_schemaVersion = ''spend_request.v1''\<rparr>"

lemma requestOf_simps [simp]:
  "sr_spendRequestId (requestOf a i now) = i" "sr_status (requestOf a i now) = Spend_REQUESTED"
  "requestAuthorization (requestOf a i now) = spendAuthorization a"
  by (simp_all add: requestOf_def requestAuthorization_def spendAuthorization_def)

text \<open>\<open>u\<close> is the state between the authorization and the limits.\<close>

definition spend_ready :: "spend_args \<Rightarrow> string \<Rightarrow> 'z spend_world_scheme \<Rightarrow> 'z spend_world_scheme \<Rightarrow> bool" where
  "spend_ready a today s u \<longleftrightarrow> spend_frame s u \<and> mandate_since (mandateState s) u \<and>
     ms_reservations (mandateState u) = ms_reservations (mandateState s) \<and> Suc (uuidCount s) \<le> uuidCount u \<and>
     (\<exists>n. today = isoDate (rt s) (rt_clock (rt s) n)) \<and>
     spendState u = onPolicy (sa_spendPolicyId a) (rollPolicy today) (spendState s)"

definition spend_approvable :: "spend_args \<Rightarrow> string \<Rightarrow> int \<Rightarrow> int \<Rightarrow> 'z spend_world_scheme \<Rightarrow> bool" where
  "spend_approvable a today amount credit s \<longleftrightarrow> (\<exists>pv p now. jsGet (ss_providers (spendState s)) (sa_providerId a) = Some pv \<and>
     jsGet (ss_policies (spendState s)) (sa_spendPolicyId a) = Some p \<and> policy_covers a pv p \<and>
     spendAuthorized a now (mandateState s) \<and> spendLimits (rollPolicy today p) amount credit = None)"

lemma policy_covers_roll [simp]: "policy_covers a pv (rollPolicy today p) = policy_covers a pv p"
  by (simp add: policy_covers_def rollPolicy_def)

lemma wp_requestSpend:
  assumes inv: "spend_inv s"
    and Q: "\<And>t u today amount credit reason now1 now2.
      assertPositiveMinorUnits amountMinorName (sa_amountMinor a) = Inr amount \<Longrightarrow>
      assertNonNegativeMinorUnits ''creditAvailableMinor'' (sa_creditAvailableMinor a) = Inr credit \<Longrightarrow>
      spend_ready a today s u \<Longrightarrow> (reason = None \<Longrightarrow> spend_approvable a today amount credit s \<and> mandateState u = mandateState s) \<Longrightarrow>
      concluded a amount (concludedRequest (requestOf a (opId (rt s) ''spend_request'' (uuidCount s)) now1) reason now2) u t \<Longrightarrow>
      Q (concludedRequest (requestOf a (opId (rt s) ''spend_request'' (uuidCount s)) now1) reason now2) t"
    and E1: "\<And>e t. log_ext s t \<Longrightarrow> E e t"
    and E2: "\<And>e t u today. spend_ready a today s u \<Longrightarrow> mandate_frame u t \<Longrightarrow> mandate_since (mandateState u) t \<Longrightarrow> E e t"
    and E3: "\<And>e t u today amount credit reason now1 now2.
      assertPositiveMinorUnits amountMinorName (sa_amountMinor a) = Inr amount \<Longrightarrow>
      spend_ready a today s u \<Longrightarrow> (reason = None \<Longrightarrow> spend_approvable a today amount credit s \<and> mandateState u = mandateState s) \<Longrightarrow>
      concluded a amount (concludedRequest (requestOf a (opId (rt s) ''spend_request'' (uuidCount s)) now1) reason now2) u t \<Longrightarrow> E e t"
  shows "wp (SpendPolicyService_requestSpend a) Q E s"
proof -
  let ?i = "opId (rt s) ''spend_request'' (uuidCount s)"
  let ?s = "s\<lparr>clockCount := Suc (clockCount s), uuidCount := Suc (uuidCount s)\<rparr>"
  let ?q = "requestOf a ?i (rt_clock (rt s) (clockCount s))"
  have minv: "mandate_inv s" using inv by (simp add: spend_inv_def)
  have early: "log_ext s ?s" by (simp add: log_ext_def)
  have decided: "wp (SpendPolicyService_authorize a provider (map_option (rollPolicy today) policy)) (\<lambda>reason.
       wp (SpendPolicyService_conclude a ?q amount
         (case reason of Some c \<Rightarrow> Some c | None \<Rightarrow>
          (case map_option (rollPolicy today) policy of Some p \<Rightarrow> spendLimits p amount credit | None \<Rightarrow> None))) Q E) E u"
    if amount: "assertPositiveMinorUnits amountMinorName (sa_amountMinor a) = Inr amount"
      and credit: "assertNonNegativeMinorUnits ''creditAvailableMinor'' (sa_creditAvailableMinor a) = Inr credit"
      and ready: "spend_ready a today s u" and mu: "mandateState u = mandateState s"
      and look: "provider = jsGet (ss_providers (spendState s)) (sa_providerId a)"
        "policy = jsGet (ss_policies (spendState s)) (sa_spendPolicyId a)" for provider policy today amount credit u
  proof -
    have uinv: "mandate_inv u" using ready by (simp add: spend_ready_def mandate_since_def)
    have pol: "jsGet (ss_policies (spendState u)) (sa_spendPolicyId a) = map_option (rollPolicy today) policy"
      using ready look by (simp add: spend_ready_def)
    have concl: "wp (SpendPolicyService_conclude a ?q amount reason) Q E u'"
      if r: "spend_ready a today s u'" and ap: "reason = None \<Longrightarrow> spend_approvable a today amount credit s \<and> mandateState u' = mandateState s"
        and pl: "reason = None \<Longrightarrow> \<exists>p. jsGet (ss_policies (spendState u')) (sa_spendPolicyId a) = Some p" for u' reason
    proof (rule wp_conclude)
      show "mandate_inv u'" using r by (simp add: spend_ready_def mandate_since_def)
      show "Q (concludedRequest ?q reason now) t" if "concluded a amount (concludedRequest ?q reason now) u' t" for t now
        using ap by (rule Q [OF amount credit r _ that])
      show "E e t" if "mandate_frame u' t \<and> mandate_since (mandateState u') t \<or>
          (\<exists>now. concluded a amount (concludedRequest ?q reason now) u' t)" for e t
        using that E2 [OF r] E3 [OF amount r ap] by blast
    qed (use amount pl in auto)
    have moved: "spend_ready a today s t" if "mandate_kept u t \<or> status_changed u t" for t
    proof -
      have fr: "mandate_frame u t" using that by (intro changed_frame) blast
      have "mandate_since (mandateState s) t"
        using that since_kept since_status ready unfolding spend_ready_def by blast
      moreover have "ms_reservations (mandateState t) = ms_reservations (mandateState u)"
        using that by (auto simp: mandate_kept_def status_changed_def)
      ultimately show ?thesis
        using ready spend_frame_trans [OF _ mandate_spend_frame [OF fr], of s] mandate_frame_spend [OF fr] fr
        by (auto simp: spend_ready_def mandate_frame_def)
    qed
    show ?thesis
    proof (rule wp_spendAuthorize)
      fix t pv p'
      assume log: "log_ext u t" and *: "provider = Some pv" "map_option (rollPolicy today) policy = Some p'" "policy_covers a pv p'"
        "spendAuthorized a (nowValue u None) (mandateState u)"
      then obtain p where p: "policy = Some p" "p' = rollPolicy today p" by blast
      have "spend_ready a today s t" by (rule moved) (use log_kept [OF log] in simp)
      then show "wp (SpendPolicyService_conclude a ?q amount (case None of Some c \<Rightarrow> Some c | None \<Rightarrow>
          (case map_option (rollPolicy today) policy of Some p \<Rightarrow> spendLimits p amount credit | None \<Rightarrow> None))) Q E t"
        using * p look mu log_ext_mandates [OF log] log_ext_spend [OF log] pol
        by (intro concl) (auto simp: spend_approvable_def)
    next
      fix t c assume "mandate_kept u t \<or> status_changed u t"
      then show "wp (SpendPolicyService_conclude a ?q amount (case Some c of Some c \<Rightarrow> Some c | None \<Rightarrow>
          (case map_option (rollPolicy today) policy of Some p \<Rightarrow> spendLimits p amount credit | None \<Rightarrow> None))) Q E t"
        by (intro concl moved) auto
    next
      fix t e assume "mandate_kept u t \<or> status_changed u t"
      then have r: "spend_ready a today s t" by (rule moved)
      then have "mandate_inv t" by (simp add: spend_ready_def mandate_since_def)
      from E2 [OF r mandate_frame_refl mandate_since_refl [OF this]] show "E e t" .
    qed
  qed
  have ready: "spend_ready a today s (spendState_update (onPolicy (sa_spendPolicyId a) (rollPolicy today)) (t\<lparr>clockCount := n\<rparr>))"
    if log: "log_ext ?s t" and today: "\<exists>n. today = isoDate (rt t) (rt_clock (rt t) n)" for t n today
  proof -
    have st: "log_ext s t" by (rule log_ext_trans [OF early log])
    have "mandate_since (mandateState s) t" by (rule mandate_since_log [OF mandate_since_refl [OF minv] st])
    then have "mandate_since (mandateState s) (t\<lparr>clockCount := n\<rparr>)" by (simp add: mandate_since_def mandate_inv_def issued_def)
    moreover have "Suc (uuidCount s) \<le> uuidCount t" using log_ext_uuid [OF log] by simp
    ultimately show ?thesis
      using log_spend_frame [OF st] log_ext_spend [OF st] log_ext_mandates [OF st] today by (simp add: spend_ready_def spend_frame_def)
  qed
  have body: "wp (thenM (emitCreditEvent ev) (bindM newDate (\<lambda>now. bindM (getsM rt) (\<lambda>r.
      thenM (SpendPolicyService_rollDay (sa_spendPolicyId a) (isoDate r now))
      (bindM (getsM (\<lambda>s. jsGet (ss_policies (spendState s)) (sa_spendPolicyId a))) (\<lambda>policy.
       bindM (SpendPolicyService_authorize a (jsGet (ss_providers (spendState s)) (sa_providerId a)) policy) (\<lambda>reason.
       SpendPolicyService_conclude a ?q amount (case reason of Some c \<Rightarrow> Some c | None \<Rightarrow>
         (case policy of Some p \<Rightarrow> spendLimits p amount credit | None \<Rightarrow> None))))))))) Q E ?s"
    if args: "assertPositiveMinorUnits amountMinorName (sa_amountMinor a) = Inr amount"
      "assertNonNegativeMinorUnits ''creditAvailableMinor'' (sa_creditAvailableMinor a) = Inr credit" for ev amount credit
    unfolding wp_thenM [where m = "emitCreditEvent _"]
  proof (rule wp_emitI)
    fix t assume log: "log_ext ?s t"
    have st: "log_ext s t" by (rule log_ext_trans [OF early log])
    note eqs = log_ext_spend [OF st] log_ext_mandates [OF st]
    have pol: "jsGet (ss_policies (spendState (spendState_update (onPolicy (sa_spendPolicyId a) (rollPolicy today)) (t\<lparr>clockCount := n\<rparr>))))
        (sa_spendPolicyId a) = map_option (rollPolicy today) (jsGet (ss_policies (spendState s)) (sa_spendPolicyId a))" for today n
      using eqs by simp
    show "wp (bindM newDate (\<lambda>now. bindM (getsM rt) (\<lambda>r.
      thenM (SpendPolicyService_rollDay (sa_spendPolicyId a) (isoDate r now))
      (bindM (getsM (\<lambda>s. jsGet (ss_policies (spendState s)) (sa_spendPolicyId a))) (\<lambda>policy.
       bindM (SpendPolicyService_authorize a (jsGet (ss_providers (spendState s)) (sa_providerId a)) policy) (\<lambda>reason.
       SpendPolicyService_conclude a ?q amount (case reason of Some c \<Rightarrow> Some c | None \<Rightarrow>
         (case policy of Some p \<Rightarrow> spendLimits p amount credit | None \<Rightarrow> None)))))))) Q E t"
      unfolding wp_bindM [where m = newDate] wp_newDate wp_bindM [where m = "getsM _"] wp_getsM
        wp_thenM [where m = "SpendPolicyService_rollDay _ _"] wp_rollDay wp_bindM [where m = "SpendPolicyService_authorize _ _ _"] pol
      by (rule decided [OF args ready [OF log]]) (auto simp: eqs)
  qed (use E1 log_ext_trans [OF early] in blast)
  show ?thesis
    unfolding SpendPolicyService_requestSpend_def createSpendRequest_def requestOf_def [symmetric] wp_bindM [where m = "bindM _ _"]
      wp_bindM [where m = newDate] wp_newDate wp_bindM [where m = "createOperationalId _"] wp_createOperationalId wp_returnM
      wp_bindM [where m = "getsM _"] wp_getsM wp_bindM [where m = "liftR _"] wp_liftR
    by (simp split: sum.split add: E1 early body)
qed

subsection \<open>Every operation keeps the invariant\<close>

lemma spend_since_via:
  fixes s t :: "'z spend_world_scheme"
  assumes since: "spend_since T s" and frame: "spend_frame s t" and m: "mandate_since (mandateState s) t"
    and t: "spendState t = f (spendState s)"
    and f: "\<And>u :: 'z spend_world_scheme. spend_since T u \<Longrightarrow> spendState u = spendState s \<Longrightarrow> mandateState u = mandateState t \<Longrightarrow> rt u = rt s \<Longrightarrow>
      (\<And>p. issued u p = issued t p) \<Longrightarrow> spend_since T (spendState_update f u)"
  shows "spend_since T t"
proof -
  let ?u = "spendState_update (\<lambda>_. spendState s) t"
  have "mandate_frame s ?u" using frame by (cases s, cases t) (simp add: mandate_frame_def spend_frame_def)
  from spend_since_mandate [OF since this] m have "spend_since T ?u" by simp
  from f [OF this] have "spend_since T (spendState_update f ?u)"
    using frame by (simp add: spend_frame_def issued_def)
  moreover have "spendState_update f ?u = t" using t by (cases t) simp
  ultimately show ?thesis by simp
qed

lemma ready_since:
  assumes "spend_since T s" and "spend_ready a today s u"
  shows "spend_since T u"
  by (rule spend_since_via [OF assms(1), of u "onPolicy (sa_spendPolicyId a) (rollPolicy today)"])
    (use assms(2) in \<open>auto simp: spend_ready_def intro: spend_since_roll\<close>)

lemma limits_ok:
  assumes "spendLimits (rollPolicy today p) amount credit = None" and "policy_ok k p" and "0 < amount"
  shows "0 \<le> sp_dailySpentMinor (rollPolicy today p) + amount"
    "sp_dailySpentMinor (rollPolicy today p) + amount \<le> sp_dailyLimitMinor (rollPolicy today p)"
  using assms by (auto simp: spendLimits_def rollPolicy_def policy_ok_def split: if_splits)

lemma request_ok_concluded:
  assumes "reason = None \<Longrightarrow> spend_reserved r M (sr_spendRequestId q) (concludedRequest q reason now)"
  shows "request_ok r M (sr_spendRequestId q) (concludedRequest q reason now)"
  using assms by (cases reason) (auto simp: request_ok_def concludedRequest_def)

lemma concluded_since:
  assumes since: "spend_since T s" and ready: "spend_ready a today s u" and amount: "0 < amount"
    and ap: "reason = None \<Longrightarrow> spend_approvable a today amount credit s"
    and q: "sr_spendRequestId q = opId (rt s) ''spend_request'' (uuidCount s)"
    and con: "concluded a amount (concludedRequest q reason now) u t"
  shows "spend_since T t"
proof -
  have su: "spend_since T u" by (rule ready_since [OF since ready])
  have inv: "spend_inv s" using since by (simp add: spend_since_def)
  have req: "ss_spendRequests (spendState u) = ss_spendRequests (spendState s)" using ready by (simp add: spend_ready_def)
  have "sr_spendRequestId q \<notin> fst ` set (ss_spendRequests (spendState s))"
    using inv q issued_fresh [of s "''spend_request''"] by (auto simp: spend_inv_def spend_ok_def mandate_inv_def)
  then have new: "jmGet (ss_spendRequests (spendState u)) (sr_spendRequestId q) = None" by (simp add: req map_of_eq_None_iff)
  have fr: "spend_frame u t" "mandate_since (mandateState u) t" using con by (simp_all add: concluded_def)
  have rt: "rt t = rt s" "rt u = rt s" using fr(1) ready by (simp_all add: spend_frame_def spend_ready_def)
  have iss: "sr_spendRequestId q \<in> issued t ''spend_request''"
    using q fr(1) ready rt opId_issued [of "uuidCount s" t "''spend_request''"] by (auto simp: spend_frame_def spend_ready_def)
  let ?q = "concludedRequest q reason now"
  let ?f = "if reason = None then onPolicy (sa_spendPolicyId a) (spent amount) else (\<lambda>T. T)"
  have st: "spendState t = (addRequest ?q \<circ> ?f) (spendState u)" using con by (auto simp: concluded_def)
  have ok: "request_ok (rt s) (mandateState t) (sr_spendRequestId q) ?q"
    by (rule request_ok_concluded) (use con rt in \<open>simp add: concluded_def\<close>)
  show ?thesis
  proof (rule spend_since_via [where f = "addRequest ?q \<circ> ?f", OF su fr st])
    fix w :: "'a spend_world_scheme"
    assume w: "spend_since T w" "spendState w = spendState u" "mandateState w = mandateState t" "rt w = rt u"
      "\<And>p. issued w p = issued t p"
    have pol: "spend_since T (spendState_update ?f w)"
    proof (cases "reason = None")
      case True
      from ap [OF this] obtain pv p where p: "jsGet (ss_policies (spendState s)) (sa_spendPolicyId a) = Some p"
        "spendLimits (rollPolicy today p) amount credit = None" unfolding spend_approvable_def by blast
      then obtain k where k: "jmGet (ss_policies (spendState s)) k = Some p" by (auto simp: jsGet_Some)
      have "jsGet (ss_policies (spendState w)) (sa_spendPolicyId a) = Some (rollPolicy today p)"
        using ready p by (simp add: w spend_ready_def)
      then have "spend_since T (spendState_update (onPolicy (sa_spendPolicyId a) (spent amount)) w)"
        using limits_ok [OF p(2) spend_invD(2) [OF inv k] amount]
        by (intro spend_since_policy [OF w(1)]) (auto simp: spent_def policy_moves_def)
      with True show ?thesis by simp
    next
      case False
      then obtain c where "reason = Some c" by blast
      moreover have "spendState_update (\<lambda>T. T) w = w" by (cases w) simp
      ultimately show ?thesis using w(1) by (simp only: option.distinct if_False)
    qed
    have "spend_since T (spendState_update (ss_spendRequests_update (jmSet (sr_spendRequestId ?q) ?q)) (spendState_update ?f w))"
      by (rule spend_since_request [OF pol]) (use w new ok iss rt in \<open>auto simp: issued_def\<close>)
    then show "spend_since T (spendState_update (addRequest ?q \<circ> ?f) w)" by (simp add: addRequest_def comp_def)
  qed
qed

lemma since_requestSpend: "preserves (spend_since T) (SpendPolicyService_requestSpend a)"
proof (rule preservesI)
  fix s :: "'a spend_world_scheme"
  assume since: "spend_since T s"
  then have inv: "spend_inv s" by (simp add: spend_since_def)
  have fin: "spend_since T t" if "assertPositiveMinorUnits amountMinorName (sa_amountMinor a) = Inr amount"
      "spend_ready a today s u" "reason = None \<Longrightarrow> spend_approvable a today amount credit s \<and> mandateState u = mandateState s"
      "concluded a amount (concludedRequest (requestOf a (opId (rt s) ''spend_request'' (uuidCount s)) now1) reason now2) u t"
    for amount today u reason credit now1 now2 t
    by (rule concluded_since [OF since that(2) _ _ _ that(4), of credit]) (use toBigInt_checked [OF that(1)] that(3) in simp_all)
  have mid: "spend_since T t" if "spend_ready a today s u" "mandate_frame u t" "mandate_since (mandateState u) t" for today u t
    by (rule spend_since_mandate [OF ready_since [OF since that(1)] that(2,3)])
  show "wp (SpendPolicyService_requestSpend a) (\<lambda>_. spend_since T) (\<lambda>_. spend_since T) s"
    by (rule wp_requestSpend [OF inv]) (blast intro: fin mid spend_since_log [OF since])+
qed

lemma since_settleSpend: "preserves (spend_since T) (SpendPolicyService_settleSpend k)"
proof (rule preservesI)
  fix s :: "'a spend_world_scheme"
  assume since: "spend_since T s"
  show "wp (SpendPolicyService_settleSpend k) (\<lambda>_. spend_since T) (\<lambda>_. spend_since T) s"
  proof (cases "\<exists>q. jmGet (ss_spendRequests (spendState s)) k = Some q \<and> Spend_SETTLED \<in> set (SpendRequestTransitions (sr_status q))")
    case False
    then show ?thesis
      by (auto simp: SpendPolicyService_settleSpend_def wp_simps assertTransition_def guardR_def since split: option.split)
  next
    case True
    then obtain q where q: "jmGet (ss_spendRequests (spendState s)) k = Some q"
      and tr: "Spend_SETTLED \<in> set (SpendRequestTransitions (sr_status q))" by blast
    let ?u = "s\<lparr>clockCount := Suc (clockCount s)\<rparr>"
    let ?g = "\<lambda>q. q\<lparr>sr_status := Spend_SETTLED, sr_updatedAt := rt_clock (rt s) (clockCount s)\<rparr>"
    have su: "spend_since T ?u" by (rule spend_since_log [OF since log_newDate])
    have mv: "request_moves q (?g q)" using tr by (auto simp: request_moves_def moves_def intro!: evolvesI)
    have st: "sr_status q = Spend_APPROVED" using tr by (cases "sr_status q") auto
    have "spend_since T (spendState_update (ss_spendRequests_update (jmModify k ?g)) ?u)"
    proof (rule spend_since_state [OF su])
      show "spend_evolve (spendState ?u) (ss_spendRequests_update (jmModify k ?g) (spendState ?u))"
        using q mv by (auto simp: spend_evolve_def)
    next
      assume ok: "spend_ok (issued ?u ''spend_request'') (issued ?u ''spend_policy'') (rt ?u) (mandateState ?u) (spendState ?u)"
      then have "request_ok (rt s) (mandateState s) k q" using q by (simp add: spend_ok_def)
      then have "request_ok (rt s) (mandateState s) k (?g q)"
        using st request_movesD [OF mv] by (auto simp: request_ok_def spend_reserved_def)
      with ok q show "spend_ok (issued ?u ''spend_request'') (issued ?u ''spend_policy'') (rt ?u) (mandateState ?u)
          (ss_spendRequests_update (jmModify k ?g) (spendState ?u))"
        unfolding spend_ok_def by auto
    qed
    then have tail: "spend_since T t" if "log_ext (spendState_update (ss_spendRequests_update (jmModify k ?g)) ?u) t" for t
      using that by (rule spend_since_log)
    show ?thesis
      using q tr by (simp add: SpendPolicyService_settleSpend_def wp_simps assertTransition_def)
        (rule wp_emitI; use tail in \<open>simp add: wp_simps split: option.split\<close>)
  qed
qed

lemma since_allowProvider: "preserves (spend_since T) (SpendPolicyService_allowProvider input)"
proof (rule preservesI)
  fix s :: "'a spend_world_scheme"
  assume since: "spend_since T s"
  have emit: "wp (thenM (emitCreditEvent ev) (returnM r)) (\<lambda>_. spend_since T) (\<lambda>_. spend_since T)
      (spendState_update (ss_providers_update f) u)" if "log_ext s u" for u ev f and r :: provider
  proof -
    have "spend_since T (spendState_update (ss_providers_update f) u)"
      by (rule spend_since_state [OF spend_since_log [OF since that]]) (simp_all add: spend_evolve_def spend_ok_def)
    then show ?thesis unfolding wp_thenM wp_returnM by (intro wp_emitI) (auto intro: spend_since_log)
  qed
  have "log_ext s ((nowState now s)\<lparr>uuidCount := Suc (uuidCount (nowState now s))\<rparr>)" for now
    by (rule log_ext_trans [OF log_nowState [of _ now]]) simp
  note tail = emit [OF this]
  show "wp (SpendPolicyService_allowProvider input) (\<lambda>_. spend_since T) (\<lambda>_. spend_since T) s"
    unfolding SpendPolicyService_allowProvider_def createProvider_def wp_bindM wp_liftR wp_nowOr_eq wp_createOperationalId wp_hashM
      wp_returnM wp_thenM [where m = "modifyM _"] wp_modifyM
    using tail since by (simp split: sum.split)
qed

lemma spend_since_newPolicy:
  assumes since: "spend_since T s" and new: "sp_spendPolicyId p \<notin> issued s ''spend_policy''" and log: "log_ext s u"
    and ok: "policy_ok (sp_spendPolicyId p) p" "sp_spendPolicyId p \<in> issued u ''spend_policy''"
  shows "spend_since T (spendState_update (ss_policies_update (jmSet (sp_spendPolicyId p) p)) u)"
proof (rule spend_since_state [OF spend_since_log [OF since log]])
  have "fst ` set (ss_policies (spendState s)) \<subseteq> issued s ''spend_policy''"
    using since by (simp add: spend_since_def spend_inv_def spend_ok_def)
  with new have "jmGet (ss_policies (spendState u)) (sp_spendPolicyId p) = None"
    by (auto simp: log_ext_spend [OF log] map_of_eq_None_iff)
  then show "spend_evolve (spendState u) (ss_policies_update (jmSet (sp_spendPolicyId p) p) (spendState u))"
    by (auto simp: spend_evolve_def)
next
  assume "spend_ok (issued u ''spend_request'') (issued u ''spend_policy'') (rt u) (mandateState u) (spendState u)"
  with ok show "spend_ok (issued u ''spend_request'') (issued u ''spend_policy'') (rt u) (mandateState u)
      (ss_policies_update (jmSet (sp_spendPolicyId p) p) (spendState u))"
    unfolding spend_ok_def by (auto simp: dom_update split: if_splits)
qed

lemma since_createSpendPolicy: "preserves (spend_since T) (SpendPolicyService_createSpendPolicy input)"
proof (rule preservesI)
  fix s :: "'a spend_world_scheme"
  assume since: "spend_since T s"
  have uuid: "uuid_unique (rt s)" using since by (simp add: spend_since_def spend_inv_def mandate_inv_def)
  have emit: "wp (thenM (emitCreditEvent ev) (returnM r)) (\<lambda>_. spend_since T) (\<lambda>_. spend_since T)
      (spendState_update (ss_policies_update (jmSet i p)) ((nowState now s)\<lparr>uuidCount := Suc (uuidCount (nowState now s))\<rparr>))"
    if "policy_ok i p" "i = opId (rt (nowState now s)) ''spend_policy'' (uuidCount (nowState now s))"
    for p ev now i and r :: spend_policy
  proof -
    let ?u = "(nowState now s)\<lparr>uuidCount := Suc (uuidCount (nowState now s))\<rparr>"
    have log: "log_ext s ?u" by (rule log_ext_trans [OF log_nowState [of _ now]]) simp
    have n: "rt (nowState now s) = rt s" "uuidCount s \<le> uuidCount (nowState now s)"
      using log_ext_rt [OF log_nowState] log_ext_uuid [OF log_nowState] by blast+
    have i: "sp_spendPolicyId p = i" using that(1) by (simp add: policy_ok_def)
    have "i \<notin> issued s ''spend_policy''" using opId_later [OF uuid n(2)] that(2) n(1) by simp
    from spend_since_newPolicy [OF since _ log, of p] this that i
    have "spend_since T (spendState_update (ss_policies_update (jmSet i p)) ?u)"
      using opId_issued [of "uuidCount (nowState now s)" ?u "''spend_policy''"] by simp
    then show ?thesis unfolding wp_thenM wp_returnM by (intro wp_emitI) (auto intro: spend_since_log)
  qed
  show "wp (SpendPolicyService_createSpendPolicy input) (\<lambda>_. spend_since T) (\<lambda>_. spend_since T) s"
    unfolding SpendPolicyService_createSpendPolicy_def createSpendPolicy_def Let_def wp_bindM wp_requireProvider wp_liftR wp_nowOr_eq
      wp_createOperationalId wp_hashM wp_getsM wp_returnM wp_thenM [where m = "modifyM _"] wp_modifyM wp_thenM [where m = "throwIf _ _ _"] wp_throwIf
    using since by (auto simp: policy_ok_def assertPositive_Inr intro!: emit split: sum.split option.split)
qed

subsection \<open>Reachable spend requests\<close>

text \<open>Calls of the service, and anything the other services do: the mandate service on its own state, the rest
  outside both.\<close>

inductive spend_step :: "'z spend_world_scheme \<Rightarrow> 'z spend_world_scheme \<Rightarrow> bool" where
  allow: "SpendPolicyService_allowProvider input s = (r, t) \<Longrightarrow> spend_step s t"
| policy: "SpendPolicyService_createSpendPolicy pinput s = (r', t) \<Longrightarrow> spend_step s t"
| request: "SpendPolicyService_requestSpend a s = (q, t) \<Longrightarrow> spend_step s t"
| settle: "SpendPolicyService_settleSpend k s = (q, t) \<Longrightarrow> spend_step s t"
| mandates: "mandate_frame s t \<Longrightarrow> mandate_step s t \<Longrightarrow> spend_step s t"

lemma spend_since_stepI: "spend_since T s \<Longrightarrow> spend_step s t \<Longrightarrow> spend_since T t"
proof (erule spend_step.cases)
  fix s' t' :: "'a spend_world_scheme"
  assume since: "spend_since T s" and st: "s = s'" "t = t'" and "mandate_frame s' t'" "mandate_step s' t'"
  then have step: "mandate_frame s t" "mandate_step s t" by simp_all
  with since have "mandate_since (mandateState s) t"
    by (intro mandate_since_stepI [OF mandate_since_refl]) (simp_all add: spend_since_def spend_inv_def)
  with since step(1) show "spend_since T t" by (rule spend_since_mandate)
qed (auto intro: since_allowProvider [THEN preserves_run] since_createSpendPolicy [THEN preserves_run]
      since_requestSpend [THEN preserves_run] since_settleSpend [THEN preserves_run])

interpretation spend_ts: transition_system spend_step "spend_since T" for T
  by unfold_locales (rule spend_since_stepI)

definition spend_init :: "'z spend_world_scheme \<Rightarrow> bool" where
  "spend_init s \<longleftrightarrow> mandate_init s \<and> ss_policies (spendState s) = [] \<and> ss_spendRequests (spendState s) = []"

lemma spend_init_inv: "spend_init s \<Longrightarrow> spend_inv s"
  by (simp add: spend_init_def spend_inv_def spend_ok_def mandate_init_inv)

lemma spend_since_refl: "spend_inv s \<Longrightarrow> spend_since (spendState s) s"
  by (simp add: spend_since_def)

subsection \<open>A concrete spend\<close>

definition demo_provider :: provider where
  "demo_provider = \<lparr>pv_providerId = ''provider_'', pv_providerHash = ''0xh'', pv_name = JStr ''n'', pv_settlementAccountIdRef = ''a'',
     pv_status = Provider_ALLOWLISTED, pv_riskTier = JStr ''tier_1'', pv_createdAt = 0, pv_schemaVersion = ''provider.v1''\<rparr>"

definition demo_policy :: spend_policy where
  "demo_policy = \<lparr>sp_spendPolicyId = ''spend_policy_'', sp_spendPolicyHash = ''0xh'', sp_subjectId = JStr ''s1'', sp_providerId = JStr ''provider_'',
     sp_assetId = JStr ''USDC'', sp_category = JStr ''model_api'', sp_perTxLimitMinor = 500, sp_dailyLimitMinor = 600, sp_obligationCapMinor = 450,
     sp_dailySpentMinor = 550, sp_dailySpentDate = ''yesterday'', sp_status = Policy_ACTIVE, sp_createdAt = 0, sp_schemaVersion = ''spend_policy.v1''\<rparr>"

definition demo_spend :: spend_world where
  "demo_spend = \<lparr>rt = demo_runtime, uuidCount = 1, clockCount = 0, creditEvents = [], auditEvents = [],
     seenCreditIds = [], seenAuditIds = [], evidenceEnvelopes = [], aggregateVersions = [],
     ledger = ledger_empty, lockboxes = [], obligationState = \<lparr>os_obligations = [], os_repayments = []\<rparr>,
     mandateState = mandateState demo_mandates, riskState = demo_lines Line_APPROVED,
     spendState = \<lparr>ss_hasAuthorization = True, ss_providers = [(''provider_'', demo_provider)],
       ss_policies = [(''spend_policy_'', demo_policy)], ss_spendRequests = []\<rparr>\<rparr>"

definition demo_spend_args :: spend_args where
  "demo_spend_args = \<lparr>sa_mandateId = JStr ''mandate_'', sa_subjectId = JStr ''s1'', sa_providerId = JStr ''provider_'',
     sa_spendPolicyId = JStr ''spend_policy_'', sa_assetId = JStr ''USDC'', sa_amountMinor = JStr ''400'',
     sa_purposeCode = JStr ''model_api'', sa_creditAvailableMinor = JStr ''600''\<rparr>"

lemma demo_spend_inv: "spend_inv demo_spend"
proof -
  have "issued demo_spend p = issued demo_mandates p" for p by (simp add: issued_def demo_spend_def demo_mandates_def)
  then have "mandate_inv demo_spend" using demo_mandates_inv by (simp add: mandate_inv_def demo_spend_def demo_mandates_def)
  moreover have "''spend_policy_'' \<in> issued demo_spend ''spend_policy''"
    by (auto simp: issued_def demo_spend_def eval_simps lessThan_Suc)
  ultimately show ?thesis
    by (simp add: spend_inv_def spend_ok_def demo_spend_def policy_ok_def demo_policy_def)
qed

lemma dec_3: "dec 3 = ''3''"
  by code_simp

lemma demo_spend_run:
  "\<exists>q t. SpendPolicyService_requestSpend demo_spend_args demo_spend = (Inr q, t) \<and> sr_status q = Spend_APPROVED"
  by (simp add: SpendPolicyService_requestSpend_def createSpendRequest_def SpendPolicyService_rollDay_def SpendPolicyService_authorize_def
      SpendPolicyService_conclude_def spendEventFields_def spendAuthorization_def spendLimits_def isoDate_def
      MandateService_assertAuthorized_def MandateService_requireMandate_def MandateService_reserveUtilization_def
      MandateService_recordReservation_def updateMandate_def reservationHash_def checkMandate_def toBigInt_checked [OF demo_amounts(1)]
      checkScope_def checkAmount_def demo_reported demo_amounts demo_spend_def demo_mandates_def demo_reservation_def reservationFor_def
      demo_mandate_def demo_provider_def demo_policy_def demo_spend_args_def assertEnumValue_def MandateCapability_values_def
      assertTransition_def jmModify_def dec_3 eval_simps cong: eval_congs)

subsection \<open>Properties\<close>

text \<open>
  C23. A spend request that returns is stored under a fresh identifier and is approved or rejected. It is approved only
  if the provider is allowlisted, the policy is active and covers subject, provider, asset and purpose, the mandate
  authorises the spend, and the amount is within the per-transaction limit, what is left of the day's limit, the
  obligation cap and the available credit. Then the day's total grows by exactly the amount and the mandate's budget is
  reserved under the request's identifier, by exactly the amount if that identifier was not reserved before. A rejected request
  carries its reason and reserves nothing. Neither touches another policy, a ledger account, a lockbox, an obligation or a credit line.
\<close>

theorem spend_policy_respected:
  assumes "spend_inv s" and "SpendPolicyService_requestSpend a s = (Inr q, t)"
  shows "jmGet (ss_spendRequests (spendState s)) (sr_spendRequestId q) = None \<and>
    jmGet (ss_spendRequests (spendState t)) (sr_spendRequestId q) = Some q \<and>
    (\<forall>k. sa_spendPolicyId a \<noteq> JStr k \<longrightarrow> jmGet (ss_policies (spendState t)) k = jmGet (ss_policies (spendState s)) k) \<and>
    ledger t = ledger s \<and> lockboxes t = lockboxes s \<and> obligationState t = obligationState s \<and> riskState t = riskState s \<and>
    (if sr_status q = Spend_APPROVED then
      \<exists>pv p p' today n amount credit now.
        assertPositiveMinorUnits amountMinorName (sa_amountMinor a) = Inr amount \<and>
        assertNonNegativeMinorUnits ''creditAvailableMinor'' (sa_creditAvailableMinor a) = Inr credit \<and>
        jsGet (ss_providers (spendState s)) (sa_providerId a) = Some pv \<and>
        jsGet (ss_policies (spendState s)) (sa_spendPolicyId a) = Some p \<and> policy_covers a pv p \<and>
        spendAuthorized a now (mandateState s) \<and> today = isoDate (rt s) (rt_clock (rt s) n) \<and>
        amount \<le> sp_perTxLimitMinor p \<and> amount \<le> sp_obligationCapMinor p \<and> amount \<le> credit \<and>
        jsGet (ss_policies (spendState t)) (sa_spendPolicyId a) = Some p' \<and> sp_dailySpentDate p' = today \<and>
        sp_dailySpentMinor p' = (if sp_dailySpentDate p = today then sp_dailySpentMinor p else 0) + amount \<and>
        sp_dailySpentMinor p' \<le> sp_dailyLimitMinor p \<and>
        spend_reserved (rt s) (mandateState t) (sr_spendRequestId q) q \<and>
        (jmGet (ms_reservations (mandateState s)) (sr_spendRequestId q) = None \<longrightarrow>
          budget_taken a amount (sr_spendRequestId q) (mandateState s) (mandateState t))
     else sr_status q = Spend_REJECTED \<and> sr_rejectionReason q \<noteq> None \<and>
        ms_reservations (mandateState t) = ms_reservations (mandateState s))" (is "?P q t")
proof -
  let ?i = "opId (rt s) ''spend_request'' (uuidCount s)"
  have new: "jmGet (ss_spendRequests (spendState s)) ?i = None"
  proof -
    have "?i \<notin> fst ` set (ss_spendRequests (spendState s))"
      using assms(1) issued_fresh [of s "''spend_request''"] by (auto simp: spend_inv_def spend_ok_def mandate_inv_def)
    then show ?thesis by (simp add: map_of_eq_None_iff)
  qed
  have "wp (SpendPolicyService_requestSpend a) ?P (\<lambda>_ _. True) s"
  proof (rule wp_requestSpend [OF assms(1)])
    fix t u today amount credit reason now1 now2
    assume args: "assertPositiveMinorUnits amountMinorName (sa_amountMinor a) = Inr amount"
      "assertNonNegativeMinorUnits ''creditAvailableMinor'' (sa_creditAvailableMinor a) = Inr credit"
      and ready: "spend_ready a today s u"
      and ap: "reason = None \<Longrightarrow> spend_approvable a today amount credit s \<and> mandateState u = mandateState s"
      and con: "concluded a amount (concludedRequest (requestOf a ?i now1) reason now2) u t"
    let ?q = "concludedRequest (requestOf a ?i now1) reason now2"
    have frame: "ledger t = ledger s \<and> lockboxes t = lockboxes s \<and> obligationState t = obligationState s \<and> riskState t = riskState s"
      and rt: "rt u = rt s" using ready con by (auto simp: spend_ready_def concluded_def spend_frame_def)
    have su: "spendState u = onPolicy (sa_spendPolicyId a) (rollPolicy today) (spendState s)" using ready by (simp add: spend_ready_def)
    have stored: "jmGet (ss_spendRequests (spendState t)) ?i = Some ?q"
      and others: "\<forall>k. sa_spendPolicyId a \<noteq> JStr k \<longrightarrow> jmGet (ss_policies (spendState t)) k = jmGet (ss_policies (spendState s)) k"
      using con by (auto simp: concluded_def addRequest_def su onPolicy_get split: if_splits)
    show "?P ?q t"
    proof (cases reason)
      case (Some c)
      then have st: "sr_status ?q = Spend_REJECTED" by (simp add: concludedRequest_def)
      moreover have "ms_reservations (mandateState t) = ms_reservations (mandateState s)"
        using con ready Some by (simp add: concluded_def spend_ready_def)
      ultimately show ?thesis using new stored others frame Some by simp
    next
      case None
      from ap [OF None] obtain pv p now where p: "jsGet (ss_providers (spendState s)) (sa_providerId a) = Some pv"
        "jsGet (ss_policies (spendState s)) (sa_spendPolicyId a) = Some p" "policy_covers a pv p"
        "spendAuthorized a now (mandateState s)" and lim: "spendLimits (rollPolicy today p) amount credit = None"
        and mu: "mandateState u = mandateState s" unfolding spend_approvable_def by blast
      obtain n where n: "today = isoDate (rt s) (rt_clock (rt s) n)" using ready by (auto simp: spend_ready_def)
      let ?p = "spent amount (rollPolicy today p)"
      have p': "jsGet (ss_policies (spendState t)) (sa_spendPolicyId a) = Some ?p"
        using con p None by (simp add: concluded_def addRequest_def su)
      have spent: "sp_dailySpentDate ?p = today"
        "sp_dailySpentMinor ?p = (if sp_dailySpentDate p = today then sp_dailySpentMinor p else 0) + amount"
        by (simp_all add: spent_def rollPolicy_def)
      have limits: "amount \<le> sp_perTxLimitMinor p" "amount \<le> sp_obligationCapMinor p" "amount \<le> credit"
        "sp_dailySpentMinor ?p \<le> sp_dailyLimitMinor p"
        using lim by (auto simp: spendLimits_def rollPolicy_def spent_def split: if_splits)
      have res: "spend_reserved (rt s) (mandateState t) (sr_spendRequestId ?q) ?q"
        "jmGet (ms_reservations (mandateState s)) (sr_spendRequestId ?q) = None \<longrightarrow>
          budget_taken a amount (sr_spendRequestId ?q) (mandateState s) (mandateState t)"
        using con None rt mu by (simp_all add: concluded_def)
      have st: "sr_status ?q = Spend_APPROVED" using None by (simp add: concludedRequest_def)
      have "\<exists>pv p p' today n amount credit now.
        assertPositiveMinorUnits amountMinorName (sa_amountMinor a) = Inr amount \<and>
        assertNonNegativeMinorUnits ''creditAvailableMinor'' (sa_creditAvailableMinor a) = Inr credit \<and>
        jsGet (ss_providers (spendState s)) (sa_providerId a) = Some pv \<and>
        jsGet (ss_policies (spendState s)) (sa_spendPolicyId a) = Some p \<and> policy_covers a pv p \<and>
        spendAuthorized a now (mandateState s) \<and> today = isoDate (rt s) (rt_clock (rt s) n) \<and>
        amount \<le> sp_perTxLimitMinor p \<and> amount \<le> sp_obligationCapMinor p \<and> amount \<le> credit \<and>
        jsGet (ss_policies (spendState t)) (sa_spendPolicyId a) = Some p' \<and> sp_dailySpentDate p' = today \<and>
        sp_dailySpentMinor p' = (if sp_dailySpentDate p = today then sp_dailySpentMinor p else 0) + amount \<and>
        sp_dailySpentMinor p' \<le> sp_dailyLimitMinor p \<and>
        spend_reserved (rt s) (mandateState t) (sr_spendRequestId ?q) ?q \<and>
        (jmGet (ms_reservations (mandateState s)) (sr_spendRequestId ?q) = None \<longrightarrow>
          budget_taken a amount (sr_spendRequestId ?q) (mandateState s) (mandateState t))"
        by (intro exI [of _ pv] exI [of _ p] exI [of _ ?p] exI [of _ today] exI [of _ n] exI [of _ amount] exI [of _ credit]
            exI [of _ now] conjI) (fact args p n limits p' spent res)+
      with new stored others frame st show ?thesis by (simp only: simp_thms if_True concludedRequest_simps requestOf_simps)
    qed
  qed simp_all
  from wp_Inr [OF this assms(2)] show ?thesis .
qed

theorem spend_policy_respected_witness:
  "\<exists>q t p'. SpendPolicyService_requestSpend demo_spend_args demo_spend = (Inr q, t) \<and> sr_status q = Spend_APPROVED \<and>
     jmGet (ss_policies (spendState t)) ''spend_policy_'' = Some p' \<and> sp_dailySpentMinor p' \<le> 600"
proof -
  obtain q t where run: "SpendPolicyService_requestSpend demo_spend_args demo_spend = (Inr q, t)"
    and st: "sr_status q = Spend_APPROVED" using demo_spend_run by blast
  have "\<exists>p'. jmGet (ss_policies (spendState t)) ''spend_policy_'' = Some p' \<and> sp_dailySpentMinor p' \<le> 600"
    using spend_policy_respected [OF demo_spend_inv run] st
    by (auto simp: demo_spend_def demo_spend_args_def demo_policy_def)
  with run st show ?thesis by blast
qed

text \<open>
  C24. In every state the spend service can reach, interleaved with any calls of the mandate service, each policy's total
  of the day lies between zero and its daily limit, a stored request is approved, settled or rejected, it has a
  reason exactly when it is rejected, and every approved or settled request still has its reservation in the mandate
  service. A stored request keeps what was asked, a rejected or settled one keeps its status for good, and an approved one can only become settled.
\<close>

theorem spend_requests_backed:
  assumes "spend_inv s" and "rtranclp spend_step s t"
  shows "(\<forall>k p. jmGet (ss_policies (spendState t)) k = Some p \<longrightarrow>
      0 \<le> sp_dailySpentMinor p \<and> sp_dailySpentMinor p \<le> sp_dailyLimitMinor p \<and> sp_perTxLimitMinor p \<le> sp_dailyLimitMinor p) \<and>
    (\<forall>k q. jmGet (ss_spendRequests (spendState t)) k = Some q \<longrightarrow>
      sr_status q \<in> {Spend_APPROVED, Spend_SETTLED, Spend_REJECTED} \<and> (sr_rejectionReason q = None \<longleftrightarrow> sr_status q \<noteq> Spend_REJECTED) \<and>
      (sr_status q \<in> {Spend_APPROVED, Spend_SETTLED} \<longrightarrow> (\<exists>v. jmGet (ms_reservations (mandateState t)) k = Some v \<and>
        mr_reservationHash v = reservationHash (rt t) k (requestAuthorization q)))) \<and>
    (\<forall>k q. jmGet (ss_spendRequests (spendState s)) k = Some q \<longrightarrow>
      (\<exists>q'. jmGet (ss_spendRequests (spendState t)) k = Some q' \<and> sr_amountMinor q' = sr_amountMinor q \<and>
        sr_providerId q' = sr_providerId q \<and> sr_mandateId q' = sr_mandateId q \<and>
        (sr_status q = Spend_APPROVED \<longrightarrow> sr_status q' \<in> {Spend_APPROVED, Spend_SETTLED}) \<and>
        (sr_status q \<noteq> Spend_APPROVED \<longrightarrow> sr_status q' = sr_status q)))"
proof -
  have since: "spend_since (spendState s) t"
    by (rule spend_ts.inv_run [OF assms(2) spend_since_refl [OF assms(1)]])
  then have inv: "spend_inv t" by (simp add: spend_since_def)
  note ok = spend_invD [OF inv]
  have kept: "\<exists>q'. jmGet (ss_spendRequests (spendState t)) k = Some q' \<and> sr_amountMinor q' = sr_amountMinor q \<and>
        sr_providerId q' = sr_providerId q \<and> sr_mandateId q' = sr_mandateId q \<and>
        (sr_status q = Spend_APPROVED \<longrightarrow> sr_status q' \<in> {Spend_APPROVED, Spend_SETTLED}) \<and>
        (sr_status q \<noteq> Spend_APPROVED \<longrightarrow> sr_status q' = sr_status q)"
    if at: "jmGet (ss_spendRequests (spendState s)) k = Some q" for k q
  proof -
    obtain q' where q': "jmGet (ss_spendRequests (spendState t)) k = Some q'" "request_moves q q'"
      using since at unfolding spend_since_def spend_evolve_def by blast
    have before: "request_ok (rt s) (mandateState s) k q" by (rule spend_invD(3) [OF assms(1) at])
    have eqs: "sr_amountMinor q' = sr_amountMinor q" "sr_providerId q' = sr_providerId q" "sr_mandateId q' = sr_mandateId q"
      using q'(2) by (cases q; cases q'; simp add: request_moves_def)+
    have reason: "sr_rejectionReason q' = sr_rejectionReason q" by (rule request_movesD [OF q'(2)])
    have "sr_status q' = sr_status q" if "sr_status q \<noteq> Spend_APPROVED"
      using that before q'(2) spend_lifecycle.final_stays [of "sr_status q" "sr_status q'"]
      by (auto simp: request_ok_def request_moves_def)
    moreover have "sr_status q' \<in> {Spend_APPROVED, Spend_SETTLED}" if "sr_status q = Spend_APPROVED"
      using that before ok(3) [OF q'(1)] reason by (auto simp: request_ok_def)
    ultimately show ?thesis using q'(1) eqs by blast
  qed
  show ?thesis using ok(2,3) kept by (auto simp: policy_ok_def request_ok_def spend_reserved_def)
qed

theorem spend_requests_backed_witness:
  "\<exists>q t. SpendPolicyService_requestSpend demo_spend_args demo_spend = (Inr q, t) \<and>
     (\<exists>k v. jmGet (ms_reservations (mandateState t)) k = Some v \<and> mr_reservationHash v = reservationHash (rt t) k (requestAuthorization q))"
proof -
  obtain q t where run: "SpendPolicyService_requestSpend demo_spend_args demo_spend = (Inr q, t)"
    and st: "sr_status q = Spend_APPROVED" using demo_spend_run by blast
  have stored: "jmGet (ss_spendRequests (spendState t)) (sr_spendRequestId q) = Some q"
    using wp_Inr [OF wp_requestSpend [OF demo_spend_inv, where Q = "\<lambda>q t. jmGet (ss_spendRequests (spendState t)) (sr_spendRequestId q) = Some q"
        and E = "\<lambda>_ _. True"] run] by (simp add: concluded_def addRequest_def split: if_splits)
  have "spend_step demo_spend t" using run by (rule spend_step.request)
  from spend_requests_backed [OF demo_spend_inv r_into_rtranclp [of spend_step, OF this]] stored st run show ?thesis by blast
qed

end
