(* ===== verification/Repayment.thy ===== *)
theory Repayment
  imports Spend
begin

text \<open>
  \<open>modules/payment/src/repayment-router.js\<close>: revenue in a lockbox is routed to the open obligations of its subject, the
  most urgent first, and what has been repaid is taken from the lockbox and released from the credit line. The router
  calls the lockbox, obligation and risk services. Its loop is specified by an abstract waterfall: the locale
  \<open>payee\<close> states what the loop needs of the service that takes a payment, and the obligation service is its
  interpretation.
\<close>

subsection \<open>The router\<close>

record route_result =
  ro_repayments :: "repayment list"
  ro_appliedMinor :: int
  ro_surplusMinor :: int
  ro_idempotencyKey :: string
  ro_replayed :: bool

record repayment_world = spend_world +
  routesByIdempotencyKey :: "(string \<times> route_result) jsmap"

text \<open>The named parameters; an absent credit line is \<open>None\<close>.\<close>

record route_args =
  ra_lockboxId :: string
  ra_obligationIds :: "string list"
  ra_creditLineId :: "string option"
  ra_amountMinor :: js
  ra_idempotencyKey :: js

definition routeHash :: "runtime \<Rightarrow> route_args \<Rightarrow> int \<Rightarrow> string" where
  "routeHash r a amount = hashId r ''repayment_route'' (JObj
     [(''lockboxId'', JStr (ra_lockboxId a)), (''obligationIds'', JArr (map JStr (ra_obligationIds a))),
      (''creditLineId'', js_coalesce (js_opt (ra_creditLineId a)) JNull), (''amountMinor'', JStr (dec amount))])"

definition candidateCompare :: "runtime \<Rightarrow> obligation \<Rightarrow> obligation \<Rightarrow> int" where
  "candidateCompare r left right =
     (let byPriority = ob_repaymentPriority left - ob_repaymentPriority right;
          byDueAt = rt_localeCompare r (ob_dueAt left) (ob_dueAt right) in
      if byPriority \<noteq> 0 then byPriority else if byDueAt \<noteq> 0 then byDueAt
      else rt_localeCompare r (ob_obligationId left) (ob_obligationId right))"

definition RepaymentRouter_candidates :: "lockbox \<Rightarrow> string list \<Rightarrow> ('z repayment_world_scheme, obligation list) M" where
  "RepaymentRouter_candidates lockbox obligationIds =
     thenM (throwIf (\<not> distinct obligationIds) ''duplicate_obligation'' ''repayment routing cannot include duplicate obligations'')
     (bindM (mapM ObligationService_getObligation obligationIds) (\<lambda>obligations.
      let candidates = filter (\<lambda>ob. ob_status ob \<in> {Obl_ACTIVE, Obl_PARTIALLY_REPAID, Obl_OVERDUE}) obligations in
      thenM (throwIf (list_ex (\<lambda>ob. \<not> js_strict_eq (ob_subjectId ob) (lb_subjectId lockbox) \<or>
          \<not> js_strict_eq (ob_assetId ob) (lb_assetId lockbox)) candidates)
        ''repayment_scope_mismatch'' ''lockbox and obligation subject or asset do not match'')
      (bindM (getsM rt) (\<lambda>r. returnM (js_sort (candidateCompare r) candidates)))))"

text \<open>The preview: how much of the amount the candidates will take.\<close>

fun previewLoop :: "int list \<Rightarrow> int \<Rightarrow> int \<Rightarrow> int" where
  "previewLoop [] previewRemaining totalApplied = totalApplied"
| "previewLoop (outstanding # rest) previewRemaining totalApplied =
     (if previewRemaining \<le> 0 then totalApplied
      else let applied = (if previewRemaining > outstanding then outstanding else previewRemaining) in
        previewLoop rest (previewRemaining - applied) (totalApplied + applied))"

text \<open>\<open>creditLineId\<close> in a condition: present and not the empty string.\<close>

definition givenLine :: "string option \<Rightarrow> string option" where
  "givenLine c = (if c = Some [] then None else c)"

definition RepaymentRouter_checkLine :: "lockbox \<Rightarrow> string option \<Rightarrow> int \<Rightarrow> ('z repayment_world_scheme, unit) M" where
  "RepaymentRouter_checkLine lockbox line totalApplied =
     (case givenLine line of
        None \<Rightarrow> returnM ()
      | Some creditLineId \<Rightarrow> whenM (totalApplied > 0)
          (bindM (RiskService_getCreditLine creditLineId) (\<lambda>creditLine.
           thenM (throwIf (JStr (cl_subjectId creditLine) \<noteq> lb_subjectId lockbox \<or> JStr (cl_assetId creditLine) \<noteq> lb_assetId lockbox)
             ''repayment_credit_line_mismatch'' ''credit line does not match lockbox subject and asset'')
           (throwIf (totalApplied > cl_utilizedMinor creditLine)
             ''repayment_exceeds_utilization'' ''repayment exceeds reserved credit utilization''))))"

text \<open>The loop that applies the amount, over the operation that takes one payment and returns its surplus.\<close>

fun routeLoop :: "(string \<Rightarrow> int \<Rightarrow> ('s, int \<times> 'r) M) \<Rightarrow> string list \<Rightarrow> int \<Rightarrow> ('s, 'r list \<times> int) M" where
  "routeLoop pay [] remaining = returnM ([], remaining)"
| "routeLoop pay (k # ks) remaining =
     (if remaining \<le> 0 then returnM ([], remaining)
      else bindM (pay k remaining) (\<lambda>(surplus, receipt).
        bindM (routeLoop pay ks surplus) (\<lambda>(receipts, rest).
        returnM (if remaining - surplus > 0 then receipt # receipts else receipts, rest))))"

definition payObligation :: "string \<Rightarrow> int \<Rightarrow> ('z obligation_world_scheme, int \<times> repayment) M" where
  "payObligation obligationId remaining =
     bindM (ObligationService_applyRepayment obligationId (JStr (dec remaining))) (\<lambda>result.
     returnM (rr_surplusMinor result, rr_repayment result))"

definition RepaymentRouter_settle :: "string \<Rightarrow> string option \<Rightarrow> int \<Rightarrow> string \<Rightarrow> ('z repayment_world_scheme, unit) M" where
  "RepaymentRouter_settle lockboxId line totalApplied idempotencyKey =
     whenM (totalApplied > 0)
       (thenM (LockboxService_reduceBalance lockboxId (JStr (dec totalApplied)) (JStr ''obligation_repayment'')
          (JStr (''repayment_route:'' @ idempotencyKey)))
       (case givenLine line of
          None \<Rightarrow> returnM ()
        | Some creditLineId \<Rightarrow>
            thenM (RiskService_releaseUtilization creditLineId (JStr (dec totalApplied))) (returnM ())))"

text \<open>The end of a route: the event, and the result under its key.\<close>

definition RepaymentRouter_conclude ::
  "route_args \<Rightarrow> lockbox \<Rightarrow> int \<Rightarrow> string \<Rightarrow> repayment list \<Rightarrow> int \<Rightarrow> int \<Rightarrow> ('z repayment_world_scheme, route_result) M" where
  "RepaymentRouter_conclude a lockbox amount idempotencyKey repayments totalApplied remaining =
     thenM (emitCreditEvent (eventArgs ''repayment_routed'' (lb_subjectId lockbox) (JObj
       [(''lockboxId'', JStr (ra_lockboxId a)), (''idempotencyKey'', JStr idempotencyKey),
        (''appliedCount'', JNum (int (length repayments))), (''inputAmountMinor'', JStr (dec amount)),
        (''appliedMinor'', JStr (dec totalApplied)), (''surplusMinor'', JStr (dec remaining))])))
     (bindM (getsM rt) (\<lambda>r.
      let result = \<lparr>ro_repayments = repayments, ro_appliedMinor = totalApplied, ro_surplusMinor = remaining,
            ro_idempotencyKey = idempotencyKey, ro_replayed = False\<rparr> in
      thenM (modifyM (routesByIdempotencyKey_update (jmSet idempotencyKey (routeHash r a amount, result))))
      (returnM result)))"

definition RepaymentRouter_route ::
  "route_args \<Rightarrow> int \<Rightarrow> string \<Rightarrow> ('z repayment_world_scheme, route_result) M" where
  "RepaymentRouter_route a amount idempotencyKey =
     bindM (LockboxService_getLockbox (ra_lockboxId a)) (\<lambda>lockbox.
     thenM (throwIf (lb_status lockbox \<notin> {Lockbox_ACTIVE, Lockbox_FROZEN}) ''lockbox_not_repayable''
       ''lockbox must be active or frozen to route repayments'')
     (thenM (throwIf (amount > lb_balanceMinor lockbox) ''lockbox_insufficient_balance'' ''repayment amount exceeds lockbox balance'')
     (bindM (RepaymentRouter_candidates lockbox (ra_obligationIds a)) (\<lambda>candidates.
      let totalApplied = previewLoop (map ob_outstandingPrincipalMinor candidates) amount 0 in
      thenM (RepaymentRouter_checkLine lockbox (ra_creditLineId a) totalApplied)
      (bindM (routeLoop payObligation (map ob_obligationId candidates) amount) (\<lambda>(repayments, remaining).
       thenM (RepaymentRouter_settle (ra_lockboxId a) (ra_creditLineId a) totalApplied idempotencyKey)
       (RepaymentRouter_conclude a lockbox amount idempotencyKey repayments totalApplied remaining)))))))"

definition RepaymentRouter_applyLockboxRevenue :: "route_args \<Rightarrow> ('z repayment_world_scheme, route_result) M" where
  "RepaymentRouter_applyLockboxRevenue a =
     bindM (defaultKey ''repayment_route'' (ra_idempotencyKey a)) (\<lambda>keyArg.
     bindM (liftR (assertPositiveMinorUnits amountMinorName (ra_amountMinor a))) (\<lambda>amount.
     bindM (liftR (assertNonEmptyString ''idempotencyKey'' keyArg)) (\<lambda>idempotencyKey.
     bindM (getsM (\<lambda>s. jmGet (routesByIdempotencyKey s) idempotencyKey)) (\<lambda>existing.
     bindM (getsM rt) (\<lambda>r.
       case existing of
         Some (existingHash, result) \<Rightarrow>
           thenM (throwIf (existingHash \<noteq> routeHash r a amount) ''repayment_idempotency_conflict''
             ''repayment idempotency key was reused with different input'')
           (returnM (result\<lparr>ro_replayed := True\<rparr>))
       | None \<Rightarrow> RepaymentRouter_route a amount idempotencyKey)))))"

subsection \<open>The abstract waterfall\<close>

text \<open>What each debt gets of an amount that is handed down the list.\<close>

fun shares :: "int list \<Rightarrow> int \<Rightarrow> int list" where
  "shares [] r = []"
| "shares (d # ds) r = min d r # shares ds (r - min d r)"

lemma length_shares [simp]: "length (shares ds r) = length ds"
  by (induction ds arbitrary: r) auto

lemma shares_zero: "list_all (\<lambda>d. 0 \<le> d) ds \<Longrightarrow> shares ds 0 = replicate (length ds) 0"
  by (induction ds) auto

lemma map2_minus_zero: "map2 (-) xs (replicate (length xs) (0::int)) = xs"
  by (induction xs) auto

lemma sum_list_positive: "list_all (\<lambda>x. 0 \<le> x) xs \<Longrightarrow> sum_list (filter (\<lambda>x. 0 < x) xs) = sum_list (xs :: int list)"
  by (induction xs) auto

lemma shares_bounds:
  assumes "list_all (\<lambda>d. 0 \<le> d) ds" and "0 \<le> r"
  shows "list_all (\<lambda>x. 0 \<le> x) (shares ds r)" "list_all2 (\<le>) (shares ds r) ds" "sum_list (shares ds r) \<le> r"
proof -
  have "list_all (\<lambda>x. 0 \<le> x) (shares ds r) \<and> list_all2 (\<le>) (shares ds r) ds \<and> sum_list (shares ds r) \<le> r"
    using assms
  proof (induction ds arbitrary: r)
    case (Cons d ds)
    have d: "0 \<le> d" "list_all (\<lambda>d. 0 \<le> d) ds" "0 \<le> r - min d r" using Cons.prems by auto
    from Cons.IH [OF d(2,3)] d Cons.prems show ?case by simp
  qed simp
  then show "list_all (\<lambda>x. 0 \<le> x) (shares ds r)" "list_all2 (\<le>) (shares ds r) ds" "sum_list (shares ds r) \<le> r" by simp_all
qed

lemma shares_total:
  assumes "list_all (\<lambda>d. 0 \<le> d) ds" and "0 \<le> r"
  shows "sum_list (shares ds r) = min (sum_list ds) r"
  using assms
proof (induction ds arbitrary: r)
  case (Cons d ds)
  have "0 \<le> sum_list ds" using Cons.prems(1) by (induction ds) auto
  with Cons show ?case by (auto simp: min_def)
qed simp

text \<open>The debts are paid in order: nothing reaches a later debt before the earlier ones are paid in full.\<close>

lemma shares_ordered:
  assumes "list_all (\<lambda>d. 0 \<le> d) ds" and "0 \<le> r" and "i < j" and "j < length ds" and "0 < shares ds r ! j"
  shows "shares ds r ! i = ds ! i"
  using assms
proof (induction ds arbitrary: r i j)
  case (Cons d ds)
  obtain j' where j: "j = Suc j'" using Cons.prems(3) by (cases j) auto
  show ?case
  proof (cases i)
    case 0
    have "shares ds 0 ! j' = 0" using Cons.prems j by (simp add: shares_zero)
    with 0 Cons.prems j show ?thesis by (cases "d \<le> r") auto
  next
    case (Suc i')
    with Cons.prems j Cons.IH [of "r - min d r" i' j'] show ?thesis by auto
  qed
qed simp

lemma previewLoop_shares:
  "list_all (\<lambda>d. 0 \<le> d) ds \<Longrightarrow> 0 \<le> r \<Longrightarrow> previewLoop ds r acc = acc + sum_list (shares ds r)"
proof (induction ds arbitrary: r acc)
  case (Cons d ds)
  have "(if d < r then d else r) = min d r" by simp
  with Cons show ?case by (cases "r = 0") (auto simp: Let_def shares_zero sum_list_replicate)
qed simp

text \<open>
  What the loop needs of the service that takes a payment: the payment is applied up to the debt, the surplus comes
  back, and no other debt changes. \<open>frame\<close> is whatever else the service promises to keep.
\<close>

locale payee =
  fixes ok :: "'s \<Rightarrow> bool"
    and payable :: "'s \<Rightarrow> string \<Rightarrow> bool"
    and debt :: "'s \<Rightarrow> string \<Rightarrow> int"
    and frame :: "'s \<Rightarrow> 's \<Rightarrow> bool"
    and paid :: "'r \<Rightarrow> int"
    and pay :: "string \<Rightarrow> int \<Rightarrow> ('s, int \<times> 'r) M"
  assumes frame_refl: "frame s s"
    and frame_trans: "frame s t \<Longrightarrow> frame t u \<Longrightarrow> frame s u"
    and debt_nonneg: "ok s \<Longrightarrow> payable s k \<Longrightarrow> 0 \<le> debt s k"
    and pay_spec: "ok s \<Longrightarrow> payable s k \<Longrightarrow> 0 < amount \<Longrightarrow> wp (pay k amount)
      (\<lambda>(surplus, r) t. ok t \<and> frame s t \<and> paid r = min (debt s k) amount \<and> surplus = amount - min (debt s k) amount \<and>
         debt t k = debt s k - min (debt s k) amount \<and>
         (\<forall>k'. k' \<noteq> k \<longrightarrow> debt t k' = debt s k' \<and> payable t k' = payable s k'))
      (\<lambda>e t. ok t \<and> frame s t) s"
begin

lemma debts_nonneg: "ok s \<Longrightarrow> \<forall>k\<in>set ks. payable s k \<Longrightarrow> list_all (\<lambda>d. 0 \<le> d) (map (debt s) ks)"
  by (auto simp: list_all_iff debt_nonneg)

lemma routeLoop_refines:
  assumes "ok s" and "distinct ks" and "\<forall>k\<in>set ks. payable s k" and "0 \<le> amount"
  shows "wp (routeLoop pay ks amount)
    (\<lambda>(rs, rest) t. ok t \<and> frame s t \<and> rest = amount - sum_list (shares (map (debt s) ks) amount) \<and>
       map paid rs = filter (\<lambda>x. 0 < x) (shares (map (debt s) ks) amount) \<and>
       map (debt t) ks = map2 (-) (map (debt s) ks) (shares (map (debt s) ks) amount) \<and>
       (\<forall>k. k \<notin> set ks \<longrightarrow> debt t k = debt s k))
    (\<lambda>e t. ok t \<and> frame s t) s"
  using assms
proof (induction ks arbitrary: s amount)
  case Nil
  then show ?case by (simp add: wp_simps frame_refl)
next
  case (Cons k ks)
  note nonneg = debts_nonneg [OF Cons.prems(1,3)]
  show ?case
  proof (cases "amount = 0")
    case True
    have "map2 (-) (map (debt s) (k # ks)) (replicate (length (map (debt s) (k # ks))) 0) = map (debt s) (k # ks)"
      by (rule map2_minus_zero)
    then show ?thesis
      using Cons.prems(1) unfolding True shares_zero [OF nonneg] by (simp add: wp_simps frame_refl sum_list_replicate)
  next
    case False
    then have pos: "0 < amount" using Cons.prems(4) by simp
    let ?m = "min (debt s k) amount"
    let ?Q = "\<lambda>rs rest t. ok t \<and> frame s t \<and> rest = amount - sum_list (shares (map (debt s) (k # ks)) amount) \<and>
       map paid rs = filter (\<lambda>x. 0 < x) (shares (map (debt s) (k # ks)) amount) \<and>
       map (debt t) (k # ks) = map2 (-) (map (debt s) (k # ks)) (shares (map (debt s) (k # ks)) amount) \<and>
       (\<forall>k'. k' \<notin> set (k # ks) \<longrightarrow> debt t k' = debt s k')"
    let ?E = "\<lambda>(e::js_error) t. ok t \<and> frame s t"
    have rest: "wp (bindM (routeLoop pay ks surplus) (\<lambda>(receipts, rest).
          returnM (if amount - surplus > 0 then r # receipts else receipts, rest))) (\<lambda>(rs, rest). ?Q rs rest) ?E t"
      if t: "ok t" "frame s t" "paid r = ?m" "surplus = amount - ?m" "debt t k = debt s k - ?m"
        "\<forall>k'. k' \<noteq> k \<longrightarrow> debt t k' = debt s k' \<and> payable t k' = payable s k'" for surplus r t
    proof -
      have ks: "distinct ks" "k \<notin> set ks" "\<forall>k\<in>set ks. payable t k" using Cons.prems(2,3) t(6) by auto
      have same: "map (debt t) ks = map (debt s) ks" using ks(2) t(6) by (auto intro!: map_cong)
      have m: "0 \<le> ?m" "?m \<le> amount" using nonneg pos by auto
      then have sp: "0 \<le> surplus" using t(4) by simp
      show ?thesis
        unfolding wp_bindM
        by (rule wp_conseq [OF Cons.IH [OF t(1) ks(1,3) sp]])
          (use t m ks(2) frame_trans [OF t(2)] in \<open>auto simp: wp_simps same\<close>)
    qed
    have "wp (pay k amount) (\<lambda>x. wp (case x of (surplus, receipt) \<Rightarrow> bindM (routeLoop pay ks surplus) (\<lambda>(receipts, rest).
          returnM (if amount - surplus > 0 then receipt # receipts else receipts, rest))) (\<lambda>(rs, rest). ?Q rs rest) ?E) ?E s"
    proof (rule wp_conseq [OF pay_spec [OF Cons.prems(1) _ pos]], goal_cases)
      case 1
      then show ?case using Cons.prems(3) by simp
    next
      case (2 x t)
      then show ?case using rest by (cases x) auto
    qed
    moreover have "\<not> amount \<le> 0" using pos by simp
    ultimately show ?thesis by (simp only: routeLoop.simps wp_bindM wp_if if_False)
  qed
qed

end

subsection \<open>The obligation service as payee\<close>

definition openDebt :: "'z obligation_world_scheme \<Rightarrow> string \<Rightarrow> bool" where
  "openDebt s k \<longleftrightarrow> (\<exists>ob. jmGet (os_obligations (obligationState s)) k = Some ob \<and>
     ob_status ob \<in> {Obl_ACTIVE, Obl_PARTIALLY_REPAID, Obl_OVERDUE})"

definition outstanding :: "'z obligation_world_scheme \<Rightarrow> string \<Rightarrow> int" where
  "outstanding s k = (case jmGet (os_obligations (obligationState s)) k of Some ob \<Rightarrow> ob_outstandingPrincipalMinor ob | None \<Rightarrow> 0)"

definition debts_frame :: "'z obligation_world_scheme \<Rightarrow> 'z obligation_world_scheme \<Rightarrow> bool" where
  "debts_frame s t \<longleftrightarrow> obligation_frame s t \<and> obligations_evolve (obligationState s) (obligationState t)"

lemma printed_amount: "assertPositiveMinorUnits n (JStr (dec i)) = Inr x \<Longrightarrow> 0 \<le> i \<Longrightarrow> x = i"
  by (auto simp: assertPositive_Inr toMinorUnitBigInt_def dec_def split: if_splits)

lemma repaid_evolve:
  "obligation_inv s \<Longrightarrow> repaid k amount ob now p s t \<Longrightarrow> obligations_evolve (obligationState s) (obligationState t)"
  using repaid_moves [of s k amount ob now p t] by (auto simp: repaid_def recordRepayment_def obligations_evolve_def)

interpretation obligation_payee: payee obligation_inv openDebt outstanding debts_frame rp_amountMinor payObligation
proof unfold_locales
  show "debts_frame s s" for s :: "'a obligation_world_scheme" by (simp add: debts_frame_def)
  show "debts_frame s u" if "debts_frame s t" "debts_frame t u" for s t u :: "'a obligation_world_scheme"
    using that by (auto simp: debts_frame_def intro: obligation_frame_trans obligations_evolve_trans)
  show "0 \<le> outstanding s k" if "obligation_inv s" "openDebt s k" for s :: "'a obligation_world_scheme" and k
    using that by (auto simp: openDebt_def outstanding_def obligation_ok_def dest: obligation_invD)
next
  fix s :: "'a obligation_world_scheme" and k amount
  assume inv: "obligation_inv s" and "openDebt s k" and pos: "0 < (amount :: int)"
  show "wp (payObligation k amount)
      (\<lambda>(surplus, r) t. obligation_inv t \<and> debts_frame s t \<and> rp_amountMinor r = min (outstanding s k) amount \<and>
         surplus = amount - min (outstanding s k) amount \<and> outstanding t k = outstanding s k - min (outstanding s k) amount \<and>
         (\<forall>k'. k' \<noteq> k \<longrightarrow> outstanding t k' = outstanding s k' \<and> openDebt t k' = openDebt s k'))
      (\<lambda>e t. obligation_inv t \<and> debts_frame s t) s"
    unfolding payObligation_def wp_bindM wp_returnM
  proof (rule wp_applyRepayment [OF inv], goal_cases)
    case (1 x ob now p t)
    have "x = amount" using printed_amount [OF 1(1)] pos by simp
    with 1 show ?case
      using repaid_evolve [OF inv 1(2)]
      by (auto simp: debts_frame_def repaid_def recordRepayment_def afterRepayment_def appliedTo_def outstanding_def openDebt_def
          min.commute)
  next
    case (2 e t)
    then show ?case using repaid_evolve [OF inv] by (auto simp: debts_frame_def)
  qed
qed

subsection \<open>What the router does\<close>

definition money_inv :: "'z repayment_world_scheme \<Rightarrow> bool" where
  "money_inv s \<longleftrightarrow> obligation_inv s \<and> lockbox_inv s"

lemma lockbox_inv_issue:
  assumes "lockbox_inv s" and "rt t = rt s" and "uuidCount s \<le> uuidCount t" and "ledger t = ledger s" and "lockboxes t = lockboxes s"
  shows "lockbox_inv t"
proof (rule lockbox_inv_grow [OF assms(1)])
  show "ledger_inv t"
    using lockbox_inv_ledger [OF assms(1)] assms(2,4) ledger_ok_mono [OF _ issued_mono [OF assms(2,3)] issued_mono [OF assms(2,3)]]
    by (simp add: ledger_inv_def)
qed (use assms in simp_all)

lemma lockbox_inv_obligation: "lockbox_inv s \<Longrightarrow> obligation_frame s t \<Longrightarrow> lockbox_inv t"
  by (rule lockbox_inv_issue) (auto simp: obligation_frame_def)

lemma obligation_inv_lockbox: "obligation_inv s \<Longrightarrow> lockbox_frame s t \<Longrightarrow> obligation_inv t"
  by (rule obligation_inv_issue) (simp_all add: lockbox_frame_obligations, simp_all add: lockbox_frame_def)

lemma money_inv_log: "money_inv s \<Longrightarrow> log_ext s t \<Longrightarrow> money_inv t"
  by (auto simp: money_inv_def intro: obligation_inv_log lockbox_inv_log)

lemma lockbox_frame_services:
  assumes "lockbox_frame s t"
  shows "riskState t = riskState s" "routesByIdempotencyKey t = routesByIdempotencyKey s"
  using assms by (cases s, cases t, simp add: lockbox_frame_def)+

lemma obligation_frame_services:
  assumes "obligation_frame s t"
  shows "riskState t = riskState s" "routesByIdempotencyKey t = routesByIdempotencyKey s"
  using assms by (cases s, cases t, simp add: obligation_frame_def)+

lemma risk_frame_routes: "risk_frame s t \<Longrightarrow> routesByIdempotencyKey t = routesByIdempotencyKey s"
  by (cases s, cases t) (simp add: risk_frame_def)

lemma money_inv_risk: "money_inv s \<Longrightarrow> risk_frame s t \<Longrightarrow> money_inv t"
  by (auto simp: money_inv_def risk_frame_def intro: obligation_inv_issue lockbox_inv_issue)

text \<open>The obligations of a request that are open, as the service stores them.\<close>

definition openObligations :: "'z obligation_world_scheme \<Rightarrow> string list \<Rightarrow> obligation list" where
  "openObligations s ids = filter (\<lambda>ob. ob_status ob \<in> {Obl_ACTIVE, Obl_PARTIALLY_REPAID, Obl_OVERDUE})
     (List.map_filter (jmGet (os_obligations (obligationState s))) ids)"

lemma wp_getObligations:
  assumes Q: "Q (List.map_filter (jmGet (os_obligations (obligationState s))) ids) s" and E: "\<And>e. E e s"
  shows "wp (mapM ObligationService_getObligation ids) Q E s"
  using Q
proof (induction ids arbitrary: Q)
  case (Cons k ids)
  show ?case
  proof (cases "jmGet (os_obligations (obligationState s)) k")
    case None
    then show ?thesis by (simp add: ObligationService_getObligation_def wp_simps E)
  next
    case (Some ob)
    with Cons show ?thesis by (simp add: ObligationService_getObligation_def wp_simps List.map_filter_simps)
  qed
qed (simp add: wp_simps List.map_filter_simps)

lemma wp_candidates:
  assumes Q: "distinct ids \<Longrightarrow> Q (js_sort (candidateCompare (rt s)) (openObligations s ids)) s" and E: "\<And>e. E e s"
  shows "wp (RepaymentRouter_candidates lockbox ids) Q E s"
  unfolding RepaymentRouter_candidates_def wp_thenM wp_bindM wp_throwIf
  using assms by (auto intro!: wp_getObligations simp: wp_simps Let_def openObligations_def)

lemma openObligations_stored:
  "ob \<in> set (openObligations s ids) \<Longrightarrow> \<exists>k\<in>set ids. jmGet (os_obligations (obligationState s)) k = Some ob"
  by (auto simp: openObligations_def map_filter_def)

lemma map_filter_distinct:
  assumes "distinct ks" and "\<And>k x. k \<in> set ks \<Longrightarrow> f k = Some x \<Longrightarrow> g x = k"
  shows "distinct (map g (List.map_filter f ks)) \<and> set (map g (List.map_filter f ks)) \<subseteq> set ks"
  using assms
proof (induction ks)
  case (Cons k ks)
  then have IH: "distinct (map g (List.map_filter f ks))" "set (map g (List.map_filter f ks)) \<subseteq> set ks" by simp_all
  have "g x = k" if "f k = Some x" for x using Cons.prems(2) [of k x] that by simp
  with IH Cons.prems(1) show ?case by (cases "f k") (auto simp: List.map_filter_simps)
qed (simp add: List.map_filter_simps)

lemma candidates_payable:
  assumes inv: "obligation_inv s" and ids: "distinct ids"
  shows "distinct (map ob_obligationId (js_sort cmp (openObligations s ids)))"
    "\<forall>k\<in>set (map ob_obligationId (js_sort cmp (openObligations s ids))). openDebt s k"
    "map (outstanding s) (map ob_obligationId (js_sort cmp (openObligations s ids))) =
      map ob_outstandingPrincipalMinor (js_sort cmp (openObligations s ids))"
proof -
  have id: "ob_obligationId ob = k" if "jmGet (os_obligations (obligationState s)) k = Some ob" for k ob
    using obligation_invD [OF inv that] by (simp add: obligation_ok_def)
  have stored: "jmGet (os_obligations (obligationState s)) (ob_obligationId ob) = Some ob" if "ob \<in> set (openObligations s ids)" for ob
    using openObligations_stored [OF that] id by blast
  have "distinct (map ob_obligationId (List.map_filter (jmGet (os_obligations (obligationState s))) ids))"
    using map_filter_distinct [OF ids, of "jmGet (os_obligations (obligationState s))" ob_obligationId] id by blast
  then show "distinct (map ob_obligationId (js_sort cmp (openObligations s ids)))"
    by (simp add: openObligations_def distinct_map_filter)
  show "\<forall>k\<in>set (map ob_obligationId (js_sort cmp (openObligations s ids))). openDebt s k"
    using stored by (auto simp: openDebt_def openObligations_def)
  show "map (outstanding s) (map ob_obligationId (js_sort cmp (openObligations s ids))) =
      map ob_outstandingPrincipalMinor (js_sort cmp (openObligations s ids))"
    using stored by (auto simp: outstanding_def)
qed

text \<open>The settlement: the lockbox is debited by the total, and the credit line released by it.\<close>

definition drawn :: "string \<Rightarrow> string option \<Rightarrow> int \<Rightarrow> string \<Rightarrow> 'z repayment_world_scheme \<Rightarrow> 'z repayment_world_scheme \<Rightarrow> bool" where
  "drawn k line applied key s t \<longleftrightarrow>
     (if 0 < applied then
       (\<forall>l. jmGet (lockboxes s) k = Some l \<and> jmGet (lg_transactionIdsByIdempotencyKey (ledger s)) (''repayment_route:'' @ key) = None \<longrightarrow>
          transferred (lb_repaymentLedgerAccountId l) (lb_ledgerAccountId l) applied (turnover (ledger s)) (turnover (ledger t))) \<and>
       (case givenLine line of None \<Rightarrow> riskState t = riskState s
        | Some c \<Rightarrow> (\<exists>cl now. jmGet (rs_creditLines (riskState s)) c = Some cl \<and> applied \<le> cl_utilizedMinor cl \<and>
            riskState t = rs_creditLines_update (jmModify c
              (\<lambda>c. c\<lparr>cl_utilizedMinor := cl_utilizedMinor cl - applied, cl_updatedAt := now\<rparr>)) (riskState s)))
      else ledger t = ledger s \<and> riskState t = riskState s)"

definition router_frame :: "'z repayment_world_scheme \<Rightarrow> 'z repayment_world_scheme \<Rightarrow> bool" where
  "router_frame s t \<longleftrightarrow> money_inv t \<and> rt t = rt s \<and> routesByIdempotencyKey t = routesByIdempotencyKey s"

lemma wp_settle:
  assumes inv: "money_inv s"
    and Q: "\<And>t. router_frame s t \<Longrightarrow> obligationState t = obligationState s \<Longrightarrow> drawn k line applied key s t \<Longrightarrow> Q () t"
    and E: "\<And>e t. router_frame s t \<Longrightarrow> E e t"
  shows "wp (RepaymentRouter_settle k line applied key) Q E s"
proof (cases "0 < applied")
  case False
  have "router_frame s s" using inv by (simp add: router_frame_def)
  with False Q show ?thesis by (simp add: RepaymentRouter_settle_def wp_simps drawn_def)
next
  case True
  have lb: "lockbox_inv s" using inv by (simp add: money_inv_def)
  have frame: "router_frame s t \<and> obligationState t = obligationState s \<and> riskState t = riskState s"
    if "lockbox_inv t" "lockbox_frame s t" for t
    using that inv obligation_inv_lockbox [of s t]
    by (simp add: router_frame_def money_inv_def lockbox_frame_services lockbox_frame_obligations) (simp add: lockbox_frame_def)
  have release: "wp (case givenLine line of None \<Rightarrow> returnM () | Some c \<Rightarrow>
      thenM (RiskService_releaseUtilization c (JStr (dec applied))) (returnM ())) Q E t"
    if t: "lockbox_inv t" "lockbox_frame s t" and moved: "\<And>l. jmGet (lockboxes s) k = Some l \<Longrightarrow>
        jmGet (lg_transactionIdsByIdempotencyKey (ledger s)) (''repayment_route:'' @ key) = None \<Longrightarrow>
        transferred (lb_repaymentLedgerAccountId l) (lb_ledgerAccountId l) applied (turnover (ledger s)) (turnover (ledger t))" for t
  proof (cases "givenLine line")
    case None
    then show ?thesis using frame [OF t] moved True by (simp add: wp_returnM) (rule Q; simp add: drawn_def)
  next
    case (Some c)
    have lines: "router_frame s u \<and> obligationState u = obligationState s \<and> ledger u = ledger t" if "line_changed c f t u" for f u
      using that frame [OF t] money_inv_risk [of t u] risk_frame_routes [of t u]
      by (auto simp: line_changed_def router_frame_def) (auto simp: risk_frame_def)
    have "wp (RiskService_releaseUtilization c (JStr (dec applied))) (\<lambda>_. Q ()) E t"
    proof (rule wp_releaseLine)
      fix u cl x now
      assume x: "assertPositiveMinorUnits amountMinorName (JStr (dec applied)) = Inr x"
        and cl: "jmGet (rs_creditLines (riskState t)) c = Some cl" "x \<le> cl_utilizedMinor cl"
        and ch: "line_changed c (\<lambda>c'. c'\<lparr>cl_utilizedMinor := cl_utilizedMinor cl - x, cl_updatedAt := now\<rparr>) t u"
      have "x = applied" using printed_amount [OF x] True by simp
      with lines [OF ch] frame [OF t] cl ch moved True Some show "Q () u"
        by (intro Q) (auto simp: drawn_def line_changed_def)
    next
      fix e u
      assume "u = t \<and> \<not> (\<exists>cl x. assertPositiveMinorUnits amountMinorName (JStr (dec applied)) = Inr x \<and>
          jmGet (rs_creditLines (riskState t)) c = Some cl \<and> cl_status cl \<noteq> Line_CLOSED \<and> x \<le> cl_utilizedMinor cl) \<or>
        (\<exists>cl x now. assertPositiveMinorUnits amountMinorName (JStr (dec applied)) = Inr x \<and>
          jmGet (rs_creditLines (riskState t)) c = Some cl \<and> cl_status cl \<noteq> Line_CLOSED \<and> x \<le> cl_utilizedMinor cl \<and>
          line_changed c (\<lambda>c'. c'\<lparr>cl_utilizedMinor := cl_utilizedMinor cl - x, cl_updatedAt := now\<rparr>) t u)"
      then show "E e u" using frame [OF t] lines by (intro E) blast
    qed
    then show ?thesis using Some by (simp add: wp_thenM wp_returnM)
  qed
  have "wp (LockboxService_reduceBalance k (JStr (dec applied)) (JStr ''obligation_repayment'') (JStr (''repayment_route:'' @ key)))
      (\<lambda>_. wp (case givenLine line of None \<Rightarrow> returnM () | Some c \<Rightarrow>
      thenM (RiskService_releaseUtilization c (JStr (dec applied))) (returnM ())) Q E) E s"
  proof (rule wp_conseq [OF wp_reduceBalance [OF lb]], goal_cases)
    case (1 l t)
    then obtain x where t: "lockbox_inv t" "lockbox_frame s t" "settled s k l t"
      and x: "assertPositiveMinorUnits amountMinorName (JStr (dec applied)) = Inr x"
      and moved: "transferred (lb_repaymentLedgerAccountId l) (lb_ledgerAccountId l) x (turnover (ledger s)) (turnover (ledger t)) \<or>
        known_key (ledger s) (JStr (''repayment_route:'' @ key))" by blast
    have "x = applied" using printed_amount [OF x] True by simp
    then show ?case using t(3) moved by (intro release [OF t(1,2)]) (auto simp: settled_def known_key_def)
  next
    case (2 e t)
    then show ?case using frame [of t] by (intro E) simp
  qed
  then show ?thesis using True by (simp add: RepaymentRouter_settle_def wp_thenM wp_whenM)
qed

definition routeOrder :: "'z obligation_world_scheme \<Rightarrow> string list \<Rightarrow> string list" where
  "routeOrder s ids = map ob_obligationId (js_sort (candidateCompare (rt s)) (openObligations s ids))"

definition routed :: "route_args \<Rightarrow> int \<Rightarrow> string \<Rightarrow> 'z repayment_world_scheme \<Rightarrow> route_result \<Rightarrow> 'z repayment_world_scheme \<Rightarrow> bool" where
  "routed a amount key s res t \<longleftrightarrow>
     (let order = routeOrder s (ra_obligationIds a); debts = map (outstanding s) order; got = shares debts amount in
      (\<exists>l. jmGet (lockboxes s) (ra_lockboxId a) = Some l \<and> lb_status l \<in> {Lockbox_ACTIVE, Lockbox_FROZEN} \<and>
         amount \<le> debitBalance (turnover (ledger s)) (lb_ledgerAccountId l)) \<and> distinct (ra_obligationIds a) \<and>
      ro_appliedMinor res = sum_list got \<and> ro_surplusMinor res = amount - sum_list got \<and> ro_idempotencyKey res = key \<and> \<not> ro_replayed res \<and>
      map rp_amountMinor (ro_repayments res) = filter (\<lambda>x. 0 < x) got \<and>
      map (outstanding t) order = map2 (-) debts got \<and> (\<forall>k. k \<notin> set order \<longrightarrow> outstanding t k = outstanding s k) \<and>
      drawn (ra_lockboxId a) (ra_creditLineId a) (sum_list got) key s t \<and> money_inv t \<and> rt t = rt s \<and>
      routesByIdempotencyKey t = jmSet key (routeHash (rt s) a amount, res) (routesByIdempotencyKey s))"

lemma wp_getLockbox:
  assumes inv: "lockbox_inv s"
    and Q: "\<And>l t. jmGet (lockboxes s) k = Some l \<Longrightarrow> lockbox_inv t \<Longrightarrow> lockbox_frame s t \<Longrightarrow> ledger t = ledger s \<Longrightarrow>
      lockboxes t = jmModify k (synced (ledger s)) (lockboxes s) \<Longrightarrow> Q (synced (ledger s) l) t"
    and E: "\<And>e. E e s"
  shows "wp (LockboxService_getLockbox k) Q E s"
proof (cases "jmGet (lockboxes s) k")
  case None
  then show ?thesis by (simp add: LockboxService_getLockbox_def wp_simps E)
next
  case (Some l)
  have "wp (LockboxService_syncFromLedger l) (\<lambda>_. wp (LockboxService_requireLockbox k) Q E) E s"
    by (rule wp_sync_inv [OF inv Some]) (use Some Q in \<open>simp add: wp_requireLockbox\<close>)
  with Some show ?thesis by (simp add: LockboxService_getLockbox_def wp_bindM wp_thenM wp_requireLockbox)
qed

lemma wp_checkLine: "Q () s \<Longrightarrow> (\<And>e. E e s) \<Longrightarrow> wp (RepaymentRouter_checkLine lockbox line applied) Q E s"
  by (simp add: RepaymentRouter_checkLine_def RiskService_getCreditLine_def wp_simps split: option.split)

lemma drawn_before:
  assumes "drawn k line applied key u t" and "ledger u = ledger s" and "riskState u = riskState s"
    and "lockboxes u = jmModify k (synced (ledger s)) (lockboxes s)"
  shows "drawn k line applied key s t"
  using assms by (auto simp: drawn_def synced_def split: option.splits if_splits)

lemma wp_routeConclude:
  assumes inv: "money_inv s"
    and Q: "\<And>res t. money_inv t \<Longrightarrow> ledger t = ledger s \<Longrightarrow> riskState t = riskState s \<Longrightarrow> obligationState t = obligationState s \<Longrightarrow>
      rt t = rt s \<Longrightarrow> routesByIdempotencyKey t = jmSet key (routeHash (rt s) a amount, res) (routesByIdempotencyKey s) \<Longrightarrow>
      res = \<lparr>ro_repayments = repayments, ro_appliedMinor = applied, ro_surplusMinor = remaining, ro_idempotencyKey = key, ro_replayed = False\<rparr> \<Longrightarrow> Q res t"
    and E: "\<And>e t. router_frame s t \<Longrightarrow> E e t"
  shows "wp (RepaymentRouter_conclude a lockbox amount key repayments applied remaining) Q E s"
  unfolding RepaymentRouter_conclude_def wp_thenM [where m = "emitCreditEvent _"]
proof (rule wp_emitI)
  let ?res = "\<lparr>ro_repayments = repayments, ro_appliedMinor = applied, ro_surplusMinor = remaining, ro_idempotencyKey = key, ro_replayed = False\<rparr>"
  fix t assume log: "log_ext s t"
  let ?t = "routesByIdempotencyKey_update (jmSet key (routeHash (rt t) a amount, ?res)) t"
  have fr: "obligation_frame s t" by (rule log_obligation_frame [OF log])
  have inv_t: "money_inv t" by (rule money_inv_log [OF inv log])
  have "money_inv ?t"
    using inv_t obligation_inv_issue [of t ?t] lockbox_inv_issue [of t ?t] by (simp add: money_inv_def)
  then have "Q ?res ?t"
    by (intro Q) (simp_all add: log_ext_ledger [OF log] log_ext_obligations [OF log] obligation_frame_services [OF fr] log_ext_rt [OF log])
  then show "wp (bindM (getsM rt) (\<lambda>r. let result = ?res in
      thenM (modifyM (routesByIdempotencyKey_update (jmSet key (routeHash r a amount, result)))) (returnM result))) Q E t"
    by (simp add: wp_simps Let_def)
next
  fix e t assume log: "log_ext s t"
  then show "E e t"
    using money_inv_log [OF inv log] obligation_frame_services(2) [OF log_obligation_frame [OF log]] log_ext_rt [OF log]
    by (intro E) (simp add: router_frame_def)
qed

lemma wp_route:
  assumes inv: "money_inv s" and pos: "0 < amount"
    and Q: "\<And>res t. routed a amount key s res t \<Longrightarrow> Q res t" and E: "\<And>e t. router_frame s t \<Longrightarrow> E e t"
  shows "wp (RepaymentRouter_route a amount key) Q E s"
proof -
  let ?k = "ra_lockboxId a" and ?ids = "ra_obligationIds a"
  let ?order = "routeOrder s ?ids" and ?debts = "map (outstanding s) (routeOrder s ?ids)"
  let ?got = "shares ?debts amount"
  have oinv: "obligation_inv s" and linv: "lockbox_inv s" using inv by (simp_all add: money_inv_def)
  have frame_trans: "router_frame t u \<Longrightarrow> rt t = rt s \<Longrightarrow> routesByIdempotencyKey t = routesByIdempotencyKey s \<Longrightarrow> router_frame s u" for t u
    by (simp add: router_frame_def)
  have last: "wp (thenM (RepaymentRouter_settle ?k (ra_creditLineId a) (sum_list ?got) key)
       (RepaymentRouter_conclude a lockbox amount key repayments (sum_list ?got) remaining)) Q E t2"
    if l: "jmGet (lockboxes s) ?k = Some l" "lb_status l \<in> {Lockbox_ACTIVE, Lockbox_FROZEN}"
        "amount \<le> debitBalance (turnover (ledger s)) (lb_ledgerAccountId l)" and dist: "distinct ?ids"
      and t2: "money_inv t2" "rt t2 = rt s" "routesByIdempotencyKey t2 = routesByIdempotencyKey s" "ledger t2 = ledger s"
        "riskState t2 = riskState s" "lockboxes t2 = jmModify ?k (synced (ledger s)) (lockboxes s)"
      and loop: "remaining = amount - sum_list ?got" "map rp_amountMinor repayments = filter (\<lambda>x. 0 < x) ?got"
        "map (outstanding t2) ?order = map2 (-) ?debts ?got" "\<forall>k. k \<notin> set ?order \<longrightarrow> outstanding t2 k = outstanding s k"
    for l t2 remaining repayments lockbox
    unfolding wp_thenM
  proof (rule wp_settle [OF t2(1)])
    fix t3 assume t3: "router_frame t2 t3" "obligationState t3 = obligationState t2" and dr: "drawn ?k (ra_creditLineId a) (sum_list ?got) key t2 t3"
    have dr': "drawn ?k (ra_creditLineId a) (sum_list ?got) key s t3" by (rule drawn_before [OF dr t2(4,5,6)])
    have out: "outstanding t3 = outstanding t2" by (simp add: outstanding_def [abs_def] t3)
    show "wp (RepaymentRouter_conclude a lockbox amount key repayments (sum_list ?got) remaining) Q E t3"
    proof (rule wp_routeConclude)
      show "money_inv t3" using t3(1) by (simp add: router_frame_def)
      show "E e t" if "router_frame t3 t" for e t
        using that t3(1) t2(2,3) by (intro E) (simp add: router_frame_def)
      fix res and t :: "'a repayment_world_scheme"
      assume t: "money_inv t" "ledger t = ledger t3" "riskState t = riskState t3" "obligationState t = obligationState t3"
        "routesByIdempotencyKey t = jmSet key (routeHash (rt t3) a amount, res) (routesByIdempotencyKey t3)" "rt t = rt t3"
        and res: "res = \<lparr>ro_repayments = repayments, ro_appliedMinor = sum_list ?got, ro_surplusMinor = remaining, ro_idempotencyKey = key, ro_replayed = False\<rparr>"
      have "outstanding t = outstanding t2" using out t(4) by (simp add: outstanding_def [abs_def])
      moreover have "drawn ?k (ra_creditLineId a) (sum_list ?got) key s t" using dr' unfolding drawn_def t(2,3) .
      ultimately show "Q res t"
        using l dist loop t t2(2,3) t3(1) res by (intro Q) (simp add: routed_def Let_def router_frame_def)
    qed
  next
    show "E e t" if "router_frame t2 t" for e t using frame_trans [OF that t2(2,3)] by (rule E)
  qed
  have mid: "wp (RepaymentRouter_candidates (synced (ledger s) l) ?ids) (\<lambda>candidates. wp
      (let totalApplied = previewLoop (map ob_outstandingPrincipalMinor candidates) amount 0 in
        thenM (RepaymentRouter_checkLine (synced (ledger s) l) (ra_creditLineId a) totalApplied)
        (bindM (routeLoop payObligation (map ob_obligationId candidates) amount) (\<lambda>(repayments, remaining).
         thenM (RepaymentRouter_settle ?k (ra_creditLineId a) totalApplied key)
         (RepaymentRouter_conclude a (synced (ledger s) l) amount key repayments totalApplied remaining)))) Q E) E t1"
    if l: "jmGet (lockboxes s) ?k = Some l" "lb_status l \<in> {Lockbox_ACTIVE, Lockbox_FROZEN}"
        "amount \<le> debitBalance (turnover (ledger s)) (lb_ledgerAccountId l)"
      and t1: "lockbox_inv t1" "lockbox_frame s t1" "ledger t1 = ledger s" "lockboxes t1 = jmModify ?k (synced (ledger s)) (lockboxes s)"
    for l t1
  proof -
    have ob1: "obligationState t1 = obligationState s" by (rule lockbox_frame_obligations [OF t1(2)])
    have rt1: "rt t1 = rt s" "routesByIdempotencyKey t1 = routesByIdempotencyKey s" "riskState t1 = riskState s"
      using t1(2) by (simp_all add: lockbox_frame_services) (simp add: lockbox_frame_def)
    have inv1: "obligation_inv t1" by (rule obligation_inv_lockbox [OF oinv t1(2)])
    have fr1: "router_frame s t1" using inv1 t1(1) rt1 by (simp add: router_frame_def money_inv_def)
    have same: "openObligations t1 ?ids = openObligations s ?ids" "outstanding t1 = outstanding s" "openDebt t1 = openDebt s"
      by (simp_all add: openObligations_def outstanding_def [abs_def] openDebt_def [abs_def] ob1)
    show ?thesis
    proof (rule wp_candidates)
      show "E e t1" for e using fr1 by (rule E)
      assume dist: "distinct ?ids"
      let ?c = "js_sort (candidateCompare (rt s)) (openObligations s ?ids)"
      note cand = candidates_payable [OF oinv dist, of "candidateCompare (rt s)", folded routeOrder_def]
      have nonneg: "list_all (\<lambda>d. 0 \<le> d) ?debts" by (rule obligation_payee.debts_nonneg [OF oinv cand(2)])
      have preview: "previewLoop (map ob_outstandingPrincipalMinor ?c) amount 0 = sum_list ?got"
        using previewLoop_shares [OF nonneg, of amount 0] pos cand(3) by simp
      have loop: "wp (routeLoop payObligation ?order amount)
          (\<lambda>x. wp (case x of (repayments, remaining) \<Rightarrow> thenM (RepaymentRouter_settle ?k (ra_creditLineId a) (sum_list ?got) key)
            (RepaymentRouter_conclude a (synced (ledger s) l) amount key repayments (sum_list ?got) remaining)) Q E) E t1"
      proof (rule wp_conseq [OF obligation_payee.routeLoop_refines [OF inv1 cand(1)]], goal_cases)
        case (3 x t2)
        obtain repayments remaining where x: "x = (repayments, remaining)" by (cases x)
        from 3 have t2: "obligation_inv t2" "obligation_frame t1 t2" by (auto simp: x debts_frame_def)
        have "lockbox_inv t2" by (rule lockbox_inv_obligation [OF t1(1) t2(2)])
        with t2(1) have "money_inv t2" by (simp add: money_inv_def)
        moreover have "rt t2 = rt s" "ledger t2 = ledger s" "lockboxes t2 = jmModify ?k (synced (ledger s)) (lockboxes s)"
          using t2(2) rt1 t1(3,4) by (simp_all add: obligation_frame_def)
        moreover have "routesByIdempotencyKey t2 = routesByIdempotencyKey s" "riskState t2 = riskState s"
          using obligation_frame_services [OF t2(2)] rt1 by simp_all
        ultimately show ?case using 3 unfolding x prod.case by (intro last [OF l dist]) (auto simp: x same)
      next
        case (4 e t2)
        then have t2: "obligation_inv t2" "obligation_frame t1 t2" by (auto simp: debts_frame_def)
        have "lockbox_inv t2" by (rule lockbox_inv_obligation [OF t1(1) t2(2)])
        then show ?case
          using t2 rt1 obligation_frame_services [OF t2(2)] by (intro E) (simp add: router_frame_def money_inv_def obligation_frame_def)
      qed (use cand(2) pos in \<open>simp_all add: same\<close>)
      show "wp (let totalApplied = previewLoop (map ob_outstandingPrincipalMinor (js_sort (candidateCompare (rt t1)) (openObligations t1 ?ids))) amount 0 in
        thenM (RepaymentRouter_checkLine (synced (ledger s) l) (ra_creditLineId a) totalApplied)
        (bindM (routeLoop payObligation (map ob_obligationId (js_sort (candidateCompare (rt t1)) (openObligations t1 ?ids))) amount)
         (\<lambda>(repayments, remaining). thenM (RepaymentRouter_settle ?k (ra_creditLineId a) totalApplied key)
         (RepaymentRouter_conclude a (synced (ledger s) l) amount key repayments totalApplied remaining)))) Q E t1"
        unfolding same rt1 preview Let_def wp_thenM [where m = "RepaymentRouter_checkLine _ _ _"] wp_bindM
        by (rule wp_checkLine) (use loop E [OF fr1] in \<open>simp_all add: routeOrder_def\<close>)
    qed
  qed
  have here: "router_frame s s" using inv by (simp add: router_frame_def)
  show ?thesis
    unfolding RepaymentRouter_route_def wp_bindM [where m = "LockboxService_getLockbox _"]
  proof (rule wp_getLockbox [OF linv], goal_cases)
    case (1 l t1)
    have fr: "router_frame s t1"
      using 1 obligation_inv_lockbox [OF oinv 1(3)] lockbox_frame_services [OF 1(3)] by (simp add: router_frame_def money_inv_def lockbox_frame_def)
    show ?case
      unfolding wp_thenM wp_throwIf wp_bindM [where m = "RepaymentRouter_candidates _ _"]
      using mid [OF 1(1) _ _ 1(2-5)] E [OF fr] by (auto simp: synced_def [of _ l])
  next
    case (2 e)
    from here show ?case by (rule E)
  qed
qed

subsection \<open>A concrete route\<close>

definition demo_funded_ledger :: ledger_state where
  "demo_funded_ledger = \<lparr>lg_accounts = demo_box_accounts, lg_accountIdsByNaturalKey = [],
     lg_transactions = [(''ledger_transaction_'',
       \<lparr>lt_ledgerTransactionId = ''ledger_transaction_'', lt_transactionHash = ''0xh'', lt_idempotencyKey = ''k'',
        lt_transactionType = ''lockbox_revenue_capture'', lt_assetId = ''USDC'', lt_referenceType = ''lockbox'',
        lt_referenceId = ''lockbox_'', lt_metadata = JObj [], lt_metadataHash = ''0xh'', lt_debitTotalMinor = 900,
        lt_creditTotalMinor = 900, lt_entryCount = 2, lt_postedAt = 0, lt_schemaVersion = ''ledger_transaction.v1''\<rparr>)],
     lg_transactionIdsByIdempotencyKey = [(''k'', ''ledger_transaction_'')],
     lg_entries =
       [\<lparr>le_ledgerEntryId = ''e0'', le_ledgerTransactionId = ''ledger_transaction_'', le_ledgerAccountId = ''ledger_account_u'',
         le_direction = Entry_DEBIT, le_amountMinor = 900, le_sequence = 0, le_postedAt = 0, le_schemaVersion = ''ledger_entry.v1''\<rparr>,
        \<lparr>le_ledgerEntryId = ''e1'', le_ledgerTransactionId = ''ledger_transaction_'', le_ledgerAccountId = ''ledger_account_uu'',
         le_direction = Entry_CREDIT, le_amountMinor = 900, le_sequence = 1, le_postedAt = 0, le_schemaVersion = ''ledger_entry.v1''\<rparr>]\<rparr>"

definition demo_router :: repayment_world where
  "demo_router = \<lparr>rt = demo_runtime, uuidCount = 4, clockCount = 0, creditEvents = [], auditEvents = [],
     seenCreditIds = [], seenAuditIds = [], evidenceEnvelopes = [], aggregateVersions = [],
     ledger = demo_funded_ledger, lockboxes = [(''lockbox_'', demo_lockbox)],
     obligationState = \<lparr>os_obligations = [(''obligation_'', demo_obligation)], os_repayments = []\<rparr>,
     mandateState = mandateState demo_mandates, riskState = demo_lines Line_APPROVED, spendState = spendState demo_spend,
     routesByIdempotencyKey = []\<rparr>"

definition demo_route :: route_args where
  "demo_route = \<lparr>ra_lockboxId = ''lockbox_'', ra_obligationIds = [''obligation_''], ra_creditLineId = None,
     ra_amountMinor = JStr ''600'', ra_idempotencyKey = JStr ''r1''\<rparr>"

lemma demo_funded:
  "debitBalance (turnover demo_funded_ledger) ''ledger_account_u'' = 900"
  "turnover demo_funded_ledger ''ledger_account_u'' Entry_DEBIT = 900"
  by (simp_all add: debitBalance_def turnover_def demo_funded_ledger_def)

lemma demo_router_inv: "money_inv demo_router"
proof -
  have issued: "issued demo_router ''ledger_account'' =
      {''ledger_account_'', ''ledger_account_u'', ''ledger_account_uu'', ''ledger_account_uuu''}"
    "''ledger_transaction_'' \<in> issued demo_router ''ledger_transaction''" "''obligation_'' \<in> issued demo_router ''obligation''"
    by (auto simp: issued_def demo_router_def eval_simps lessThan_nat_numeral)
  have "ledger_inv demo_router"
    using issued
    by (simp add: ledger_inv_def ledger_ok_def accounts_ok_def transactions_ok_def entries_ok_def assets_balanced_def assetTotal_def
        entryTotal_def entriesOf_def entryAsset_def)
      (simp add: demo_router_def demo_funded_ledger_def demo_box_accounts_def demo_account_def cong: eval_congs)
  moreover have "boxes_funded (ledger demo_router)"
    by (simp add: boxes_funded_def debitBalance_def turnover_def demo_router_def demo_funded_ledger_def demo_box_accounts_def demo_account_def)
  moreover have "lockboxes_ok (ledger demo_router) (lockboxes demo_router)"
    by (auto simp: lockboxes_ok_def lockbox_ok_def account_is_def owned_by_def demo_router_def demo_lockbox_def
        demo_funded_ledger_def demo_box_accounts_def demo_account_def split: if_splits)
  moreover have "obligation_inv demo_router"
    using issued
    by (simp add: obligation_inv_def obligations_ok_def obligation_ok_def repaidSum_def jmValues_def demo_router_def demo_obligation_def)
  ultimately show ?thesis by (simp add: money_inv_def lockbox_inv_def)
qed

definition demo_route_request :: posting_request where
  "demo_route_request =
     \<lparr>rq_idempotencyKey = ''repayment_route:r1'', rq_transactionType = ''lockbox_repayment_debit'', rq_assetId = ''USDC'',
      rq_referenceType = ''lockbox'', rq_referenceId = ''lockbox_'',
      rq_metadata = JObj [(''reason'', JStr ''obligation_repayment'')],
      rq_normalizedEntries =
        [\<lparr>ne_ledgerAccountId = ''ledger_account_uuu'', ne_direction = Entry_DEBIT, ne_amountMinor = 600, ne_sequence = 0\<rparr>,
         \<lparr>ne_ledgerAccountId = ''ledger_account_u'', ne_direction = Entry_CREDIT, ne_amountMinor = 600, ne_sequence = 1\<rparr>]\<rparr>"

lemma demo_route_validate:
  "validatePosting demo_funded_ledger
     \<lparr>pa_idempotencyKey = JStr ''repayment_route:r1'', pa_transactionType = JStr ''lockbox_repayment_debit'', pa_assetId = JStr ''USDC'',
      pa_entries = Some (transferEntries ''ledger_account_uuu'' ''ledger_account_u'' 600),
      pa_referenceType = JStr ''lockbox'', pa_referenceId = JStr ''lockbox_'', pa_subjectId = JStr ''s1'',
      pa_metadata = JObj [(''reason'', JStr ''obligation_repayment'')], pa_now = None\<rparr> = Inr demo_route_request"
  by code_simp

lemma demo_router_sel:
  "rt demo_router = demo_runtime" "uuidCount demo_router = 4" "clockCount demo_router = 0" "seenCreditIds demo_router = []"
  "aggregateVersions demo_router = []" "ledger demo_router = demo_funded_ledger" "lockboxes demo_router = [(''lockbox_'', demo_lockbox)]"
  "os_obligations (obligationState demo_router) = [(''obligation_'', demo_obligation)]" "os_repayments (obligationState demo_router) = []"
  "routesByIdempotencyKey demo_router = []"
  by (simp_all add: demo_router_def)

lemma demo_funded_sel:
  "lg_transactionIdsByIdempotencyKey demo_funded_ledger = [(''k'', ''ledger_transaction_'')]"
  "lg_accounts demo_funded_ledger = demo_box_accounts"
  "map fst (lg_transactions demo_funded_ledger) = [''ledger_transaction_'']"
  by (simp_all add: demo_funded_ledger_def)

lemma demo_funded_turnover:
  "turnover demo_funded_ledger ''ledger_account_u'' Entry_DEBIT = 900" "turnover demo_funded_ledger ''ledger_account_u'' Entry_CREDIT = 0"
  by (simp_all add: turnover_def demo_funded_ledger_def)

lemma demo_box_fields:
  "lb_lockboxId demo_lockbox = ''lockbox_''" "lb_ledgerAccountId demo_lockbox = ''ledger_account_u''"
  "lb_repaymentLedgerAccountId demo_lockbox = ''ledger_account_uuu''" "lb_status demo_lockbox = Lockbox_ACTIVE"
  "lb_subjectId demo_lockbox = JStr ''s1''" "lb_assetId demo_lockbox = JStr ''USDC''" "lb_chainId demo_lockbox = ''eip155:1''"
  by (simp_all add: demo_lockbox_def)

lemma demo_600: "assertPositiveMinorUnits n (JStr (dec 600)) = Inr 600"
  by (simp add: assertPositive_Inr toMinorUnit_print)

lemma demo_route_candidates:
  "RepaymentRouter_candidates l [''obligation_''] s = (Inr [demo_obligation], s)"
  if "os_obligations (obligationState s) = [(''obligation_'', demo_obligation)]" "lb_subjectId l = JStr ''s1''" "lb_assetId l = JStr ''USDC''"
  using that
  by (simp add: RepaymentRouter_candidates_def ObligationService_getObligation_def ObligationService_requireObligation_def eval_simps
      demo_obligation_def cong: eval_congs)

definition demo_synced :: lockbox where
  "demo_synced = demo_lockbox\<lparr>lb_balanceMinor := 900, lb_capturedRevenueMinor := 900\<rparr>"

definition demo_read :: repayment_world where
  "demo_read = demo_router\<lparr>lockboxes := [(''lockbox_'', demo_synced)]\<rparr>"

lemma demo_route_get: "LockboxService_getLockbox ''lockbox_'' demo_router = (Inr demo_synced, demo_read)"
  by (simp add: LockboxService_getLockbox_def LockboxService_syncFromLedger_def LedgerService_getAccountBalance_def
      LedgerService_getAccountTurnover_def LockboxService_requireLockbox_def LedgerService_requireAccount_def demo_box_fields
      demo_router_sel demo_funded_sel demo_funded_turnover demo_read_def demo_synced_def demo_box_accounts_def demo_account_def
      jmModify_def eval_simps cong: eval_congs)

lemma demo_route_pay:
  "\<exists>p t. payObligation ''obligation_'' 600 demo_read = (Inr (0, p), t) \<and> rt t = demo_runtime \<and> uuidCount t = 8 \<and> clockCount t = 8 \<and>
     seenCreditIds t = [''credit_event_uuuuu'', ''credit_event_uuuuuu'', ''credit_event_uuuuuuu''] \<and> ledger t = demo_funded_ledger \<and>
     lockboxes t = [(''lockbox_'', demo_synced)] \<and> aggregateVersions t = [(aggregateKey ''obligation'' ''obligation_'', 3)]"
  by (simp add: payObligation_def demo_600 demo_read_def demo_router_sel
      ObligationService_applyRepayment_def ObligationService_requireObligation_def createRepayment_def
        updateObligation_def repaymentEvents_def ObligationService_emitStatusChange_def repayment_js_def demo_obligation_def
      assertTransition_def jmModify_def eval_simps cong: eval_congs)

lemma demo_route_draw:
  fixes t :: "'z repayment_world_scheme"
  assumes "rt t = demo_runtime" "uuidCount t = 8" "clockCount t = 8"
    "seenCreditIds t = [''credit_event_uuuuu'', ''credit_event_uuuuuu'', ''credit_event_uuuuuuu'']" "ledger t = demo_funded_ledger"
    "lockboxes t = [(''lockbox_'', demo_synced)]" "aggregateVersions t = [(aggregateKey ''obligation'' ''obligation_'', 3)]"
  shows "\<exists>l u. LockboxService_reduceBalance ''lockbox_'' (JStr (dec 600)) (JStr ''obligation_repayment'') (JStr ''repayment_route:r1'') t = (Inr l, u) \<and>
     rt u = demo_runtime \<and> uuidCount u = 13 \<and> aggregateVersions u = [(aggregateKey ''obligation'' ''obligation_'', 3),
       (aggregateKey ''ledger_transaction'' ''ledger_transaction_uuuuuuuu'', 1), (aggregateKey ''lockbox'' ''lockbox_'', 1)] \<and>
     seenCreditIds u = [''credit_event_uuuuu'', ''credit_event_uuuuuu'', ''credit_event_uuuuuuu'', ''credit_event_uuuuuuuuuuu'',
       ''credit_event_uuuuuuuuuuuu'']"
  using assms
  by (simp add: LockboxService_reduceBalance_def finishMovement_def LockboxService_syncFromLedger_def demo_600 demo_synced_def
      touchLockbox_def LedgerService_getAccountBalance_def LedgerService_getAccountTurnover_def demo_funded_turnover
      LockboxService_requireLockbox_def LedgerService_requireAccount_def defaultKey_def demo_box_fields lockboxPosting_def
      demo_route_validate ledger_eval demo_funded_sel demo_route_request_def jmModify_def
      demo_box_accounts_def demo_account_def eval_simps cong: eval_congs)

lemma demo_route_end:
  fixes u :: "'z repayment_world_scheme"
  assumes "rt u = demo_runtime" "uuidCount u = 13"
    "aggregateVersions u = [(aggregateKey ''obligation'' ''obligation_'', 3),
       (aggregateKey ''ledger_transaction'' ''ledger_transaction_uuuuuuuu'', 1), (aggregateKey ''lockbox'' ''lockbox_'', 1)]"
    "seenCreditIds u = [''credit_event_uuuuu'', ''credit_event_uuuuuu'', ''credit_event_uuuuuuu'', ''credit_event_uuuuuuuuuuu'',
       ''credit_event_uuuuuuuuuuuu'']"
  shows "\<exists>res t. RepaymentRouter_conclude demo_route demo_synced 600 ''r1'' [p] 600 0 u = (Inr res, t) \<and> \<not> ro_replayed res"
  using assms
  by (simp add: RepaymentRouter_conclude_def demo_route_def demo_synced_def demo_box_fields eval_simps cong: eval_congs)

lemma demo_route_run:
  "\<exists>res t. RepaymentRouter_applyLockboxRevenue demo_route demo_router = (Inr res, t) \<and> \<not> ro_replayed res"
proof -
  obtain p t where pay: "payObligation ''obligation_'' 600 demo_read = (Inr (0, p), t)" and t: "rt t = demo_runtime" "uuidCount t = 8" "clockCount t = 8"
    "seenCreditIds t = [''credit_event_uuuuu'', ''credit_event_uuuuuu'', ''credit_event_uuuuuuu'']" "ledger t = demo_funded_ledger"
    "lockboxes t = [(''lockbox_'', demo_synced)]" "aggregateVersions t = [(aggregateKey ''obligation'' ''obligation_'', 3)]"
    using demo_route_pay by blast
  from demo_route_draw [OF t] obtain l u where
    draw: "LockboxService_reduceBalance ''lockbox_'' (JStr (dec 600)) (JStr ''obligation_repayment'') (JStr ''repayment_route:r1'') t = (Inr l, u)"
    and u: "rt u = demo_runtime" "uuidCount u = 13"
    "aggregateVersions u = [(aggregateKey ''obligation'' ''obligation_'', 3),
       (aggregateKey ''ledger_transaction'' ''ledger_transaction_uuuuuuuu'', 1), (aggregateKey ''lockbox'' ''lockbox_'', 1)]"
    "seenCreditIds u = [''credit_event_uuuuu'', ''credit_event_uuuuuu'', ''credit_event_uuuuuuu'', ''credit_event_uuuuuuuuuuu'',
       ''credit_event_uuuuuuuuuuuu'']" by blast
  from demo_route_end [OF u] obtain res v where
    fin: "RepaymentRouter_conclude demo_route demo_synced 600 ''r1'' [p] 600 0 u = (Inr res, v)" and no: "\<not> ro_replayed res" by blast
  have args: "ra_lockboxId demo_route = ''lockbox_''" "ra_obligationIds demo_route = [''obligation_'']" "ra_creditLineId demo_route = None"
    "ra_amountMinor demo_route = JStr ''600''" "ra_idempotencyKey demo_route = JStr ''r1''" by (simp_all add: demo_route_def)
  have cand: "RepaymentRouter_candidates demo_synced [''obligation_''] demo_read = (Inr [demo_obligation], demo_read)"
    by (rule demo_route_candidates) (simp_all add: demo_read_def demo_router_sel demo_synced_def demo_box_fields)
  have ob: "ob_outstandingPrincipalMinor demo_obligation = 1000" "ob_obligationId demo_obligation = ''obligation_''"
    by (simp_all add: demo_obligation_def)
  have box: "lb_status demo_synced = Lockbox_ACTIVE" "lb_balanceMinor demo_synced = 900" by (simp_all add: demo_synced_def demo_box_fields)
  have "RepaymentRouter_route demo_route 600 ''r1'' demo_router = (Inr res, v)"
    by (simp add: RepaymentRouter_route_def RepaymentRouter_checkLine_def RepaymentRouter_settle_def givenLine_def args demo_route_get cand ob box
        pay draw fin eval_simps cong: eval_congs)
  then have "RepaymentRouter_applyLockboxRevenue demo_route demo_router = (Inr res, v)"
    by (simp add: RepaymentRouter_applyLockboxRevenue_def defaultKey_def args demo_amounts demo_router_sel eval_simps cong: eval_congs)
  with no show ?thesis by blast
qed

subsection \<open>Properties\<close>

lemma wp_applyLockboxRevenue:
  assumes inv: "money_inv s" and key: "ra_idempotencyKey a = JStr key"
    and replay: "\<And>amount h res. assertPositiveMinorUnits amountMinorName (ra_amountMinor a) = Inr amount \<Longrightarrow>
      jmGet (routesByIdempotencyKey s) key = Some (h, res) \<Longrightarrow> h = routeHash (rt s) a amount \<Longrightarrow> Q (res\<lparr>ro_replayed := True\<rparr>) s"
    and fresh: "\<And>amount res t. assertPositiveMinorUnits amountMinorName (ra_amountMinor a) = Inr amount \<Longrightarrow>
      jmGet (routesByIdempotencyKey s) key = None \<Longrightarrow> routed a amount key s res t \<Longrightarrow> Q res t"
    and E: "\<And>e t. router_frame s t \<Longrightarrow> E e t"
  shows "wp (RepaymentRouter_applyLockboxRevenue a) Q E s"
proof -
  have here: "router_frame s s" using inv by (simp add: router_frame_def)
  have route: "wp (RepaymentRouter_route a amount key) Q E s"
    if "assertPositiveMinorUnits amountMinorName (ra_amountMinor a) = Inr amount" "jmGet (routesByIdempotencyKey s) key = None" for amount
    by (rule wp_route [OF inv]) (use that fresh E in \<open>auto simp: assertPositive_Inr\<close>)
  show ?thesis
    unfolding RepaymentRouter_applyLockboxRevenue_def defaultKey_def key
    using replay route E [OF here]
    by (auto simp: wp_simps assertNonEmptyString_def split: sum.split option.split)
qed

text \<open>
  C25. A route that returns under a new key refines the abstract waterfall: the open obligations among those named are
  taken in the order of priority, due date and identifier, each receives its share of the amount (\<open>shares\<close>:
  the smaller of its debt and what is left), its outstanding principal falls by exactly that share, and no other obligation changes.
  An obligation receives something only when every one before it is paid in full. The total applied is
  the smaller of the amount and the total debt; it is what the lockbox is debited (under a ledger key that was
  not used before) and what is released from the credit line, and the rest is reported as surplus.
\<close>

theorem repayment_refines_waterfall:
  assumes "money_inv s" and "ra_idempotencyKey a = JStr key" and "jmGet (routesByIdempotencyKey s) key = None"
    and "RepaymentRouter_applyLockboxRevenue a s = (Inr res, t)"
  shows "\<exists>amount l order debts got. assertPositiveMinorUnits amountMinorName (ra_amountMinor a) = Inr amount \<and>
    jmGet (lockboxes s) (ra_lockboxId a) = Some l \<and> amount \<le> debitBalance (turnover (ledger s)) (lb_ledgerAccountId l) \<and>
    order = map ob_obligationId (js_sort (candidateCompare (rt s)) (openObligations s (ra_obligationIds a))) \<and>
    debts = map (outstanding s) order \<and> got = shares debts amount \<and>
    map (outstanding t) order = map2 (-) debts got \<and> (\<forall>k. k \<notin> set order \<longrightarrow> outstanding t k = outstanding s k) \<and>
    (\<forall>i j. i < j \<and> j < length order \<and> 0 < got ! j \<longrightarrow> outstanding t (order ! i) = 0) \<and>
    ro_appliedMinor res = min (sum_list debts) amount \<and> ro_appliedMinor res + ro_surplusMinor res = amount \<and>
    sum_list (map rp_amountMinor (ro_repayments res)) = ro_appliedMinor res \<and>
    (0 < ro_appliedMinor res \<and> jmGet (lg_transactionIdsByIdempotencyKey (ledger s)) (''repayment_route:'' @ key) = None \<longrightarrow>
      debitBalance (turnover (ledger t)) (lb_ledgerAccountId l) =
        debitBalance (turnover (ledger s)) (lb_ledgerAccountId l) - ro_appliedMinor res) \<and>
    (\<forall>c. givenLine (ra_creditLineId a) = Some c \<and> 0 < ro_appliedMinor res \<longrightarrow>
      (\<exists>cl cl'. jmGet (rs_creditLines (riskState s)) c = Some cl \<and> jmGet (rs_creditLines (riskState t)) c = Some cl' \<and>
        cl_utilizedMinor cl' = cl_utilizedMinor cl - ro_appliedMinor res \<and> 0 \<le> cl_utilizedMinor cl'))" (is "?P res t")
proof -
  have inv: "obligation_inv s" "lockbox_inv s" using assms(1) by (simp_all add: money_inv_def)
  have "wp (RepaymentRouter_applyLockboxRevenue a) ?P (\<lambda>_ _. True) s"
  proof (rule wp_applyLockboxRevenue [OF assms(1,2)])
    fix amount h and res :: route_result
    assume "jmGet (routesByIdempotencyKey s) key = Some (h, res)"
    then show "?P (res\<lparr>ro_replayed := True\<rparr>) s" using assms(3) by simp
  next
    fix amount res t
    assume amount: "assertPositiveMinorUnits amountMinorName (ra_amountMinor a) = Inr amount" and rd: "routed a amount key s res t"
    let ?order = "routeOrder s (ra_obligationIds a)" and ?debts = "map (outstanding s) (routeOrder s (ra_obligationIds a))"
    let ?got = "shares ?debts amount"
    have pos: "0 < amount" using amount by (simp add: assertPositive_Inr)
    from rd obtain l where l: "jmGet (lockboxes s) (ra_lockboxId a) = Some l" "amount \<le> debitBalance (turnover (ledger s)) (lb_ledgerAccountId l)"
      and dist: "distinct (ra_obligationIds a)" and res: "ro_appliedMinor res = sum_list ?got" "ro_surplusMinor res = amount - sum_list ?got"
        "map rp_amountMinor (ro_repayments res) = filter (\<lambda>x. 0 < x) ?got"
      and out: "map (outstanding t) ?order = map2 (-) ?debts ?got" "\<forall>k. k \<notin> set ?order \<longrightarrow> outstanding t k = outstanding s k"
      and dr: "drawn (ra_lockboxId a) (ra_creditLineId a) (sum_list ?got) key s t"
      by (auto simp: routed_def Let_def)
    have nonneg: "list_all (\<lambda>d. 0 \<le> d) ?debts"
      by (rule obligation_payee.debts_nonneg [OF inv(1)]) (use candidates_payable(2) [OF inv(1) dist] in \<open>simp add: routeOrder_def\<close>)
    have total: "sum_list ?got = min (sum_list ?debts) amount" using shares_total [OF nonneg] pos by simp
    have each: "outstanding t (?order ! i) = ?debts ! i - ?got ! i" if "i < length ?order" for i
      using arg_cong [OF out(1), of "\<lambda>xs. xs ! i"] that by simp
    have earlier: "\<forall>i j. i < j \<and> j < length ?order \<and> 0 < ?got ! j \<longrightarrow> outstanding t (?order ! i) = 0"
      using each shares_ordered [OF nonneg, of amount] pos by auto
    have "sum_list (filter (\<lambda>x. 0 < x) ?got) = sum_list ?got"
      by (rule sum_list_positive) (use shares_bounds(1) [OF nonneg] pos in simp)
    then have rep: "sum_list (map rp_amountMinor (ro_repayments res)) = ro_appliedMinor res" using res by simp
    have acct: "lb_ledgerAccountId l \<noteq> lb_repaymentLedgerAccountId l" using box_accounts_distinct [OF lockbox_invD [OF inv(2) l(1)]] by simp
    have balance: "0 < ro_appliedMinor res \<and> jmGet (lg_transactionIdsByIdempotencyKey (ledger s)) (''repayment_route:'' @ key) = None \<longrightarrow>
      debitBalance (turnover (ledger t)) (lb_ledgerAccountId l) = debitBalance (turnover (ledger s)) (lb_ledgerAccountId l) - ro_appliedMinor res"
      using dr l(1) acct res(1) by (auto simp: drawn_def transferred_def debitBalance_def)
    have line: "\<forall>c. givenLine (ra_creditLineId a) = Some c \<and> 0 < ro_appliedMinor res \<longrightarrow>
      (\<exists>cl cl'. jmGet (rs_creditLines (riskState s)) c = Some cl \<and> jmGet (rs_creditLines (riskState t)) c = Some cl' \<and>
        cl_utilizedMinor cl' = cl_utilizedMinor cl - ro_appliedMinor res \<and> 0 \<le> cl_utilizedMinor cl')"
      using dr res(1) by (auto simp: drawn_def)
    show "?P res t"
      by (rule exI [of _ amount], rule exI [of _ l], rule exI [of _ ?order], rule exI [of _ ?debts], rule exI [of _ ?got])
        (use amount l out earlier res total rep balance line in \<open>auto simp: routeOrder_def\<close>)
  qed simp
  from wp_Inr [OF this assms(4)] show ?thesis .
qed

theorem repayment_refines_waterfall_witness:
  "\<exists>res t. RepaymentRouter_applyLockboxRevenue demo_route demo_router = (Inr res, t) \<and>
     ro_appliedMinor res + ro_surplusMinor res = 600"
proof -
  obtain res t where run: "RepaymentRouter_applyLockboxRevenue demo_route demo_router = (Inr res, t)" using demo_route_run by blast
  have "ra_idempotencyKey demo_route = JStr ''r1''" "jmGet (routesByIdempotencyKey demo_router) ''r1'' = None"
    by (simp_all add: demo_route_def demo_router_def)
  from repayment_refines_waterfall [OF demo_router_inv this run] run show ?thesis
    by (auto simp: demo_route_def demo_amounts)
qed

text \<open>
  C26. Routing is idempotent: after a route has returned, the same call returns the same result again, marked as a replay,
  and changes nothing at all; a call under the same key with a different lockbox, obligation list, credit line or amount (a
  different hash of them) is refused as a conflict, and also changes nothing.
\<close>

theorem route_idempotent:
  assumes "money_inv s" and "ra_idempotencyKey a = JStr key" and "RepaymentRouter_applyLockboxRevenue a s = (Inr res, t)"
  shows "RepaymentRouter_applyLockboxRevenue a t = (Inr (res\<lparr>ro_replayed := True\<rparr>), t) \<and>
    (\<forall>b amount amount'. assertPositiveMinorUnits amountMinorName (ra_amountMinor a) = Inr amount \<and>
       assertPositiveMinorUnits amountMinorName (ra_amountMinor b) = Inr amount' \<and> ra_idempotencyKey b = JStr key \<and>
       routeHash (rt t) b amount' \<noteq> routeHash (rt t) a amount \<longrightarrow>
       RepaymentRouter_applyLockboxRevenue b t =
         (fail ''repayment_idempotency_conflict'' ''repayment idempotency key was reused with different input'', t))"
proof -
  let ?P = "\<lambda>res t. \<exists>amount r0. assertPositiveMinorUnits amountMinorName (ra_amountMinor a) = Inr amount \<and>
    jmGet (routesByIdempotencyKey t) key = Some (routeHash (rt t) a amount, r0) \<and> r0\<lparr>ro_replayed := True\<rparr> = res\<lparr>ro_replayed := True\<rparr>"
  have "wp (RepaymentRouter_applyLockboxRevenue a) (\<lambda>res t. ?P res t \<and> rt t = rt s) (\<lambda>_ _. True) s"
    by (rule wp_applyLockboxRevenue [OF assms(1,2)]) (auto simp: routed_def Let_def)
  from wp_Inr [OF this assms(3)] obtain amount r0 where amount: "assertPositiveMinorUnits amountMinorName (ra_amountMinor a) = Inr amount"
    and stored: "jmGet (routesByIdempotencyKey t) key = Some (routeHash (rt t) a amount, r0)"
    and r0: "r0\<lparr>ro_replayed := True\<rparr> = res\<lparr>ro_replayed := True\<rparr>" by blast
  have key: "\<exists>k. assertNonEmptyString ''idempotencyKey'' (JStr key) = Inr k \<and> k = key"
    using assms(2,3) by (auto simp: RepaymentRouter_applyLockboxRevenue_def defaultKey_def bindM_def returnM_def liftR_def amount
        assertNonEmptyString_def split: if_splits)
  show ?thesis
    using key amount stored r0 assms(2)
    by (auto simp: RepaymentRouter_applyLockboxRevenue_def defaultKey_def eval_simps)
qed

theorem route_idempotent_witness:
  "\<exists>res t. RepaymentRouter_applyLockboxRevenue demo_route demo_router = (Inr res, t) \<and> \<not> ro_replayed res \<and>
     RepaymentRouter_applyLockboxRevenue demo_route t = (Inr (res\<lparr>ro_replayed := True\<rparr>), t)"
proof -
  obtain res t where run: "RepaymentRouter_applyLockboxRevenue demo_route demo_router = (Inr res, t)" "\<not> ro_replayed res"
    using demo_route_run by blast
  have "ra_idempotencyKey demo_route = JStr ''r1''" by (simp add: demo_route_def)
  from route_idempotent [OF demo_router_inv this run(1)] run show ?thesis by blast
qed

end
