(* ===== verification/Log_Progress.thy ===== *)
theory Log_Progress
  imports Event_Store
begin

text \<open>
  That an append comes through. The other theories say what an operation does when it returns; every
  operation also appends to the event log, which can refuse an event, so returning is a property of its
  own. \<open>log_ready n\<close> says what the log needs for \<open>n\<close> more appends, and an append of a plain event uses
  up one of them.
\<close>

subsection \<open>The log as a resource\<close>

definition clean_string :: "string \<Rightarrow> bool" where
  "clean_string x \<longleftrightarrow> js_trim x \<noteq> [] \<and> length x \<le> MAX_DOMAIN_STRING_LENGTH"

text \<open>
  Room for \<open>n\<close> appends: the next \<open>n\<close> identifiers are no longer than a UUID text may be (the model
  allows 1024 characters), the identifiers on record have been issued, and no aggregate is within
  \<open>n\<close> versions of the largest safe integer.
\<close>

definition log_ready :: "nat \<Rightarrow> 'z es_world_scheme \<Rightarrow> bool" where
  "log_ready n s \<longleftrightarrow> uuid_unique (rt s) \<and> set (seenCreditIds s) \<subseteq> issued s ''credit_event'' \<and>
     (\<forall>i<n. length (rt_uuid (rt s) (uuidCount s + i)) \<le> 1024) \<and>
     (\<forall>key. 0 \<le> currentVersion s key \<and> currentVersion s key + int n \<le> MAX_SAFE_INTEGER)"

lemma clean_accepted: "clean_string x \<Longrightarrow> assertNonEmptyString n (JStr x) = Inr x"
  by (simp add: clean_string_def assertNonEmptyString_Inr)

lemma clean_eventId: "length (rt_uuid r n) \<le> 1024 \<Longrightarrow> clean_string (opId r ''credit_event'' n)"
  by (simp add: clean_string_def opId_def js_trim_Cons js_space_def MAX_DOMAIN_STRING_LENGTH_def)

text \<open>Reading the clock and drawing an identifier leave the rest of the budget.\<close>

lemma ready_clock [simp]: "log_ready n (s\<lparr>clockCount := c\<rparr>) = log_ready n s"
  by (simp add: log_ready_def issued_def currentVersion_def)

lemma ready_uuid:
  assumes "log_ready (Suc n) s"
  shows "log_ready n (s\<lparr>uuidCount := Suc (uuidCount s)\<rparr>)"
proof -
  have "issued s ''credit_event'' \<subseteq> issued (s\<lparr>uuidCount := Suc (uuidCount s)\<rparr>) ''credit_event''"
    by (rule issued_mono) auto
  moreover have "length (rt_uuid (rt s) (Suc (uuidCount s) + i)) \<le> 1024" if "i < n" for i
    using assms that by (auto simp: log_ready_def dest: spec [of _ "Suc i"])
  moreover have "currentVersion s key + int n \<le> MAX_SAFE_INTEGER" for key
  proof -
    have "currentVersion s key + int (Suc n) \<le> MAX_SAFE_INTEGER" using assms by (simp add: log_ready_def)
    then show ?thesis by simp
  qed
  ultimately show ?thesis using assms by (auto simp: log_ready_def currentVersion_def)
qed

lemma ready_less: "log_ready n s \<Longrightarrow> m \<le> n \<Longrightarrow> log_ready m s"
  unfolding log_ready_def by (meson add_left_mono of_nat_mono order.trans order_less_le_trans)

text \<open>
  The events most services write: about a named subject and possibly an obligation, with a payload that
  carries none of the keys the log reads references from and no prohibited key.
\<close>

definition reference_keys :: "string list" where
  "reference_keys = [''transferIntentId'', ''mandateId'', ''pluginId'', ''lockboxId'', ''creditLineId'', ''spendRequestId'',
     ''ledgerTransactionId'', ''causationId'', ''correlationId'', ''idempotencyKey'', ''actorId'']"

definition plain_event :: "credit_event_args \<Rightarrow> bool" where
  "plain_event a \<longleftrightarrow> clean_string (ca_eventType a) \<and> ca_now a = None \<and>
     (\<exists>x kvs. ca_subjectId a = JStr x \<and> clean_string x \<and>
        (ca_obligationId a = JUndefined \<or> (\<exists>k. ca_obligationId a = JStr k \<and> clean_string k)) \<and>
        ca_payload a = JObj kvs \<and> piiEntries kvs = Inr () \<and> (\<forall>key\<in>set reference_keys. jmGet kvs key = None))"

text \<open>The aggregate of a plain event is its obligation or else its subject.\<close>

lemma plain_aggregate:
  assumes "clean_string x" and "\<forall>key\<in>set reference_keys. jmGet kvs key = None"
    and "ob = JUndefined \<or> (\<exists>k. ob = JStr k \<and> clean_string k)"
    and "ce_payload e = JObj kvs" and "ce_obligationId e = ob" and "ce_subjectId e = JStr x"
  shows "aggregateForCreditEvent e = (case ob of JStr k \<Rightarrow> (''obligation'', k) | _ \<Rightarrow> (''subject'', x))"
  using assms by (auto simp: aggregateForCreditEvent_def nonempty_js_string_def Let_def reference_keys_def
      clean_string_def js_trim_def)

lemma ready_version:
  "log_ready (Suc n) s \<Longrightarrow> 0 \<le> currentVersion s key \<and> currentVersion s key + 1 + int n \<le> MAX_SAFE_INTEGER"
  by (auto simp: log_ready_def add.assoc)

text \<open>The state after an append: one version more, one identifier, event and envelope more.\<close>

abbreviation appended :: "string \<Rightarrow> credit_event \<Rightarrow> evidence_envelope \<Rightarrow> 'z es_world_scheme \<Rightarrow> 'z es_world_scheme" where
  "appended key e v s \<equiv> (aggregateVersions_update (jmSet key (currentVersion s key + 1))
     (s\<lparr>uuidCount := Suc (uuidCount s), clockCount := Suc (Suc (clockCount s))\<rparr>))
     \<lparr>seenCreditIds := seenCreditIds s @ [opId (rt s) ''credit_event'' (uuidCount s)], creditEvents := creditEvents s @ [e],
      evidenceEnvelopes := evidenceEnvelopes s @ [v]\<rparr>"

lemma appended_ext: "log_ext s (appended key e v s)"
  by (auto simp: log_ext_def)

lemma appended_ready:
  assumes "log_ready (Suc n) s"
  shows "log_ready n (appended key e v s)"
proof -
  have "log_ready n (s\<lparr>uuidCount := Suc (uuidCount s)\<rparr>)" by (rule ready_uuid [OF assms])
  moreover have "opId (rt s) ''credit_event'' (uuidCount s) \<in> issued (s\<lparr>uuidCount := Suc (uuidCount s)\<rparr>) ''credit_event''"
    using opId_issued [of "uuidCount s" "s\<lparr>uuidCount := Suc (uuidCount s)\<rparr>"] by simp
  ultimately show ?thesis
    using ready_version [OF assms] by (auto simp: log_ready_def issued_def currentVersion_def split: option.split)
qed

lemma wp_emit_ready:
  fixes s :: "'z es_world_scheme"
  assumes ev: "plain_event a" and ready: "log_ready (Suc n) s"
    and Q: "\<And>t. log_ext s t \<Longrightarrow> log_ready n t \<Longrightarrow> Q () t"
  shows "wp (emitCreditEvent a) Q (\<lambda>_ _. False) s"
proof -
  obtain x kvs where a: "ca_subjectId a = JStr x" "clean_string x" "ca_payload a = JObj kvs" "piiEntries kvs = Inr ()"
    and ob: "ca_obligationId a = JUndefined \<or> (\<exists>k. ca_obligationId a = JStr k \<and> clean_string k)"
    and keys: "\<forall>key\<in>set reference_keys. jmGet kvs key = None"
    and ty: "clean_string (ca_eventType a)" and now: "ca_now a = None"
    using ev unfolding plain_event_def by blast
  let ?id = "opId (rt s) ''credit_event'' (uuidCount s)"
  have get: "jmGet kvs ''causationId'' = None" "jmGet kvs ''correlationId'' = None" "jmGet kvs ''idempotencyKey'' = None"
    "jmGet kvs ''actorId'' = None"
    using keys by (simp_all add: reference_keys_def)
  have id: "clean_string ?id" by (rule clean_eventId) (use ready in \<open>auto simp: log_ready_def\<close>)
  have fresh: "?id \<notin> set (seenCreditIds s)"
    using ready issued_fresh [of s "''credit_event''"] by (auto simp: log_ready_def)
  have sys: "clean_string ''system:ipo.one.demo''" "clean_string ''ipo.one.demo''"
    by (simp_all add: clean_string_def js_trim_Cons js_space_def MAX_DOMAIN_STRING_LENGTH_def)
  obtain ty' k where tk: "(case ca_obligationId a of JStr k \<Rightarrow> (''obligation'', k) | _ \<Rightarrow> (''subject'', x)) = (ty', k)" by fastforce
  then have tk': "clean_string ty'" "clean_string k"
    using ob a(2) by (auto simp: clean_string_def js_trim_Cons js_space_def MAX_DOMAIN_STRING_LENGTH_def)
  have agg: "aggregateForCreditEvent e = (ty', k)"
    if "ce_payload e = JObj kvs" "ce_obligationId e = ca_obligationId a" "ce_subjectId e = JStr x" for e
    using plain_aggregate [OF a(2) keys ob that] tk by simp
  have refs: "optionalReferences [(''subjectId'', JStr x), (''obligationId'', ca_obligationId a), (''causationId'', JUndefined),
      (''payloadRef'', JUndefined)] \<in> range Inr"
    using ob clean_accepted [OF a(2)] by (auto simp: clean_accepted)
  have version_clock: "currentVersion (s\<lparr>clockCount := c, uuidCount := u\<rparr>) key = currentVersion s key" for c u key
    by (simp add: currentVersion_def)
  have version_ok: "\<not> MAX_SAFE_INTEGER \<le> currentVersion s key" "\<not> currentVersion s key < 0" for key
    using ready_version [OF ready, of key] by auto
  obtain rs where "optionalReferences [(''subjectId'', JStr x), (''obligationId'', ca_obligationId a), (''causationId'', JUndefined),
      (''payloadRef'', JUndefined)] = Inr rs" using refs by auto
  then show ?thesis
    using Q [OF appended_ext appended_ready [OF ready]] a get now
    by (simp add: emitCreditEvent_def createCreditEvent_def appendCreditEvent_def buildEvidence_def wp_simps
      createEvidenceEnvelope_def Let_def agg fresh clean_accepted [OF id] clean_accepted [OF ty] clean_accepted [OF sys(1)]
      clean_accepted [OF sys(2)] clean_accepted [OF tk'(1)] clean_accepted [OF tk'(2)] clean_accepted guardR_def
      version_clock version_ok del: optionalReferences.simps)
qed

end
