(* ===== verification/Progress.thy ===== *)
theory Progress
  imports Repayment Log_Progress
begin

text \<open>
  That a repayment comes through: with room in the log every payment on an open debt returns, and a debt
  paid in instalments ends fully repaid.
\<close>

subsection \<open>A repayment returns\<close>

text \<open>A debt that can be named in events: its identifier and subject are proper strings.\<close>

definition named_debt :: "string \<Rightarrow> obligation \<Rightarrow> bool" where
  "named_debt k ob \<longleftrightarrow> clean_string k \<and> ob_obligationId ob = k \<and> assertNoRawPiiReference (ob_assetId ob) = Inr () \<and>
     (\<exists>x. ob_subjectId ob = JStr x \<and> clean_string x)"

lemma plain_event_updated:
  assumes "named_debt k ob"
  shows "plain_event ((eventArgs ''obligation_updated'' (ob_subjectId ob) (JObj
         [(''obligationId'', JStr k),
          (''outstandingPrincipalMinor'', JStr (dec (ob_outstandingPrincipalMinor ob))),
          (''repaidAmountMinor'', JStr (dec (ob_repaidAmountMinor ob))),
          (''status'', JStr (ObligationStatus_str (ob_status ob)))]))
         \<lparr>ca_obligationId := JStr k\<rparr>)"
  using assms
  by (auto simp: plain_event_def named_debt_def eventArgs_def reference_keys_def clean_string_def eval_simps
      MAX_DOMAIN_STRING_LENGTH_def)

lemma plain_event_status:
  assumes "named_debt k ob"
  shows "plain_event ((eventArgs ''obligation_status_changed'' (ob_subjectId ob) (JObj
       [(''obligationId'', JStr (ob_obligationId ob)),
        (''previousStatus'', JStr (ObligationStatus_str st)),
        (''newStatus'', JStr (ObligationStatus_str st')), (''reason'', JStr reason)]))
       \<lparr>ca_obligationId := JStr (ob_obligationId ob)\<rparr>)"
  using assms
  by (auto simp: plain_event_def named_debt_def eventArgs_def reference_keys_def clean_string_def eval_simps
      MAX_DOMAIN_STRING_LENGTH_def)

lemma plain_event_repayment:
  assumes "named_debt k ob" and "rp_subjectId p = ob_subjectId ob" and "rp_assetId p = ob_assetId ob"
  shows "plain_event ((eventArgs ''repayment_captured'' (ob_subjectId ob) (repayment_js r p))
        \<lparr>ca_obligationId := JStr k\<rparr>)"
  using assms
  by (auto simp: plain_event_def named_debt_def eventArgs_def reference_keys_def clean_string_def eval_simps
      repayment_js_def MAX_DOMAIN_STRING_LENGTH_def)

lemma wp_repaymentEvents_ready:
  fixes u :: "'z obligation_world_scheme"
  assumes at: "jmGet (os_obligations (obligationState u)) k = Some ob" and named: "named_debt k ob"
    and p: "rp_subjectId p = ob_subjectId ob" "rp_assetId p = ob_assetId ob" and ready: "log_ready (n + 3) u"
  shows "wp (repaymentEvents k (ob_subjectId ob) p st st' surplus) (\<lambda>_. log_ready n) (\<lambda>_ _. False) u"
proof -
  have ready: "log_ready (Suc (Suc (Suc n))) u" using ready by (simp add: numeral_3_eq_3)
  have same: "jmGet (os_obligations (obligationState t)) k = Some ob" if "log_ext u t" for t
    using at that by (simp add: log_ext_obligations)
  show ?thesis
    unfolding repaymentEvents_def wp_bindM wp_thenM wp_getsM
  proof (rule wp_emit_ready [OF plain_event_repayment [OF named p] ready])
    fix t :: "'z obligation_world_scheme" assume t: "log_ext u t" "log_ready (Suc (Suc n)) t"
    have "wp (emitCreditEvent ((eventArgs ''obligation_updated'' (ob_subjectId ob) (JObj
         [(''obligationId'', JStr k),
          (''outstandingPrincipalMinor'', JStr (dec (ob_outstandingPrincipalMinor ob))),
          (''repaidAmountMinor'', JStr (dec (ob_repaidAmountMinor ob))),
          (''status'', JStr (ObligationStatus_str (ob_status ob)))]))
         \<lparr>ca_obligationId := JStr k\<rparr>))
      (\<lambda>_. wp (whenM (st \<noteq> st') (ObligationService_emitStatusChange ob st st' (JStr ''repayment'')))
         (\<lambda>_. log_ready n) (\<lambda>_ _. False)) (\<lambda>_ _. False) t"
    proof (rule wp_emit_ready [OF plain_event_updated [OF named] t(2)])
      fix w :: "'z obligation_world_scheme" assume w: "log_ready (Suc n) w"
      show "wp (whenM (st \<noteq> st') (ObligationService_emitStatusChange ob st st' (JStr ''repayment'')))
         (\<lambda>_. log_ready n) (\<lambda>_ _. False) w"
        unfolding ObligationService_emitStatusChange_def wp_whenM
        using w ready_less [OF w, of n] by (auto intro!: wp_emit_ready [OF plain_event_status [OF named] w])
    qed
    then show "wp (ObligationService_requireObligation k)
       (\<lambda>x. wp (emitCreditEvent ((eventArgs ''obligation_updated'' (ob_subjectId x) (JObj
             [(''obligationId'', JStr k),
              (''outstandingPrincipalMinor'', JStr (dec (ob_outstandingPrincipalMinor x))),
              (''repaidAmountMinor'', JStr (dec (ob_repaidAmountMinor x))),
              (''status'', JStr (ObligationStatus_str (ob_status x)))]))
             \<lparr>ca_obligationId := JStr k\<rparr>))
          (\<lambda>_. wp (whenM (st \<noteq> st') (ObligationService_emitStatusChange x st st' (JStr ''repayment'')))
            (\<lambda>_. wp (returnM \<lparr>rr_obligation = x, rr_repayment = p, rr_surplusMinor = surplus\<rparr>)
              (\<lambda>_. log_ready n) (\<lambda>_ _. False)) (\<lambda>_ _. False)) (\<lambda>_ _. False)) (\<lambda>_ _. False) t"
      using same [OF t(1)] by (simp add: ObligationService_requireObligation_def wp_simps)
  qed
qed

lemma wp_applyRepayment_ready:
  fixes s :: "'z obligation_world_scheme"
  assumes at: "jmGet (os_obligations (obligationState s)) k = Some ob" and named: "named_debt k ob"
    and st: "ob_status ob \<in> {Obl_ACTIVE, Obl_PARTIALLY_REPAID, Obl_OVERDUE}"
    and amt: "assertPositiveMinorUnits amountMinorName v = Inr amount" and ready: "log_ready (n + 4) s"
  shows "wp (ObligationService_applyRepayment k v) (\<lambda>_. log_ready n) (\<lambda>_ _. False) s"
proof -
  let ?u = "\<lambda>f c. obligationState_update f (s\<lparr>clockCount := c, uuidCount := Suc (uuidCount s)\<rparr>)"
  have ready: "log_ready (n + 3) (s\<lparr>uuidCount := Suc (uuidCount s)\<rparr>)" by (rule ready_uuid) (use ready in \<open>simp add: add.commute\<close>)
  have main: "wp (repaymentEvents k (ob_subjectId ob) p st st' surplus) (\<lambda>_. log_ready n) (\<lambda>_ _. False) (?u f c)"
    if "map_option (\<lambda>b. (ob_subjectId b, ob_assetId b, ob_obligationId b)) (jmGet (os_obligations (f (obligationState s))) k) =
        Some (ob_subjectId ob, ob_assetId ob, ob_obligationId ob)"
      "rp_subjectId p = ob_subjectId ob" "rp_assetId p = ob_assetId ob" for f c p st st' surplus
  proof -
    obtain ob' where ob': "jmGet (os_obligations (f (obligationState s))) k = Some ob'" "ob_subjectId ob' = ob_subjectId ob"
      "ob_assetId ob' = ob_assetId ob" "ob_obligationId ob' = ob_obligationId ob" using \<open>map_option _ _ = _\<close> by auto
    with named have "named_debt k ob'" by (simp add: named_debt_def)
    moreover have "log_ready (n + 3) (?u f c)"
      using ready by (simp add: log_ready_def issued_def currentVersion_def)
    ultimately show ?thesis
      using wp_repaymentEvents_ready [of "?u f c" k ob' p n st st' surplus] that ob' by simp
  qed
  have moves: "Obl_FULLY_REPAID \<in> set (ObligationTransitions (ob_status ob))"
    "ob_status ob = Obl_PARTIALLY_REPAID \<or> Obl_PARTIALLY_REPAID \<in> set (ObligationTransitions (ob_status ob))"
    using st by auto
  show ?thesis
    using at amt st moves unfolding ObligationService_applyRepayment_def createRepayment_def updateObligation_def Let_def
    by (simp add: wp_simps case_assertTransition main) blast
qed

subsection \<open>Paying in instalments\<close>

lemma repay_step:
  fixes s :: "'z obligation_world_scheme"
  assumes inv: "obligation_inv s" and ready: "log_ready (n + 4) s"
    and at: "jmGet (os_obligations (obligationState s)) k = Some ob" and named: "named_debt k ob"
    and st: "ob_status ob \<in> {Obl_ACTIVE, Obl_PARTIALLY_REPAID, Obl_OVERDUE}"
    and amt: "assertPositiveMinorUnits amountMinorName v = Inr amount"
  shows "\<exists>res t ob'. ObligationService_applyRepayment k v s = (Inr res, t) \<and> obligation_inv t \<and> log_ready n t \<and>
    jmGet (os_obligations (obligationState t)) k = Some ob' \<and> named_debt k ob' \<and>
    rp_amountMinor (rr_repayment res) = min amount (ob_outstandingPrincipalMinor ob) \<and>
    rr_surplusMinor res = amount - min amount (ob_outstandingPrincipalMinor ob) \<and>
    ob_outstandingPrincipalMinor ob' = ob_outstandingPrincipalMinor ob - min amount (ob_outstandingPrincipalMinor ob) \<and>
    ob_status ob' = (if ob_outstandingPrincipalMinor ob \<le> amount then Obl_FULLY_REPAID else Obl_PARTIALLY_REPAID)"
proof -
  have "wp (ObligationService_applyRepayment k v) (\<lambda>res t. (\<exists>now p. repaid k amount ob now p s t \<and> obligation_inv t \<and>
      res = \<lparr>rr_obligation = afterRepayment amount ob now ob, rr_repayment = p,
         rr_surplusMinor = amount - appliedTo ob amount\<rparr>) \<and> log_ready n t) (\<lambda>_ _. True \<and> False) s"
    by (rule wp_conj [OF wp_applyRepayment [OF inv] wp_applyRepayment_ready [OF at named st amt ready]])
      (use at amt in \<open>auto simp: repaid_def\<close>)
  then obtain res t now p where "ObligationService_applyRepayment k v s = (Inr res, t)" "log_ready n t"
    "repaid k amount ob now p s t" "obligation_inv t" "res = \<lparr>rr_obligation = afterRepayment amount ob now ob,
       rr_repayment = p, rr_surplusMinor = amount - appliedTo ob amount\<rparr>"
    by (auto simp: wp_def split: prod.splits sum.splits)
  with named show ?thesis
    by (intro exI [of _ res] exI [of _ t] exI [of _ "afterRepayment amount ob now ob"])
      (auto simp: repaid_def recordRepayment_def afterRepayment_def appliedTo_def named_debt_def min_def)
qed

text \<open>
  C28. A debt that is paid ends: when instalments are paid on an open debt one after the other, each a positive
  amount and the last the one that covers what is still owed, every payment is accepted, the debt ends fully
  repaid with nothing outstanding, the payments recorded add up to exactly what was owed and the excess is
  returned as surplus. It needs room in the log for four identifiers and events per payment.
\<close>

theorem instalments_complete:
  fixes s :: "'z obligation_world_scheme"
  assumes "obligation_inv s" and "log_ready (4 * length vs) s"
    and "jmGet (os_obligations (obligationState s)) k = Some ob" and "named_debt k ob"
    and "ob_status ob \<in> {Obl_ACTIVE, Obl_PARTIALLY_REPAID, Obl_OVERDUE}"
    and "list_all2 (\<lambda>v a. assertPositiveMinorUnits amountMinorName v = Inr a) vs as" and "vs \<noteq> []"
    and "sum_list (butlast as) < ob_outstandingPrincipalMinor ob" and "ob_outstandingPrincipalMinor ob \<le> sum_list as"
  shows "\<exists>rs t ob'. mapM (ObligationService_applyRepayment k) vs s = (Inr rs, t) \<and>
    jmGet (os_obligations (obligationState t)) k = Some ob' \<and> ob_status ob' = Obl_FULLY_REPAID \<and>
    ob_outstandingPrincipalMinor ob' = 0 \<and>
    sum_list (map (\<lambda>r. rp_amountMinor (rr_repayment r)) rs) = ob_outstandingPrincipalMinor ob \<and>
    sum_list (map rr_surplusMinor rs) = sum_list as - ob_outstandingPrincipalMinor ob"
  using assms
proof (induction vs arbitrary: s ob as)
  case Nil
  then show ?case by simp
next
  case (Cons v vs)
  obtain a bs where as: "as = a # bs" and a: "assertPositiveMinorUnits amountMinorName v = Inr a"
    and bs: "list_all2 (\<lambda>v a. assertPositiveMinorUnits amountMinorName v = Inr a) vs bs"
    using Cons.prems(6) by (auto simp: list_all2_Cons1)
  have ready: "log_ready (4 * length vs + 4) s" using Cons.prems(2) by (simp add: add.commute)
  obtain res t ob' where run: "ObligationService_applyRepayment k v s = (Inr res, t)" "obligation_inv t"
    "log_ready (4 * length vs) t" "jmGet (os_obligations (obligationState t)) k = Some ob'" "named_debt k ob'"
    and res: "rp_amountMinor (rr_repayment res) = min a (ob_outstandingPrincipalMinor ob)"
      "rr_surplusMinor res = a - min a (ob_outstandingPrincipalMinor ob)"
    and ob': "ob_outstandingPrincipalMinor ob' = ob_outstandingPrincipalMinor ob - min a (ob_outstandingPrincipalMinor ob)"
      "ob_status ob' = (if ob_outstandingPrincipalMinor ob \<le> a then Obl_FULLY_REPAID else Obl_PARTIALLY_REPAID)"
    using repay_step [OF Cons.prems(1) ready Cons.prems(3-5) a] by blast
  show ?case
  proof (cases "vs = []")
    case True
    with bs as Cons.prems(9) have "ob_outstandingPrincipalMinor ob \<le> a" by simp
    with True bs as run res ob' show ?thesis by (auto simp: bindM_def returnM_def min_def)
  next
    case False
    with bs have "bs \<noteq> []" by auto
    have pos: "0 < x" if "x \<in> set bs" for x
      using bs that by (force simp: list_all2_conv_all_nth in_set_conv_nth assertPositive_Inr)
    then have "0 \<le> sum_list (butlast bs)" by (intro sum_list_nonneg) (auto dest: in_set_butlastD simp: less_imp_le)
    with \<open>bs \<noteq> []\<close> as Cons.prems(8) have less: "a < ob_outstandingPrincipalMinor ob" by simp
    from less ob' have next_: "ob_outstandingPrincipalMinor ob' = ob_outstandingPrincipalMinor ob - a"
      "ob_status ob' \<in> {Obl_ACTIVE, Obl_PARTIALLY_REPAID, Obl_OVERDUE}" by auto
    obtain rs u ob'' where "mapM (ObligationService_applyRepayment k) vs t = (Inr rs, u)"
      "jmGet (os_obligations (obligationState u)) k = Some ob''" "ob_status ob'' = Obl_FULLY_REPAID"
      "ob_outstandingPrincipalMinor ob'' = 0"
      "sum_list (map (\<lambda>r. rp_amountMinor (rr_repayment r)) rs) = ob_outstandingPrincipalMinor ob'"
      "sum_list (map rr_surplusMinor rs) = sum_list bs - ob_outstandingPrincipalMinor ob'"
      using Cons.IH [OF run(2-5) next_(2) bs False] as \<open>bs \<noteq> []\<close> Cons.prems(8,9) next_(1) by auto
    with run res less next_ as show ?thesis by (auto simp: bindM_def returnM_def)
  qed
qed

theorem instalments_complete_witness:
  "\<exists>rs t ob'. mapM (ObligationService_applyRepayment ''obligation_'') [JStr ''400'', JStr ''700''] demo_debts = (Inr rs, t) \<and>
    jmGet (os_obligations (obligationState t)) ''obligation_'' = Some ob' \<and> ob_status ob' = Obl_FULLY_REPAID \<and>
    sum_list (map rr_surplusMinor rs) = 100"
proof -
  have "log_ready 8 demo_debts"
    by (auto simp: log_ready_def demo_debts_def eval_simps)
  moreover have "named_debt ''obligation_'' demo_obligation"
    by (simp add: named_debt_def demo_obligation_def clean_string_def js_trim_Cons js_space_def MAX_DOMAIN_STRING_LENGTH_def)
  moreover have "assertPositiveMinorUnits amountMinorName (JStr ''400'') = Inr 400"
    "assertPositiveMinorUnits amountMinorName (JStr ''700'') = Inr 700" by code_simp+
  ultimately show ?thesis
    using instalments_complete [OF demo_debts_inv, where vs = "[JStr ''400'', JStr ''700'']" and as = "[400, 700]"
      and k = "''obligation_''" and ob = demo_obligation]
    by (auto simp: demo_debts_def demo_obligation_def)
qed

end
