(* ===== verification/Credit_Learning.thy ===== *)
theory Credit_Learning
  imports Repayment Log_Progress
begin

text \<open>
  \<open>modules/credit-learning/src/credit-learning-service.js\<close> with the constructors it uses from \<open>models.js\<close>: the
  credit profile of a subject, the signals that move its score, and the limit and rate recommended from the
  tier. Two points of JavaScript matter here. A score is a number that may be \<open>NaN\<close>: it is an \<open>int option\<close>,
  \<open>None\<close> standing for \<open>NaN\<close>. And \<open>evaluate\<close> works on the stored profile when the subject has one but on a
  clone when it has just created it: the flag \<open>stored\<close> says whether the mutations reach the map.
\<close>

subsection \<open>Records\<close>

record score_entry =
  se_score :: "int option"
  se_riskTier :: RiskTier
  se_reasonCode :: js
  se_signalType :: js
  se_occurredAt :: int

record credit_profile =
  cp_creditProfileId :: string
  cp_subjectId :: string
  cp_currentScore :: "int option"
  cp_riskTier :: RiskTier
  cp_currentCreditLimitMinor :: js
  cp_recommendedNextCreditLimitMinor :: js
  cp_currentDemoInterestRateBps :: js
  cp_recommendedDemoInterestRateBps :: js
  cp_repaymentPerformanceBps :: int
  cp_utilizationBehaviorBps :: int
  cp_revenueConsistencyBps :: int
  cp_recentSignalIds :: "string list"
  cp_scoreHistory :: "score_entry list"
  cp_createdAt :: int
  cp_updatedAt :: int
  cp_schemaVersion :: string

record behavioral_metric =
  bm_behavioralMetricId :: string
  bm_subjectId :: string
  bm_metricType :: string
  bm_value :: int
  bm_unit :: string
  bm_cycleType :: js
  bm_occurredAt :: int
  bm_schemaVersion :: string

record reputation_signal =
  rg_reputationSignalId :: string
  rg_subjectId :: string
  rg_signalType :: string
  rg_scoreDelta :: "int option"
  rg_previousScore :: "int option"
  rg_newScore :: "int option"
  rg_reasonCode :: js
  rg_relatedEventId :: js
  rg_cycleType :: js
  rg_occurredAt :: int
  rg_schemaVersion :: string

record limit_recommendation =
  lr_creditLimitRecommendationId :: string
  lr_subjectId :: string
  lr_riskTier :: RiskTier
  lr_currentLimitMinor :: js
  lr_recommendedLimitMinor :: int
  lr_reasonCode :: string
  lr_occurredAt :: int
  lr_schemaVersion :: string

record rate_recommendation =
  ir_interestRateRecommendationId :: string
  ir_subjectId :: string
  ir_riskTier :: RiskTier
  ir_currentDemoInterestRateBps :: js
  ir_recommendedDemoInterestRateBps :: js
  ir_reasonCode :: string
  ir_occurredAt :: int
  ir_schemaVersion :: string

record learning_event =
  ln_creditLearningEventId :: string
  ln_subjectId :: string
  ln_cycleType :: js
  ln_score :: "int option"
  ln_riskTier :: RiskTier
  ln_signalIds :: "string list"
  ln_reasonCodes :: "js list"
  ln_occurredAt :: int
  ln_schemaVersion :: string

record learning_state =
  cs_profiles :: "credit_profile jsmap"
  cs_signals :: "reputation_signal jsmap"
  cs_metrics :: "behavioral_metric jsmap"
  cs_limitRecommendations :: "limit_recommendation jsmap"
  cs_interestRateRecommendations :: "rate_recommendation jsmap"
  cs_learningEvents :: "learning_event jsmap"

record learning_world = repayment_world +
  learningState :: learning_state

subsection \<open>Scores, tiers and rules\<close>

text \<open>\<open>JSON.stringify(NaN)\<close> is \<open>null\<close>, which is how a payload with such a number is written.\<close>

fun score_js :: "int option \<Rightarrow> js" where
  "score_js None = JNull"
| "score_js (Some i) = JNum i"

text \<open>Every comparison with \<open>NaN\<close> is false.\<close>

fun tierForScore :: "int option \<Rightarrow> RiskTier" where
  "tierForScore None = Tier_RESTRICTED"
| "tierForScore (Some score) =
     (if score \<ge> 750 then Tier_PRIME
      else if score \<ge> 650 then Tier_STRONG
      else if score \<ge> 550 then Tier_STANDARD
      else if score \<ge> 450 then Tier_WATCH
      else Tier_RESTRICTED)"

fun demoInterestRateForTier :: "RiskTier \<Rightarrow> js" where
  "demoInterestRateForTier Tier_PRIME = JNum 800"
| "demoInterestRateForTier Tier_STRONG = JNum 1200"
| "demoInterestRateForTier Tier_STANDARD = JNum 1800"
| "demoInterestRateForTier Tier_WATCH = JNum 2800"
| "demoInterestRateForTier Tier_RESTRICTED = JNull"

text \<open>A rule of the table; a member every object inherits has none of the three fields.\<close>

record signal_rule =
  sl_delta :: "int option"
  sl_reasonCode :: js
  sl_label :: js

definition signalRule :: "int \<Rightarrow> string \<Rightarrow> string \<Rightarrow> signal_rule" where
  "signalRule delta reasonCode label = \<lparr>sl_delta = Some delta, sl_reasonCode = JStr reasonCode, sl_label = JStr label\<rparr>"

definition SIGNAL_RULES :: "(string \<times> signal_rule) list" where
  "SIGNAL_RULES =
     [(''on_time_repayment'', signalRule 25 ''on_time_repayment'' ''On-time repayment improved repayment reliability.''),
      (''full_repayment'', signalRule 20 ''full_repayment'' ''Full repayment closed outstanding obligation.''),
      (''high_revenue_capture'', signalRule 15 ''high_revenue_capture'' ''Captured revenue exceeded the demo threshold.''),
      (''low_utilization'', signalRule 10 ''low_utilization'' ''Utilization stayed inside conservative bounds.''),
      (''healthy_repeat_cycle'', signalRule 15 ''healthy_repeat_cycle'' ''Repeated healthy cycle supports controlled improvement.''),
      (''late_repayment'', signalRule (- 40) ''late_repayment'' ''Late repayment weakens the next-cycle policy.''),
      (''rejected_risky_spend'', signalRule (- 15) ''rejected_risky_spend'' ''Risky or non-allowlisted spend was rejected.''),
      (''high_utilization'', signalRule (- 20) ''high_utilization'' ''High utilization increases repayment stress.''),
      (''default_event'', signalRule (- 120) ''default_event'' ''Default event requires major credit restriction.''),
      (''admin_freeze'', signalRule (- 80) ''admin_freeze'' ''Admin freeze reduces available credit until reviewed.'')]"

text \<open>The members a plain object has from \<open>Object.prototype\<close>, which \<open>SIGNAL_RULES[signalType]\<close> also finds.\<close>

definition OBJECT_PROTOTYPE :: "string list" where
  "OBJECT_PROTOTYPE =
     [''constructor'', ''__defineGetter__'', ''__defineSetter__'', ''hasOwnProperty'', ''__lookupGetter__'',
      ''__lookupSetter__'', ''isPrototypeOf'', ''propertyIsEnumerable'', ''toString'', ''valueOf'', ''__proto__'',
      ''toLocaleString'']"

definition ruleFor :: "string \<Rightarrow> signal_rule option" where
  "ruleFor signalType =
     (case map_of SIGNAL_RULES signalType of
        Some rule \<Rightarrow> Some rule
      | None \<Rightarrow> if signalType \<in> set OBJECT_PROTOTYPE
          then Some \<lparr>sl_delta = None, sl_reasonCode = JUndefined, sl_label = JUndefined\<rparr> else None)"

text \<open>Sums and differences with \<open>NaN\<close> or \<open>undefined\<close> are \<open>NaN\<close>.\<close>

fun numAdd :: "int option \<Rightarrow> int option \<Rightarrow> int option" where
  "numAdd (Some a) (Some b) = Some (a + b)"
| "numAdd _ _ = None"

fun numSub :: "int option \<Rightarrow> int option \<Rightarrow> int option" where
  "numSub (Some a) (Some b) = Some (a - b)"
| "numSub _ _ = None"

fun clampScore :: "int option \<Rightarrow> int option" where
  "clampScore (Some score) = Some (max 300 (min 850 score))"
| "clampScore None = None"

definition assertScore :: "js \<Rightarrow> string \<Rightarrow> int res" where
  "assertScore score name =
     (let err = fail ''invalid_credit_score'' (name @ '' must be an integer between 300 and 850'') in
      case score of JNum i \<Rightarrow> if i < 300 \<or> i > 850 then err else Inr i | _ \<Rightarrow> err)"

definition assertBps :: "js \<Rightarrow> string \<Rightarrow> int res" where
  "assertBps value name =
     (let err = fail ''invalid_basis_points'' (name @ '' must be an integer between 0 and 10000'') in
      case value of JNum i \<Rightarrow> if i < 0 \<or> i > 10000 then err else Inr i | _ \<Rightarrow> err)"

definition recommendationForTier :: "RiskTier \<Rightarrow> js \<Rightarrow> (int \<times> string) res" where
  "recommendationForTier riskTier currentLimitMinor =
     bindR (toBigInt (js_coalesce currentLimitMinor (JStr ''0''))) (\<lambda>current.
     Inr (case riskTier of
        Tier_PRIME \<Rightarrow> (bigIntDiv (current * 150) 100, ''prime_increase_50pct'')
      | Tier_STRONG \<Rightarrow> (bigIntDiv (current * 125) 100, ''strong_increase_25pct'')
      | Tier_STANDARD \<Rightarrow> (bigIntDiv (current * 110) 100, ''standard_controlled_increase_10pct'')
      | Tier_WATCH \<Rightarrow> (bigIntDiv (current * 80) 100, ''watch_reduce_20pct'')
      | Tier_RESTRICTED \<Rightarrow> (0, ''restricted_freeze_new_credit'')))"

subsection \<open>Constructors\<close>

definition createCreditProfile :: "string \<Rightarrow> int \<Rightarrow> js \<Rightarrow> ('z host_scheme, credit_profile) M" where
  "createCreditProfile subjectId initialScore currentCreditLimitMinor =
     bindM newDate (\<lambda>now.
     let riskTier = tierForScore (Some initialScore) in
     bindM (createOperationalId ''credit_profile'') (\<lambda>creditProfileId.
     returnM
       \<lparr>cp_creditProfileId = creditProfileId, cp_subjectId = subjectId, cp_currentScore = Some initialScore,
        cp_riskTier = riskTier, cp_currentCreditLimitMinor = currentCreditLimitMinor,
        cp_recommendedNextCreditLimitMinor = currentCreditLimitMinor,
        cp_currentDemoInterestRateBps = demoInterestRateForTier riskTier,
        cp_recommendedDemoInterestRateBps = demoInterestRateForTier riskTier,
        cp_repaymentPerformanceBps = 0, cp_utilizationBehaviorBps = 0, cp_revenueConsistencyBps = 0,
        cp_recentSignalIds = [],
        cp_scoreHistory = [\<lparr>se_score = Some initialScore, se_riskTier = riskTier,
          se_reasonCode = JStr ''initial_profile'', se_signalType = JUndefined, se_occurredAt = now\<rparr>],
        cp_createdAt = now, cp_updatedAt = now, cp_schemaVersion = ''credit_profile.v1''\<rparr>))"

definition createBehavioralMetric :: "string \<Rightarrow> string \<Rightarrow> int \<Rightarrow> js \<Rightarrow> ('z host_scheme, behavioral_metric) M" where
  "createBehavioralMetric subjectId metricType value cycleType =
     bindM newDate (\<lambda>now.
     bindM (createOperationalId ''behavioral_metric'') (\<lambda>behavioralMetricId.
     returnM
       \<lparr>bm_behavioralMetricId = behavioralMetricId, bm_subjectId = subjectId, bm_metricType = metricType,
        bm_value = value, bm_unit = ''bps'', bm_cycleType = cycleType, bm_occurredAt = now,
        bm_schemaVersion = ''behavioral_metric.v1''\<rparr>))"

definition createReputationSignal ::
  "string \<Rightarrow> string \<Rightarrow> int option \<Rightarrow> int option \<Rightarrow> int option \<Rightarrow> js \<Rightarrow> js \<Rightarrow> js \<Rightarrow>
   ('z host_scheme, reputation_signal) M" where
  "createReputationSignal subjectId signalType scoreDelta previousScore newScore reasonCode relatedEventId cycleType =
     bindM newDate (\<lambda>now.
     bindM (createOperationalId ''reputation_signal'') (\<lambda>reputationSignalId.
     returnM
       \<lparr>rg_reputationSignalId = reputationSignalId, rg_subjectId = subjectId, rg_signalType = signalType,
        rg_scoreDelta = scoreDelta, rg_previousScore = previousScore, rg_newScore = newScore,
        rg_reasonCode = reasonCode, rg_relatedEventId = relatedEventId, rg_cycleType = cycleType,
        rg_occurredAt = now, rg_schemaVersion = ''reputation_signal.v1''\<rparr>))"

definition createCreditLimitRecommendation ::
  "string \<Rightarrow> RiskTier \<Rightarrow> js \<Rightarrow> int \<Rightarrow> string \<Rightarrow> ('z host_scheme, limit_recommendation) M" where
  "createCreditLimitRecommendation subjectId riskTier currentLimitMinor recommendedLimitMinor reasonCode =
     bindM newDate (\<lambda>now.
     bindM (createOperationalId ''credit_limit_recommendation'') (\<lambda>i.
     returnM
       \<lparr>lr_creditLimitRecommendationId = i, lr_subjectId = subjectId, lr_riskTier = riskTier,
        lr_currentLimitMinor = currentLimitMinor, lr_recommendedLimitMinor = recommendedLimitMinor,
        lr_reasonCode = reasonCode, lr_occurredAt = now,
        lr_schemaVersion = ''credit_limit_recommendation.v1''\<rparr>))"

definition createInterestRateRecommendation ::
  "string \<Rightarrow> RiskTier \<Rightarrow> js \<Rightarrow> js \<Rightarrow> string \<Rightarrow> ('z host_scheme, rate_recommendation) M" where
  "createInterestRateRecommendation subjectId riskTier currentRate recommendedRate reasonCode =
     bindM newDate (\<lambda>now.
     bindM (createOperationalId ''interest_rate_recommendation'') (\<lambda>i.
     returnM
       \<lparr>ir_interestRateRecommendationId = i, ir_subjectId = subjectId, ir_riskTier = riskTier,
        ir_currentDemoInterestRateBps = currentRate, ir_recommendedDemoInterestRateBps = recommendedRate,
        ir_reasonCode = reasonCode, ir_occurredAt = now,
        ir_schemaVersion = ''interest_rate_recommendation.v1''\<rparr>))"

definition createCreditLearningEvent ::
  "string \<Rightarrow> js \<Rightarrow> int option \<Rightarrow> RiskTier \<Rightarrow> string list \<Rightarrow> js list \<Rightarrow> ('z host_scheme, learning_event) M" where
  "createCreditLearningEvent subjectId cycleType score riskTier signalIds reasonCodes =
     bindM newDate (\<lambda>now.
     bindM (createOperationalId ''credit_learning_event'') (\<lambda>i.
     returnM
       \<lparr>ln_creditLearningEventId = i, ln_subjectId = subjectId, ln_cycleType = cycleType, ln_score = score,
        ln_riskTier = riskTier, ln_signalIds = signalIds, ln_reasonCodes = reasonCodes, ln_occurredAt = now,
        ln_schemaVersion = ''credit_learning_event.v1''\<rparr>))"

text \<open>The records as event payloads.\<close>

definition signal_js :: "runtime \<Rightarrow> reputation_signal \<Rightarrow> (string \<times> js) list" where
  "signal_js r g =
     [(''reputationSignalId'', JStr (rg_reputationSignalId g)), (''subjectId'', JStr (rg_subjectId g)),
      (''signalType'', JStr (rg_signalType g)), (''scoreDelta'', score_js (rg_scoreDelta g)),
      (''previousScore'', score_js (rg_previousScore g)), (''newScore'', score_js (rg_newScore g)),
      (''reasonCode'', rg_reasonCode g), (''relatedEventId'', rg_relatedEventId g),
      (''cycleType'', rg_cycleType g), (''occurredAt'', JStr (rt_iso r (rg_occurredAt g))),
      (''schemaVersion'', JStr (rg_schemaVersion g))]"

definition limit_js :: "runtime \<Rightarrow> limit_recommendation \<Rightarrow> js" where
  "limit_js r l = JObj
     [(''creditLimitRecommendationId'', JStr (lr_creditLimitRecommendationId l)), (''subjectId'', JStr (lr_subjectId l)),
      (''riskTier'', JStr (RiskTier_str (lr_riskTier l))), (''currentLimitMinor'', lr_currentLimitMinor l),
      (''recommendedLimitMinor'', JStr (dec (lr_recommendedLimitMinor l))), (''reasonCode'', JStr (lr_reasonCode l)),
      (''occurredAt'', JStr (rt_iso r (lr_occurredAt l))), (''schemaVersion'', JStr (lr_schemaVersion l))]"

definition rate_js :: "runtime \<Rightarrow> rate_recommendation \<Rightarrow> js" where
  "rate_js r i = JObj
     [(''interestRateRecommendationId'', JStr (ir_interestRateRecommendationId i)), (''subjectId'', JStr (ir_subjectId i)),
      (''riskTier'', JStr (RiskTier_str (ir_riskTier i))),
      (''currentDemoInterestRateBps'', ir_currentDemoInterestRateBps i),
      (''recommendedDemoInterestRateBps'', ir_recommendedDemoInterestRateBps i), (''reasonCode'', JStr (ir_reasonCode i)),
      (''occurredAt'', JStr (rt_iso r (ir_occurredAt i))), (''schemaVersion'', JStr (ir_schemaVersion i))]"

definition learning_event_js :: "runtime \<Rightarrow> learning_event \<Rightarrow> js" where
  "learning_event_js r l = JObj
     [(''creditLearningEventId'', JStr (ln_creditLearningEventId l)), (''subjectId'', JStr (ln_subjectId l)),
      (''cycleType'', ln_cycleType l), (''score'', score_js (ln_score l)),
      (''riskTier'', JStr (RiskTier_str (ln_riskTier l))), (''signalIds'', JArr (map JStr (ln_signalIds l))),
      (''reasonCodes'', JArr (ln_reasonCodes l)), (''occurredAt'', JStr (rt_iso r (ln_occurredAt l))),
      (''schemaVersion'', JStr (ln_schemaVersion l))]"

subsection \<open>Profiles\<close>

text \<open>What \<open>getProfile\<close> returns: a copy of the profile and the recent signals that are on record.\<close>

type_synonym profile_view = "credit_profile \<times> reputation_signal list"

definition CreditLearningService_getProfile :: "string \<Rightarrow> ('z learning_world_scheme, profile_view) M" where
  "CreditLearningService_getProfile subjectId =
     bindM (getsM learningState) (\<lambda>S.
     case jmGet (cs_profiles S) subjectId of
       None \<Rightarrow> throwM (DomainError ''credit_profile_not_found'' ''credit profile not found'')
     | Some profile \<Rightarrow> returnM (profile, List.map_filter (\<lambda>i. jmGet (cs_signals S) i) (cp_recentSignalIds profile)))"

definition CreditLearningService_createProfile ::
  "string \<Rightarrow> js \<Rightarrow> js \<Rightarrow> ('z learning_world_scheme, profile_view) M" where
  "CreditLearningService_createProfile subjectId initialScoreArg limitArg =
     (let initialScore = js_default initialScoreArg (JNum 500);
          currentCreditLimitMinor = js_default limitArg (JStr ''0'') in
      bindM (getsM (\<lambda>s. jmGet (cs_profiles (learningState s)) subjectId)) (\<lambda>existing.
      if existing \<noteq> None then CreditLearningService_getProfile subjectId
      else
        bindM (liftR (assertScore initialScore ''initialScore'')) (\<lambda>score.
        bindM (liftR (assertNonNegativeMinorUnits ''currentCreditLimitMinor'' currentCreditLimitMinor)) (\<lambda>_.
        bindM (createCreditProfile subjectId score currentCreditLimitMinor) (\<lambda>profile.
        thenM (modifyM (learningState_update (cs_profiles_update (jmSet subjectId profile))))
        (thenM (emitCreditEvent (eventArgs ''credit_profile_created'' (JStr subjectId) (JObj
           [(''creditProfileId'', JStr (cp_creditProfileId profile)), (''currentScore'', score_js (cp_currentScore profile)),
            (''riskTier'', JStr (RiskTier_str (cp_riskTier profile)))])))
        (returnM (profile, []))))))))"

text \<open>The profile \<open>evaluate\<close> works on, and whether it is the stored object.\<close>

definition CreditLearningService_requireOrCreateProfile ::
  "string \<Rightarrow> js \<Rightarrow> ('z learning_world_scheme, credit_profile \<times> bool) M" where
  "CreditLearningService_requireOrCreateProfile subjectId limitArg =
     (let currentCreditLimitMinor = js_default limitArg (JStr ''0'') in
      bindM (getsM (\<lambda>s. jmGet (cs_profiles (learningState s)) subjectId)) (\<lambda>existing.
      case existing of
        None \<Rightarrow> bindM (CreditLearningService_createProfile subjectId JUndefined currentCreditLimitMinor)
          (\<lambda>(profile, _). returnM (profile, False))
      | Some profile \<Rightarrow> returnM (profile, True)))"

text \<open>The mutations of the profile object, visible in the map when it is the stored one.\<close>

definition putProfile :: "bool \<Rightarrow> string \<Rightarrow> credit_profile \<Rightarrow> ('z learning_world_scheme, unit) M" where
  "putProfile stored subjectId profile =
     whenM stored (modifyM (learningState_update (cs_profiles_update (jmSet subjectId profile))))"

subsection \<open>evaluate\<close>

record evaluate_args =
  el_subjectId :: string
  el_signals :: "string list option"
  el_currentCreditLimitMinor :: js
  el_currentDemoInterestRateBps :: js
  el_repaymentPerformanceBps :: js
  el_utilizationBehaviorBps :: js
  el_revenueConsistencyBps :: js
  el_cycleType :: js
  el_relatedEventId :: js

text \<open>The parameters with their defaults.\<close>

definition evaluateSignalTypes :: "evaluate_args \<Rightarrow> string list" where
  "evaluateSignalTypes a = (case el_signals a of None \<Rightarrow> [] | Some xs \<Rightarrow> xs)"

definition evaluateCycleType :: "evaluate_args \<Rightarrow> js" where
  "evaluateCycleType a = js_default (el_cycleType a) (JStr ''manual'')"

record evaluate_bps =
  eb_repaymentPerformanceBps :: int
  eb_utilizationBehaviorBps :: int
  eb_revenueConsistencyBps :: int

definition evaluateChecks :: "evaluate_args \<Rightarrow> evaluate_bps res" where
  "evaluateChecks a =
     bindR (assertNonNegativeMinorUnits ''currentCreditLimitMinor''
       (js_coalesce (el_currentCreditLimitMinor a) (JStr ''0''))) (\<lambda>_.
     bindR (assertBps (js_default (el_repaymentPerformanceBps a) (JNum 0)) ''repaymentPerformanceBps'') (\<lambda>repayment.
     bindR (assertBps (js_default (el_utilizationBehaviorBps a) (JNum 0)) ''utilizationBehaviorBps'') (\<lambda>utilization.
     bindR (assertBps (js_default (el_revenueConsistencyBps a) (JNum 0)) ''revenueConsistencyBps'') (\<lambda>revenue.
     bindR (if el_currentDemoInterestRateBps a \<noteq> JUndefined \<and> el_currentDemoInterestRateBps a \<noteq> JNull
       then assertBps (el_currentDemoInterestRateBps a) ''currentDemoInterestRateBps'' else Inr 0) (\<lambda>_.
     Inr \<lparr>eb_repaymentPerformanceBps = repayment, eb_utilizationBehaviorBps = utilization,
          eb_revenueConsistencyBps = revenue\<rparr>)))))"

text \<open>One signal: the score moves by the rule's delta and is clamped, the signal is recorded, two events are written.\<close>

definition signalled :: "string \<Rightarrow> signal_rule \<Rightarrow> credit_profile \<Rightarrow> reputation_signal \<Rightarrow> credit_profile" where
  "signalled signalType rule profile signal =
     (let newScore = clampScore (numAdd (cp_currentScore profile) (sl_delta rule)) in
      profile\<lparr>cp_currentScore := newScore, cp_riskTier := tierForScore newScore,
        cp_recentSignalIds := take 12 (rg_reputationSignalId signal # cp_recentSignalIds profile),
        cp_scoreHistory := cp_scoreHistory profile @
          [\<lparr>se_score = newScore, se_riskTier = tierForScore newScore, se_reasonCode = sl_reasonCode rule,
            se_signalType = JStr signalType, se_occurredAt = rg_occurredAt signal\<rparr>]\<rparr>)"

definition evaluateSignal ::
  "bool \<Rightarrow> evaluate_args \<Rightarrow> string \<Rightarrow> credit_profile \<Rightarrow> ('z learning_world_scheme, credit_profile \<times> reputation_signal) M" where
  "evaluateSignal stored a signalType profile =
     (case ruleFor signalType of
        None \<Rightarrow> throwM (DomainError ''unknown_reputation_signal'' ''credit learning signal is not configured'')
      | Some rule \<Rightarrow>
          let subjectId = el_subjectId a; previousScore = cp_currentScore profile;
              newScore = clampScore (numAdd previousScore (sl_delta rule));
              appliedDelta = numSub newScore previousScore in
          bindM (createReputationSignal subjectId signalType appliedDelta previousScore newScore (sl_reasonCode rule)
            (el_relatedEventId a) (evaluateCycleType a)) (\<lambda>signal.
          thenM (modifyM (learningState_update (cs_signals_update (jmSet (rg_reputationSignalId signal) signal))))
          (let profile' = signalled signalType rule profile signal in
          thenM (putProfile stored subjectId profile')
          (bindM (getsM rt) (\<lambda>r.
          thenM (emitCreditEvent (eventArgs ''reputation_signal_recorded'' (JStr subjectId)
            (JObj (signal_js r signal @ [(''label'', sl_label rule)]))))
          (thenM (emitCreditEvent (eventArgs ''credit_score_updated'' (JStr subjectId) (JObj
            [(''signalType'', JStr signalType), (''scoreDelta'', score_js appliedDelta),
             (''previousScore'', score_js previousScore), (''newScore'', score_js newScore),
             (''reasonCode'', sl_reasonCode rule), (''relatedEventId'', el_relatedEventId a)])))
          (returnM (profile', signal))))))))"

fun evaluateSignals ::
  "bool \<Rightarrow> evaluate_args \<Rightarrow> string list \<Rightarrow> credit_profile \<Rightarrow>
   ('z learning_world_scheme, credit_profile \<times> reputation_signal list) M" where
  "evaluateSignals stored a [] profile = returnM (profile, [])"
| "evaluateSignals stored a (signalType # rest) profile =
     bindM (evaluateSignal stored a signalType profile) (\<lambda>(profile', signal).
     bindM (evaluateSignals stored a rest profile') (\<lambda>(profile'', signals).
     returnM (profile'', signal # signals)))"

text \<open>The metrics of the cycle and the profile's own figures.\<close>

definition evaluateMetrics ::
  "bool \<Rightarrow> evaluate_args \<Rightarrow> evaluate_bps \<Rightarrow> credit_profile \<Rightarrow>
   ('z learning_world_scheme, credit_profile \<times> behavioral_metric list) M" where
  "evaluateMetrics stored a b profile =
     (let subjectId = el_subjectId a; cycleType = evaluateCycleType a in
      bindM newDate (\<lambda>now.
      let profile' = profile
        \<lparr>cp_currentCreditLimitMinor := js_coalesce (el_currentCreditLimitMinor a) (cp_currentCreditLimitMinor profile),
         cp_currentDemoInterestRateBps :=
           js_coalesce (el_currentDemoInterestRateBps a) (cp_currentDemoInterestRateBps profile),
         cp_repaymentPerformanceBps := eb_repaymentPerformanceBps b,
         cp_utilizationBehaviorBps := eb_utilizationBehaviorBps b,
         cp_revenueConsistencyBps := eb_revenueConsistencyBps b, cp_updatedAt := now\<rparr> in
      thenM (putProfile stored subjectId profile')
      (bindM (createBehavioralMetric subjectId ''repayment_performance'' (eb_repaymentPerformanceBps b) cycleType) (\<lambda>m1.
      bindM (createBehavioralMetric subjectId ''utilization_behavior'' (eb_utilizationBehaviorBps b) cycleType) (\<lambda>m2.
      bindM (createBehavioralMetric subjectId ''revenue_consistency'' (eb_revenueConsistencyBps b) cycleType) (\<lambda>m3.
      thenM (modifyM (learningState_update (cs_metrics_update
        (fold (\<lambda>m. jmSet (bm_behavioralMetricId m) m) [m1, m2, m3]))))
      (returnM (profile', [m1, m2, m3]))))))))"

definition evaluateTier :: "evaluate_args \<Rightarrow> RiskTier \<Rightarrow> credit_profile \<Rightarrow> ('z learning_world_scheme, unit) M" where
  "evaluateTier a previousTier profile =
     whenM (previousTier \<noteq> cp_riskTier profile)
       (emitCreditEvent (eventArgs ''risk_tier_updated'' (JStr (el_subjectId a)) (JObj
          [(''previousTier'', JStr (RiskTier_str previousTier)), (''newTier'', JStr (RiskTier_str (cp_riskTier profile))),
           (''score'', score_js (cp_currentScore profile))])))"

definition evaluateLimit ::
  "bool \<Rightarrow> evaluate_args \<Rightarrow> credit_profile \<Rightarrow> ('z learning_world_scheme, credit_profile \<times> limit_recommendation) M" where
  "evaluateLimit stored a profile =
     bindM (liftR (recommendationForTier (cp_riskTier profile) (cp_currentCreditLimitMinor profile))) (\<lambda>(nextLimit, reasonCode).
     bindM (createCreditLimitRecommendation (el_subjectId a) (cp_riskTier profile) (cp_currentCreditLimitMinor profile)
       nextLimit reasonCode) (\<lambda>limitRecommendation.
     thenM (modifyM (learningState_update (cs_limitRecommendations_update
       (jmSet (lr_creditLimitRecommendationId limitRecommendation) limitRecommendation))))
     (let profile' = profile\<lparr>cp_recommendedNextCreditLimitMinor :=
        JStr (dec (lr_recommendedLimitMinor limitRecommendation))\<rparr> in
     thenM (putProfile stored (el_subjectId a) profile')
     (bindM (getsM rt) (\<lambda>r.
     thenM (emitCreditEvent (eventArgs ''credit_limit_recommended'' (JStr (el_subjectId a)) (limit_js r limitRecommendation)))
     (returnM (profile', limitRecommendation)))))))"

definition evaluateRate ::
  "bool \<Rightarrow> evaluate_args \<Rightarrow> credit_profile \<Rightarrow> ('z learning_world_scheme, credit_profile \<times> rate_recommendation) M" where
  "evaluateRate stored a profile =
     (let recommendedRate = demoInterestRateForTier (cp_riskTier profile) in
     bindM (createInterestRateRecommendation (el_subjectId a) (cp_riskTier profile) (cp_currentDemoInterestRateBps profile)
       recommendedRate (RiskTier_str (cp_riskTier profile) @ ''_demo_rate'')) (\<lambda>rateRecommendation.
     thenM (modifyM (learningState_update (cs_interestRateRecommendations_update
       (jmSet (ir_interestRateRecommendationId rateRecommendation) rateRecommendation))))
     (let profile' = profile\<lparr>cp_recommendedDemoInterestRateBps := recommendedRate\<rparr> in
     thenM (putProfile stored (el_subjectId a) profile')
     (bindM (getsM rt) (\<lambda>r.
     thenM (emitCreditEvent (eventArgs ''interest_rate_recommended'' (JStr (el_subjectId a)) (rate_js r rateRecommendation)))
     (returnM (profile', rateRecommendation)))))))"

definition evaluateEvent ::
  "evaluate_args \<Rightarrow> credit_profile \<Rightarrow> reputation_signal list \<Rightarrow> ('z learning_world_scheme, learning_event) M" where
  "evaluateEvent a profile createdSignals =
     bindM (createCreditLearningEvent (el_subjectId a) (evaluateCycleType a) (cp_currentScore profile) (cp_riskTier profile)
       (map rg_reputationSignalId createdSignals) (map rg_reasonCode createdSignals)) (\<lambda>learningEvent.
     thenM (modifyM (learningState_update (cs_learningEvents_update
       (jmSet (ln_creditLearningEventId learningEvent) learningEvent))))
     (bindM (getsM rt) (\<lambda>r.
     thenM (emitCreditEvent (eventArgs ''credit_learning_cycle_completed'' (JStr (el_subjectId a)) (learning_event_js r learningEvent)))
     (returnM learningEvent))))"

record evaluation =
  vn_profile :: profile_view
  vn_signals :: "reputation_signal list"
  vn_metrics :: "behavioral_metric list"
  vn_limitRecommendation :: limit_recommendation
  vn_interestRateRecommendation :: rate_recommendation
  vn_learningEvent :: learning_event

text \<open>The steps of a cycle on the profile it was given.\<close>

definition evaluateCycle ::
  "bool \<Rightarrow> evaluate_args \<Rightarrow> evaluate_bps \<Rightarrow> credit_profile \<Rightarrow> ('z learning_world_scheme, evaluation) M" where
  "evaluateCycle stored a b profile =
     bindM (evaluateSignals stored a (evaluateSignalTypes a) profile) (\<lambda>(profile1, createdSignals).
     bindM (evaluateMetrics stored a b profile1) (\<lambda>(profile2, metrics).
     thenM (evaluateTier a (cp_riskTier profile) profile2)
     (bindM (evaluateLimit stored a profile2) (\<lambda>(profile3, limitRecommendation).
     bindM (evaluateRate stored a profile3) (\<lambda>(profile4, rateRecommendation).
     bindM (evaluateEvent a profile4 createdSignals) (\<lambda>learningEvent.
     bindM (CreditLearningService_getProfile (el_subjectId a)) (\<lambda>view.
     returnM \<lparr>vn_profile = view, vn_signals = createdSignals, vn_metrics = metrics,
       vn_limitRecommendation = limitRecommendation, vn_interestRateRecommendation = rateRecommendation,
       vn_learningEvent = learningEvent\<rparr>)))))))"

definition CreditLearningService_evaluate :: "evaluate_args \<Rightarrow> ('z learning_world_scheme, evaluation) M" where
  "CreditLearningService_evaluate a =
     bindM (liftR (evaluateChecks a)) (\<lambda>b.
     bindM (CreditLearningService_requireOrCreateProfile (el_subjectId a) (el_currentCreditLimitMinor a)) (\<lambda>(profile, stored).
     evaluateCycle stored a b profile))"

text \<open>The demo cycles: fixed arguments, each field of the context that is present replacing one.\<close>

record cycle_context =
  cc_subjectId :: "string option"
  cc_signals :: "string list option option"
  cc_currentCreditLimitMinor :: "js option"
  cc_currentDemoInterestRateBps :: "js option"
  cc_repaymentPerformanceBps :: "js option"
  cc_utilizationBehaviorBps :: "js option"
  cc_revenueConsistencyBps :: "js option"
  cc_cycleType :: "js option"
  cc_relatedEventId :: "js option"

definition spreadContext :: "evaluate_args \<Rightarrow> cycle_context \<Rightarrow> evaluate_args" where
  "spreadContext a c =
     \<lparr>el_subjectId = case_option (el_subjectId a) id (cc_subjectId c),
      el_signals = case_option (el_signals a) id (cc_signals c),
      el_currentCreditLimitMinor = case_option (el_currentCreditLimitMinor a) id (cc_currentCreditLimitMinor c),
      el_currentDemoInterestRateBps = case_option (el_currentDemoInterestRateBps a) id (cc_currentDemoInterestRateBps c),
      el_repaymentPerformanceBps = case_option (el_repaymentPerformanceBps a) id (cc_repaymentPerformanceBps c),
      el_utilizationBehaviorBps = case_option (el_utilizationBehaviorBps a) id (cc_utilizationBehaviorBps c),
      el_revenueConsistencyBps = case_option (el_revenueConsistencyBps a) id (cc_revenueConsistencyBps c),
      el_cycleType = case_option (el_cycleType a) id (cc_cycleType c),
      el_relatedEventId = case_option (el_relatedEventId a) id (cc_relatedEventId c)\<rparr>"

definition cycleArgs :: "string \<Rightarrow> string \<Rightarrow> string list \<Rightarrow> int \<Rightarrow> int \<Rightarrow> int \<Rightarrow> evaluate_args" where
  "cycleArgs subjectId cycleType signals repayment utilization revenue =
     \<lparr>el_subjectId = subjectId, el_signals = Some signals, el_currentCreditLimitMinor = JUndefined,
      el_currentDemoInterestRateBps = JUndefined, el_repaymentPerformanceBps = JNum repayment,
      el_utilizationBehaviorBps = JNum utilization, el_revenueConsistencyBps = JNum revenue,
      el_cycleType = JStr cycleType, el_relatedEventId = JUndefined\<rparr>"

definition CreditLearningService_runHealthyCycle ::
  "string \<Rightarrow> cycle_context \<Rightarrow> ('z learning_world_scheme, evaluation) M" where
  "CreditLearningService_runHealthyCycle subjectId context =
     CreditLearningService_evaluate (spreadContext (cycleArgs subjectId ''healthy''
       [''on_time_repayment'', ''full_repayment'', ''high_revenue_capture'', ''low_utilization'', ''healthy_repeat_cycle'']
       10000 3500 9500) context)"

definition CreditLearningService_runRiskyCycle ::
  "string \<Rightarrow> cycle_context \<Rightarrow> ('z learning_world_scheme, evaluation) M" where
  "CreditLearningService_runRiskyCycle subjectId context =
     CreditLearningService_evaluate (spreadContext (cycleArgs subjectId ''risky''
       [''late_repayment'', ''rejected_risky_spend'', ''high_utilization''] 4200 9400 6000) context)"

definition CreditLearningService_runRecoveryCycle ::
  "string \<Rightarrow> cycle_context \<Rightarrow> ('z learning_world_scheme, evaluation) M" where
  "CreditLearningService_runRecoveryCycle subjectId context =
     CreditLearningService_evaluate (spreadContext (cycleArgs subjectId ''recovery''
       [''on_time_repayment'', ''high_revenue_capture'', ''low_utilization''] 8800 5000 8400) context)"

subsection \<open>The type of a profile\<close>

definition score_ok :: "int option \<Rightarrow> bool" where
  "score_ok score \<longleftrightarrow> (\<forall>i. score = Some i \<longrightarrow> 300 \<le> i \<and> i \<le> 850)"

text \<open>A history entry of a signal named like a member every object inherits.\<close>

definition inherited_entry :: "score_entry \<Rightarrow> bool" where
  "inherited_entry h \<longleftrightarrow> (\<exists>x\<in>set OBJECT_PROTOTYPE. se_signalType h = JStr x)"

definition bps_ok :: "int \<Rightarrow> bool" where
  "bps_ok i \<longleftrightarrow> 0 \<le> i \<and> i \<le> 10000"

definition rate_ok :: "js \<Rightarrow> bool" where
  "rate_ok v \<longleftrightarrow> v = JNull \<or> (\<exists>i. v = JNum i \<and> bps_ok i)"

text \<open>
  A well-typed profile: the score is a number of the scale, or \<open>NaN\<close> exactly when a signal named like an inherited member
  is in the history, and the tier is the one of the score, the recent
  signals are at most twelve and on record, the history is made of scores of the scale with their tiers and
  ends in the current one, the figures and rates are basis points (a rate may be null) and the limit is a readable amount.
\<close>

definition profile_ok :: "string set \<Rightarrow> string \<Rightarrow> credit_profile \<Rightarrow> bool" where
  "profile_ok ids k p \<longleftrightarrow> cp_subjectId p = k \<and> score_ok (cp_currentScore p) \<and>
     cp_riskTier p = tierForScore (cp_currentScore p) \<and>
     length (cp_recentSignalIds p) \<le> 12 \<and> set (cp_recentSignalIds p) \<subseteq> ids \<and>
     (cp_currentScore p = None \<longleftrightarrow> (\<exists>h\<in>set (cp_scoreHistory p). inherited_entry h)) \<and>
     cp_scoreHistory p \<noteq> [] \<and> se_score (last (cp_scoreHistory p)) = cp_currentScore p \<and>
     (\<forall>h\<in>set (cp_scoreHistory p). score_ok (se_score h) \<and> se_riskTier h = tierForScore (se_score h)) \<and>
     bps_ok (cp_repaymentPerformanceBps p) \<and> bps_ok (cp_utilizationBehaviorBps p) \<and> bps_ok (cp_revenueConsistencyBps p) \<and>
     rate_ok (cp_currentDemoInterestRateBps p) \<and> rate_ok (cp_recommendedDemoInterestRateBps p) \<and>
     (\<exists>n. assertNonNegativeMinorUnits ''currentCreditLimitMinor'' (cp_currentCreditLimitMinor p) = Inr n)"

abbreviation signalIds :: "'z learning_world_scheme \<Rightarrow> string set" where
  "signalIds s \<equiv> fst ` set (cs_signals (learningState s))"

definition learning_inv :: "'z learning_world_scheme \<Rightarrow> bool" where
  "learning_inv s \<longleftrightarrow> (\<forall>k p. jmGet (cs_profiles (learningState s)) k = Some p \<longrightarrow> profile_ok (signalIds s) k p)"

lemma profile_ok_mono: "profile_ok I k p \<Longrightarrow> I \<subseteq> J \<Longrightarrow> profile_ok J k p"
  by (auto simp: profile_ok_def)

lemma log_ext_learning: "log_ext s t \<Longrightarrow> learningState t = learningState s"
  for s t :: "'z learning_world_scheme"
  by (cases s; cases t) (auto simp: log_ext_def)

lemma demo_rate_ok: "rate_ok (demoInterestRateForTier tier)"
  by (cases tier) (auto simp: rate_ok_def bps_ok_def)

text \<open>A rule of the table keeps the score on its scale; a member of \<open>Object.prototype\<close> has no delta.\<close>

lemma ruleFor_delta: "ruleFor x = Some rule \<Longrightarrow> sl_delta rule = None \<longleftrightarrow> x \<in> set OBJECT_PROTOTYPE"
proof -
  have table: "list_all (\<lambda>(x, rule). sl_delta rule \<noteq> None \<and> x \<notin> set OBJECT_PROTOTYPE) SIGNAL_RULES" by code_simp
  assume "ruleFor x = Some rule"
  then show ?thesis
    using table by (auto simp: ruleFor_def list_all_iff split: option.splits if_splits dest!: map_of_SomeD)
qed

lemma clampScore_ok: "score_ok (clampScore sc)"
  by (cases sc) (auto simp: score_ok_def)

lemma clampScore_None: "clampScore (numAdd a b) = None \<longleftrightarrow> a = None \<or> b = None"
  by (cases a; cases b) auto

lemma profile_ok_signalled:
  assumes ok: "profile_ok I k p" and rule: "ruleFor x = Some rule"
  shows "profile_ok (insert (rg_reputationSignalId g) I) k (signalled x rule p g)"
proof -
  have "set (take 11 (cp_recentSignalIds p)) \<subseteq> I" using ok set_take_subset by (fastforce simp: profile_ok_def)
  with ok ruleFor_delta [OF rule] show ?thesis
    by (auto simp: profile_ok_def signalled_def Let_def clampScore_ok clampScore_None inherited_entry_def)
qed

text \<open>
  During a cycle that started in \<open>s0\<close>: the map holds the working profile when it is the stored one and is
  otherwise as it was, signals are only added, and under \<open>G\<close> the working profile is well-typed.
\<close>

definition tracks :: "bool \<Rightarrow> bool \<Rightarrow> string \<Rightarrow> 'z learning_world_scheme \<Rightarrow> credit_profile \<Rightarrow> 'z learning_world_scheme \<Rightarrow> bool" where
  "tracks G stored k s0 p s \<longleftrightarrow>
     (\<forall>k'. jmGet (cs_profiles (learningState s)) k' =
        (if stored \<and> k' = k then Some p else jmGet (cs_profiles (learningState s0)) k')) \<and>
     signalIds s0 \<subseteq> signalIds s \<and> (G \<longrightarrow> profile_ok (signalIds s) k p)"

lemma tracks_log: "tracks G stored k s0 p s \<Longrightarrow> log_ext s t \<Longrightarrow> tracks G stored k s0 p t"
  for s t :: "'z learning_world_scheme"
  by (simp add: tracks_def log_ext_learning)

lemma tracks_counters [simp]:
  "tracks G stored k s0 p (s\<lparr>clockCount := c\<rparr>) = tracks G stored k s0 p s"
  "tracks G stored k s0 p (s\<lparr>uuidCount := u\<rparr>) = tracks G stored k s0 p s"
  by (simp_all add: tracks_def)

lemma tracks_inv: "learning_inv s0 \<Longrightarrow> tracks True stored k s0 p s \<Longrightarrow> learning_inv s"
  by (auto simp: learning_inv_def tracks_def intro: profile_ok_mono split: if_splits)

lemma tracks_init: "(stored \<longrightarrow> jmGet (cs_profiles (learningState s)) k = Some p) \<Longrightarrow>
    (G \<longrightarrow> profile_ok (signalIds s) k p) \<Longrightarrow> tracks G stored k s p s"
  by (auto simp: tracks_def)

lemma wp_emit_tracks:
  assumes "tracks G stored k s0 p s" and "\<And>t. tracks G stored k s0 p t \<Longrightarrow> Q () t"
    and "\<And>e t. tracks G stored k s0 p t \<Longrightarrow> E e t"
  shows "wp (emitCreditEvent a) Q E (s :: 'z learning_world_scheme)"
  by (rule wp_emitI) (use assms tracks_log in blast)+

subsection \<open>The steps of a cycle\<close>

lemma tracks_put:
  assumes "tracks G stored k s0 p s" and "G \<longrightarrow> profile_ok (signalIds s) k p'"
  shows "wp (putProfile stored k p') (\<lambda>_. tracks G stored k s0 p') E s"
  using assms by (auto simp: putProfile_def wp_simps tracks_def)

lemma wp_evaluateSignal:
  fixes s :: "'z learning_world_scheme"
  assumes tr: "tracks G stored (el_subjectId a) s0 p s"
    and Q: "\<And>rule g t. ruleFor x = Some rule \<Longrightarrow> rg_reasonCode g = sl_reasonCode rule \<Longrightarrow>
      tracks G stored (el_subjectId a) s0 (signalled x rule p g) t \<Longrightarrow> Q (signalled x rule p g, g) t"
    and E: "\<And>e p' t. tracks G stored (el_subjectId a) s0 p' t \<Longrightarrow> E e t"
  shows "wp (evaluateSignal stored a x p) Q E s"
proof (cases "ruleFor x")
  case None
  with tr E show ?thesis by (simp add: evaluateSignal_def wp_simps)
next
  case (Some rule)
  let ?k = "el_subjectId a"
  have put: "tracks G stored ?k s0 (signalled x rule p g) (learningState_update f u)"
    if "tracks G stored ?k s0 p u" "f = (if stored then cs_profiles_update (jmSet ?k (signalled x rule p g)) else id) \<circ>
      cs_signals_update (jmSet (rg_reputationSignalId g) g)" for f g and u :: "'z learning_world_scheme"
    using that profile_ok_signalled [OF _ Some, of "signalIds u" ?k p g] by (auto simp: tracks_def dom_update)
  have done_: "wp (emitCreditEvent e1) (\<lambda>_. wp (thenM (emitCreditEvent e2) (returnM (signalled x rule p g, g))) Q E) E u"
    if "tracks G stored ?k s0 (signalled x rule p g) u" "rg_reasonCode g = sl_reasonCode rule"
    for e1 e2 g and u :: "'z learning_world_scheme"
    using that by (auto simp: wp_simps intro!: wp_emit_tracks [OF that(1)] wp_emit_tracks intro: Q [OF Some] E)
  have counters: "tracks G stored ?k s0 p (s\<lparr>clockCount := c, uuidCount := n\<rparr>)" for c n using tr by simp
  show ?thesis
    using Some counters unfolding evaluateSignal_def createReputationSignal_def putProfile_def
    by (cases stored) (auto simp: wp_simps Let_def comp_def intro!: done_ [simplified wp_simps] put)
qed

text \<open>The score and the history a list of signals leads to.\<close>

fun scoreAfter :: "string list \<Rightarrow> int option \<Rightarrow> int option" where
  "scoreAfter [] score = score"
| "scoreAfter (x # xs) score =
     scoreAfter xs (clampScore (numAdd score (case ruleFor x of None \<Rightarrow> None | Some rule \<Rightarrow> sl_delta rule)))"

definition signals_applied :: "string list \<Rightarrow> credit_profile \<Rightarrow> credit_profile \<Rightarrow> reputation_signal list \<Rightarrow> bool" where
  "signals_applied xs p q gs \<longleftrightarrow> (\<forall>x\<in>set xs. ruleFor x \<noteq> None) \<and> length gs = length xs \<and>
     cp_currentScore q = scoreAfter xs (cp_currentScore p) \<and>
     cp_riskTier q = (if xs = [] then cp_riskTier p else tierForScore (cp_currentScore q)) \<and>
     length (cp_scoreHistory q) = length (cp_scoreHistory p) + length xs \<and>
     (\<forall>g\<in>set gs. \<exists>x\<in>set xs. \<exists>rule. ruleFor x = Some rule \<and> rg_reasonCode g = sl_reasonCode rule)"

lemma signals_applied_Nil: "signals_applied [] p p []"
  by (simp add: signals_applied_def)

lemma signals_applied_Cons:
  assumes "ruleFor x = Some rule" and "rg_reasonCode g = sl_reasonCode rule" and "signals_applied xs (signalled x rule p g) q gs"
  shows "signals_applied (x # xs) p q (g # gs)"
  using assms by (auto simp: signals_applied_def signalled_def Let_def)

lemma wp_evaluateSignals:
  fixes s :: "'z learning_world_scheme"
  assumes "tracks G stored (el_subjectId a) s0 p s"
    and "\<And>q gs t. tracks G stored (el_subjectId a) s0 q t \<Longrightarrow> signals_applied xs p q gs \<Longrightarrow> Q (q, gs) t"
    and "\<And>e q t. tracks G stored (el_subjectId a) s0 q t \<Longrightarrow> E e t"
  shows "wp (evaluateSignals stored a xs p) Q E s"
  using assms
proof (induction xs arbitrary: p s Q)
  case Nil
  then show ?case by (simp add: wp_simps signals_applied_Nil)
next
  case (Cons x xs)
  show ?case
    unfolding evaluateSignals.simps wp_bindM
  proof (rule wp_evaluateSignal [OF Cons.prems(1)])
    fix rule g and t :: "'z learning_world_scheme"
    assume "ruleFor x = Some rule" and "rg_reasonCode g = sl_reasonCode rule" and "tracks G stored (el_subjectId a) s0 (signalled x rule p g) t"
    then show "wp (case (signalled x rule p g, g) of (profile', signal) \<Rightarrow>
        bindM (evaluateSignals stored a xs profile') (\<lambda>(profile'', signals). returnM (profile'', signal # signals))) Q E t"
      using Cons.prems by (auto simp: wp_simps intro!: Cons.IH intro: signals_applied_Cons)
  qed (use Cons.prems in auto)
qed

text \<open>The rest of a cycle keeps the score, its tier and its history.\<close>

definition cycle_core :: "credit_profile \<Rightarrow> int option \<times> RiskTier \<times> string list \<times> score_entry list" where
  "cycle_core p = (cp_currentScore p, cp_riskTier p, cp_recentSignalIds p, cp_scoreHistory p)"

lemma evaluateChecks_limit:
  assumes "evaluateChecks a = Inr b" and "\<exists>n. assertNonNegativeMinorUnits name v = Inr n"
    and "name = ''currentCreditLimitMinor''"
  shows "\<exists>n. assertNonNegativeMinorUnits name (js_coalesce (el_currentCreditLimitMinor a) v) = Inr n"
  using assms by (cases "el_currentCreditLimitMinor a") (auto simp: evaluateChecks_def bindR_Inr)

lemma assertBps_Inr: "assertBps v n = Inr i \<Longrightarrow> bps_ok i"
  by (auto simp: assertBps_def bps_ok_def Let_def split: js.splits if_splits)

lemma evaluateChecks_bps:
  "evaluateChecks a = Inr b \<Longrightarrow> bps_ok (eb_repaymentPerformanceBps b) \<and> bps_ok (eb_utilizationBehaviorBps b) \<and>
    bps_ok (eb_revenueConsistencyBps b)"
  by (auto simp: evaluateChecks_def bindR_Inr dest: assertBps_Inr)

lemma evaluateChecks_rate: "evaluateChecks a = Inr b \<Longrightarrow> rate_ok v \<Longrightarrow> rate_ok (js_coalesce (el_currentDemoInterestRateBps a) v)"
  by (cases "el_currentDemoInterestRateBps a")
    (auto simp: evaluateChecks_def bindR_Inr rate_ok_def assertBps_def bps_ok_def Let_def split: if_splits)

lemma wp_evaluateMetrics:
  fixes s :: "'z learning_world_scheme"
  assumes tr: "tracks G stored (el_subjectId a) s0 p s" and b: "evaluateChecks a = Inr b"
    and Q: "\<And>q ms t. tracks G stored (el_subjectId a) s0 q t \<Longrightarrow> cycle_core q = cycle_core p \<Longrightarrow> Q (q, ms) t"
  shows "wp (evaluateMetrics stored a b p) Q E s"
proof -
  let ?k = "el_subjectId a"
  let ?p = "\<lambda>now. p\<lparr>cp_currentCreditLimitMinor := js_coalesce (el_currentCreditLimitMinor a) (cp_currentCreditLimitMinor p),
         cp_currentDemoInterestRateBps := js_coalesce (el_currentDemoInterestRateBps a) (cp_currentDemoInterestRateBps p),
         cp_repaymentPerformanceBps := eb_repaymentPerformanceBps b,
         cp_utilizationBehaviorBps := eb_utilizationBehaviorBps b,
         cp_revenueConsistencyBps := eb_revenueConsistencyBps b, cp_updatedAt := now\<rparr>"
  have ok: "profile_ok I ?k (?p now)" if "profile_ok I ?k p" for I now
    using that evaluateChecks_bps [OF b] evaluateChecks_limit [OF b _ refl] evaluateChecks_rate [OF b]
    by (auto simp: profile_ok_def)
  have "tracks G stored ?k s0 (?p now) (learningState_update f u)"
    if "tracks G stored ?k s0 p u" "f = cs_metrics_update h \<circ> (if stored then cs_profiles_update (jmSet ?k (?p now)) else id)"
    for f h now and u :: "'z learning_world_scheme"
    using that ok by (auto simp: tracks_def)
  moreover have "cycle_core (?p now) = cycle_core p" for now by (simp add: cycle_core_def)
  moreover have "tracks G stored ?k s0 p (s\<lparr>clockCount := c, uuidCount := n\<rparr>)" for c n using tr by simp
  ultimately show ?thesis
    unfolding evaluateMetrics_def createBehavioralMetric_def putProfile_def
    by (cases stored) (auto simp: wp_simps Let_def comp_def intro!: Q)
qed

lemma wp_evaluateTier:
  fixes s :: "'z learning_world_scheme"
  assumes "tracks G stored k s0 p s" and "\<And>t. tracks G stored k s0 p t \<Longrightarrow> Q () t" and "\<And>e t. tracks G stored k s0 p t \<Longrightarrow> E e t"
  shows "wp (evaluateTier a tier q) Q E s"
  using assms by (auto simp: evaluateTier_def wp_simps intro: wp_emit_tracks)

lemma wp_evaluateLimit:
  fixes s :: "'z learning_world_scheme"
  assumes tr: "tracks G stored (el_subjectId a) s0 p s"
    and Q: "\<And>q l t c. tracks G stored (el_subjectId a) s0 q t \<Longrightarrow> cycle_core q = cycle_core p \<Longrightarrow>
      cp_currentCreditLimitMinor q = cp_currentCreditLimitMinor p \<Longrightarrow>
      recommendationForTier (cp_riskTier p) (cp_currentCreditLimitMinor p) = Inr (lr_recommendedLimitMinor l, c) \<Longrightarrow>
      cp_recommendedNextCreditLimitMinor q = JStr (dec (lr_recommendedLimitMinor l)) \<Longrightarrow> Q (q, l) t"
    and E: "\<And>e q t. tracks G stored (el_subjectId a) s0 q t \<Longrightarrow> E e t"
  shows "wp (evaluateLimit stored a p) Q E s"
proof (cases "recommendationForTier (cp_riskTier p) (cp_currentCreditLimitMinor p)")
  case (Inl e)
  with tr E show ?thesis by (simp add: evaluateLimit_def wp_simps)
next
  case (Inr nc)
  obtain n c where nc: "recommendationForTier (cp_riskTier p) (cp_currentCreditLimitMinor p) = Inr (n, c)"
    using Inr by (cases nc) auto
  let ?k = "el_subjectId a"
  let ?p = "p\<lparr>cp_recommendedNextCreditLimitMinor := JStr (dec n)\<rparr>"
  have tr': "tracks G stored ?k s0 ?p (learningState_update f u)"
    if "tracks G stored ?k s0 p u" "f = (if stored then cs_profiles_update (jmSet ?k ?p) else id) \<circ> cs_limitRecommendations_update h"
    for f h and u :: "'z learning_world_scheme"
    using that by (auto simp: tracks_def profile_ok_def)
  have core: "cycle_core ?p = cycle_core p" by (simp add: cycle_core_def)
  have done_: "wp (emitCreditEvent e) (\<lambda>_. Q (?p, l)) E u"
    if "tracks G stored ?k s0 ?p u" "lr_recommendedLimitMinor l = n" for e l and u :: "'z learning_world_scheme"
    by (rule wp_emit_tracks [OF that(1)]) (use nc core that in \<open>auto intro: Q E\<close>)
  have "tracks G stored ?k s0 p (s\<lparr>clockCount := c, uuidCount := m\<rparr>)" for c m using tr by simp
  then show ?thesis
    using nc unfolding evaluateLimit_def createCreditLimitRecommendation_def putProfile_def
    by (cases stored) (auto simp: wp_simps Let_def comp_def intro!: done_ tr')
qed

lemma wp_evaluateRate:
  fixes s :: "'z learning_world_scheme"
  assumes tr: "tracks G stored (el_subjectId a) s0 p s"
    and Q: "\<And>q i t. tracks G stored (el_subjectId a) s0 q t \<Longrightarrow> cycle_core q = cycle_core p \<Longrightarrow>
      cp_currentCreditLimitMinor q = cp_currentCreditLimitMinor p \<Longrightarrow>
      cp_recommendedNextCreditLimitMinor q = cp_recommendedNextCreditLimitMinor p \<Longrightarrow>
      cp_recommendedDemoInterestRateBps q = demoInterestRateForTier (cp_riskTier p) \<Longrightarrow> Q (q, i) t"
    and E: "\<And>e q t. tracks G stored (el_subjectId a) s0 q t \<Longrightarrow> E e t"
  shows "wp (evaluateRate stored a p) Q E s"
proof -
  let ?k = "el_subjectId a"
  let ?p = "p\<lparr>cp_recommendedDemoInterestRateBps := demoInterestRateForTier (cp_riskTier p)\<rparr>"
  have tr': "tracks G stored ?k s0 ?p (learningState_update f u)"
    if "tracks G stored ?k s0 p u" "f = (if stored then cs_profiles_update (jmSet ?k ?p) else id) \<circ> cs_interestRateRecommendations_update h"
    for f h and u :: "'z learning_world_scheme"
    using that by (auto simp: tracks_def profile_ok_def demo_rate_ok)
  have done_: "wp (emitCreditEvent e) (\<lambda>_. Q (?p, i)) E u"
    if "tracks G stored ?k s0 ?p u" for e i and u :: "'z learning_world_scheme"
    by (rule wp_emit_tracks [OF that(1)]) (use that in \<open>auto simp: cycle_core_def intro: Q E\<close>)
  have "tracks G stored ?k s0 p (s\<lparr>clockCount := c, uuidCount := m\<rparr>)" for c m using tr by simp
  then show ?thesis
    unfolding evaluateRate_def createInterestRateRecommendation_def putProfile_def
    by (cases stored) (auto simp: wp_simps Let_def comp_def intro!: done_ tr')
qed

lemma wp_evaluateEvent:
  fixes s :: "'z learning_world_scheme"
  assumes tr: "tracks G stored k s0 p s"
    and Q: "\<And>l t. tracks G stored k s0 p t \<Longrightarrow> ln_score l = cp_currentScore q \<Longrightarrow> ln_riskTier l = cp_riskTier q \<Longrightarrow> Q l t"
    and E: "\<And>e t. tracks G stored k s0 p t \<Longrightarrow> E e t"
  shows "wp (evaluateEvent a q gs) Q E s"
proof -
  have "tracks G stored k s0 p (learningState_update (cs_learningEvents_update h) (s\<lparr>clockCount := c, uuidCount := m\<rparr>))" for h c m
    using tr by (simp add: tracks_def)
  then show ?thesis
    unfolding evaluateEvent_def createCreditLearningEvent_def
    by (auto simp: wp_simps intro!: wp_emit_tracks intro: Q E)
qed

text \<open>A whole cycle: what it computed is in the working profile \<open>q\<close>, and the map holds \<open>q\<close> when it works on the stored one.\<close>

definition cycle_result :: "evaluate_args \<Rightarrow> credit_profile \<Rightarrow> credit_profile \<Rightarrow> evaluation \<Rightarrow> bool" where
  "cycle_result a p q v \<longleftrightarrow> signals_applied (evaluateSignalTypes a) p q (vn_signals v) \<and>
     ln_score (vn_learningEvent v) = cp_currentScore q \<and> ln_riskTier (vn_learningEvent v) = cp_riskTier q \<and>
     (\<exists>c. recommendationForTier (cp_riskTier q) (cp_currentCreditLimitMinor q) =
        Inr (lr_recommendedLimitMinor (vn_limitRecommendation v), c)) \<and>
     cp_recommendedNextCreditLimitMinor q = JStr (dec (lr_recommendedLimitMinor (vn_limitRecommendation v))) \<and>
     cp_recommendedDemoInterestRateBps q = demoInterestRateForTier (cp_riskTier q)"

lemma wp_getProfile_tracks:
  fixes s :: "'z learning_world_scheme"
  assumes "tracks G stored k s0 p s"
    and "\<And>v. tracks G stored k s0 p s \<Longrightarrow> jmGet (cs_profiles (learningState s)) k = Some (fst v) \<Longrightarrow> Q v s"
    and "\<And>e. tracks G stored k s0 p s \<Longrightarrow> E e s"
  shows "wp (CreditLearningService_getProfile k) Q E s"
  using assms unfolding CreditLearningService_getProfile_def by (auto simp: wp_simps split: option.split)

lemma wp_evaluateCycle:
  fixes s :: "'z learning_world_scheme"
  assumes tr: "tracks G stored (el_subjectId a) s0 p s" and b: "evaluateChecks a = Inr b"
    and Q: "\<And>q v t. tracks G stored (el_subjectId a) s0 q t \<Longrightarrow> cycle_result a p q v \<Longrightarrow>
      jmGet (cs_profiles (learningState t)) (el_subjectId a) = Some (fst (vn_profile v)) \<Longrightarrow> Q v t"
    and E: "\<And>e q t. tracks G stored (el_subjectId a) s0 q t \<Longrightarrow> E e t"
  shows "wp (evaluateCycle stored a b p) Q E s"
  unfolding evaluateCycle_def wp_simps
  apply (rule wp_evaluateSignals [OF tr])
   apply (simp only: prod.case wp_simps)
   apply (erule wp_evaluateMetrics [OF _ b])
   apply (simp only: prod.case wp_simps)
   apply (erule wp_evaluateTier)
    apply (erule wp_evaluateLimit)
     apply (simp only: prod.case wp_simps)
     apply (erule wp_evaluateRate)
      apply (simp only: prod.case wp_simps)
      apply (erule wp_evaluateEvent)
       apply (erule wp_getProfile_tracks)
        apply (rule Q, assumption)
         apply (auto simp: cycle_result_def cycle_core_def signals_applied_def) [2]
       apply (auto intro: E)
  done

subsection \<open>Profiles are created well-typed\<close>

definition fresh_profile :: "string \<Rightarrow> int \<Rightarrow> js \<Rightarrow> credit_profile \<Rightarrow> bool" where
  "fresh_profile k i limit p \<longleftrightarrow> cp_subjectId p = k \<and> cp_currentScore p = Some i \<and> cp_riskTier p = tierForScore (Some i) \<and>
     cp_currentCreditLimitMinor p = limit \<and> cp_recommendedNextCreditLimitMinor p = limit \<and> cp_recentSignalIds p = [] \<and>
     map se_score (cp_scoreHistory p) = [Some i] \<and> map se_signalType (cp_scoreHistory p) = [JUndefined] \<and> map se_riskTier (cp_scoreHistory p) = [tierForScore (Some i)] \<and>
     cp_repaymentPerformanceBps p = 0 \<and> cp_utilizationBehaviorBps p = 0 \<and> cp_revenueConsistencyBps p = 0 \<and>
     cp_currentDemoInterestRateBps p = demoInterestRateForTier (tierForScore (Some i)) \<and>
     cp_recommendedDemoInterestRateBps p = demoInterestRateForTier (tierForScore (Some i))"

definition profile_added :: "string \<Rightarrow> credit_profile \<Rightarrow> 'z learning_world_scheme \<Rightarrow> 'z learning_world_scheme \<Rightarrow> bool" where
  "profile_added k p s t \<longleftrightarrow> signalIds t = signalIds s \<and>
     (\<forall>k'. jmGet (cs_profiles (learningState t)) k' = (if k' = k then Some p else jmGet (cs_profiles (learningState s)) k'))"

lemma assertScore_Inr: "assertScore v n = Inr i \<Longrightarrow> 300 \<le> i \<and> i \<le> 850"
  by (auto simp: assertScore_def Let_def split: js.splits if_splits)

lemma fresh_profile_ok:
  assumes "fresh_profile k i limit p" and "300 \<le> i" and "i \<le> 850"
    and "assertNonNegativeMinorUnits ''currentCreditLimitMinor'' limit = Inr n"
  shows "profile_ok I k p"
  using assms by (cases "cp_scoreHistory p") (auto simp: profile_ok_def fresh_profile_def score_ok_def bps_ok_def demo_rate_ok inherited_entry_def)

lemma profile_added_inv: "learning_inv s \<Longrightarrow> profile_added k p s t \<Longrightarrow> profile_ok (signalIds s) k p \<Longrightarrow> learning_inv t"
  by (auto simp: learning_inv_def profile_added_def split: if_splits)

lemma profile_added_log: "profile_added k p s t \<Longrightarrow> log_ext t u \<Longrightarrow> profile_added k p s u"
  for t u :: "'z learning_world_scheme"
  by (simp add: profile_added_def log_ext_learning)

lemma wp_createProfile:
  fixes s :: "'z learning_world_scheme"
  assumes new: "jmGet (cs_profiles (learningState s)) k = None"
    and Q: "\<And>i p t. assertScore (js_default score (JNum 500)) ''initialScore'' = Inr i \<Longrightarrow>
      fresh_profile k i (js_default limit (JStr ''0'')) p \<Longrightarrow>
      (\<And>I. profile_ok I k p) \<Longrightarrow> profile_added k p s t \<Longrightarrow> Q (p, []) t"
    and E: "\<And>e t. learningState t = learningState s \<or> (\<exists>p. (\<forall>I. profile_ok I k p) \<and> profile_added k p s t) \<Longrightarrow> E e t"
  shows "wp (CreditLearningService_createProfile k score limit) Q E s"
proof (cases "assertScore (js_default score (JNum 500)) ''initialScore''")
  case (Inl e)
  with new E show ?thesis by (simp add: CreditLearningService_createProfile_def wp_simps Let_def)
next
  case sc: (Inr i)
  show ?thesis
  proof (cases "assertNonNegativeMinorUnits ''currentCreditLimitMinor'' (js_default limit (JStr ''0''))")
    case (Inl e)
    with new sc E show ?thesis by (simp add: CreditLearningService_createProfile_def wp_simps Let_def)
  next
    case lim: (Inr n)
    have ok: "profile_ok I k p" if "fresh_profile k i (js_default limit (JStr ''0'')) p" for I p
      using fresh_profile_ok [OF that] assertScore_Inr [OF sc] lim by blast
    have emit: "wp (emitCreditEvent e) (\<lambda>_. Q (p, [])) E u"
      if "fresh_profile k i (js_default limit (JStr ''0'')) p" "profile_added k p s u" for e p and u :: "'z learning_world_scheme"
      by (rule wp_emitI) (use that ok sc profile_added_log in \<open>blast intro: Q E\<close>)+
    show ?thesis
      using new sc lim unfolding CreditLearningService_createProfile_def createCreditProfile_def Let_def
      by (auto simp: wp_simps intro!: emit) (auto simp: fresh_profile_def profile_added_def)
  qed
qed

subsection \<open>evaluate\<close>

lemma wp_evaluate_known:
  fixes s :: "'z learning_world_scheme"
  assumes known: "jmGet (cs_profiles (learningState s)) (el_subjectId a) = Some p"
    and G: "G \<longrightarrow> profile_ok (signalIds s) (el_subjectId a) p"
    and Q: "\<And>q v t. tracks G True (el_subjectId a) s q t \<Longrightarrow> cycle_result a p q v \<Longrightarrow> fst (vn_profile v) = q \<Longrightarrow> Q v t"
    and E: "\<And>e q t. tracks G True (el_subjectId a) s q t \<Longrightarrow> E e t"
  shows "wp (CreditLearningService_evaluate a) Q E s"
proof (cases "evaluateChecks a")
  case (Inl e)
  have "tracks G True (el_subjectId a) s p s" using known G by (auto intro: tracks_init)
  with Inl E show ?thesis by (simp add: CreditLearningService_evaluate_def wp_simps)
next
  case (Inr b)
  have "wp (evaluateCycle True a b p) Q E s"
  proof (rule wp_evaluateCycle [OF _ Inr, where ?s0.0 = s and G = G])
    show "tracks G True (el_subjectId a) s p s" using known G by (auto intro: tracks_init)
    fix q v and t :: "'z learning_world_scheme"
    assume "tracks G True (el_subjectId a) s q t" and "cycle_result a p q v"
      and "jmGet (cs_profiles (learningState t)) (el_subjectId a) = Some (fst (vn_profile v))"
    then show "Q v t" using Q by (auto simp: tracks_def)
  qed (rule E)
  with Inr known show ?thesis
    by (simp add: CreditLearningService_evaluate_def CreditLearningService_requireOrCreateProfile_def wp_simps Let_def)
qed

text \<open>For a new subject the cycle runs on the clone and leaves the created profile as it was.\<close>

lemma wp_evaluate_new:
  fixes s :: "'z learning_world_scheme"
  assumes new: "jmGet (cs_profiles (learningState s)) (el_subjectId a) = None"
    and Q: "\<And>p q v t u. fresh_profile (el_subjectId a) 500 (js_default (el_currentCreditLimitMinor a) (JStr ''0'')) p \<Longrightarrow>
      (\<And>I. profile_ok I (el_subjectId a) p) \<Longrightarrow> profile_added (el_subjectId a) p s u \<Longrightarrow>
      tracks True False (el_subjectId a) u q t \<Longrightarrow> cycle_result a p q v \<Longrightarrow> fst (vn_profile v) = p \<Longrightarrow> Q v t"
    and E: "\<And>e t. learningState t = learningState s \<or> (\<exists>p u. (\<forall>I. profile_ok I (el_subjectId a) p) \<and>
      profile_added (el_subjectId a) p s u \<and> (\<exists>q. t = u \<or> tracks True False (el_subjectId a) u q t)) \<Longrightarrow> E e t"
  shows "wp (CreditLearningService_evaluate a) Q E s"
proof (cases "evaluateChecks a")
  case (Inl e)
  with E show ?thesis by (simp add: CreditLearningService_evaluate_def wp_simps)
next
  case (Inr b)
  let ?k = "el_subjectId a" and ?l = "js_default (el_currentCreditLimitMinor a) (JStr ''0'')"
  have dflt: "js_default ?l (JStr ''0'') = ?l" by (simp add: js_default_def)
  have cycle: "wp (evaluateCycle False a b p) Q E u"
    if p: "fresh_profile ?k 500 ?l p" "\<And>I. profile_ok I ?k p" "profile_added ?k p s u" for p and u :: "'z learning_world_scheme"
  proof (rule wp_evaluateCycle [OF _ Inr, where ?s0.0 = u and G = True])
    show "tracks True False ?k u p u" using p(2) by (auto intro: tracks_init)
    fix q v and t :: "'z learning_world_scheme"
    assume tr: "tracks True False ?k u q t" and res: "cycle_result a p q v"
      and "jmGet (cs_profiles (learningState t)) ?k = Some (fst (vn_profile v))"
    then have "fst (vn_profile v) = p" using p(3) by (simp add: tracks_def profile_added_def)
    then show "Q v t" by (rule Q [OF p tr res])
  next
    fix e q and t :: "'z learning_world_scheme"
    assume "tracks True False ?k u q t"
    then show "E e t" using p by (blast intro: E)
  qed
  have "wp (CreditLearningService_createProfile ?k JUndefined ?l) (\<lambda>(p, _). wp (evaluateCycle False a b p) Q E) E s"
    by (rule wp_createProfile [OF new]) (auto simp: assertScore_def js_default_def intro!: cycle E split: if_splits)
  with Inr new show ?thesis
    by (simp add: CreditLearningService_evaluate_def CreditLearningService_requireOrCreateProfile_def wp_simps Let_def split_def)
qed

subsection \<open>The service as a transition system\<close>

lemma preserves_createProfile: "preserves learning_inv (CreditLearningService_createProfile k score limit)"
proof (rule preservesI)
  fix s :: "'z learning_world_scheme"
  assume inv: "learning_inv s"
  have same: "learning_inv t" if "learningState t = learningState s" for t :: "'z learning_world_scheme"
    using inv that by (simp add: learning_inv_def)
  have added: "learning_inv t" if "\<And>I. profile_ok I k p" "profile_added k p s t" for p and t :: "'z learning_world_scheme"
    by (rule profile_added_inv [OF inv that(2) that(1)])
  show "wp (CreditLearningService_createProfile k score limit) (\<lambda>_. learning_inv) (\<lambda>_. learning_inv) s"
  proof (cases "jmGet (cs_profiles (learningState s)) k")
    case None
    then show ?thesis by (rule wp_createProfile) (auto intro: same added)
  next
    case (Some p)
    then show ?thesis using inv
      by (simp add: CreditLearningService_createProfile_def CreditLearningService_getProfile_def wp_simps Let_def)
  qed
qed

lemma preserves_evaluate: "preserves learning_inv (CreditLearningService_evaluate a)"
proof (rule preservesI)
  fix s :: "'z learning_world_scheme"
  assume inv: "learning_inv s"
  show "wp (CreditLearningService_evaluate a) (\<lambda>_. learning_inv) (\<lambda>_. learning_inv) s"
  proof (cases "jmGet (cs_profiles (learningState s)) (el_subjectId a)")
    case None
    have same: "learning_inv t" if "learningState t = learningState s" for t :: "'z learning_world_scheme"
      using inv that by (simp add: learning_inv_def)
    have added: "learning_inv u" if "\<And>I. profile_ok I (el_subjectId a) p" "profile_added (el_subjectId a) p s u"
      for p and u :: "'z learning_world_scheme" by (rule profile_added_inv [OF inv that(2) that(1)])
    have tracked: "learning_inv t" if "\<And>I. profile_ok I (el_subjectId a) p" "profile_added (el_subjectId a) p s u"
      "tracks True False (el_subjectId a) u q t" for p q and u t :: "'z learning_world_scheme"
      using tracks_inv [OF added [OF that(1,2)] that(3)] .
    show ?thesis
      by (rule wp_evaluate_new [OF None]) (auto intro: same added tracked)
  next
    case (Some p)
    with inv have "profile_ok (signalIds s) (el_subjectId a) p" by (simp add: learning_inv_def)
    then show ?thesis
      by (intro wp_evaluate_known [OF Some, where G = True]) (auto intro: tracks_inv [OF inv])
  qed
qed

inductive learning_step :: "'z learning_world_scheme \<Rightarrow> 'z learning_world_scheme \<Rightarrow> bool" where
  create: "CreditLearningService_createProfile k score limit s = (r, t) \<Longrightarrow> learning_step s t"
| evaluate: "CreditLearningService_evaluate a s = (r, t) \<Longrightarrow> learning_step s t"
| healthy: "CreditLearningService_runHealthyCycle k c s = (r, t) \<Longrightarrow> learning_step s t"
| risky: "CreditLearningService_runRiskyCycle k c s = (r, t) \<Longrightarrow> learning_step s t"
| recovery: "CreditLearningService_runRecoveryCycle k c s = (r, t) \<Longrightarrow> learning_step s t"
| log_append: "log_ext s t \<Longrightarrow> learning_step s t"

lemma preserves_cycles:
  "preserves learning_inv (CreditLearningService_runHealthyCycle k c)"
  "preserves learning_inv (CreditLearningService_runRiskyCycle k c)"
  "preserves learning_inv (CreditLearningService_runRecoveryCycle k c)"
  unfolding CreditLearningService_runHealthyCycle_def CreditLearningService_runRiskyCycle_def
    CreditLearningService_runRecoveryCycle_def
  by (rule preserves_evaluate)+

lemma learning_inv_log: "learning_inv s \<Longrightarrow> log_ext s t \<Longrightarrow> learning_inv t"
  by (simp add: learning_inv_def log_ext_learning)

lemma learning_inv_stepI: "learning_inv s \<Longrightarrow> learning_step s t \<Longrightarrow> learning_inv t"
  by (erule learning_step.cases)
    (auto intro: preserves_createProfile [THEN preserves_run] preserves_evaluate [THEN preserves_run]
      preserves_cycles [THEN preserves_run] learning_inv_log)

interpretation learning_ts: transition_system learning_step learning_inv
  by unfold_locales (rule learning_inv_stepI)

definition learning_empty :: learning_state where
  "learning_empty = \<lparr>cs_profiles = [], cs_signals = [], cs_metrics = [], cs_limitRecommendations = [],
     cs_interestRateRecommendations = [], cs_learningEvents = []\<rparr>"

lemma learning_empty_inv: "learningState s = learning_empty \<Longrightarrow> learning_inv s"
  by (simp add: learning_inv_def learning_empty_def)

lemma profile_limit_readable:
  assumes "profile_ok I k p"
  shows "\<exists>limit next c. toBigInt (cp_currentCreditLimitMinor p) = Inr limit \<and> 0 \<le> limit \<and>
    recommendationForTier (cp_riskTier p) (cp_currentCreditLimitMinor p) = Inr (next, c) \<and> 0 \<le> next \<and> 2 * next \<le> 3 * limit"
proof -
  obtain n where n: "assertNonNegativeMinorUnits ''currentCreditLimitMinor'' (cp_currentCreditLimitMinor p) = Inr n"
    using assms by (auto simp: profile_ok_def)
  then have pos: "0 \<le> n" and read: "toBigInt (cp_currentCreditLimitMinor p) = Inr n"
    by (auto simp: assertNonNegative_Inr toMinorUnitBigInt_def toBigInt_def unsigned_decimal_def is_digit_def
        split: js.splits if_splits)
  have "js_coalesce (cp_currentCreditLimitMinor p) (JStr ''0'') = cp_currentCreditLimitMinor p"
    using read by (cases "cp_currentCreditLimitMinor p") (auto simp: toBigInt_def)
  with pos read show ?thesis
    by (cases "cp_riskTier p") (auto simp: recommendationForTier_def bigIntDiv_def sgn_if abs_mult)
qed

subsection \<open>A cycle returns\<close>

definition plain_args :: "evaluate_args \<Rightarrow> bool" where
  "plain_args a \<longleftrightarrow> clean_string (el_subjectId a) \<and> assertNoRawPiiReference (evaluateCycleType a) = Inr () \<and>
     assertNoRawPiiReference (el_relatedEventId a) = Inr ()"

lemma ready_learning [simp]: "log_ready n (learningState_update f s) = log_ready n s"
  for s :: "'z learning_world_scheme"
  by (simp add: log_ready_def issued_def currentVersion_def)

lemma ready_counters:
  "log_ready (Suc n) s \<Longrightarrow> log_ready n (s\<lparr>clockCount := c, uuidCount := Suc (uuidCount s)\<rparr>)"
  for s :: "'z learning_world_scheme"
  by (drule ready_uuid) (simp add: log_ready_def issued_def currentVersion_def)

lemma score_js_plain [simp]: "assertNoRawPiiReference (score_js sc) = Inr ()"
  by (cases sc) auto

lemma ruleFor_plain:
  "ruleFor x = Some rule \<Longrightarrow> assertNoRawPiiReference (sl_reasonCode rule) = Inr () \<and> assertNoRawPiiReference (sl_label rule) = Inr ()"
  by (auto simp: ruleFor_def SIGNAL_RULES_def signalRule_def split: option.splits if_splits)

lemmas plain_simps = plain_event_def clean_string_def eval_simps MAX_DOMAIN_STRING_LENGTH_def reference_keys_def

lemma wp_evaluateSignal_ready:
  fixes s :: "'z learning_world_scheme"
  assumes ready: "log_ready (n + 3) s" and a: "plain_args a" and rule: "ruleFor x = Some rule"
    and Q: "\<And>g t. log_ready n t \<Longrightarrow> Q (signalled x rule p g, g) t"
  shows "wp (evaluateSignal stored a x p) Q (\<lambda>_ _. False) s"
proof -
  have ready: "log_ready (Suc (Suc n)) (s\<lparr>clockCount := c, uuidCount := Suc (uuidCount s)\<rparr>)" for c
    by (rule ready_counters) (use ready in \<open>simp add: numeral_3_eq_3\<close>)
  have plain: "plain_event (eventArgs ''reputation_signal_recorded'' (JStr (el_subjectId a))
      (JObj (signal_js r g @ [(''label'', sl_label rule)])))"
    if "rg_reasonCode g = sl_reasonCode rule" "rg_relatedEventId g = el_relatedEventId a" "rg_cycleType g = evaluateCycleType a" for g r
    using a that ruleFor_plain [OF rule] by (auto simp: plain_args_def signal_js_def plain_simps)
  have plain': "plain_event (eventArgs ''credit_score_updated'' (JStr (el_subjectId a)) (JObj
            [(''signalType'', JStr x), (''scoreDelta'', score_js d),
             (''previousScore'', score_js d'), (''newScore'', score_js d''),
             (''reasonCode'', sl_reasonCode rule), (''relatedEventId'', el_relatedEventId a)]))" for d d' d''
    using a ruleFor_plain [OF rule] by (auto simp: plain_args_def plain_simps)
  have emit: "wp (emitCreditEvent e1) (\<lambda>_. wp (emitCreditEvent e2) (\<lambda>_. Q (signalled x rule p g, g)) (\<lambda>_ _. False)) (\<lambda>_ _. False) u"
    if "log_ready (Suc (Suc n)) u" "plain_event e1" "plain_event e2" for e1 e2 g and u :: "'z learning_world_scheme"
    by (rule wp_emit_ready [OF that(2,1)], erule wp_emit_ready [OF that(3)]) (rule Q)
  show ?thesis
    unfolding evaluateSignal_def createReputationSignal_def putProfile_def
    using rule ready by (auto simp: wp_simps Let_def intro!: emit plain plain')
qed

lemma wp_evaluateSignals_ready:
  fixes s :: "'z learning_world_scheme"
  assumes "log_ready (n + 3 * length xs) s" and "plain_args a" and "\<forall>x\<in>set xs. ruleFor x \<noteq> None"
  shows "wp (evaluateSignals stored a xs p) (\<lambda>_. log_ready n) (\<lambda>_ _. False) s"
  using assms
proof (induction xs arbitrary: p s)
  case Nil
  then show ?case by (simp add: wp_simps)
next
  case (Cons x xs)
  then obtain rule where rule: "ruleFor x = Some rule" by auto
  have ready: "log_ready (n + 3 * length xs + 3) s" using Cons.prems(1) by (simp add: add.commute add.left_commute)
  show ?case
    unfolding evaluateSignals.simps wp_bindM
    by (rule wp_evaluateSignal_ready [OF ready Cons.prems(2) rule]) (use Cons in \<open>auto simp: wp_simps\<close>)
qed

lemma wp_evaluateMetrics_ready:
  fixes s :: "'z learning_world_scheme"
  assumes "log_ready (n + 3) s"
  shows "wp (evaluateMetrics stored a b p) (\<lambda>_. log_ready n) (\<lambda>_ _. False) s"
proof -
  have "log_ready (Suc (Suc (Suc n))) s" using assms by (simp add: numeral_3_eq_3)
  from ready_uuid [OF ready_uuid [OF ready_uuid [OF this]]]
  have "log_ready n (s\<lparr>clockCount := c, uuidCount := Suc (Suc (Suc (uuidCount s)))\<rparr>)" for c
    by (simp add: log_ready_def issued_def currentVersion_def)
  moreover from this have "log_ready n ((learningState_update f s)\<lparr>clockCount := c, uuidCount := Suc (Suc (Suc (uuidCount s)))\<rparr>)" for c f
    by (simp add: log_ready_def issued_def currentVersion_def)
  ultimately show ?thesis
    unfolding evaluateMetrics_def createBehavioralMetric_def putProfile_def by (simp add: wp_simps Let_def)
qed

lemma wp_evaluateTier_ready:
  fixes s :: "'z learning_world_scheme"
  assumes "log_ready (Suc n) s" and "plain_args a"
  shows "wp (evaluateTier a tier p) (\<lambda>_. log_ready n) (\<lambda>_ _. False) s"
proof -
  have "plain_event (eventArgs ''risk_tier_updated'' (JStr (el_subjectId a)) (JObj
      [(''previousTier'', JStr (RiskTier_str tier)), (''newTier'', JStr (RiskTier_str (cp_riskTier p))),
       (''score'', score_js (cp_currentScore p))]))"
    using assms(2) by (auto simp: plain_args_def plain_simps)
  from wp_emit_ready [OF this assms(1)] ready_less [OF assms(1), of n] show ?thesis
    by (simp add: evaluateTier_def wp_simps)
qed

lemma wp_evaluateLimit_ready:
  fixes s :: "'z learning_world_scheme"
  assumes ready: "log_ready (n + 2) s" and a: "plain_args a"
    and limit: "assertNonNegativeMinorUnits ''currentCreditLimitMinor'' (cp_currentCreditLimitMinor p) = Inr m"
    and rec: "recommendationForTier (cp_riskTier p) (cp_currentCreditLimitMinor p) = Inr (next, c)"
  shows "wp (evaluateLimit stored a p) (\<lambda>_. log_ready n) (\<lambda>_ _. False) s"
proof -
  have ready: "log_ready (Suc n) (s\<lparr>clockCount := c, uuidCount := Suc (uuidCount s)\<rparr>)" for c
    by (rule ready_counters) (use ready in simp)
  have "assertNoRawPiiReference (cp_currentCreditLimitMinor p) = Inr ()"
    using limit by (cases "cp_currentCreditLimitMinor p") (auto simp: assertNonNegative_Inr toMinorUnitBigInt_def)
  then have "plain_event (eventArgs ''credit_limit_recommended'' (JStr (el_subjectId a)) (limit_js r l))"
    if "lr_currentLimitMinor l = cp_currentCreditLimitMinor p" for r l
    using a that by (auto simp: plain_args_def limit_js_def plain_simps)
  then show ?thesis
    unfolding evaluateLimit_def createCreditLimitRecommendation_def putProfile_def
    using rec ready by (auto simp: wp_simps Let_def intro!: wp_emit_ready [where n = n])
qed

lemma wp_evaluateRate_ready:
  fixes s :: "'z learning_world_scheme"
  assumes ready: "log_ready (n + 2) s" and a: "plain_args a"
    and rate: "assertNoRawPiiReference (cp_currentDemoInterestRateBps p) = Inr ()"
  shows "wp (evaluateRate stored a p) (\<lambda>_. log_ready n) (\<lambda>_ _. False) s"
proof -
  have ready: "log_ready (Suc n) (s\<lparr>clockCount := c, uuidCount := Suc (uuidCount s)\<rparr>)" for c
    by (rule ready_counters) (use ready in simp)
  have "assertNoRawPiiReference (demoInterestRateForTier (cp_riskTier p)) = Inr ()" by (cases "cp_riskTier p") auto
  then have "plain_event (eventArgs ''interest_rate_recommended'' (JStr (el_subjectId a)) (rate_js r i))"
    if "ir_currentDemoInterestRateBps i = cp_currentDemoInterestRateBps p"
      "ir_recommendedDemoInterestRateBps i = demoInterestRateForTier (cp_riskTier p)" for r i
    using a rate that by (auto simp: plain_args_def rate_js_def plain_simps)
  then show ?thesis
    unfolding evaluateRate_def createInterestRateRecommendation_def putProfile_def
    using ready by (auto simp: wp_simps Let_def intro!: wp_emit_ready [where n = n])
qed

lemma wp_evaluateEvent_ready:
  fixes s :: "'z learning_world_scheme"
  assumes ready: "log_ready (n + 2) s" and a: "plain_args a"
    and codes: "\<forall>g\<in>set gs. assertNoRawPiiReference (rg_reasonCode g) = Inr ()"
  shows "wp (evaluateEvent a p gs) (\<lambda>_. log_ready n) (\<lambda>_ _. False) s"
proof -
  have ready: "log_ready (Suc n) (s\<lparr>clockCount := c, uuidCount := Suc (uuidCount s)\<rparr>)" for c
    by (rule ready_counters) (use ready in simp)
  have elements: "piiElements vs = Inr ()" if "\<forall>v\<in>set vs. assertNoRawPiiReference v = Inr ()" for vs
    using that by (induction vs) auto
  have "plain_event (eventArgs ''credit_learning_cycle_completed'' (JStr (el_subjectId a)) (learning_event_js r l))"
    if "ln_cycleType l = evaluateCycleType a" "ln_reasonCodes l = map rg_reasonCode gs" for r l
    using a that codes elements [of "map rg_reasonCode gs"] elements [of "map JStr (ln_signalIds l)"]
    by (auto simp: plain_args_def learning_event_js_def plain_simps)
  then show ?thesis
    unfolding evaluateEvent_def createCreditLearningEvent_def
    using ready by (auto simp: wp_simps Let_def intro!: wp_emit_ready [where n = n])
qed

text \<open>
  From a well-typed profile, with room in the log, each step of a cycle of known signals returns: the facts about
  what a step does and about its returning, together.
\<close>

lemma rate_plain: "rate_ok v \<Longrightarrow> assertNoRawPiiReference v = Inr ()"
  by (auto simp: rate_ok_def)

lemma wp_both:
  assumes "wp m P (\<lambda>_ _. True) s" and "wp m (\<lambda>_. R) (\<lambda>_ _. False) s" and "\<And>x t. P x t \<Longrightarrow> R t \<Longrightarrow> Q x t"
  shows "wp m Q (\<lambda>_ _. False) s"
  using assms by (auto simp: wp_def split: prod.splits sum.splits)

abbreviation learning :: "bool \<Rightarrow> evaluate_args \<Rightarrow> 'z learning_world_scheme \<Rightarrow> credit_profile \<Rightarrow> 'z learning_world_scheme \<Rightarrow> bool" where
  "learning stored a s0 q \<equiv> tracks True stored (el_subjectId a) s0 q"

lemma learning_ok: "learning stored a s0 q u \<Longrightarrow> profile_ok (signalIds u) (el_subjectId a) q"
  by (simp add: tracks_def)

lemma run_signals:
  fixes u :: "'z learning_world_scheme"
  assumes "learning stored a s0 p u" and "log_ready (n + 3 * length xs) u" and "plain_args a"
    and "\<forall>x\<in>set xs. x \<notin> set OBJECT_PROTOTYPE \<and> ruleFor x \<noteq> None"
    and "\<And>q gs t. learning stored a s0 q t \<Longrightarrow> log_ready n t \<Longrightarrow>
      \<forall>g\<in>set gs. assertNoRawPiiReference (rg_reasonCode g) = Inr () \<Longrightarrow> Q (q, gs) t"
  shows "wp (evaluateSignals stored a xs p) Q (\<lambda>_ _. False) u"
proof (rule wp_both)
  show "wp (evaluateSignals stored a xs p) (\<lambda>(q, gs) t. learning stored a s0 q t \<and> signals_applied xs p q gs) (\<lambda>_ _. True) u"
    by (rule wp_evaluateSignals [OF assms(1)]) (use assms(4) in auto)
  show "wp (evaluateSignals stored a xs p) (\<lambda>_. log_ready n) (\<lambda>_ _. False) u"
    by (rule wp_evaluateSignals_ready) (use assms in auto)
  fix r and t :: "'z learning_world_scheme"
  assume "(case r of (q, gs) \<Rightarrow> \<lambda>t. learning stored a s0 q t \<and> signals_applied xs p q gs) t" and "log_ready n t"
  then show "Q r t" using assms(5) ruleFor_plain by (fastforce simp: signals_applied_def split: prod.splits)
qed

lemma run_metrics:
  fixes u :: "'z learning_world_scheme"
  assumes "learning stored a s0 p u" and "log_ready (n + 3) u" and "evaluateChecks a = Inr b"
    and "\<And>q ms t. learning stored a s0 q t \<Longrightarrow> log_ready n t \<Longrightarrow> Q (q, ms) t"
  shows "wp (evaluateMetrics stored a b p) Q (\<lambda>_ _. False) u"
  by (rule wp_both [OF wp_evaluateMetrics [OF assms(1,3), where Q = "\<lambda>(q, _). learning stored a s0 q"]
        wp_evaluateMetrics_ready [OF assms(2)]]) (use assms(4) in auto)

lemma run_tier:
  fixes u :: "'z learning_world_scheme"
  assumes "learning stored a s0 p u" and "log_ready (Suc n) u" and "plain_args a"
    and "\<And>t. learning stored a s0 p t \<Longrightarrow> log_ready n t \<Longrightarrow> Q () t"
  shows "wp (evaluateTier a tier p) Q (\<lambda>_ _. False) u"
  by (rule wp_both [OF wp_evaluateTier [OF assms(1), where Q = "\<lambda>_. learning stored a s0 p"]
        wp_evaluateTier_ready [OF assms(2,3)]]) (use assms(4) in auto)

lemma run_limit:
  fixes u :: "'z learning_world_scheme"
  assumes tr: "learning stored a s0 p u" and "log_ready (n + 2) u" and "plain_args a"
    and "\<And>q l t. learning stored a s0 q t \<Longrightarrow> log_ready n t \<Longrightarrow> Q (q, l) t"
  shows "wp (evaluateLimit stored a p) Q (\<lambda>_ _. False) u"
proof -
  obtain m where m: "assertNonNegativeMinorUnits ''currentCreditLimitMinor'' (cp_currentCreditLimitMinor p) = Inr m"
    using learning_ok [OF tr] by (auto simp: profile_ok_def)
  obtain nx c where rec: "recommendationForTier (cp_riskTier p) (cp_currentCreditLimitMinor p) = Inr (nx, c)"
    using profile_limit_readable [OF learning_ok [OF tr]] by blast
  show ?thesis
    by (rule wp_both [OF wp_evaluateLimit [OF assms(1), where Q = "\<lambda>(q, _). learning stored a s0 q"]
          wp_evaluateLimit_ready [OF assms(2,3) m rec]]) (use assms(4) in auto)
qed

lemma run_rate:
  fixes u :: "'z learning_world_scheme"
  assumes tr: "learning stored a s0 p u" and "log_ready (n + 2) u" and "plain_args a"
    and "\<And>q i t. learning stored a s0 q t \<Longrightarrow> log_ready n t \<Longrightarrow> Q (q, i) t"
  shows "wp (evaluateRate stored a p) Q (\<lambda>_ _. False) u"
proof -
  have rate: "assertNoRawPiiReference (cp_currentDemoInterestRateBps p) = Inr ()"
    using learning_ok [OF tr] by (simp add: profile_ok_def rate_plain)
  show ?thesis
    by (rule wp_both [OF wp_evaluateRate [OF assms(1), where Q = "\<lambda>(q, _). learning stored a s0 q"]
          wp_evaluateRate_ready [OF assms(2,3) rate]]) (use assms(4) in auto)
qed

lemma run_event:
  fixes u :: "'z learning_world_scheme"
  assumes "learning stored a s0 p u" and "log_ready (n + 2) u" and "plain_args a"
    and "\<forall>g\<in>set gs. assertNoRawPiiReference (rg_reasonCode g) = Inr ()"
    and "\<And>l t. learning stored a s0 p t \<Longrightarrow> Q l t"
  shows "wp (evaluateEvent a p gs) Q (\<lambda>_ _. False) u"
  by (rule wp_both [OF wp_evaluateEvent [OF assms(1), where Q = "\<lambda>_. learning stored a s0 p"]
        wp_evaluateEvent_ready [OF assms(2-4)]]) (use assms(5) in auto)

lemma run_cycle:
  fixes s :: "'z learning_world_scheme"
  assumes tr: "learning stored a s0 p s" and b: "evaluateChecks a = Inr b" and a: "plain_args a"
    and sig: "\<forall>x\<in>set (evaluateSignalTypes a). x \<notin> set OBJECT_PROTOTYPE \<and> ruleFor x \<noteq> None"
    and here: "stored \<or> jmGet (cs_profiles (learningState s0)) (el_subjectId a) \<noteq> None"
    and ready: "log_ready (10 + 3 * length (evaluateSignalTypes a)) s"
  shows "wp (evaluateCycle stored a b p) (\<lambda>_ _. True) (\<lambda>_ _. False) s"
proof -
  have view: "wp (CreditLearningService_getProfile (el_subjectId a)) (\<lambda>_ _. True) (\<lambda>_ _. False) u"
    if "learning stored a s0 q u" for q and u :: "'z learning_world_scheme"
    using that here by (auto simp: CreditLearningService_getProfile_def wp_simps tracks_def split: option.split)
  have "log_ready (Suc (0 + 2 + 2 + 2) + 3 + 3 * length (evaluateSignalTypes a)) s" using ready by simp
  then show ?thesis
    unfolding evaluateCycle_def wp_simps
    apply (rule run_signals [OF tr _ a sig])
    apply (simp only: prod.case wp_simps)
    apply (erule run_metrics [OF _ _ b], assumption)
    apply (simp only: prod.case wp_simps)
    apply (erule run_tier [OF _ _ a], assumption)
    apply (erule run_limit [OF _ _ a], assumption)
    apply (simp only: prod.case wp_simps)
    apply (erule run_rate [OF _ _ a], assumption)
    apply (simp only: prod.case wp_simps)
    apply (erule run_event [OF _ _ a], assumption, assumption)
    apply (erule view)
    done
qed

lemma wp_createProfile_ready:
  fixes s :: "'z learning_world_scheme"
  assumes new: "jmGet (cs_profiles (learningState s)) k = None" and k: "clean_string k" and ready: "log_ready (n + 2) s"
    and limit: "assertNonNegativeMinorUnits ''currentCreditLimitMinor'' (js_default limit (JStr ''0'')) = Inr m"
  shows "wp (CreditLearningService_createProfile k JUndefined limit) (\<lambda>_. log_ready n) (\<lambda>_ _. False) s"
proof -
  have ready: "log_ready (Suc n) (s\<lparr>clockCount := c, uuidCount := Suc (uuidCount s)\<rparr>)" for c
    by (rule ready_counters) (use ready in simp)
  have "plain_event (eventArgs ''credit_profile_created'' (JStr k) (JObj
     [(''creditProfileId'', JStr i), (''currentScore'', score_js sc), (''riskTier'', JStr tier)]))" for i sc tier
    using k by (auto simp: plain_simps)
  then show ?thesis
    unfolding CreditLearningService_createProfile_def createCreditProfile_def
    using new limit ready
    by (auto simp: wp_simps Let_def assertScore_def js_default_def simp del: score_js.simps intro!: wp_emit_ready [where n = n])
qed

lemma first_cycle_returns:
  fixes s :: "'z learning_world_scheme"
  assumes new: "jmGet (cs_profiles (learningState s)) (el_subjectId a) = None" and b: "evaluateChecks a = Inr b" and a: "plain_args a"
    and limit: "el_currentCreditLimitMinor a \<noteq> JNull"
    and sig: "\<forall>x\<in>set (evaluateSignalTypes a). x \<notin> set OBJECT_PROTOTYPE \<and> ruleFor x \<noteq> None"
    and ready: "log_ready (12 + 3 * length (evaluateSignalTypes a)) s"
  shows "\<exists>v t. CreditLearningService_evaluate a s = (Inr v, t)"
proof -
  let ?k = "el_subjectId a" and ?l = "js_default (el_currentCreditLimitMinor a) (JStr ''0'')"
  obtain m where m: "assertNonNegativeMinorUnits ''currentCreditLimitMinor'' (js_default ?l (JStr ''0'')) = Inr m"
    using b limit by (cases "el_currentCreditLimitMinor a") (auto simp: evaluateChecks_def bindR_Inr js_default_def)
  have room: "log_ready (10 + 3 * length (evaluateSignalTypes a) + 2) s" using ready by simp
  have k: "clean_string ?k" using a by (simp add: plain_args_def)
  have "wp (CreditLearningService_createProfile ?k JUndefined ?l) (\<lambda>(p, _). wp (evaluateCycle False a b p) (\<lambda>_ _. True) (\<lambda>_ _. False)) (\<lambda>_ _. False) s"
  proof (rule wp_both)
    show "wp (CreditLearningService_createProfile ?k JUndefined ?l)
        (\<lambda>(p, _) t. (\<forall>I. profile_ok I ?k p) \<and> profile_added ?k p s t) (\<lambda>_ _. True) s"
      by (rule wp_createProfile [OF new]) auto
    show "wp (CreditLearningService_createProfile ?k JUndefined ?l) (\<lambda>_. log_ready (10 + 3 * length (evaluateSignalTypes a))) (\<lambda>_ _. False) s"
      by (rule wp_createProfile_ready [OF new k room m])
    fix r and t :: "'z learning_world_scheme"
    assume "(case r of (p, _) \<Rightarrow> \<lambda>t. (\<forall>I. profile_ok I ?k p) \<and> profile_added ?k p s t) t"
      and "log_ready (10 + 3 * length (evaluateSignalTypes a)) t"
    then show "(case r of (p, _) \<Rightarrow> wp (evaluateCycle False a b p) (\<lambda>_ _. True) (\<lambda>_ _. False)) t"
      by (cases r) (auto simp: profile_added_def intro!: run_cycle [OF tracks_init b a sig])
  qed
  then have "wp (CreditLearningService_evaluate a) (\<lambda>_ _. True) (\<lambda>_ _. False) s"
    using b new by (simp add: CreditLearningService_evaluate_def CreditLearningService_requireOrCreateProfile_def wp_simps Let_def split_def)
  then show ?thesis by (auto simp: wp_def split: prod.splits sum.splits)
qed

subsection \<open>A concrete cycle\<close>

definition demo_learning :: learning_world where
  "demo_learning = \<lparr>rt = demo_runtime, uuidCount = 0, clockCount = 0, creditEvents = [], auditEvents = [],
     seenCreditIds = [], seenAuditIds = [], evidenceEnvelopes = [], aggregateVersions = [], ledger = ledger_empty,
     lockboxes = [], obligationState = \<lparr>os_obligations = [], os_repayments = []\<rparr>,
     mandateState = mandateState demo_mandates, riskState = demo_lines Line_APPROVED, spendState = spendState demo_spend, routesByIdempotencyKey = [],
     learningState = learning_empty\<rparr>"

definition demo_cycle :: evaluate_args where
  "demo_cycle = cycleArgs ''s1'' ''manual'' [''late_repayment''] 9000 4000 8000"

lemma demo_rules: "ruleFor ''late_repayment'' = Some (signalRule (- 40) ''late_repayment'' ''Late repayment weakens the next-cycle policy.'')"
  "ruleFor ''constructor'' = Some \<lparr>sl_delta = None, sl_reasonCode = JUndefined, sl_label = JUndefined\<rparr>"
  by (code_simp, code_simp)

lemma demo_zero_limit: "assertNonNegativeMinorUnits ''currentCreditLimitMinor'' (JStr ''0'') = Inr 0"
  by code_simp

lemma demo_learning_ready: "log_ready 15 demo_learning"
  by (auto simp: log_ready_def demo_learning_def eval_simps)

lemma demo_cycle_run: "\<exists>v t. CreditLearningService_evaluate demo_cycle demo_learning = (Inr v, t)"
proof (rule first_cycle_returns)
  show "evaluateChecks demo_cycle = Inr \<lparr>eb_repaymentPerformanceBps = 9000, eb_utilizationBehaviorBps = 4000, eb_revenueConsistencyBps = 8000\<rparr>"
    by (simp add: evaluateChecks_def demo_cycle_def cycleArgs_def demo_zero_limit assertBps_def js_default_def)
  show "plain_args demo_cycle"
    by (simp add: plain_args_def demo_cycle_def cycleArgs_def evaluateCycleType_def js_default_def clean_string_def js_trim_Cons
        js_space_def MAX_DOMAIN_STRING_LENGTH_def)
  show "\<forall>x\<in>set (evaluateSignalTypes demo_cycle). x \<notin> set OBJECT_PROTOTYPE \<and> ruleFor x \<noteq> None"
    by (simp add: evaluateSignalTypes_def demo_cycle_def cycleArgs_def demo_rules OBJECT_PROTOTYPE_def)
  show "log_ready (12 + 3 * length (evaluateSignalTypes demo_cycle)) demo_learning"
    using demo_learning_ready by (simp add: evaluateSignalTypes_def demo_cycle_def cycleArgs_def)
qed (simp_all add: demo_learning_def learning_empty_def demo_cycle_def cycleArgs_def)

text \<open>
  A signal named like a member of \<open>Object.prototype\<close> passes the lookup, and the score is no number from then on.
\<close>

lemma inherited_signal_destroys_score: "scoreAfter (''constructor'' # xs) sc = None"
  by (induction xs arbitrary: sc) (auto simp: demo_rules)

subsection \<open>Properties\<close>

text \<open>
  C29. Credit profiles are well-typed. In every state the service reaches from an empty one, whatever strings name the
  signals of the calls, a stored profile has a score that is a number between 300 and 850, or \<open>NaN\<close> exactly when one of the
  signals in its history is named like a member of \<open>Object.prototype\<close>. Its tier is the one of that score, it has at most
  twelve recent signals, each on record, a history of scores on the same scale with their tiers that ends in
  the current one, figures in basis points, and a limit that can be read and for which the recommended next
  limit is at most one and a half times as high. Reading the profile returns it with all of its recent signals.
\<close>

theorem learning_profiles_typed:
  fixes s t :: "'z learning_world_scheme"
  assumes "learningState s = learning_empty" and "rtranclp learning_step s t"
    and stored: "jmGet (cs_profiles (learningState t)) k = Some p"
  shows "(case cp_currentScore p of
        Some i \<Rightarrow> 300 \<le> i \<and> i \<le> 850 \<and> \<not> (\<exists>h\<in>set (cp_scoreHistory p). \<exists>x\<in>set OBJECT_PROTOTYPE. se_signalType h = JStr x)
      | None \<Rightarrow> \<exists>h\<in>set (cp_scoreHistory p). \<exists>x\<in>set OBJECT_PROTOTYPE. se_signalType h = JStr x) \<and>
    cp_riskTier p = tierForScore (cp_currentScore p) \<and> se_score (last (cp_scoreHistory p)) = cp_currentScore p \<and>
    (\<forall>h\<in>set (cp_scoreHistory p). se_riskTier h = tierForScore (se_score h) \<and> (\<forall>i. se_score h = Some i \<longrightarrow> 300 \<le> i \<and> i \<le> 850)) \<and>
    length (cp_recentSignalIds p) \<le> 12 \<and>
    (\<exists>gs. CreditLearningService_getProfile k t = (Inr (p, gs), t) \<and>
      map Some gs = map (jmGet (cs_signals (learningState t))) (cp_recentSignalIds p)) \<and>
    {cp_repaymentPerformanceBps p, cp_utilizationBehaviorBps p, cp_revenueConsistencyBps p} \<subseteq> {0..10000} \<and>
    (\<exists>limit next c. toBigInt (cp_currentCreditLimitMinor p) = Inr limit \<and> 0 \<le> limit \<and>
      recommendationForTier (cp_riskTier p) (cp_currentCreditLimitMinor p) = Inr (next, c) \<and> 0 \<le> next \<and> 2 * next \<le> 3 * limit)"
proof -
  have "learning_inv t" using learning_ts.inv_run [OF assms(2) learning_empty_inv [OF assms(1)]] .
  with stored have ok: "profile_ok (signalIds t) k p" by (simp add: learning_inv_def)
  have found: "map Some (List.map_filter (jmGet m) ids) = map (jmGet m) ids" if "set ids \<subseteq> fst ` set m"
    for m :: "reputation_signal jsmap" and ids
    using that by (induction ids) (auto simp: List.map_filter_simps split: option.split dest: weak_map_of_SomeI)
  have "CreditLearningService_getProfile k t =
      (Inr (p, List.map_filter (jmGet (cs_signals (learningState t))) (cp_recentSignalIds p)), t)"
    using stored by (simp add: CreditLearningService_getProfile_def bindM_def getsM_def returnM_def)
  then show ?thesis
    using ok found profile_limit_readable [OF ok]
    by (auto simp: profile_ok_def score_ok_def bps_ok_def inherited_entry_def simp del: tierForScore.simps split: option.split)
qed

theorem learning_profiles_typed_witness:
  "\<exists>t p. rtranclp learning_step demo_learning t \<and> jmGet (cs_profiles (learningState t)) ''s1'' = Some p \<and>
    length (cp_recentSignalIds p) \<le> 12 \<and> cp_riskTier p = tierForScore (cp_currentScore p)"
proof -
  obtain v t where run: "CreditLearningService_evaluate demo_cycle demo_learning = (Inr v, t)" using demo_cycle_run by blast
  then have step: "rtranclp learning_step demo_learning t" by (blast intro: learning_step.evaluate)
  have init: "learningState demo_learning = learning_empty" by (simp add: demo_learning_def)
  have "wp (CreditLearningService_evaluate demo_cycle) (\<lambda>_ t. \<exists>p. jmGet (cs_profiles (learningState t)) ''s1'' = Some p) (\<lambda>_ _. True) demo_learning"
    by (rule wp_evaluate_new) (auto simp: demo_learning_def learning_empty_def demo_cycle_def cycleArgs_def tracks_def profile_added_def)
  from wp_Inr [OF this run] obtain p where p: "jmGet (cs_profiles (learningState t)) ''s1'' = Some p" by blast
  from learning_profiles_typed [OF init step p] step p show ?thesis by blast
qed

text \<open>
  C30. What a learning cycle does. For a subject with a profile, a cycle that returns has stored the score its
  signals lead to, clamped after every one, with its tier, one history entry per signal, and the recommendations
  for that tier, and has touched no other profile. For a subject without one the code evaluates a copy of the
  profile it has just created: the learning event carries the new score, but the profile stored and returned is
  the initial one, with score 500, no recent signal and its single first history entry.
\<close>

theorem evaluate_effect:
  assumes "CreditLearningService_evaluate a s = (Inr v, t)"
  shows "(\<forall>k. k \<noteq> el_subjectId a \<longrightarrow> jmGet (cs_profiles (learningState t)) k = jmGet (cs_profiles (learningState s)) k) \<and>
    (\<exists>q. jmGet (cs_profiles (learningState t)) (el_subjectId a) = Some q \<and> fst (vn_profile v) = q \<and>
      (case jmGet (cs_profiles (learningState s)) (el_subjectId a) of
         Some p \<Rightarrow> cp_currentScore q = scoreAfter (evaluateSignalTypes a) (cp_currentScore p) \<and>
           ln_score (vn_learningEvent v) = cp_currentScore q \<and>
           cp_riskTier q = (if evaluateSignalTypes a = [] then cp_riskTier p else tierForScore (cp_currentScore q)) \<and>
           length (cp_scoreHistory q) = length (cp_scoreHistory p) + length (evaluateSignalTypes a) \<and>
           cp_recommendedNextCreditLimitMinor q = JStr (dec (lr_recommendedLimitMinor (vn_limitRecommendation v))) \<and>
           (\<exists>c. recommendationForTier (cp_riskTier q) (cp_currentCreditLimitMinor q) =
             Inr (lr_recommendedLimitMinor (vn_limitRecommendation v), c)) \<and>
           cp_recommendedDemoInterestRateBps q = demoInterestRateForTier (cp_riskTier q)
       | None \<Rightarrow> cp_currentScore q = Some 500 \<and> cp_riskTier q = Tier_WATCH \<and> cp_recentSignalIds q = [] \<and>
           length (cp_scoreHistory q) = 1 \<and> cp_repaymentPerformanceBps q = 0 \<and>
           ln_score (vn_learningEvent v) = scoreAfter (evaluateSignalTypes a) (Some 500)))" (is "?P v t")
proof (cases "jmGet (cs_profiles (learningState s)) (el_subjectId a)")
  case None
  have "wp (CreditLearningService_evaluate a) ?P (\<lambda>_ _. True) s"
    by (rule wp_evaluate_new [OF None])
      (auto simp: None tracks_def profile_added_def cycle_result_def signals_applied_def fresh_profile_def dest: arg_cong [where f = length])
  from wp_Inr [OF this assms] show ?thesis .
next
  case (Some p)
  have "wp (CreditLearningService_evaluate a) ?P (\<lambda>_ _. True) s"
    by (rule wp_evaluate_known [OF Some, where G = False])
      (auto simp: Some tracks_def cycle_result_def signals_applied_def)
  from wp_Inr [OF this assms] show ?thesis .
qed

theorem evaluate_effect_witness:
  "\<exists>v t q. CreditLearningService_evaluate demo_cycle demo_learning = (Inr v, t) \<and>
    jmGet (cs_profiles (learningState t)) ''s1'' = Some q \<and> cp_currentScore q = Some 500 \<and>
    ln_score (vn_learningEvent v) = Some 460"
proof -
  obtain v t where run: "CreditLearningService_evaluate demo_cycle demo_learning = (Inr v, t)" using demo_cycle_run by blast
  with evaluate_effect [OF run] show ?thesis
    by (auto simp: demo_learning_def learning_empty_def demo_cycle_def cycleArgs_def evaluateSignalTypes_def demo_rules signalRule_def)
qed

end
