(* ===== verification/Identity.thy ===== *)
theory Identity
  imports Credit_Learning
begin

text \<open>
  \<open>modules/identity/src/identity-service.js\<close> with \<open>createPrincipal\<close>, \<open>createSubject\<close>, \<open>createWalletAccount\<close> and
  \<open>createAccountBinding\<close> of \<open>models.js\<close>: principals, the subjects they stand behind, and the accounts bound to a
  subject. The signature verifier is injected into the service; it is a parameter kept in the state, and nothing is
  assumed of it. The inputs of \<open>createPrincipal\<close> and \<open>createSubject\<close> are objects, since the checks walk their keys;
  a date among their fields is a separate parameter. A binding has no \<open>revokedAt\<close>: it is undefined and never set.
\<close>

subsection \<open>Enums and records\<close>

datatype SubjectType = SubjectType_AGENT | SubjectType_HUMAN | SubjectType_ORG | SubjectType_ORIGINATOR

definition SubjectType_values :: "(string \<times> SubjectType) list" where
  "SubjectType_values = [(''agent'', SubjectType_AGENT), (''human'', SubjectType_HUMAN), (''org'', SubjectType_ORG),
     (''originator'', SubjectType_ORIGINATOR)]"

datatype PrincipalType = PrincipalType_HUMAN_SELF | PrincipalType_DEVELOPER | PrincipalType_COMPANY
  | PrincipalType_ORIGINATOR | PrincipalType_EMPLOYER | PrincipalType_PLATFORM

definition PrincipalType_values :: "(string \<times> PrincipalType) list" where
  "PrincipalType_values = [(''human_self'', PrincipalType_HUMAN_SELF), (''developer'', PrincipalType_DEVELOPER),
     (''company'', PrincipalType_COMPANY), (''originator'', PrincipalType_ORIGINATOR),
     (''employer'', PrincipalType_EMPLOYER), (''platform'', PrincipalType_PLATFORM)]"

datatype AccountBindingStatus = Binding_ACTIVE | Binding_REVOKED | Binding_COMPROMISED

record principal =
  pr_principalId :: string
  pr_principalHash :: string
  pr_principalType :: PrincipalType
  pr_legalEntityRef :: js
  pr_jurisdiction :: js
  pr_responsibilityScope :: string
  pr_linkedSubjectIds :: "string list"
  pr_status :: PrincipalStatus
  pr_createdAt :: int
  pr_schemaVersion :: string

record subject =
  sb_subjectId :: string
  sb_subjectHash :: string
  sb_subjectType :: SubjectType
  sb_displayName :: string
  sb_primaryPrincipalId :: string
  sb_linkedAccountIds :: "string list"
  sb_status :: SubjectStatus
  sb_riskTier :: string
  sb_metadataRef :: js
  sb_prototypeOnly :: js
  sb_createdAt :: int
  sb_updatedAt :: int
  sb_schemaVersion :: string

record wallet_account =
  wa_accountId :: string
  wa_accountHash :: string
  wa_purpose :: js
  wa_verifiedAt :: int
  wa_verificationMethod :: string
  wa_status :: AccountBindingStatus
  wa_schemaVersion :: string

record account_binding =
  ab_accountBindingId :: string
  ab_subjectId :: string
  ab_accountHash :: string
  ab_accountIdRef :: string
  ab_chainId :: string
  ab_purpose :: js
  ab_signatureHash :: string
  ab_nonce :: string
  ab_status :: AccountBindingStatus
  ab_boundAt :: int
  ab_schemaVersion :: string

text \<open>The verifier is called with subject, account, signature, nonce and purpose.\<close>

record identity_state =
  is_accountBindingVerifier :: "(string \<Rightarrow> string \<Rightarrow> string \<Rightarrow> string \<Rightarrow> js \<Rightarrow> js) option"
  is_allowUnverifiedDemoBindings :: bool
  is_principals :: "principal jsmap"
  is_subjects :: "subject jsmap"
  is_accountBindings :: "account_binding jsmap"
  is_accountHashToSubject :: "string jsmap"

record identity_world = learning_world +
  identityState :: identity_state

subsection \<open>Constructors\<close>

definition createPrincipal :: "js \<Rightarrow> PrincipalType \<Rightarrow> int option \<Rightarrow> ('z host_scheme, principal) M" where
  "createPrincipal input principalType nowArg =
     bindM (nowOr nowArg) (\<lambda>now.
     let jurisdiction = js_default (js_get ''jurisdiction'' input) (JStr ''global'');
         legalEntityRef = js_get ''legalEntityRef'' input in
     bindM (hashM ''principal'' (JObj [(''principalType'', js_get ''principalType'' input), (''jurisdiction'', jurisdiction),
       (''legalEntityRef'', js_coalesce legalEntityRef JNull)])) (\<lambda>principalHash.
     bindM (createOperationalId ''principal'') (\<lambda>principalId.
     returnM
       \<lparr>pr_principalId = principalId, pr_principalHash = principalHash, pr_principalType = principalType,
        pr_legalEntityRef = legalEntityRef, pr_jurisdiction = jurisdiction, pr_responsibilityScope = ''full'',
        pr_linkedSubjectIds = [], pr_status = Principal_ACTIVE, pr_createdAt = now, pr_schemaVersion = ''principal.v1''\<rparr>)))"

definition createSubject :: "js \<Rightarrow> SubjectType \<Rightarrow> string \<Rightarrow> string \<Rightarrow> int option \<Rightarrow> ('z host_scheme, subject) M" where
  "createSubject input subjectType displayName primaryPrincipalId nowArg =
     bindM (nowOr nowArg) (\<lambda>now.
     let metadataRef = js_get ''metadataRef'' input;
         prototypeOnly = js_default (js_get ''prototypeOnly'' input) (JBool False) in
     bindM (hashM ''subject'' (JObj [(''subjectType'', js_get ''subjectType'' input),
       (''primaryPrincipalId'', JStr primaryPrincipalId), (''displayName'', JStr displayName),
       (''metadataRef'', js_coalesce metadataRef JNull)])) (\<lambda>subjectHash.
     bindM (createOperationalId ''subject'') (\<lambda>subjectId.
     returnM
       \<lparr>sb_subjectId = subjectId, sb_subjectHash = subjectHash, sb_subjectType = subjectType, sb_displayName = displayName,
        sb_primaryPrincipalId = primaryPrincipalId, sb_linkedAccountIds = [], sb_status = Subject_PENDING,
        sb_riskTier = ''unrated'', sb_metadataRef = metadataRef, sb_prototypeOnly = prototypeOnly,
        sb_createdAt = now, sb_updatedAt = now, sb_schemaVersion = ''subject.v1''\<rparr>)))"

definition createWalletAccount :: "string \<Rightarrow> js \<Rightarrow> string \<Rightarrow> ('z host_scheme, wallet_account) M" where
  "createWalletAccount accountId purpose verificationMethod =
     bindM newDate (\<lambda>now.
     bindM (getsM rt) (\<lambda>r.
     returnM
       \<lparr>wa_accountId = accountId, wa_accountHash = createAccountHash r accountId, wa_purpose = purpose,
        wa_verifiedAt = now, wa_verificationMethod = verificationMethod, wa_status = Binding_ACTIVE,
        wa_schemaVersion = ''wallet_account.v1''\<rparr>))"

text \<open>\<open>accountId.split(":").slice(0, 2).join(":")\<close>, on an identifier that has passed the CAIP-10 check.\<close>

definition accountChainId :: "string \<Rightarrow> string" where
  "accountChainId accountId =
     takeWhile (\<lambda>c. c \<noteq> CHR '':'') accountId @ '':'' @
     takeWhile (\<lambda>c. c \<noteq> CHR '':'') (tl (dropWhile (\<lambda>c. c \<noteq> CHR '':'') accountId))"

definition createAccountBinding ::
  "string \<Rightarrow> wallet_account \<Rightarrow> string \<Rightarrow> string \<Rightarrow> ('z host_scheme, account_binding) M" where
  "createAccountBinding subjectId account signatureHash nonce =
     bindM newDate (\<lambda>now.
     bindM (createOperationalId ''account_binding'') (\<lambda>accountBindingId.
     returnM
       \<lparr>ab_accountBindingId = accountBindingId, ab_subjectId = subjectId, ab_accountHash = wa_accountHash account,
        ab_accountIdRef = wa_accountId account, ab_chainId = accountChainId (wa_accountId account),
        ab_purpose = wa_purpose account, ab_signatureHash = signatureHash, ab_nonce = nonce, ab_status = Binding_ACTIVE,
        ab_boundAt = now, ab_schemaVersion = ''account_binding.v1''\<rparr>))"

subsection \<open>Operations\<close>

definition IdentityService_createPrincipal :: "js \<Rightarrow> int option \<Rightarrow> ('z identity_world_scheme, principal) M" where
  "IdentityService_createPrincipal input now =
     bindM (liftR (assertEnumValue ''principalType'' (js_get ''principalType'' input) PrincipalType_values)) (\<lambda>principalType.
     thenM (liftR (assertNoRawPiiReference input))
     (bindM (createPrincipal input principalType now) (\<lambda>principal.
     thenM (modifyM (identityState_update (is_principals_update (jmSet (pr_principalId principal) principal))))
     (thenM (emitCreditEvent (eventArgs ''principal_created'' JUndefined (JObj
        [(''principalId'', JStr (pr_principalId principal)), (''principalHash'', JStr (pr_principalHash principal))])))
     (returnM principal)))))"

definition IdentityService_createSubject :: "js \<Rightarrow> int option \<Rightarrow> ('z identity_world_scheme, subject) M" where
  "IdentityService_createSubject input now =
     bindM (liftR (assertEnumValue ''subjectType'' (js_get ''subjectType'' input) SubjectType_values)) (\<lambda>subjectType.
     bindM (liftR (assertNonEmptyString ''displayName'' (js_get ''displayName'' input))) (\<lambda>displayName.
     bindM (getsM (\<lambda>s. jsGet (is_principals (identityState s)) (js_get ''primaryPrincipalId'' input))) (\<lambda>found.
     thenM (throwIf (case found of None \<Rightarrow> True | Some p \<Rightarrow> pr_status p \<noteq> Principal_ACTIVE)
       ''principal_not_active'' ''subject requires an active principal'')
     (thenM (throwIf (subjectType = SubjectType_HUMAN \<and> js_get ''prototypeOnly'' input \<noteq> JBool True)
       ''human_production_lending_blocked'' ''Human subjects are prototype-only in MVP'')
     (thenM (liftR (assertNoRawPiiReference (js_coalesce (js_get ''metadata'' input) (JObj []))))
     (let principalId = js_string (js_get ''primaryPrincipalId'' input) in
     bindM (createSubject input subjectType displayName principalId now) (\<lambda>subject.
     thenM (modifyM (identityState_update (is_subjects_update (jmSet (sb_subjectId subject) subject))))
     (thenM (modifyM (identityState_update (is_principals_update (jmModify principalId
        (pr_linkedSubjectIds_update (\<lambda>ids. ids @ [sb_subjectId subject]))))))
     (thenM (emitCreditEvent (eventArgs ''subject_created'' (JStr (sb_subjectId subject)) (JObj
        [(''subjectId'', JStr (sb_subjectId subject)), (''subjectHash'', JStr (sb_subjectHash subject)),
         (''subjectType'', js_get ''subjectType'' input), (''primaryPrincipalId'', JStr (sb_primaryPrincipalId subject))])))
     (returnM subject))))))))))"

definition IdentityService_requireSubject :: "string \<Rightarrow> ('z identity_world_scheme, subject) M" where
  "IdentityService_requireSubject subjectId =
     bindM (getsM (\<lambda>s. jmGet (is_subjects (identityState s)) subjectId)) (\<lambda>found.
     case found of
       None \<Rightarrow> throwM (DomainError ''subject_not_found'' ''subject not found'')
     | Some subject \<Rightarrow> returnM subject)"

definition updateSubject :: "string \<Rightarrow> (subject \<Rightarrow> subject) \<Rightarrow> ('z identity_world_scheme, unit) M" where
  "updateSubject subjectId f = modifyM (identityState_update (is_subjects_update (jmModify subjectId f)))"

definition IdentityService_activateSubject :: "string \<Rightarrow> ('z identity_world_scheme, subject) M" where
  "IdentityService_activateSubject subjectId =
     bindM (IdentityService_requireSubject subjectId) (\<lambda>subject.
     thenM (liftR (assertTransition ''subject'' SubjectStatus_str SubjectTransitions (sb_status subject) Subject_ACTIVE))
     (bindM newDate (\<lambda>now.
     thenM (updateSubject subjectId (\<lambda>x. x\<lparr>sb_status := Subject_ACTIVE, sb_updatedAt := now\<rparr>))
     (thenM (emitCreditEvent (eventArgs ''subject_status_changed'' (JStr subjectId) (JObj
        [(''subjectId'', JStr subjectId), (''previousStatus'', JStr (SubjectStatus_str (sb_status subject))),
         (''newStatus'', JStr (SubjectStatus_str Subject_ACTIVE))])))
     (IdentityService_requireSubject subjectId)))))"

definition IdentityService_suspendSubject :: "string \<Rightarrow> js \<Rightarrow> ('z identity_world_scheme, subject) M" where
  "IdentityService_suspendSubject subjectId reason =
     bindM (IdentityService_requireSubject subjectId) (\<lambda>subject.
     thenM (liftR (assertTransition ''subject'' SubjectStatus_str SubjectTransitions (sb_status subject) Subject_SUSPENDED))
     (bindM newDate (\<lambda>now.
     thenM (updateSubject subjectId (\<lambda>x. x\<lparr>sb_status := Subject_SUSPENDED, sb_updatedAt := now\<rparr>))
     (thenM (emitCreditEvent (eventArgs ''subject_status_changed'' (JStr subjectId) (JObj
        [(''subjectId'', JStr subjectId), (''previousStatus'', JStr (SubjectStatus_str (sb_status subject))),
         (''newStatus'', JStr (SubjectStatus_str Subject_SUSPENDED)), (''reason'', reason)])))
     (IdentityService_requireSubject subjectId)))))"

text \<open>How the binding is verified: the name of the method, or the error.\<close>

definition verifyBinding :: "identity_state \<Rightarrow> string \<Rightarrow> string \<Rightarrow> string \<Rightarrow> string \<Rightarrow> js \<Rightarrow> string res" where
  "verifyBinding S subjectId accountId signature nonce purpose =
     (case is_accountBindingVerifier S of
        Some verifier \<Rightarrow>
          if verifier subjectId accountId signature nonce purpose \<noteq> JBool True
          then fail ''account_binding_verification_failed'' ''account binding signature verification failed''
          else Inr ''verified_signature''
      | None \<Rightarrow>
          if \<not> is_allowUnverifiedDemoBindings S
          then fail ''account_binding_verifier_required''
            ''account binding requires a configured verifier outside explicit demo mode''
          else Inr ''demo_unverified'')"

definition IdentityService_bindAccount ::
  "string \<Rightarrow> js \<Rightarrow> js \<Rightarrow> js \<Rightarrow> js \<Rightarrow> ('z identity_world_scheme, account_binding) M" where
  "IdentityService_bindAccount subjectId accountArg signatureArg nonceArg purposeArg =
     (let purpose = js_default purposeArg (JStr ''primary'') in
      bindM (IdentityService_requireSubject subjectId) (\<lambda>subject.
      thenM (throwIf (sb_status subject \<noteq> Subject_ACTIVE) ''subject_not_active'' ''only active subjects can bind accounts'')
      (bindM (liftR (assertCAIP10 accountArg)) (\<lambda>accountId.
      bindM (liftR (assertNonEmptyString ''signature'' signatureArg)) (\<lambda>signature.
      bindM (liftR (assertNonEmptyString ''nonce'' nonceArg)) (\<lambda>nonce.
      bindM (getsM identityState) (\<lambda>S.
      bindM (liftR (verifyBinding S subjectId accountId signature nonce purpose)) (\<lambda>verificationMethod.
      bindM (createWalletAccount accountId purpose verificationMethod) (\<lambda>account.
      thenM (throwIf (jmGet (is_accountHashToSubject S) (wa_accountHash account) \<noteq> None) ''account_already_bound''
        ''CAIP-10 account is already bound'')
      (bindM (liftR (chainIdFromCAIP10 accountArg)) (\<lambda>chainId.
      bindM (hashM ''signature'' (JObj [(''signature'', JStr signature), (''nonce'', JStr nonce), (''chainId'', JStr chainId)])) (\<lambda>signatureHash.
      bindM (createAccountBinding subjectId account signatureHash nonce) (\<lambda>binding.
      thenM (modifyM (identityState_update (is_accountBindings_update (jmSet (ab_accountBindingId binding) binding))))
      (thenM (modifyM (identityState_update (is_accountHashToSubject_update (jmSet (wa_accountHash account) subjectId))))
      (thenM (updateSubject subjectId (sb_linkedAccountIds_update (\<lambda>ids. ids @ [ab_accountBindingId binding])))
      (thenM (emitCreditEvent ((eventArgs ''wallet_bound'' (JStr subjectId) (JObj
          [(''subjectId'', JStr subjectId), (''accountHash'', JStr (ab_accountHash binding)), (''purpose'', purpose),
           (''signatureHash'', JStr signatureHash), (''nonce'', JStr nonce), (''verificationMethod'', JStr verificationMethod)]))
          \<lparr>ca_chainId := JStr (ab_chainId binding)\<rparr>))
      (returnM binding)))))))))))))))))"

definition IdentityService_getSubject :: "string \<Rightarrow> ('z identity_world_scheme, subject) M" where
  "IdentityService_getSubject subjectId = IdentityService_requireSubject subjectId"

definition IdentityService_getPrincipal :: "string \<Rightarrow> ('z identity_world_scheme, principal) M" where
  "IdentityService_getPrincipal principalId =
     bindM (getsM (\<lambda>s. jmGet (is_principals (identityState s)) principalId)) (\<lambda>found.
     case found of
       None \<Rightarrow> throwM (DomainError ''principal_not_found'' ''principal not found'')
     | Some p \<Rightarrow> returnM p)"

definition IdentityService_listSubjects :: "identity_state \<Rightarrow> subject list" where
  "IdentityService_listSubjects S = jmValues (is_subjects S)"

subsection \<open>The invariant\<close>

text \<open>
  Subjects belong to stored principals that list them, humans are prototypes only, every binding is listed by its
  subject and registered under the hash of its account, and no account hash occurs in two bindings. \<open>I\<close>, \<open>J\<close> and
  \<open>K\<close> are the identifiers of principals, subjects and bindings handed out so far.
\<close>

definition subject_ok :: "identity_state \<Rightarrow> string \<Rightarrow> subject \<Rightarrow> bool" where
  "subject_ok S k x \<longleftrightarrow> sb_subjectId x = k \<and> (sb_subjectType x = SubjectType_HUMAN \<longrightarrow> sb_prototypeOnly x = JBool True) \<and>
     (\<exists>p. jmGet (is_principals S) (sb_primaryPrincipalId x) = Some p \<and> k \<in> set (pr_linkedSubjectIds p)) \<and>
     distinct (sb_linkedAccountIds x) \<and>
     (\<forall>i. i \<in> set (sb_linkedAccountIds x) \<longleftrightarrow>
        (\<exists>b. jmGet (is_accountBindings S) i = Some b \<and> ab_subjectId b = k))"

definition binding_ok :: "runtime \<Rightarrow> identity_state \<Rightarrow> string \<Rightarrow> account_binding \<Rightarrow> bool" where
  "binding_ok r S i b \<longleftrightarrow> ab_accountBindingId b = i \<and> ab_accountHash b = createAccountHash r (ab_accountIdRef b) \<and> jmGet (is_subjects S) (ab_subjectId b) \<noteq> None \<and>
     jmGet (is_accountHashToSubject S) (ab_accountHash b) = Some (ab_subjectId b)"

definition identity_ok :: "runtime \<Rightarrow> string set \<Rightarrow> string set \<Rightarrow> string set \<Rightarrow> identity_state \<Rightarrow> bool" where
  "identity_ok r I J K S \<longleftrightarrow> fst ` set (is_principals S) \<subseteq> I \<and> fst ` set (is_subjects S) \<subseteq> J \<and>
     fst ` set (is_accountBindings S) \<subseteq> K \<and>
     (\<forall>k x. jmGet (is_subjects S) k = Some x \<longrightarrow> subject_ok S k x) \<and>
     (\<forall>i b. jmGet (is_accountBindings S) i = Some b \<longrightarrow> binding_ok r S i b) \<and>
     (\<forall>i b i' b'. jmGet (is_accountBindings S) i = Some b \<longrightarrow> jmGet (is_accountBindings S) i' = Some b' \<longrightarrow>
        ab_accountHash b = ab_accountHash b' \<longrightarrow> i = i')"

definition identity_inv :: "'z identity_world_scheme \<Rightarrow> bool" where
  "identity_inv s \<longleftrightarrow> uuid_unique (rt s) \<and>
     identity_ok (rt s) (issued s ''principal'') (issued s ''subject'') (issued s ''account_binding'') (identityState s)"

lemma identity_ok_mono: "identity_ok r I J K S \<Longrightarrow> I \<subseteq> I' \<Longrightarrow> J \<subseteq> J' \<Longrightarrow> K \<subseteq> K' \<Longrightarrow> identity_ok r I' J' K' S"
  by (auto simp: identity_ok_def)

lemma identity_okD:
  assumes "identity_ok r I J K S"
  shows "jmGet (is_subjects S) k = Some x \<Longrightarrow> subject_ok S k x"
    and "jmGet (is_accountBindings S) i = Some b \<Longrightarrow> binding_ok r S i b"
  using assms by (auto simp: identity_ok_def)

lemma log_ext_identity: "log_ext s t \<Longrightarrow> identityState t = identityState s"
  for s t :: "'z identity_world_scheme"
  by (cases s; cases t) (auto simp: log_ext_def)

lemma identity_inv_log: "identity_inv s \<Longrightarrow> log_ext s t \<Longrightarrow> identity_inv t"
  using identity_ok_mono log_ext_issued [of s t] by (auto simp: identity_inv_def log_ext_identity log_ext_rt)

text \<open>Adding a principal, a subject and a binding, and changing the status of a subject.\<close>

lemma identity_ok_principal:
  assumes ok: "identity_ok r I J K S" and new: "k \<notin> I"
  shows "identity_ok r (insert k I) J K (is_principals_update (jmSet k p) S)"
proof -
  have none: "jmGet (is_principals S) k = None" using ok new by (auto simp: identity_ok_def map_of_eq_None_iff)
  have sub: "subject_ok (is_principals_update (jmSet k p) S) k' x" if "subject_ok S k' x" for k' x
    using that none by (auto simp: subject_ok_def)
  have bind: "binding_ok r (is_principals_update (jmSet k p) S) = binding_ok r S" by (intro ext) (simp add: binding_ok_def)
  show ?thesis using ok sub by (auto simp: identity_ok_def dom_update bind)
qed

lemma identity_ok_subject:
  assumes ok: "identity_ok r I J K S" and new: "k \<notin> J" and p: "jmGet (is_principals S) q \<noteq> None"
    and x: "sb_subjectId x = k" "sb_primaryPrincipalId x = q" "sb_linkedAccountIds x = []"
      "sb_subjectType x = SubjectType_HUMAN \<longrightarrow> sb_prototypeOnly x = JBool True"
  shows "identity_ok r I (insert k J) K (is_principals_update (jmModify q (pr_linkedSubjectIds_update (\<lambda>ids. ids @ [k])))
    (is_subjects_update (jmSet k x) S))" (is "identity_ok _ _ _ _ ?S")
proof -
  have none: "jmGet (is_subjects S) k = None" using ok new by (auto simp: identity_ok_def map_of_eq_None_iff)
  have free: "ab_subjectId b \<noteq> k" if "jmGet (is_accountBindings S) i = Some b" for i b
    using identity_okD(2) [OF ok that] none by (auto simp: binding_ok_def)
  have old: "subject_ok ?S k' y" if "subject_ok S k' y" "k' \<noteq> k" for k' y
    using that by (auto simp: subject_ok_def)
  have "subject_ok ?S k x" using p x free by (auto simp: subject_ok_def)
  moreover have "binding_ok r ?S i b" if "binding_ok r S i b" for i b using that by (auto simp: binding_ok_def)
  ultimately show ?thesis using ok old by (auto simp: identity_ok_def dom_update)
qed

lemma identity_ok_status:
  assumes ok: "identity_ok r I J K S"
  shows "identity_ok r I J K (is_subjects_update (jmModify k (\<lambda>x. x\<lparr>sb_status := st, sb_updatedAt := now\<rparr>)) S)"
    (is "identity_ok _ _ _ _ ?S")
proof -
  have "subject_ok ?S k' x" if "jmGet (is_subjects ?S) k' = Some x" for k' x
    using that identity_okD(1) [OF ok] by (auto simp: subject_ok_def split: if_splits)
  moreover have "binding_ok r ?S i b" if "jmGet (is_accountBindings ?S) i = Some b" for i b
    using identity_okD(2) [OF ok, of i b] that by (auto simp: binding_ok_def)
  moreover have "fst ` set (is_principals ?S) \<subseteq> I \<and> fst ` set (is_subjects ?S) \<subseteq> J \<and> fst ` set (is_accountBindings ?S) \<subseteq> K"
    using ok by (simp add: identity_ok_def)
  ultimately show ?thesis using ok unfolding identity_ok_def by auto
qed

lemma identity_ok_binding:
  assumes ok: "identity_ok r I J K S" and new: "ab_accountBindingId b \<notin> K" and sub: "jmGet (is_subjects S) (ab_subjectId b) \<noteq> None"
    and free: "jmGet (is_accountHashToSubject S) (ab_accountHash b) = None" and h: "ab_accountHash b = createAccountHash r (ab_accountIdRef b)"
  shows "identity_ok r I J (insert (ab_accountBindingId b) K)
    (is_subjects_update (jmModify (ab_subjectId b) (sb_linkedAccountIds_update (\<lambda>ids. ids @ [ab_accountBindingId b])))
      (is_accountHashToSubject_update (jmSet (ab_accountHash b) (ab_subjectId b))
        (is_accountBindings_update (jmSet (ab_accountBindingId b) b) S)))" (is "identity_ok _ _ _ _ ?S")
proof -
  let ?i = "ab_accountBindingId b"
  have none: "jmGet (is_accountBindings S) ?i = None" using ok new by (auto simp: identity_ok_def map_of_eq_None_iff)
  have hash: "ab_accountHash b' \<noteq> ab_accountHash b" if "jmGet (is_accountBindings S) i = Some b'" for i b'
    using identity_okD(2) [OF ok that] free by (auto simp: binding_ok_def)
  have notin: "?i \<notin> set (sb_linkedAccountIds x)" if "jmGet (is_subjects S) k = Some x" for k x
    using identity_okD(1) [OF ok that] none by (auto simp: subject_ok_def)
  have subs: "subject_ok ?S k x" if "jmGet (is_subjects ?S) k = Some x" for k x
    using that ok notin none by (auto simp: identity_ok_def subject_ok_def split: if_splits)
  have binds: "binding_ok r ?S i b'" if "jmGet (is_accountBindings ?S) i = Some b'" for i b'
    using that identity_okD(2) [OF ok, of i b'] sub h hash [of i b'] by (auto simp: binding_ok_def split: if_splits)
  have one: "i = i'" if "jmGet (is_accountBindings ?S) i = Some c" "jmGet (is_accountBindings ?S) i' = Some c'"
      "ab_accountHash c = ab_accountHash c'" for i i' c c'
    using that ok hash [of i c] hash [of i' c'] by (auto simp: identity_ok_def split: if_splits)
  have "fst ` set (is_principals ?S) \<subseteq> I \<and> fst ` set (is_subjects ?S) \<subseteq> J \<and> fst ` set (is_accountBindings ?S) \<subseteq> insert ?i K"
    using ok by (auto simp: identity_ok_def dom_update)
  with subs binds one show ?thesis unfolding identity_ok_def by blast
qed

subsection \<open>Every operation preserves it\<close>

text \<open>A step of the service: the state of the service becomes \<open>S'\<close>, at most one identifier has been drawn for it, events are appended.\<close>

lemma identity_inv_step:
  fixes s t :: "'z identity_world_scheme"
  assumes inv: "identity_inv s" and rt: "rt t = rt s" and uuid: "Suc (uuidCount s) \<le> uuidCount t"
    and ok: "identity_ok (rt s) (issued s ''principal'') (issued s ''subject'') (issued s ''account_binding'') (identityState s) \<Longrightarrow>
      identity_ok (rt s) (insert (opId (rt s) ''principal'' (uuidCount s)) (issued s ''principal''))
        (insert (opId (rt s) ''subject'' (uuidCount s)) (issued s ''subject''))
        (insert (opId (rt s) ''account_binding'' (uuidCount s)) (issued s ''account_binding'')) (identityState t)"
  shows "identity_inv t"
proof -
  have sub: "insert (opId (rt s) q (uuidCount s)) (issued s q) \<subseteq> issued t q" for q
    using issued_mono [OF rt, of q] opId_issued [of "uuidCount s" t q] rt uuid by auto
  from identity_ok_mono [OF ok sub sub sub] inv rt show ?thesis by (simp add: identity_inv_def)
qed

lemma preserves_createPrincipal: "preserves identity_inv (IdentityService_createPrincipal input now)"
proof (rule preservesI)
  fix s :: "'z identity_world_scheme"
  assume inv: "identity_inv s"
  let ?k = "opId (rt s) ''principal'' (uuidCount s)"
  have "?k \<notin> issued s ''principal''" using inv issued_fresh by (auto simp: identity_inv_def)
  then have step: "identity_inv (identityState_update (is_principals_update (jmSet ?k p)) (s\<lparr>clockCount := c, uuidCount := Suc (uuidCount s)\<rparr>))"
    for p c
    by (intro identity_inv_step [OF inv]) (auto intro: identity_ok_mono [OF identity_ok_principal])
  then have step': "identity_inv (identityState_update (is_principals_update (jmSet ?k p)) (s\<lparr>uuidCount := Suc (uuidCount s)\<rparr>))" for p
    using step [of p "clockCount s"] by simp
  show "wp (IdentityService_createPrincipal input now) (\<lambda>_. identity_inv) (\<lambda>_. identity_inv) s"
    unfolding IdentityService_createPrincipal_def createPrincipal_def
    using inv by (auto simp: wp_simps Let_def split: sum.split option.split intro!: wp_emitI intro: identity_inv_log [OF step] identity_inv_log [OF step'])
qed

lemma wp_createSubject:
  fixes s :: "'z identity_world_scheme"
  assumes "\<And>x u. identityState u = identityState s \<Longrightarrow> rt u = rt s \<Longrightarrow> uuidCount u = Suc (uuidCount s) \<Longrightarrow>
    sb_subjectId x = opId (rt s) ''subject'' (uuidCount s) \<Longrightarrow> sb_primaryPrincipalId x = q \<Longrightarrow> sb_linkedAccountIds x = [] \<Longrightarrow>
    sb_subjectType x = ty \<Longrightarrow> sb_prototypeOnly x = js_default (js_get ''prototypeOnly'' input) (JBool False) \<Longrightarrow> Q x u"
  shows "wp (createSubject input ty dn q now) Q E s"
  unfolding createSubject_def by (auto simp: wp_simps Let_def split: option.split intro!: assms)

lemma preserves_createSubject: "preserves identity_inv (IdentityService_createSubject input now)"
proof (rule preservesI)
  fix s :: "'z identity_world_scheme"
  assume inv: "identity_inv s"
  let ?k = "opId (rt s) ''subject'' (uuidCount s)"
  have new: "?k \<notin> issued s ''subject''" using inv issued_fresh by (auto simp: identity_inv_def)
  have step: "identity_inv t"
    if "identityState u = is_principals_update (jmModify q (pr_linkedSubjectIds_update (\<lambda>ids. ids @ [?k])))
        (is_subjects_update (jmSet ?k x) (identityState s))" "rt u = rt s" "uuidCount u = Suc (uuidCount s)" "log_ext u t"
      "jmGet (is_principals (identityState s)) q \<noteq> None" "sb_subjectId x = ?k" "sb_primaryPrincipalId x = q" "sb_linkedAccountIds x = []"
      "sb_subjectType x = SubjectType_HUMAN \<longrightarrow> sb_prototypeOnly x = JBool True" for q x and u t :: "'z identity_world_scheme"
  proof -
    have "identity_inv u"
      by (rule identity_inv_step [OF inv]) (use that new in \<open>auto intro: identity_ok_mono [OF identity_ok_subject]\<close>)
    then show ?thesis by (rule identity_inv_log [OF _ that(4)])
  qed
  have tail: "wp (thenM (modifyM (identityState_update (is_subjects_update (jmSet (sb_subjectId x) x))))
     (thenM (modifyM (identityState_update (is_principals_update (jmModify q
        (pr_linkedSubjectIds_update (\<lambda>ids. ids @ [sb_subjectId x]))))))
     (thenM (emitCreditEvent e) (returnM x)))) (\<lambda>_. identity_inv) (\<lambda>_. identity_inv) u"
    if u: "identityState u = identityState s" "rt u = rt s" "uuidCount u = Suc (uuidCount s)"
      and x: "jmGet (is_principals (identityState s)) q \<noteq> None" "sb_subjectId x = ?k" "sb_primaryPrincipalId x = q" "sb_linkedAccountIds x = []"
      "sb_subjectType x = SubjectType_HUMAN \<longrightarrow> sb_prototypeOnly x = JBool True" for q x e and u :: "'z identity_world_scheme"
    unfolding wp_thenM wp_modifyM wp_returnM
    by (rule wp_emitI; rule step [OF _ _ _ _ x]) (use u x(2) in auto)
  show "wp (IdentityService_createSubject input now) (\<lambda>_. identity_inv) (\<lambda>_. identity_inv) s"
  proof (cases "jsGet (is_principals (identityState s)) (js_get ''primaryPrincipalId'' input)")
    case None
    with inv show ?thesis by (simp add: IdentityService_createSubject_def wp_simps split: sum.split)
  next
    case (Some p)
    then obtain q where q: "js_get ''primaryPrincipalId'' input = JStr q" "jmGet (is_principals (identityState s)) q = Some p"
      by (auto simp: jsGet_def split: js.splits)
    have make: "wp (bindM (createSubject input ty dn q now) (\<lambda>x. thenM (modifyM (identityState_update (is_subjects_update (jmSet (sb_subjectId x) x))))
       (thenM (modifyM (identityState_update (is_principals_update (jmModify q
          (pr_linkedSubjectIds_update (\<lambda>ids. ids @ [sb_subjectId x]))))))
       (thenM (emitCreditEvent (e x)) (returnM x))))) (\<lambda>_. identity_inv) (\<lambda>_. identity_inv) s"
      if "ty = SubjectType_HUMAN \<longrightarrow> js_get ''prototypeOnly'' input = JBool True" for ty dn e
      unfolding wp_bindM by (rule wp_createSubject, rule tail) (use that q(2) in \<open>auto simp: js_default_def\<close>)
    with Some q inv show ?thesis
      unfolding IdentityService_createSubject_def Let_def
      by (simp only: wp_bindM [where m = "liftR x" for x] wp_bindM [where m = "getsM f" for f] wp_thenM [where m = "throwIf b c m" for b c m]
          wp_thenM [where m = "liftR x" for x] wp_liftR wp_getsM wp_throwIf) (auto split: sum.split)
  qed
qed

lemma identity_inv_status:
  "identity_inv s \<Longrightarrow> identity_inv (identityState_update (is_subjects_update (jmModify k (\<lambda>x. x\<lparr>sb_status := st, sb_updatedAt := now\<rparr>))) s)"
  by (auto simp: identity_inv_def issued_def identity_ok_status)

lemma identity_inv_clock: "identity_inv s \<Longrightarrow> identity_inv (s\<lparr>clockCount := c\<rparr>)"
  by (simp add: identity_inv_def issued_def)

lemma preserves_status:
  "preserves identity_inv (IdentityService_activateSubject k)" "preserves identity_inv (IdentityService_suspendSubject k reason)"
  unfolding IdentityService_activateSubject_def IdentityService_suspendSubject_def IdentityService_requireSubject_def updateSubject_def
  by (rule preservesI, auto simp: wp_simps case_assertTransition split: option.split intro!: wp_emitI
      intro: identity_inv_log [OF identity_inv_status [OF identity_inv_clock]] identity_inv_clock)+

lemma wp_createAccountBinding:
  fixes s :: "'z identity_world_scheme"
  assumes "\<And>b u. identityState u = identityState s \<Longrightarrow> rt u = rt s \<Longrightarrow> uuidCount u = Suc (uuidCount s) \<Longrightarrow>
    ab_accountBindingId b = opId (rt s) ''account_binding'' (uuidCount s) \<Longrightarrow> ab_subjectId b = k \<Longrightarrow>
    ab_accountHash b = wa_accountHash account \<Longrightarrow> ab_accountIdRef b = wa_accountId account \<Longrightarrow> Q b u"
  shows "wp (createAccountBinding k account h nonce) Q E s"
  unfolding createAccountBinding_def by (auto simp: wp_simps intro!: assms)

definition recordBinding :: "account_binding \<Rightarrow> identity_state \<Rightarrow> identity_state" where
  "recordBinding b S =
     is_subjects_update (jmModify (ab_subjectId b) (sb_linkedAccountIds_update (\<lambda>ids. ids @ [ab_accountBindingId b])))
       (is_accountHashToSubject_update (jmSet (ab_accountHash b) (ab_subjectId b))
         (is_accountBindings_update (jmSet (ab_accountBindingId b) b) S))"

lemmas identity_ok_record = identity_ok_binding [folded recordBinding_def]

text \<open>
  A binding that returns was made for an active subject, was verified the way the service is configured, and is for an
  account that was not bound before.
\<close>

lemma wp_bindAccount:
  fixes s :: "'z identity_world_scheme"
  assumes inv: "identity_inv s"
    and Q: "\<And>x acc sig nc m b t. jmGet (is_subjects (identityState s)) k = Some x \<Longrightarrow> sb_status x = Subject_ACTIVE \<Longrightarrow>
      assertCAIP10 accountArg = Inr acc \<Longrightarrow> assertNonEmptyString ''signature'' signature = Inr sig \<Longrightarrow>
      assertNonEmptyString ''nonce'' nonce = Inr nc \<Longrightarrow>
      verifyBinding (identityState s) k acc sig nc (js_default purpose (JStr ''primary'')) = Inr m \<Longrightarrow>
      jmGet (is_accountHashToSubject (identityState s)) (createAccountHash (rt s) acc) = None \<Longrightarrow>
      ab_subjectId b = k \<Longrightarrow> ab_accountIdRef b = acc \<Longrightarrow> identityState t = recordBinding b (identityState s) \<Longrightarrow> rt t = rt s \<Longrightarrow>
      identity_inv t \<Longrightarrow> Q b t"
    and E: "\<And>e t. identity_inv t \<Longrightarrow> E e t"
  shows "wp (IdentityService_bindAccount k accountArg signature nonce purpose) Q E s"
proof -
  let ?i = "opId (rt s) ''account_binding'' (uuidCount s)"
  have new: "?i \<notin> issued s ''account_binding''" using inv issued_fresh by (auto simp: identity_inv_def)
  have step: "identity_inv t"
    if "identityState u = recordBinding b (identityState s)" "rt u = rt s" "uuidCount u = Suc (uuidCount s)" "log_ext u t"
      "ab_accountBindingId b = ?i" "jmGet (is_subjects (identityState s)) (ab_subjectId b) \<noteq> None"
      "jmGet (is_accountHashToSubject (identityState s)) (ab_accountHash b) = None" "ab_accountHash b = createAccountHash (rt s) (ab_accountIdRef b)"
    for b and u t :: "'z identity_world_scheme"
  proof -
    have "identity_ok (rt s) (issued s ''principal'') (issued s ''subject'') (insert ?i (issued s ''account_binding'')) (recordBinding b (identityState s))"
      using identity_ok_record [of "rt s" _ _ _ "identityState s" b] inv new that(5-8) by (simp add: identity_inv_def)
    then have "identity_inv u"
      by (intro identity_inv_step [OF inv]) (use that in \<open>auto intro: identity_ok_mono\<close>)
    then show ?thesis by (rule identity_inv_log [OF _ that(4)])
  qed
  show ?thesis
  proof (cases "jmGet (is_subjects (identityState s)) k")
    case None
    with inv E show ?thesis
      by (simp add: IdentityService_bindAccount_def IdentityService_requireSubject_def wp_simps Let_def)
  next
    case x: (Some x)
    have tail: "wp (bindM (createAccountBinding k account h nc) (\<lambda>b.
        thenM (modifyM (identityState_update (is_accountBindings_update (jmSet (ab_accountBindingId b) b))))
        (thenM (modifyM (identityState_update (is_accountHashToSubject_update (jmSet hh k))))
        (thenM (updateSubject k (sb_linkedAccountIds_update (\<lambda>ids. ids @ [ab_accountBindingId b])))
        (thenM (emitCreditEvent (e b)) (returnM b)))))) Q E u"
      if u: "identityState u = identityState s" "rt u = rt s" "uuidCount u = uuidCount s"
        and free: "jmGet (is_accountHashToSubject (identityState s)) hh = None"
        and acc: "wa_accountHash account = hh" "hh = createAccountHash (rt s) (wa_accountId account)"
        and Q': "\<And>b t. ab_subjectId b = k \<Longrightarrow> ab_accountIdRef b = wa_accountId account \<Longrightarrow>
          identityState t = recordBinding b (identityState s) \<Longrightarrow> rt t = rt s \<Longrightarrow> identity_inv t \<Longrightarrow> Q b t"
      for account h hh nc e and u :: "'z identity_world_scheme"
      unfolding wp_bindM
    proof (rule wp_createAccountBinding)
      fix b :: account_binding and w :: "'z identity_world_scheme"
      assume w: "identityState w = identityState u" "rt w = rt u" "uuidCount w = Suc (uuidCount u)"
        and b: "ab_accountBindingId b = opId (rt u) ''account_binding'' (uuidCount u)" "ab_subjectId b = k"
          "ab_accountHash b = wa_accountHash account" "ab_accountIdRef b = wa_accountId account"
      let ?w = "identityState_update (is_subjects_update (jmModify k (sb_linkedAccountIds_update (\<lambda>ids. ids @ [ab_accountBindingId b]))))
         (identityState_update (is_accountHashToSubject_update (jmSet hh k))
           (identityState_update (is_accountBindings_update (jmSet (ab_accountBindingId b) b)) w))"
      have st: "identityState ?w = recordBinding b (identityState s)" "rt ?w = rt s" "uuidCount ?w = Suc (uuidCount s)"
        using w b u acc(1) by (auto simp: recordBinding_def)
      have inv': "identity_inv t" if "log_ext ?w t" for t
        by (rule step [OF st that]) (use b u x free acc in auto)
      show "wp (thenM (modifyM (identityState_update (is_accountBindings_update (jmSet (ab_accountBindingId b) b))))
        (thenM (modifyM (identityState_update (is_accountHashToSubject_update (jmSet hh k))))
        (thenM (updateSubject k (sb_linkedAccountIds_update (\<lambda>ids. ids @ [ab_accountBindingId b])))
        (thenM (emitCreditEvent (e b)) (returnM b))))) Q E w"
        unfolding wp_thenM wp_modifyM wp_returnM updateSubject_def
        by (rule wp_emitI) (use inv' st b in \<open>auto intro!: Q' E simp: log_ext_identity log_ext_rt\<close>)
    qed
    have clock: "identity_inv (s\<lparr>clockCount := c\<rparr>)" for c using inv by (rule identity_inv_clock)
    show ?thesis
      unfolding IdentityService_bindAccount_def IdentityService_requireSubject_def createWalletAccount_def Let_def
      using x inv
      by (simp add: wp_bindM [where m = "liftR z" for z] wp_bindM [where m = "getsM f" for f] wp_thenM [where m = "throwIf b c m" for b c m]
          wp_bindM [where m = "bindM m f" for m f] wp_bindM [where m = "returnM z" for z] wp_bindM [where m = "hashM n z" for n z]
          wp_bindM [where m = newDate] wp_newDate wp_returnM wp_hashM wp_liftR wp_getsM wp_throwIf E clock split: sum.split)
        (auto intro!: tail intro: Q [OF x] E clock)
  qed
qed

subsection \<open>The service as a transition system\<close>

lemma preserves_bindAccount: "preserves identity_inv (IdentityService_bindAccount k accountId signature nonce purpose)"
  by (rule preservesI, rule wp_bindAccount)

inductive identity_step :: "'z identity_world_scheme \<Rightarrow> 'z identity_world_scheme \<Rightarrow> bool" where
  principal: "IdentityService_createPrincipal input now s = (r, t) \<Longrightarrow> identity_step s t"
| subject: "IdentityService_createSubject input now s = (r, t) \<Longrightarrow> identity_step s t"
| activate: "IdentityService_activateSubject k s = (r, t) \<Longrightarrow> identity_step s t"
| suspend: "IdentityService_suspendSubject k reason s = (r, t) \<Longrightarrow> identity_step s t"
| bind: "IdentityService_bindAccount k accountId signature nonce purpose s = (r, t) \<Longrightarrow> identity_step s t"
| log_append: "log_ext s t \<Longrightarrow> identity_step s t"

lemma identity_inv_stepI: "identity_inv s \<Longrightarrow> identity_step s t \<Longrightarrow> identity_inv t"
  by (erule identity_step.cases)
    (auto intro: preserves_createPrincipal [THEN preserves_run] preserves_createSubject [THEN preserves_run]
      preserves_status [THEN preserves_run] preserves_bindAccount [THEN preserves_run] identity_inv_log)

interpretation identity_ts: transition_system identity_step identity_inv
  by unfold_locales (rule identity_inv_stepI)

definition identity_init :: "'z identity_world_scheme \<Rightarrow> bool" where
  "identity_init s \<longleftrightarrow> uuid_unique (rt s) \<and> is_principals (identityState s) = [] \<and> is_subjects (identityState s) = [] \<and>
     is_accountBindings (identityState s) = [] \<and> is_accountHashToSubject (identityState s) = []"

lemma identity_init_inv: "identity_init s \<Longrightarrow> identity_inv s"
  by (simp add: identity_init_def identity_inv_def identity_ok_def)

subsection \<open>Properties\<close>

text \<open>
  C27. Identities are sound in every state the service reaches: a subject belongs to a stored principal that lists it,
  a human subject is a prototype, the accounts a subject lists are exactly the bindings made for it, and one account is
  never bound twice, for the same subject or for another. A further binding that returns is for an active subject and a
  new account, and has been verified: by the configured verifier, or, without one, only if unverified demo bindings are
  allowed.
\<close>

theorem identity_sound:
  assumes "identity_init s" and "rtranclp identity_step s t"
  shows "(\<forall>k x. jmGet (is_subjects (identityState t)) k = Some x \<longrightarrow>
      (sb_subjectType x = SubjectType_HUMAN \<longrightarrow> sb_prototypeOnly x = JBool True) \<and>
      (\<exists>p. jmGet (is_principals (identityState t)) (sb_primaryPrincipalId x) = Some p \<and> k \<in> set (pr_linkedSubjectIds p)) \<and>
      distinct (sb_linkedAccountIds x) \<and>
      set (sb_linkedAccountIds x) = {i. \<exists>b. jmGet (is_accountBindings (identityState t)) i = Some b \<and> ab_subjectId b = k}) \<and>
    (\<forall>i b i' b'. jmGet (is_accountBindings (identityState t)) i = Some b \<and>
      jmGet (is_accountBindings (identityState t)) i' = Some b' \<and> ab_accountIdRef b = ab_accountIdRef b' \<longrightarrow> i = i') \<and>
    (\<forall>k accountId signature nonce purpose b u.
      IdentityService_bindAccount k (JStr accountId) (JStr signature) (JStr nonce) purpose t = (Inr b, u) \<longrightarrow>
      (\<exists>x. jmGet (is_subjects (identityState t)) k = Some x \<and> sb_status x = Subject_ACTIVE) \<and>
      (\<forall>i b'. jmGet (is_accountBindings (identityState t)) i = Some b' \<longrightarrow> ab_accountIdRef b' \<noteq> accountId) \<and>
      (case is_accountBindingVerifier (identityState t) of
         Some verifier \<Rightarrow> verifier k accountId signature nonce (js_default purpose (JStr ''primary'')) = JBool True
       | None \<Rightarrow> is_allowUnverifiedDemoBindings (identityState t)))"
proof -
  have inv: "identity_inv t" using identity_ts.inv_run [OF assms(2) identity_init_inv [OF assms(1)]] .
  then have ok: "identity_ok (rt t) (issued t ''principal'') (issued t ''subject'') (issued t ''account_binding'') (identityState t)"
    by (simp add: identity_inv_def)
  have one: "i = i'" if "jmGet (is_accountBindings (identityState t)) i = Some b"
    "jmGet (is_accountBindings (identityState t)) i' = Some b'" "ab_accountIdRef b = ab_accountIdRef b'" for i i' b b'
    using ok that identity_okD(2) [OF ok that(1)] identity_okD(2) [OF ok that(2)] unfolding identity_ok_def binding_ok_def by metis
  have unbound: "ab_accountIdRef b \<noteq> acc" if "jmGet (is_accountBindings (identityState t)) i = Some b"
    "jmGet (is_accountHashToSubject (identityState t)) (createAccountHash (rt t) acc) = None" for i b acc
    using identity_okD(2) [OF ok that(1)] that(2) by (auto simp: binding_ok_def)
  have bind: "(\<exists>x. jmGet (is_subjects (identityState t)) k = Some x \<and> sb_status x = Subject_ACTIVE) \<and>
      (\<forall>i b'. jmGet (is_accountBindings (identityState t)) i = Some b' \<longrightarrow> ab_accountIdRef b' \<noteq> accountId) \<and>
      (case is_accountBindingVerifier (identityState t) of
         Some verifier \<Rightarrow> verifier k accountId signature nonce (js_default purpose (JStr ''primary'')) = JBool True
       | None \<Rightarrow> is_allowUnverifiedDemoBindings (identityState t))" (is ?P)
    if "IdentityService_bindAccount k (JStr accountId) (JStr signature) (JStr nonce) purpose t = (Inr b, u)"
    for k accountId signature nonce purpose b u
  proof -
    have "wp (IdentityService_bindAccount k (JStr accountId) (JStr signature) (JStr nonce) purpose) (\<lambda>_ _. ?P) (\<lambda>_ _. True) t"
      by (rule wp_bindAccount [OF inv])
        (use unbound in \<open>auto simp: assertNonEmptyString_Inr assertCAIP10_def bindR_Inr verifyBinding_def
          split: option.splits if_splits\<close>)
    from wp_Inr [OF this that] show ?thesis .
  qed
  have "(\<exists>p. jmGet (is_principals (identityState t)) (sb_primaryPrincipalId x) = Some p \<and> k \<in> set (pr_linkedSubjectIds p)) \<and>
      (sb_subjectType x = SubjectType_HUMAN \<longrightarrow> sb_prototypeOnly x = JBool True) \<and> distinct (sb_linkedAccountIds x) \<and>
      set (sb_linkedAccountIds x) = {i. \<exists>b. jmGet (is_accountBindings (identityState t)) i = Some b \<and> ab_subjectId b = k}"
    if "jmGet (is_subjects (identityState t)) k = Some x" for k x
    using identity_okD(1) [OF ok that] by (auto simp: subject_ok_def)
  with one bind show ?thesis by blast
qed

definition demo_identity :: identity_world where
  "demo_identity = \<lparr>rt = demo_runtime, uuidCount = 0, clockCount = 0, creditEvents = [], auditEvents = [],
     seenCreditIds = [], seenAuditIds = [], evidenceEnvelopes = [], aggregateVersions = [], ledger = ledger_empty,
     lockboxes = [], obligationState = \<lparr>os_obligations = [], os_repayments = []\<rparr>,
     mandateState = mandateState demo_mandates, riskState = demo_lines Line_APPROVED, spendState = spendState demo_spend,
     routesByIdempotencyKey = [], learningState = learning_empty,
     identityState = \<lparr>is_accountBindingVerifier = None, is_allowUnverifiedDemoBindings = True, is_principals = [],
       is_subjects = [], is_accountBindings = [], is_accountHashToSubject = []\<rparr>\<rparr>"

definition demo_principal_input :: js where
  "demo_principal_input = JObj [(''principalType'', JStr ''developer'')]"

definition demo_subject_input :: js where
  "demo_subject_input = JObj [(''subjectType'', JStr ''human''), (''primaryPrincipalId'', JStr ''principal_''),
     (''displayName'', JStr ''Ada''), (''prototypeOnly'', JBool True)]"

lemma demo_principal_created:
  "case jmGet (is_principals (identityState (snd (IdentityService_createPrincipal demo_principal_input None demo_identity)))) ''principal_'' of
     None \<Rightarrow> False | Some p \<Rightarrow> pr_status p = Principal_ACTIVE"
proof -
  have pii: "assertNoRawPiiReference demo_principal_input = Inr ()"
    "assertEnumValue ''principalType'' (js_get ''principalType'' demo_principal_input) PrincipalType_values = Inr PrincipalType_DEVELOPER"
    by code_simp+
  let ?P = "\<lambda>t :: identity_world. case jmGet (is_principals (identityState t)) ''principal_'' of None \<Rightarrow> False | Some p \<Rightarrow> pr_status p = Principal_ACTIVE"
  have "wp (IdentityService_createPrincipal demo_principal_input None) (\<lambda>_. ?P) (\<lambda>_. ?P) demo_identity"
    by (auto simp: IdentityService_createPrincipal_def createPrincipal_def pii wp_simps Let_def demo_identity_def opId_def
        demo_runtime_def log_ext_identity intro!: wp_emitI)
  then show ?thesis unfolding wp_snd .
qed

lemma demo_subject_checks:
  "assertEnumValue ''subjectType'' (js_get ''subjectType'' demo_subject_input) SubjectType_values = Inr SubjectType_HUMAN"
  "assertNonEmptyString ''displayName'' (js_get ''displayName'' demo_subject_input) = Inr ''Ada''"
  "js_get ''primaryPrincipalId'' demo_subject_input = JStr ''principal_''"
  "js_get ''prototypeOnly'' demo_subject_input = JBool True"
  "assertNoRawPiiReference (js_coalesce (js_get ''metadata'' demo_subject_input) (JObj [])) = Inr ()"
  by code_simp+

lemma demo_subject_created:
  fixes s :: identity_world
  assumes "case jmGet (is_principals (identityState s)) ''principal_'' of None \<Rightarrow> False | Some p \<Rightarrow> pr_status p = Principal_ACTIVE"
  shows "\<exists>k x. jmGet (is_subjects (identityState (snd (IdentityService_createSubject demo_subject_input None s)))) k = Some x \<and>
    sb_subjectType x = SubjectType_HUMAN \<and> sb_primaryPrincipalId x = ''principal_''"
proof -
  obtain p where p: "jsGet (is_principals (identityState s)) (JStr ''principal_'') = Some p" "pr_status p = Principal_ACTIVE"
    using assms by (auto simp: jsGet_def split: option.splits)
  let ?k = "opId (rt s) ''subject'' (uuidCount s)"
  let ?P = "\<lambda>t :: identity_world. \<exists>x. jmGet (is_subjects (identityState t)) ?k = Some x \<and>
    sb_subjectType x = SubjectType_HUMAN \<and> sb_primaryPrincipalId x = ''principal_''"
  have tail: "wp (thenM (modifyM (identityState_update (is_subjects_update (jmSet (sb_subjectId x) x))))
     (thenM (modifyM (identityState_update (is_principals_update f))) (thenM (emitCreditEvent e) (returnM x)))) (\<lambda>_. ?P) (\<lambda>_. ?P) u"
    if "sb_subjectId x = ?k" "sb_subjectType x = SubjectType_HUMAN" "sb_primaryPrincipalId x = ''principal_''"
    for x f e and u :: identity_world
    unfolding wp_thenM wp_modifyM wp_returnM by (rule wp_emitI) (use that in \<open>auto simp: log_ext_identity\<close>)
  have make: "wp (bindM (createSubject demo_subject_input SubjectType_HUMAN dn ''principal_'' None)
      (\<lambda>x. thenM (modifyM (identityState_update (is_subjects_update (jmSet (sb_subjectId x) x))))
       (thenM (modifyM (identityState_update (is_principals_update (f x)))) (thenM (emitCreditEvent (e x)) (returnM x)))))
      (\<lambda>_. ?P) (\<lambda>_. ?P) s" for dn f e
    unfolding wp_bindM by (rule wp_createSubject, rule tail)
  have "wp (IdentityService_createSubject demo_subject_input None) (\<lambda>_. ?P) (\<lambda>_. ?P) s"
    unfolding IdentityService_createSubject_def Let_def
    by (simp only: wp_bindM [where m = "liftR x" for x] wp_bindM [where m = "getsM f" for f] wp_thenM [where m = "throwIf b c m" for b c m]
        wp_thenM [where m = "liftR x" for x] wp_liftR wp_getsM wp_throwIf demo_subject_checks sum.case p option.case js_string.simps)
      (simp add: make)
  then show ?thesis unfolding wp_snd by blast
qed

theorem identity_sound_witness:
  "\<exists>t k x p. rtranclp identity_step demo_identity t \<and> jmGet (is_subjects (identityState t)) k = Some x \<and>
    sb_subjectType x = SubjectType_HUMAN \<and> sb_prototypeOnly x = JBool True \<and>
    jmGet (is_principals (identityState t)) ''principal_'' = Some p \<and> k \<in> set (pr_linkedSubjectIds p)"
proof -
  let ?t = "snd (IdentityService_createPrincipal demo_principal_input None demo_identity)"
  let ?u = "snd (IdentityService_createSubject demo_subject_input None ?t)"
  have init: "identity_init demo_identity" by (simp add: identity_init_def demo_identity_def)
  have "identity_step demo_identity ?t" "identity_step ?t ?u"
    by (rule identity_step.principal, rule surjective_pairing) (rule identity_step.subject, rule surjective_pairing)
  then have steps: "rtranclp identity_step demo_identity ?u"
    by (rule converse_rtranclp_into_rtranclp [OF _ r_into_rtranclp])
  obtain k x where x: "jmGet (is_subjects (identityState ?u)) k = Some x" "sb_subjectType x = SubjectType_HUMAN"
    "sb_primaryPrincipalId x = ''principal_''" using demo_subject_created [OF demo_principal_created] by blast
  from identity_sound [OF init steps, THEN conjunct1, rule_format, OF x(1)] x(2,3)
  have "sb_prototypeOnly x = JBool True \<and> (\<exists>p. jmGet (is_principals (identityState ?u)) ''principal_'' = Some p \<and> k \<in> set (pr_linkedSubjectIds p))"
    by simp
  with steps x(1,2) show ?thesis by blast
qed

end
