(* ===== verification/Pool_Math.thy ===== *)
theory Pool_Math
  imports Complex_Main Validators
begin

text \<open>
  \<open>packages/domain/src/secured-pool-reference-math.js\<close>: the bounded integer arithmetic of the secured
  lending pool. All quantities are JavaScript BigInts, so the \<open>typeof\<close> tests of the source hold by
  typing and every function works on \<open>int\<close>; each keeps the range checks of the source and throws
  where the source throws. Division of non-negative BigInts is \<open>div\<close>.
\<close>

subsection \<open>Policy and checks\<close>

record pool_policy =
  bps :: int
  wad :: int
  debtAssetScale :: int
  collateralAssetScale :: int
  priceScale :: int
  secondsPerYear :: int
  maxAccrualChunkSeconds :: int
  maxAccrualChunksPerTransition :: int
  kinkBps :: int
  baseBorrowAprBps :: int
  slope1Bps :: int
  slope2Bps :: int
  reserveFactorBps :: int
  loanToValueBps :: int
  liquidationThresholdBps :: int
  closeFactorBps :: int
  liquidationBonusBps :: int
  maxOracleAgeSeconds :: int
  maxOracleFutureSkewSeconds :: int
  maxOracleDeviationBps :: int
  chainId :: string
  collateralAssetId :: string
  oracleSourceId :: string

definition M2_POOL_REFERENCE_SCHEMA_VERSION :: string where
  "M2_POOL_REFERENCE_SCHEMA_VERSION = ''secured_pool_reference_model.v1''"

definition M2_POOL_REFERENCE_POLICY_VERSION :: string where
  "M2_POOL_REFERENCE_POLICY_VERSION = ''m2_secured_pool_fixture_policy.v1''"

definition M2_POOL_REFERENCE_POLICY :: pool_policy where
  "M2_POOL_REFERENCE_POLICY =
     \<lparr>bps = 10000, wad = 10 ^ 18, debtAssetScale = 10 ^ 6, collateralAssetScale = 10 ^ 18,
      priceScale = 10 ^ 18, secondsPerYear = 365 * 24 * 60 * 60, maxAccrualChunkSeconds = 7 * 24 * 60 * 60,
      maxAccrualChunksPerTransition = 1024, kinkBps = 8000, baseBorrowAprBps = 200, slope1Bps = 800,
      slope2Bps = 6000, reserveFactorBps = 1000, loanToValueBps = 7500, liquidationThresholdBps = 8000,
      closeFactorBps = 5000, liquidationBonusBps = 500, maxOracleAgeSeconds = 3600,
      maxOracleFutureSkewSeconds = 60, maxOracleDeviationBps = 2000, chainId = ''eip155:84532'',
      collateralAssetId = ''weth'', oracleSourceId = ''deterministic_m2_fixture.v1''\<rparr>"

abbreviation policy :: pool_policy where
  "policy \<equiv> M2_POOL_REFERENCE_POLICY"

definition MAX_MODEL_UINT :: int where
  "MAX_MODEL_UINT = 2 ^ 256 - 1"

definition invalidPoolReference :: "string \<Rightarrow> 'a res" where
  "invalidPoolReference message = fail ''invalid_secured_pool_reference_model'' message"

definition unavailablePoolAction :: "string \<Rightarrow> 'a res" where
  "unavailablePoolAction message = fail ''secured_pool_action_unavailable'' message"

text \<open>\<open>if (bad) unavailablePoolAction(message)\<close> and \<open>if (bad) invalidPoolReference(message)\<close>.\<close>

definition unavailableIf :: "bool \<Rightarrow> string \<Rightarrow> unit res" where
  "unavailableIf bad message = (if bad then unavailablePoolAction message else Inr ())"

definition invalidIf :: "bool \<Rightarrow> string \<Rightarrow> unit res" where
  "invalidIf bad message = (if bad then invalidPoolReference message else Inr ())"

definition assertReferenceUint :: "string \<Rightarrow> int \<Rightarrow> bool \<Rightarrow> int res" where
  "assertReferenceUint name value positive =
     (if value < 0 \<or> value > MAX_MODEL_UINT \<or> positive \<and> value = 0
      then invalidPoolReference (name @ '' must be a bounded '' @
        (if positive then ''positive'' else ''unsigned'') @ '' BigInt'')
      else Inr value)"

definition mulDivDown :: "int \<Rightarrow> int \<Rightarrow> int \<Rightarrow> int res" where
  "mulDivDown left right denominator =
     bindR (assertReferenceUint ''left'' left False) (\<lambda>_.
     bindR (assertReferenceUint ''right'' right False) (\<lambda>_.
     bindR (assertReferenceUint ''denominator'' denominator True) (\<lambda>_.
     Inr ((left * right) div denominator))))"

definition mulDivUp :: "int \<Rightarrow> int \<Rightarrow> int \<Rightarrow> int res" where
  "mulDivUp left right denominator =
     bindR (mulDivDown left right denominator) (\<lambda>floor.
     Inr (if left = 0 \<or> right = 0 \<or> (left * right) mod denominator = 0 then floor else floor + 1))"

text \<open>The rest parameter of \<open>minReference\<close> is a list; entry \<open>i\<close> is checked under the name \<open>values[i]\<close>.\<close>

fun checkValues :: "nat \<Rightarrow> int list \<Rightarrow> unit res" where
  "checkValues i [] = Inr ()"
| "checkValues i (v # vs) =
     bindR (assertReferenceUint (''values['' @ decNat i @ '']'') v False) (\<lambda>_. checkValues (Suc i) vs)"

fun minReference :: "int list \<Rightarrow> int res" where
  "minReference [] = invalidPoolReference ''minReference requires values''"
| "minReference (v # vs) =
     bindR (checkValues 0 (v # vs)) (\<lambda>_.
     Inr (fold (\<lambda>value current. if value < current then value else current) vs v))"

subsection \<open>Rates\<close>

definition calculateUtilizationBps :: "int \<Rightarrow> int \<Rightarrow> int res" where
  "calculateUtilizationBps cashAssets performingDebtAssets =
     bindR (assertReferenceUint ''cashAssets'' cashAssets False) (\<lambda>_.
     bindR (assertReferenceUint ''performingDebtAssets'' performingDebtAssets False) (\<lambda>_.
     let grossAssets = cashAssets + performingDebtAssets in
     if grossAssets = 0 then Inr 0 else mulDivDown performingDebtAssets (bps policy) grossAssets))"

definition calculateBorrowAprBps :: "int \<Rightarrow> int \<Rightarrow> int res" where
  "calculateBorrowAprBps cashAssets performingDebtAssets =
     bindR (calculateUtilizationBps cashAssets performingDebtAssets) (\<lambda>utilizationBps.
     if utilizationBps \<le> kinkBps policy then
       bindR (mulDivDown (slope1Bps policy) utilizationBps (kinkBps policy)) (\<lambda>x.
       Inr (baseBorrowAprBps policy + x))
     else
       bindR (mulDivDown (slope2Bps policy) (utilizationBps - kinkBps policy) (bps policy - kinkBps policy)) (\<lambda>x.
       Inr (baseBorrowAprBps policy + slope1Bps policy + x)))"

definition calculateSupplyAprBps :: "int \<Rightarrow> int \<Rightarrow> int res" where
  "calculateSupplyAprBps cashAssets performingDebtAssets =
     bindR (calculateBorrowAprBps cashAssets performingDebtAssets) (\<lambda>borrowAprBps.
     bindR (calculateUtilizationBps cashAssets performingDebtAssets) (\<lambda>utilizationBps.
     bindR (mulDivDown borrowAprBps utilizationBps (bps policy)) (\<lambda>grossSupplyAprBps.
     mulDivDown grossSupplyAprBps (bps policy - reserveFactorBps policy) (bps policy))))"

text \<open>The pair is \<open>(interestAssets, reserveAssets)\<close>.\<close>

definition calculateInterestAtRate :: "int \<Rightarrow> int \<Rightarrow> int \<Rightarrow> (int \<times> int) res" where
  "calculateInterestAtRate debtAssets borrowAprBps elapsedSeconds =
     bindR (assertReferenceUint ''debtAssets'' debtAssets False) (\<lambda>_.
     bindR (assertReferenceUint ''borrowAprBps'' borrowAprBps False) (\<lambda>_.
     bindR (assertReferenceUint ''elapsedSeconds'' elapsedSeconds False) (\<lambda>_.
     bindR (mulDivUp debtAssets (borrowAprBps * elapsedSeconds) (secondsPerYear policy * bps policy)) (\<lambda>interestAssets.
     bindR (mulDivDown interestAssets (reserveFactorBps policy) (bps policy)) (\<lambda>reserveAssets.
     Inr (interestAssets, reserveAssets))))))"

definition calculateCollateralValueAssets :: "int \<Rightarrow> int \<Rightarrow> int res" where
  "calculateCollateralValueAssets collateralAssets priceUsdWad =
     bindR (assertReferenceUint ''collateralAssets'' collateralAssets False) (\<lambda>_.
     bindR (assertReferenceUint ''priceUsdWad'' priceUsdWad True) (\<lambda>_.
     mulDivDown collateralAssets (priceUsdWad * debtAssetScale policy)
       (collateralAssetScale policy * priceScale policy)))"

definition calculateCollateralRequiredForValue :: "int \<Rightarrow> int \<Rightarrow> int res" where
  "calculateCollateralRequiredForValue valueAssets priceUsdWad =
     bindR (assertReferenceUint ''valueAssets'' valueAssets False) (\<lambda>_.
     bindR (assertReferenceUint ''priceUsdWad'' priceUsdWad True) (\<lambda>_.
     mulDivUp valueAssets (collateralAssetScale policy * priceScale policy)
       (priceUsdWad * debtAssetScale policy)))"

subsection \<open>Division with rounding\<close>

text \<open>The ceiling of a quotient, the reference for \<open>mulDivUp\<close>.\<close>

definition ceilDiv :: "int \<Rightarrow> int \<Rightarrow> int" where
  "ceilDiv a b = - ((- a) div b)"

lemma ceilDiv_eq: "0 < b \<Longrightarrow> ceilDiv a b = (if a mod b = 0 then a div b else a div b + 1)"
  by (simp add: ceilDiv_def zdiv_zminus1_eq_if)

lemma ceilDiv_bounds:
  assumes "0 < b"
  shows "a \<le> b * ceilDiv a b" and "b * ceilDiv a b < a + b"
proof -
  have "b * ((- a) div b) + (- a) mod b = - a" by simp
  moreover have "0 \<le> (- a) mod b" "(- a) mod b < b" using assms by simp_all
  ultimately show "a \<le> b * ceilDiv a b" "b * ceilDiv a b < a + b"
    unfolding ceilDiv_def mult_minus_right by linarith+
qed

lemma ceilDiv_le_iff: "0 < b \<Longrightarrow> ceilDiv a b \<le> c \<longleftrightarrow> a \<le> b * c"
proof
  assume b: "0 < b" and "ceilDiv a b \<le> c"
  then have "b * ceilDiv a b \<le> b * c" by simp
  with ceilDiv_bounds(1) [OF b, of a] show "a \<le> b * c" by linarith
next
  assume b: "0 < b" and "a \<le> b * c"
  with ceilDiv_bounds(2) [OF b, of a] have "b * ceilDiv a b < b * (c + 1)" by (simp add: distrib_left)
  with b show "ceilDiv a b \<le> c" by simp
qed

lemma le_div_iff: "0 < (b::int) \<Longrightarrow> c \<le> a div b \<longleftrightarrow> b * c \<le> a"
  by (metis mult.commute zdiv_mono1 nonzero_mult_div_cancel_right less_int_code(1) mult_le_cancel_left_pos
      div_mult_mod_eq le_add_same_cancel1 order_trans pos_mod_sign)

lemma less_ceilDiv_iff: "0 < b \<Longrightarrow> c < ceilDiv a b \<longleftrightarrow> b * c < a"
  using ceilDiv_le_iff [of b a c] by linarith

lemma ceilDiv_nonneg: "0 < b \<Longrightarrow> 0 \<le> a \<Longrightarrow> 0 \<le> ceilDiv a b"
  using less_ceilDiv_iff [of b "-1" a] by simp

subsection \<open>Inversion and evaluation\<close>

lemma unavailableIf_Inr [simp]: "unavailableIf b m = Inr x \<longleftrightarrow> \<not> b"
  by (simp add: unavailableIf_def unavailablePoolAction_def)

lemma invalidIf_Inr [simp]: "invalidIf b m = Inr x \<longleftrightarrow> \<not> b"
  by (simp add: invalidIf_def invalidPoolReference_def)

definition in_range :: "int \<Rightarrow> bool" where
  "in_range v \<longleftrightarrow> 0 \<le> v \<and> v \<le> MAX_MODEL_UINT"

lemma assertReferenceUint_Inr [simp]:
  "assertReferenceUint n v pos = Inr x \<longleftrightarrow> x = v \<and> in_range v \<and> (pos \<longrightarrow> v \<noteq> 0)"
  by (auto simp: assertReferenceUint_def invalidPoolReference_def in_range_def)

lemma mulDivDown_Inr [simp]:
  "mulDivDown l r d = Inr x \<longleftrightarrow> in_range l \<and> in_range r \<and> in_range d \<and> d \<noteq> 0 \<and> x = (l * r) div d"
  by (auto simp: mulDivDown_def bindR_Inr)

lemma mulDivUp_Inr [simp]:
  "mulDivUp l r d = Inr x \<longleftrightarrow> in_range l \<and> in_range r \<and> in_range d \<and> d \<noteq> 0 \<and> x = ceilDiv (l * r) d"
  by (auto simp: mulDivUp_def bindR_Inr ceilDiv_eq in_range_def)

lemma checkValues_Inr: "checkValues i vs = Inr u \<longleftrightarrow> list_all in_range vs"
  by (induction vs arbitrary: i) (auto simp: bindR_Inr)

lemma minReference_two [simp]: "minReference [x, y] = Inr e \<longleftrightarrow> in_range x \<and> in_range y \<and> e = min x y"
  by (auto simp: bindR_Inr checkValues_Inr simp del: checkValues.simps)

lemma minReference_three [simp]:
  "minReference [x, y, z] = Inr e \<longleftrightarrow> in_range x \<and> in_range y \<and> in_range z \<and> e = min x (min y z)"
  by (auto simp: bindR_Inr checkValues_Inr simp del: checkValues.simps)

declare minReference.simps(2) [simp del]

lemmas policy_simps = M2_POOL_REFERENCE_POLICY_def

lemma in_rangeD: "in_range v \<Longrightarrow> 0 \<le> v"
  by (simp add: in_range_def)

subsection \<open>Rates\<close>

lemma in_range_small: "0 \<le> v \<Longrightarrow> v \<le> 2 ^ 200 \<Longrightarrow> in_range v"
  by (simp add: in_range_def MAX_MODEL_UINT_def)

lemma in_range_01 [simp]: "in_range 0" "in_range 1"
  by (auto simp: in_range_def MAX_MODEL_UINT_def)

lemma utilization_Inr:
  "calculateUtilizationBps c d = Inr u \<longleftrightarrow> in_range c \<and> in_range d \<and>
    (if c + d = 0 then u = 0 else in_range (c + d) \<and> u = d * 10000 div (c + d))"
  by (auto simp: calculateUtilizationBps_def bindR_Inr Let_def policy_simps in_range_small)

lemma rates_total:
  "in_range c \<Longrightarrow> in_range d \<Longrightarrow> in_range (c + d) \<Longrightarrow> \<exists>u. calculateUtilizationBps c d = Inr u"
  by (cases "c + d = 0") (auto simp: utilization_Inr)

lemma utilization_bounds:
  assumes "calculateUtilizationBps c d = Inr u"
  shows "0 \<le> u \<and> u \<le> 10000"
proof (cases "c + d = 0")
  case True
  with assms show ?thesis by (simp add: utilization_Inr)
next
  case False
  with assms have "0 \<le> c" "0 \<le> d" "0 < c + d" and u: "u = d * 10000 div (c + d)"
    by (auto simp: utilization_Inr in_range_def)
  then have "d * 10000 div (c + d) \<le> 10000 * (c + d) div (c + d)" by (intro zdiv_mono1) auto
  then have "d * 10000 div (c + d) \<le> 10000" using \<open>0 < c + d\<close> by (metis nonzero_mult_div_cancel_right less_irrefl)
  with \<open>0 < c + d\<close> \<open>0 \<le> d\<close> show ?thesis by (simp add: u pos_imp_zdiv_nonneg_iff)
qed

text \<open>The rate as a function of utilisation alone: two linear pieces that meet at the kink.\<close>

definition aprAt :: "int \<Rightarrow> int" where
  "aprAt u = (if u \<le> 8000 then 200 + 800 * u div 8000 else 1000 + 6000 * (u - 8000) div 2000)"

lemma borrowApr_Inr:
  "calculateBorrowAprBps c d = Inr b \<longleftrightarrow> (\<exists>u. calculateUtilizationBps c d = Inr u \<and> b = aprAt u)"
proof -
  have "in_range u \<and> (8000 < u \<longrightarrow> in_range (u - 8000))" if "calculateUtilizationBps c d = Inr u" for u
    using utilization_bounds [OF that] by (auto intro!: in_range_small)
  then show ?thesis
    by (auto simp: calculateBorrowAprBps_def bindR_Inr aprAt_def policy_simps in_range_small)
qed

lemma aprAt_mono: "u \<le> u' \<Longrightarrow> aprAt u \<le> aprAt u'"
  unfolding aprAt_def by (auto intro!: zdiv_mono1)

lemma aprAt_bounds: "0 \<le> u \<Longrightarrow> u \<le> 10000 \<Longrightarrow> 200 \<le> aprAt u \<and> aprAt u \<le> 7000"
  using aprAt_mono [of 0 u] aprAt_mono [of u 10000] by (simp add: aprAt_def)

lemma supplyApr_Inr:
  "calculateSupplyAprBps c d = Inr s \<longleftrightarrow>
    (\<exists>u. calculateUtilizationBps c d = Inr u \<and> s = (aprAt u * u div 10000) * 9000 div 10000)"
proof -
  have "in_range u \<and> in_range (aprAt u) \<and> in_range (aprAt u * u div 10000)" if "calculateUtilizationBps c d = Inr u" for u
  proof -
    have u: "0 \<le> u" "u \<le> 10000" "200 \<le> aprAt u" "aprAt u \<le> 7000"
      using utilization_bounds [OF that] aprAt_bounds by auto
    then have "aprAt u * u \<le> 7000 * 10000" by (intro mult_mono) auto
    with u show ?thesis by (auto intro!: in_range_small simp: pos_imp_zdiv_nonneg_iff)
  qed
  then show ?thesis
    by (auto simp: calculateSupplyAprBps_def bindR_Inr borrowApr_Inr policy_simps in_range_small)
qed

subsection \<open>Interest\<close>

lemma interest_Inr:
  "calculateInterestAtRate debt b t = Inr (i, r) \<longleftrightarrow> in_range debt \<and> in_range b \<and> in_range t \<and> in_range (b * t) \<and>
    in_range i \<and> i = ceilDiv (debt * (b * t)) 315360000000 \<and> r = i * 1000 div 10000"
  by (auto simp: calculateInterestAtRate_def bindR_Inr policy_simps in_range_small)

lemma reserve_share: "0 \<le> i \<Longrightarrow> 0 \<le> i * 1000 div 10000 \<and> i * 1000 div 10000 \<le> (i::int)"
  by (simp add: pos_imp_zdiv_nonneg_iff)

text \<open>At the highest rate a week's interest is at most a 64th of the debt, rounded up.\<close>

lemma interest_growth:
  assumes "0 \<le> debt" "0 \<le> b" "b \<le> 7000" "0 \<le> t" "t \<le> 604800"
  shows "64 * ceilDiv (debt * (b * t)) 315360000000 \<le> debt + 64"
proof -
  let ?i = "ceilDiv (debt * (b * t)) 315360000000"
  have "b * t \<le> 7000 * 604800" using assms by (intro mult_mono) auto
  then have "debt * (b * t) \<le> debt * 4233600000" using assms(1) by (intro mult_left_mono) auto
  moreover have "315360000000 * ?i < debt * (b * t) + 315360000000" by (rule ceilDiv_bounds(2)) simp
  moreover have "64 * i \<le> debt + 64" if "x \<le> debt * 4233600000" "315360000000 * i < x + 315360000000" for x i :: int
    using that assms(1) by (cases "i \<le> 1") linarith+
  ultimately show ?thesis by blast
qed

subsection \<open>Properties\<close>

text \<open>
  C36. Where the operands are unsigned 256-bit values and the divisor is positive, the two divisions of the
  pool are exactly the floor and the ceiling of the rational product over the divisor, and both throw on every
  other input.
\<close>

theorem mulDiv_rounding:
  "(in_range l \<and> in_range r \<and> in_range d \<and> d \<noteq> 0 \<longrightarrow>
      mulDivDown l r d = Inr \<lfloor>(of_int l * of_int r / of_int d :: rat)\<rfloor> \<and>
      mulDivUp l r d = Inr \<lceil>(of_int l * of_int r / of_int d :: rat)\<rceil>) \<and>
   (\<not> (in_range l \<and> in_range r \<and> in_range d \<and> d \<noteq> 0) \<longrightarrow>
      (\<exists>e. mulDivDown l r d = Inl e \<and> mulDivUp l r d = Inl e))"
proof (intro conjI impI)
  have fl: "\<lfloor>(of_int l * of_int r / of_int d :: rat)\<rfloor> = l * r div d"
    by (simp add: floor_divide_of_int_eq flip: of_int_mult)
  have cl: "\<lceil>(of_int l * of_int r / of_int d :: rat)\<rceil> = ceilDiv (l * r) d"
  proof -
    have "- (of_int l * of_int r / of_int d) = (of_int (- (l * r)) / of_int d :: rat)" by simp
    then show ?thesis unfolding ceiling_def ceilDiv_def by (simp only: floor_divide_of_int_eq)
  qed
  assume ok: "in_range l \<and> in_range r \<and> in_range d \<and> d \<noteq> 0"
  then show "mulDivDown l r d = Inr \<lfloor>(of_int l * of_int r / of_int d :: rat)\<rfloor>" by (simp add: fl)
  from ok show "mulDivUp l r d = Inr \<lceil>(of_int l * of_int r / of_int d :: rat)\<rceil>" by (simp add: cl)
next
  assume bad: "\<not> (in_range l \<and> in_range r \<and> in_range d \<and> d \<noteq> 0)"
  then obtain e where "mulDivDown l r d = Inl e" by (cases "mulDivDown l r d") auto
  then show "\<exists>e. mulDivDown l r d = Inl e \<and> mulDivUp l r d = Inl e" by (simp add: mulDivUp_def)
qed

theorem mulDiv_rounding_witness:
  "mulDivDown 7 3 2 = Inr \<lfloor>(of_int 7 * of_int 3 / of_int 2 :: rat)\<rfloor> \<and>
   mulDivUp 7 3 2 = Inr \<lceil>(of_int 7 * of_int 3 / of_int 2 :: rat)\<rceil>"
  using mulDiv_rounding [of 7 3 2] by (simp add: in_range_small)

text \<open>
  C37. On figures whose sum fits 256 bits the three rates are defined; utilisation lies between 0 and 10000
  basis points, the borrow rate between 200 and 7000, the supply rate never exceeds nine tenths of the borrow
  rate times utilisation, and the borrow rate is monotone in utilisation across the kink.
\<close>

theorem rates_bounded:
  assumes "in_range c" and "in_range d" and "in_range (c + d)"
  shows "\<exists>u b s. calculateUtilizationBps c d = Inr u \<and> calculateBorrowAprBps c d = Inr b \<and>
    calculateSupplyAprBps c d = Inr s \<and> 0 \<le> u \<and> u \<le> 10000 \<and> 200 \<le> b \<and> b \<le> 7000 \<and> 0 \<le> s \<and>
    s * 100000000 \<le> b * u * 9000 \<and> s \<le> b \<and>
    (\<forall>c' d' u' b'. calculateUtilizationBps c' d' = Inr u' \<and> calculateBorrowAprBps c' d' = Inr b' \<and> u \<le> u' \<longrightarrow> b \<le> b')"
proof -
  obtain u where u: "calculateUtilizationBps c d = Inr u" using rates_total [OF assms] by blast
  let ?b = "aprAt u" and ?g = "aprAt u * u div 10000"
  note ub = utilization_bounds [OF u]
  then have ab: "200 \<le> ?b" "?b \<le> 7000" using aprAt_bounds by auto
  have "0 \<le> aprAt u * u" using ub ab by simp
  then have g: "0 \<le> ?g" "?g * 10000 \<le> aprAt u * u" by (simp_all add: pos_imp_zdiv_nonneg_iff)
  then have s: "0 \<le> ?g * 9000 div 10000" "(?g * 9000 div 10000) * 10000 \<le> ?g * 9000"
    by (simp_all add: pos_imp_zdiv_nonneg_iff)
  have "aprAt u * u \<le> aprAt u * 10000" using ub ab by (intro mult_left_mono) auto
  with g s have "?g * 9000 div 10000 \<le> ?b" "(?g * 9000 div 10000) * 100000000 \<le> aprAt u * u * 9000" by linarith+
  with u ub ab s aprAt_mono show ?thesis
    by (intro exI [of _ u] exI [of _ ?b] exI [of _ "?g * 9000 div 10000"]) (auto simp: borrowApr_Inr supplyApr_Inr)
qed

theorem rates_bounded_witness:
  "\<exists>u b s. calculateUtilizationBps 100 900 = Inr u \<and> calculateBorrowAprBps 100 900 = Inr b \<and>
    calculateSupplyAprBps 100 900 = Inr s \<and> 0 \<le> u \<and> b \<le> 7000 \<and> s \<le> b"
  using rates_bounded [of 100 900] by (auto simp: in_range_small)

text \<open>
  C38. Collateral quoted for a value is worth at least that value at the same price, and one unit less is not:
  \<open>calculateCollateralRequiredForValue\<close> is the least amount that \<open>calculateCollateralValueAssets\<close> values at no
  less.
\<close>

theorem collateral_quote_covers:
  assumes "calculateCollateralRequiredForValue v p = Inr c"
  shows "(\<forall>v'. calculateCollateralValueAssets c p = Inr v' \<longrightarrow> v \<le> v') \<and>
    (\<forall>v'. calculateCollateralValueAssets (c - 1) p = Inr v' \<longrightarrow> v' < v)"
proof -
  let ?K = "10 ^ 36 :: int"
  have "0 \<le> v" "0 < p" and c: "c = ceilDiv (v * ?K) (p * 10 ^ 6)"
    using assms by (auto simp: calculateCollateralRequiredForValue_def bindR_Inr policy_simps in_range_def)
  then have "v * ?K \<le> p * 10 ^ 6 * c" "p * 10 ^ 6 * (c - 1) < v * ?K"
    using ceilDiv_bounds [of "p * 10 ^ 6" "v * ?K"] by (simp_all add: algebra_simps)
  then have "v \<le> (c * (p * 10 ^ 6)) div ?K" "\<not> v \<le> ((c - 1) * (p * 10 ^ 6)) div ?K"
    by (simp_all add: le_div_iff algebra_simps)
  then show ?thesis
    by (auto simp: calculateCollateralValueAssets_def bindR_Inr policy_simps)
qed

theorem collateral_quote_covers_witness:
  "\<exists>v'. calculateCollateralValueAssets 500000000000000 (2000 * 10 ^ 18) = Inr v' \<and> 1000000 \<le> v'"
proof -
  have quote: "calculateCollateralRequiredForValue 1000000 (2000 * 10 ^ 18) = Inr 500000000000000"
    by (simp add: calculateCollateralRequiredForValue_def bindR_Inr policy_simps in_range_small ceilDiv_def)
  have "\<exists>v'. calculateCollateralValueAssets 500000000000000 (2000 * 10 ^ 18) = Inr v'"
    by (simp add: calculateCollateralValueAssets_def bindR_Inr policy_simps in_range_small)
  with collateral_quote_covers [OF quote] show ?thesis by blast
qed

end
