(* ===== verification/Secured_Pool.thy ===== *)
theory Secured_Pool
  imports Pool_Math
begin

text \<open>
  \<open>packages/domain/src/secured-pool-reference-state.js\<close> and \<open>secured-pool-reference-model.js\<close>: the
  state of the secured lending pool, its runtime invariant check, and every transition: oracle,
  accrual, supply, donation, withdrawal, redemption, collateral, borrowing, repayment, liquidation.
  The source clones the state and mutates the clone; here a transition returns the new state. A
  position mutated in place in \<open>state.positions\<close> is \<open>modifyPosition\<close>.
\<close>

subsection \<open>State\<close>

record pool_position =
  ps_accountId :: string
  ps_supplyShares :: int
  ps_collateralAssets :: int
  ps_debtShares :: int
  ps_badDebtAssets :: int

record oracle_observation =
  oo_chainId :: string
  oo_assetId :: string
  oo_sourceId :: string
  oo_complete :: bool
  oo_roundId :: string
  oo_priceUsdWad :: int
  oo_observedAt :: int

record pool_state =
  pl_schemaVersion :: string
  pl_policyVersion :: string
  pl_cashAssets :: int
  pl_grossDebtAssets :: int
  pl_reservesAssets :: int
  pl_badDebtAssets :: int
  pl_totalSupplyShares :: int
  pl_totalDebtShares :: int
  pl_lastAccruedAt :: int
  pl_marketDebtCapAssets :: int
  pl_borrowerDebtCapAssets :: int
  pl_lastAcceptedOracle :: "oracle_observation option"
  pl_positions :: "pool_position list"

text \<open>\<open>ACCOUNT_ID_PATTERN\<close>: one alphanumeric character, then at most 127 of \<open>[A-Za-z0-9._:-]\<close>.\<close>

definition alnum_char :: "char \<Rightarrow> bool" where
  "alnum_char c \<longleftrightarrow> CHR ''A'' \<le> c \<and> c \<le> CHR ''Z'' \<or> CHR ''a'' \<le> c \<and> c \<le> CHR ''z'' \<or> CHR ''0'' \<le> c \<and> c \<le> CHR ''9''"

fun account_id_pattern :: "string \<Rightarrow> bool" where
  "account_id_pattern [] = False"
| "account_id_pattern (c # cs) \<longleftrightarrow> alnum_char c \<and> length cs \<le> 127 \<and>
     list_all (\<lambda>d. alnum_char d \<or> d = CHR ''.'' \<or> d = CHR ''_'' \<or> d = CHR '':'' \<or> d = CHR ''-'') cs"

definition BLOCKED_ACCOUNT_IDS :: "string list" where
  "BLOCKED_ACCOUNT_IDS = [''__proto__'', ''constructor'', ''prototype'']"

definition assertReferenceAccountId :: "string \<Rightarrow> string res" where
  "assertReferenceAccountId value =
     (if \<not> account_id_pattern value \<or> value \<in> set BLOCKED_ACCOUNT_IDS
      then invalidPoolReference ''accountId must be a bounded opaque identifier'' else Inr value)"

definition emptyPoolReferencePosition :: "string \<Rightarrow> pool_position" where
  "emptyPoolReferencePosition accountId = \<lparr>ps_accountId = accountId, ps_supplyShares = 0,
     ps_collateralAssets = 0, ps_debtShares = 0, ps_badDebtAssets = 0\<rparr>"

definition findPoolReferencePosition :: "pool_state \<Rightarrow> string \<Rightarrow> pool_position" where
  "findPoolReferencePosition state accountId =
     (case find (\<lambda>p. ps_accountId p = accountId) (pl_positions state) of
        Some p \<Rightarrow> p | None \<Rightarrow> emptyPoolReferencePosition accountId)"

definition poolReferencePerformingDebtAssets :: "pool_state \<Rightarrow> int" where
  "poolReferencePerformingDebtAssets state = pl_grossDebtAssets state - pl_badDebtAssets state"

definition poolReferenceLpClaimAssets :: "pool_state \<Rightarrow> int" where
  "poolReferenceLpClaimAssets state =
     (let signedClaim = pl_cashAssets state + pl_grossDebtAssets state - pl_reservesAssets state - pl_badDebtAssets state
      in if signedClaim > 0 then signedClaim else 0)"

definition positionPerformingDebtAssets :: "pool_state \<Rightarrow> pool_position \<Rightarrow> int res" where
  "positionPerformingDebtAssets state position =
     (if ps_debtShares position = 0 then Inr 0
      else let performingDebt = poolReferencePerformingDebtAssets state in
        if ps_debtShares position = pl_totalDebtShares state then Inr performingDebt
        else mulDivUp (ps_debtShares position) performingDebt (pl_totalDebtShares state))"

definition assertPoolReferenceOracleBinding :: "oracle_observation \<Rightarrow> unit res" where
  "assertPoolReferenceOracleBinding observation =
     bindR (unavailableIf
       (oo_chainId observation \<noteq> chainId policy \<or> oo_assetId observation \<noteq> collateralAssetId policy \<or>
        oo_sourceId observation \<noteq> oracleSourceId policy \<or> \<not> oo_complete observation \<or>
        \<not> account_id_pattern (oo_roundId observation))
       ''oracle observation binding is invalid'') (\<lambda>_.
     bindR (assertReferenceUint ''oracleObservation.priceUsdWad'' (oo_priceUsdWad observation) True) (\<lambda>_.
     bindR (assertReferenceUint ''oracleObservation.observedAt'' (oo_observedAt observation) False) (\<lambda>_.
     Inr ())))"

record pool_sums =
  sm_seen :: "string list"
  sm_supplyShares :: int
  sm_debtShares :: int
  sm_badDebt :: int
  sm_aggregateSupplyClaims :: int

fun sumPositions :: "int \<Rightarrow> int \<Rightarrow> pool_sums \<Rightarrow> pool_position list \<Rightarrow> pool_sums res" where
  "sumPositions claimAssets totalSupplyShares acc [] = Inr acc"
| "sumPositions claimAssets totalSupplyShares acc (p # ps) =
     bindR (assertReferenceAccountId (ps_accountId p)) (\<lambda>_.
     bindR (invalidIf (ps_accountId p \<in> set (sm_seen acc)) ''duplicate account position'') (\<lambda>_.
     bindR (assertReferenceUint ''position.supplyShares'' (ps_supplyShares p) False) (\<lambda>_.
     bindR (assertReferenceUint ''position.collateralAssets'' (ps_collateralAssets p) False) (\<lambda>_.
     bindR (assertReferenceUint ''position.debtShares'' (ps_debtShares p) False) (\<lambda>_.
     bindR (assertReferenceUint ''position.badDebtAssets'' (ps_badDebtAssets p) False) (\<lambda>_.
     bindR (if totalSupplyShares > 0 then mulDivDown (ps_supplyShares p) claimAssets totalSupplyShares else Inr 0) (\<lambda>claim.
     sumPositions claimAssets totalSupplyShares
       \<lparr>sm_seen = ps_accountId p # sm_seen acc, sm_supplyShares = sm_supplyShares acc + ps_supplyShares p,
        sm_debtShares = sm_debtShares acc + ps_debtShares p, sm_badDebt = sm_badDebt acc + ps_badDebtAssets p,
        sm_aggregateSupplyClaims = sm_aggregateSupplyClaims acc + claim\<rparr> ps)))))))"

record pool_check =
  ck_lpClaimAssets :: int
  ck_performingDebtAssets :: int
  ck_aggregateSupplyClaims :: int
  ck_positions :: int

definition assertPoolReferenceInvariants :: "pool_state \<Rightarrow> pool_check res" where
  "assertPoolReferenceInvariants state =
     bindR (invalidIf (pl_schemaVersion state \<noteq> M2_POOL_REFERENCE_SCHEMA_VERSION \<or>
       pl_policyVersion state \<noteq> M2_POOL_REFERENCE_POLICY_VERSION) ''state schema or policy version is invalid'') (\<lambda>_.
     bindR (mapR (\<lambda>(field, value). assertReferenceUint (''state.'' @ field) value False)
       [(''cashAssets'', pl_cashAssets state), (''grossDebtAssets'', pl_grossDebtAssets state),
        (''reservesAssets'', pl_reservesAssets state), (''badDebtAssets'', pl_badDebtAssets state),
        (''totalSupplyShares'', pl_totalSupplyShares state), (''totalDebtShares'', pl_totalDebtShares state),
        (''lastAccruedAt'', pl_lastAccruedAt state), (''marketDebtCapAssets'', pl_marketDebtCapAssets state),
        (''borrowerDebtCapAssets'', pl_borrowerDebtCapAssets state)]) (\<lambda>_.
     bindR (invalidIf (pl_grossDebtAssets state < pl_badDebtAssets state)
       ''recognized bad debt exceeds gross outstanding debt'') (\<lambda>_.
     let claimAssets = poolReferenceLpClaimAssets state in
     bindR (sumPositions claimAssets (pl_totalSupplyShares state)
       \<lparr>sm_seen = [], sm_supplyShares = 0, sm_debtShares = 0, sm_badDebt = 0, sm_aggregateSupplyClaims = 0\<rparr>
       (pl_positions state)) (\<lambda>agg.
     bindR (invalidIf (sm_supplyShares agg \<noteq> pl_totalSupplyShares state \<or>
       sm_debtShares agg \<noteq> pl_totalDebtShares state \<or> sm_badDebt agg \<noteq> pl_badDebtAssets state \<or>
       sm_aggregateSupplyClaims agg > claimAssets) ''aggregate position accounting does not reconcile'') (\<lambda>_.
     let performingDebt = poolReferencePerformingDebtAssets state in
     bindR (invalidIf ((performingDebt = 0) \<noteq> (pl_totalDebtShares state = 0))
       ''performing debt and debt shares must become empty together'') (\<lambda>_.
     bindR (invalidIf (performingDebt < pl_totalDebtShares state)
       ''performing debt assets cannot fall below debt shares'') (\<lambda>_.
     bindR (case pl_lastAcceptedOracle state of None \<Rightarrow> Inr () | Some ob \<Rightarrow> assertPoolReferenceOracleBinding ob) (\<lambda>_.
     Inr \<lparr>ck_lpClaimAssets = claimAssets, ck_performingDebtAssets = performingDebt,
          ck_aggregateSupplyClaims = sm_aggregateSupplyClaims agg,
          ck_positions = int (length (pl_positions state))\<rparr>))))))))"

subsection \<open>Transitions\<close>

text \<open>\<open>mutablePosition\<close> appends an empty position when the account has none.\<close>

definition mutablePosition :: "pool_state \<Rightarrow> string \<Rightarrow> pool_state" where
  "mutablePosition state i =
     (case find (\<lambda>p. ps_accountId p = i) (pl_positions state) of
        Some _ \<Rightarrow> state
      | None \<Rightarrow> state\<lparr>pl_positions := pl_positions state @ [emptyPoolReferencePosition i]\<rparr>)"

fun modifyFirst :: "string \<Rightarrow> (pool_position \<Rightarrow> pool_position) \<Rightarrow> pool_position list \<Rightarrow> pool_position list" where
  "modifyFirst i f [] = []"
| "modifyFirst i f (p # ps) = (if ps_accountId p = i then f p # ps else p # modifyFirst i f ps)"

definition modifyPosition :: "string \<Rightarrow> (pool_position \<Rightarrow> pool_position) \<Rightarrow> pool_state \<Rightarrow> pool_state" where
  "modifyPosition i f = pl_positions_update (modifyFirst i f)"

definition assertCurrentOracle :: "pool_state \<Rightarrow> int \<Rightarrow> oracle_observation res" where
  "assertCurrentOracle state now =
     bindR (assertReferenceUint ''now'' now False) (\<lambda>_.
     case pl_lastAcceptedOracle state of
       None \<Rightarrow> unavailablePoolAction ''a valid accepted oracle observation is required''
     | Some observation \<Rightarrow>
         bindR (assertPoolReferenceOracleBinding observation) (\<lambda>_.
         bindR (unavailableIf
           (oo_observedAt observation > now + maxOracleFutureSkewSeconds policy \<or>
            now > oo_observedAt observation \<and> now - oo_observedAt observation > maxOracleAgeSeconds policy)
           ''oracle observation is stale or too far in the future'') (\<lambda>_.
         Inr observation)))"

record accrual =
  ac_state :: pool_state
  ac_interestAccruedAssets :: int
  ac_reservesAccruedAssets :: int
  ac_chunks :: int

text \<open>The body of the accrual loop.\<close>

definition accrueChunk :: "int \<Rightarrow> accrual \<Rightarrow> accrual res" where
  "accrueChunk elapsedSeconds a =
     (let next = ac_state a; performingDebt = poolReferencePerformingDebtAssets next in
     bindR (if performingDebt > 0 then
         bindR (calculateBorrowAprBps (pl_cashAssets next) performingDebt) (\<lambda>borrowAprBps.
         bindR (calculateInterestAtRate performingDebt borrowAprBps elapsedSeconds) (\<lambda>(interestAssets, reserveAssets).
         Inr (a\<lparr>ac_state := next\<lparr>pl_grossDebtAssets := pl_grossDebtAssets next + interestAssets,
                  pl_reservesAssets := pl_reservesAssets next + reserveAssets\<rparr>,
                ac_interestAccruedAssets := ac_interestAccruedAssets a + interestAssets,
                ac_reservesAccruedAssets := ac_reservesAccruedAssets a + reserveAssets\<rparr>)))
       else Inr a) (\<lambda>b.
     Inr (b\<lparr>ac_state := (ac_state b)\<lparr>pl_lastAccruedAt := pl_lastAccruedAt (ac_state b) + elapsedSeconds\<rparr>,
            ac_chunks := ac_chunks b + 1\<rparr>)))"

text \<open>
  The accrual loop runs in chunks of at most a week. It terminates because every chunk is at least a
  second long.
\<close>

lemma bindR_cong [fundef_cong]:
  "m = m' \<Longrightarrow> (\<And>x. m' = Inr x \<Longrightarrow> f x = g x) \<Longrightarrow> bindR m f = bindR m' g"
  by (cases m') auto

lemma accrueChunk_last:
  "accrueChunk e a = Inr b \<Longrightarrow> pl_lastAccruedAt (ac_state b) = pl_lastAccruedAt (ac_state a) + e"
  by (auto simp: accrueChunk_def Let_def bindR_Inr split: if_splits prod.splits)

function accrueLoop :: "int \<Rightarrow> accrual \<Rightarrow> accrual res" where
  "accrueLoop now a =
     (if pl_lastAccruedAt (ac_state a) < now then
        bindR (minReference [now - pl_lastAccruedAt (ac_state a), maxAccrualChunkSeconds policy]) (\<lambda>elapsedSeconds.
        bindR (accrueChunk elapsedSeconds a) (\<lambda>b. accrueLoop now b))
      else Inr a)"
  by pat_completeness auto

termination
proof (relation "measure (\<lambda>(now, a). nat (now - pl_lastAccruedAt (ac_state a)))")
  fix now :: int and a e b
  assume less: "pl_lastAccruedAt (ac_state a) < now"
    and e: "minReference [now - pl_lastAccruedAt (ac_state a), maxAccrualChunkSeconds policy] = Inr e"
    and b: "accrueChunk e a = Inr b"
  show "((now, b), now, a) \<in> measure (\<lambda>(now, a). nat (now - pl_lastAccruedAt (ac_state a)))"
    using less accrueChunk_last [OF b] e by (simp add: policy_simps)
qed simp

declare accrueLoop.simps [simp del]

definition accrueInternal :: "pool_state \<Rightarrow> int \<Rightarrow> accrual res" where
  "accrueInternal state now =
     bindR (assertReferenceUint ''now'' now False) (\<lambda>_.
     bindR (assertPoolReferenceInvariants state) (\<lambda>_.
     bindR (unavailableIf (now < pl_lastAccruedAt state) ''accrual timestamp regressed'') (\<lambda>_.
     let elapsed = now - pl_lastAccruedAt state in
     bindR (if elapsed = 0 then Inr 0 else mulDivUp elapsed 1 (maxAccrualChunkSeconds policy)) (\<lambda>requiredChunks.
     bindR (unavailableIf (requiredChunks > maxAccrualChunksPerTransition policy)
       ''accrual catch-up exceeds the bounded reference-model window'') (\<lambda>_.
     bindR (accrueLoop now \<lparr>ac_state = state, ac_interestAccruedAssets = 0, ac_reservesAccruedAssets = 0, ac_chunks = 0\<rparr>) (\<lambda>a.
     bindR (assertPoolReferenceInvariants (ac_state a)) (\<lambda>_.
     Inr a)))))))"

record repay_result =
  rpr_sharesBurned :: int
  rpr_debtReducedAssets :: int
  rpr_reserveDustAssets :: int

definition repayPerformingInternal :: "pool_state \<Rightarrow> string \<Rightarrow> int \<Rightarrow> (pool_state \<times> repay_result) res" where
  "repayPerformingInternal state i amountAssets =
     (let position = findPoolReferencePosition state i; performingDebt = poolReferencePerformingDebtAssets state in
     bindR (positionPerformingDebtAssets state position) (\<lambda>quotedDebtAssets.
     bindR (unavailableIf (quotedDebtAssets = 0 \<or> amountAssets > quotedDebtAssets)
       ''repayment exceeds the current performing debt quote'') (\<lambda>_.
     bindR (if amountAssets = quotedDebtAssets then Inr (ps_debtShares position, amountAssets)
       else
         bindR (mulDivDown amountAssets (pl_totalDebtShares state) performingDebt) (\<lambda>sharesBurned.
         bindR (unavailableIf (sharesBurned = 0) ''repayment would burn zero debt shares'') (\<lambda>_.
         bindR (mulDivUp sharesBurned performingDebt (pl_totalDebtShares state)) (\<lambda>debtReducedAssets.
         Inr (sharesBurned, debtReducedAssets))))) (\<lambda>(sharesBurned, debtReducedAssets).
     let reserveDustAssets = amountAssets - debtReducedAssets in
     Inr (modifyPosition i (\<lambda>p. p\<lparr>ps_debtShares := ps_debtShares p - sharesBurned\<rparr>)
         (state\<lparr>pl_cashAssets := pl_cashAssets state + amountAssets,
           pl_grossDebtAssets := pl_grossDebtAssets state - debtReducedAssets,
           pl_reservesAssets := pl_reservesAssets state + reserveDustAssets,
           pl_totalDebtShares := pl_totalDebtShares state - sharesBurned\<rparr>),
       \<lparr>rpr_sharesBurned = sharesBurned, rpr_debtReducedAssets = debtReducedAssets,
        rpr_reserveDustAssets = reserveDustAssets\<rparr>)))))"

definition recognizeBadDebtInternal :: "pool_state \<Rightarrow> string \<Rightarrow> (pool_state \<times> int) res" where
  "recognizeBadDebtInternal state i =
     (let position = findPoolReferencePosition state i in
     bindR (unavailableIf (ps_collateralAssets position \<noteq> 0 \<or> ps_debtShares position = 0)
       ''bad debt requires exhausted collateral and remaining debt shares'') (\<lambda>_.
     bindR (positionPerformingDebtAssets state position) (\<lambda>recognizedBadDebtAssets.
     Inr (modifyPosition i (\<lambda>p. p\<lparr>ps_debtShares := 0,
           ps_badDebtAssets := ps_badDebtAssets p + recognizedBadDebtAssets\<rparr>)
         (state\<lparr>pl_totalDebtShares := pl_totalDebtShares state - ps_debtShares position,
           pl_badDebtAssets := pl_badDebtAssets state + recognizedBadDebtAssets\<rparr>),
       recognizedBadDebtAssets))))"

definition createSecuredPoolReferenceState :: "int \<Rightarrow> int \<Rightarrow> int \<Rightarrow> pool_state res" where
  "createSecuredPoolReferenceState initialTimestamp marketDebtCapAssets borrowerDebtCapAssets =
     bindR (assertReferenceUint ''initialTimestamp'' initialTimestamp False) (\<lambda>_.
     bindR (assertReferenceUint ''marketDebtCapAssets'' marketDebtCapAssets True) (\<lambda>_.
     bindR (assertReferenceUint ''borrowerDebtCapAssets'' borrowerDebtCapAssets True) (\<lambda>_.
     let state = \<lparr>pl_schemaVersion = M2_POOL_REFERENCE_SCHEMA_VERSION,
       pl_policyVersion = M2_POOL_REFERENCE_POLICY_VERSION, pl_cashAssets = 0, pl_grossDebtAssets = 0,
       pl_reservesAssets = 0, pl_badDebtAssets = 0, pl_totalSupplyShares = 0, pl_totalDebtShares = 0,
       pl_lastAccruedAt = initialTimestamp, pl_marketDebtCapAssets = marketDebtCapAssets,
       pl_borrowerDebtCapAssets = borrowerDebtCapAssets, pl_lastAcceptedOracle = None, pl_positions = []\<rparr> in
     bindR (assertPoolReferenceInvariants state) (\<lambda>_. Inr state))))"

record pool_accounting =
  pa_cashAssets :: int
  pa_grossDebtAssets :: int
  pa_performingDebtAssets :: int
  pa_reservesAssets :: int
  pa_badDebtAssets :: int
  pa_grossAssets :: int
  pa_lpClaimAssets :: int
  pa_utilizationBps :: int
  pa_borrowAprBps :: int
  pa_supplyAprBps :: int
  pa_exchangeRateWad :: int

definition poolReferenceAccounting :: "pool_state \<Rightarrow> pool_accounting res" where
  "poolReferenceAccounting state =
     bindR (assertPoolReferenceInvariants state) (\<lambda>_.
     let performingDebt = poolReferencePerformingDebtAssets state;
         claimAssets = poolReferenceLpClaimAssets state in
     bindR (calculateUtilizationBps (pl_cashAssets state) performingDebt) (\<lambda>utilizationBps.
     bindR (calculateBorrowAprBps (pl_cashAssets state) performingDebt) (\<lambda>borrowAprBps.
     bindR (calculateSupplyAprBps (pl_cashAssets state) performingDebt) (\<lambda>supplyAprBps.
     bindR (if pl_totalSupplyShares state = 0 then Inr (wad policy)
       else mulDivDown claimAssets (wad policy) (pl_totalSupplyShares state)) (\<lambda>exchangeRateWad.
     Inr \<lparr>pa_cashAssets = pl_cashAssets state, pa_grossDebtAssets = pl_grossDebtAssets state,
          pa_performingDebtAssets = performingDebt, pa_reservesAssets = pl_reservesAssets state,
          pa_badDebtAssets = pl_badDebtAssets state,
          pa_grossAssets = pl_cashAssets state + pl_grossDebtAssets state, pa_lpClaimAssets = claimAssets,
          pa_utilizationBps = utilizationBps, pa_borrowAprBps = borrowAprBps, pa_supplyAprBps = supplyAprBps,
          pa_exchangeRateWad = exchangeRateWad\<rparr>)))))"

text \<open>The pair of debts is \<open>(performingDebtAssets, totalOutstandingDebtAssets)\<close>.\<close>

definition poolReferencePosition :: "pool_state \<Rightarrow> string \<Rightarrow> (pool_position \<times> int \<times> int) res" where
  "poolReferencePosition state requestedAccountId =
     bindR (assertPoolReferenceInvariants state) (\<lambda>_.
     bindR (assertReferenceAccountId requestedAccountId) (\<lambda>i.
     let position = findPoolReferencePosition state i in
     bindR (positionPerformingDebtAssets state position) (\<lambda>performing.
     Inr (position, performing, performing + ps_badDebtAssets position))))"

definition acceptPoolReferenceOracle :: "pool_state \<Rightarrow> oracle_observation \<Rightarrow> int \<Rightarrow> pool_state res" where
  "acceptPoolReferenceOracle state observation now =
     bindR (assertPoolReferenceInvariants state) (\<lambda>_.
     bindR (assertReferenceUint ''now'' now False) (\<lambda>_.
     bindR (assertPoolReferenceOracleBinding observation) (\<lambda>_.
     bindR (unavailableIf
       (oo_observedAt observation > now + maxOracleFutureSkewSeconds policy \<or>
        now > oo_observedAt observation \<and> now - oo_observedAt observation > maxOracleAgeSeconds policy)
       ''oracle observation is stale or too far in the future'') (\<lambda>_.
     bindR (case pl_lastAcceptedOracle state of None \<Rightarrow> Inr ()
       | Some previous \<Rightarrow>
           bindR (unavailableIf (oo_observedAt observation < oo_observedAt previous) ''oracle timestamp regressed'') (\<lambda>_.
           let difference = (if oo_priceUsdWad observation > oo_priceUsdWad previous
             then oo_priceUsdWad observation - oo_priceUsdWad previous
             else oo_priceUsdWad previous - oo_priceUsdWad observation) in
           bindR (unavailableIf (difference * bps policy > oo_priceUsdWad previous * maxOracleDeviationBps policy)
             ''oracle deviation exceeds the fixture bound'') (\<lambda>_.
           unavailableIf (oo_observedAt observation = oo_observedAt previous \<and>
             (oo_roundId observation \<noteq> oo_roundId previous \<or> oo_priceUsdWad observation \<noteq> oo_priceUsdWad previous))
             ''oracle observation conflicts at the accepted timestamp''))) (\<lambda>_.
     let next = state\<lparr>pl_lastAcceptedOracle := Some observation\<rparr> in
     bindR (assertPoolReferenceInvariants next) (\<lambda>_. Inr next))))))"

definition accruePoolReferenceInterest :: "pool_state \<Rightarrow> int \<Rightarrow> accrual res" where
  "accruePoolReferenceInterest state now = accrueInternal state now"

text \<open>
  The results of the transitions extend the accrual with the figures the source spreads into the
  returned object.
\<close>

definition supplyPoolReferenceAssets :: "pool_state \<Rightarrow> string \<Rightarrow> int \<Rightarrow> int \<Rightarrow> (accrual \<times> int) res" where
  "supplyPoolReferenceAssets state requestedAccountId amountAssets now =
     bindR (assertReferenceAccountId requestedAccountId) (\<lambda>i.
     bindR (assertReferenceUint ''amountAssets'' amountAssets True) (\<lambda>_.
     bindR (accrueInternal state now) (\<lambda>accrued.
     let next = ac_state accrued; claimBefore = poolReferenceLpClaimAssets next in
     bindR (if pl_totalSupplyShares next = 0 then Inr amountAssets
       else mulDivDown amountAssets (pl_totalSupplyShares next) claimBefore) (\<lambda>sharesMinted.
     bindR (unavailableIf (sharesMinted = 0) ''supply would mint zero shares'') (\<lambda>_.
     let next' = modifyPosition i (\<lambda>p. p\<lparr>ps_supplyShares := ps_supplyShares p + sharesMinted\<rparr>)
           (mutablePosition (next\<lparr>pl_cashAssets := pl_cashAssets next + amountAssets,
              pl_totalSupplyShares := pl_totalSupplyShares next + sharesMinted\<rparr>) i) in
     bindR (assertPoolReferenceInvariants next') (\<lambda>_.
     Inr (accrued\<lparr>ac_state := next'\<rparr>, sharesMinted)))))))"

definition donatePoolReferenceCash :: "pool_state \<Rightarrow> int \<Rightarrow> int \<Rightarrow> (accrual \<times> int) res" where
  "donatePoolReferenceCash state amountAssets now =
     bindR (assertReferenceUint ''amountAssets'' amountAssets True) (\<lambda>_.
     bindR (accrueInternal state now) (\<lambda>accrued.
     let next = (ac_state accrued)\<lparr>pl_cashAssets := pl_cashAssets (ac_state accrued) + amountAssets\<rparr> in
     bindR (assertPoolReferenceInvariants next) (\<lambda>_.
     Inr (accrued\<lparr>ac_state := next\<rparr>, amountAssets))))"

definition withdrawPoolReferenceAssets :: "pool_state \<Rightarrow> string \<Rightarrow> int \<Rightarrow> int \<Rightarrow> (accrual \<times> int) res" where
  "withdrawPoolReferenceAssets state requestedAccountId amountAssets now =
     bindR (assertReferenceAccountId requestedAccountId) (\<lambda>i.
     bindR (assertReferenceUint ''amountAssets'' amountAssets True) (\<lambda>_.
     bindR (accrueInternal state now) (\<lambda>accrued.
     let next = ac_state accrued in
     bindR (unavailableIf (amountAssets > pl_cashAssets next) ''withdrawal exceeds available cash'') (\<lambda>_.
     let claimAssets = poolReferenceLpClaimAssets next in
     bindR (unavailableIf (claimAssets = 0 \<or> pl_totalSupplyShares next = 0) ''no LP claim is available'') (\<lambda>_.
     bindR (mulDivUp amountAssets (pl_totalSupplyShares next) claimAssets) (\<lambda>sharesBurned.
     let opened = mutablePosition next i; position = findPoolReferencePosition opened i in
     bindR (unavailableIf (sharesBurned = 0 \<or> sharesBurned > ps_supplyShares position)
       ''withdrawal exceeds the account share claim'') (\<lambda>_.
     let next' = modifyPosition i (\<lambda>p. p\<lparr>ps_supplyShares := ps_supplyShares p - sharesBurned\<rparr>)
           (opened\<lparr>pl_cashAssets := pl_cashAssets opened - amountAssets,
              pl_totalSupplyShares := pl_totalSupplyShares opened - sharesBurned\<rparr>) in
     bindR (assertPoolReferenceInvariants next') (\<lambda>_.
     Inr (accrued\<lparr>ac_state := next'\<rparr>, sharesBurned)))))))))"

definition redeemAllPoolReferenceShares :: "pool_state \<Rightarrow> string \<Rightarrow> int \<Rightarrow> (accrual \<times> int \<times> int) res" where
  "redeemAllPoolReferenceShares state requestedAccountId now =
     bindR (assertReferenceAccountId requestedAccountId) (\<lambda>i.
     bindR (accrueInternal state now) (\<lambda>accrued.
     let next = mutablePosition (ac_state accrued) i; position = findPoolReferencePosition next i in
     bindR (unavailableIf (ps_supplyShares position = 0) ''account has no supply shares'') (\<lambda>_.
     bindR (if ps_supplyShares position = pl_totalSupplyShares next then Inr (poolReferenceLpClaimAssets next)
       else mulDivDown (ps_supplyShares position) (poolReferenceLpClaimAssets next) (pl_totalSupplyShares next)) (\<lambda>amountAssets.
     bindR (unavailableIf (amountAssets = 0 \<or> amountAssets > pl_cashAssets next)
       ''full redemption is not currently liquid'') (\<lambda>_.
     let sharesBurned = ps_supplyShares position;
         next' = modifyPosition i (\<lambda>p. p\<lparr>ps_supplyShares := 0\<rparr>)
           (next\<lparr>pl_cashAssets := pl_cashAssets next - amountAssets,
              pl_totalSupplyShares := pl_totalSupplyShares next - sharesBurned\<rparr>) in
     bindR (assertPoolReferenceInvariants next') (\<lambda>_.
     Inr (accrued\<lparr>ac_state := next'\<rparr>, amountAssets, sharesBurned)))))))"

definition addPoolReferenceCollateral :: "pool_state \<Rightarrow> string \<Rightarrow> int \<Rightarrow> int \<Rightarrow> (accrual \<times> int) res" where
  "addPoolReferenceCollateral state requestedAccountId amountAssets now =
     bindR (assertReferenceAccountId requestedAccountId) (\<lambda>i.
     bindR (assertReferenceUint ''amountAssets'' amountAssets True) (\<lambda>_.
     bindR (accrueInternal state now) (\<lambda>accrued.
     let next = modifyPosition i (\<lambda>p. p\<lparr>ps_collateralAssets := ps_collateralAssets p + amountAssets\<rparr>)
           (mutablePosition (ac_state accrued) i) in
     bindR (assertPoolReferenceInvariants next) (\<lambda>_.
     Inr (accrued\<lparr>ac_state := next\<rparr>, amountAssets)))))"

record pool_health =
  ph_priceUsdWad :: int
  ph_collateralValueAssets :: int
  ph_borrowCapacityAssets :: int
  ph_liquidationThresholdAssets :: int
  ph_debtAssets :: int
  ph_healthFactorWad :: "int option"
  ph_liquidatable :: bool

definition healthFromState :: "pool_state \<Rightarrow> string \<Rightarrow> int \<Rightarrow> int option \<Rightarrow> int \<Rightarrow> pool_health res" where
  "healthFromState state i now collateralOverride debtIncrease =
     bindR (assertCurrentOracle state now) (\<lambda>oracle.
     let position = findPoolReferencePosition state i;
         collateralAssets = (case collateralOverride of Some c \<Rightarrow> c | None \<Rightarrow> ps_collateralAssets position) in
     bindR (positionPerformingDebtAssets state position) (\<lambda>performing.
     let debtAssets = performing + ps_badDebtAssets position + debtIncrease in
     bindR (calculateCollateralValueAssets collateralAssets (oo_priceUsdWad oracle)) (\<lambda>collateralValueAssets.
     bindR (mulDivDown collateralValueAssets (loanToValueBps policy) (bps policy)) (\<lambda>borrowCapacityAssets.
     bindR (mulDivDown collateralValueAssets (liquidationThresholdBps policy) (bps policy)) (\<lambda>liquidationThresholdAssets.
     bindR (if debtAssets = 0 then Inr None
       else bindR (mulDivDown liquidationThresholdAssets (wad policy) debtAssets) (\<lambda>h. Inr (Some h))) (\<lambda>healthFactorWad.
     Inr \<lparr>ph_priceUsdWad = oo_priceUsdWad oracle, ph_collateralValueAssets = collateralValueAssets,
          ph_borrowCapacityAssets = borrowCapacityAssets,
          ph_liquidationThresholdAssets = liquidationThresholdAssets, ph_debtAssets = debtAssets,
          ph_healthFactorWad = healthFactorWad,
          ph_liquidatable = (ps_debtShares position > 0 \<and> debtAssets > liquidationThresholdAssets)\<rparr>))))))"

definition poolReferenceHealth :: "pool_state \<Rightarrow> string \<Rightarrow> int \<Rightarrow> pool_health res" where
  "poolReferenceHealth state requestedAccountId now =
     bindR (assertPoolReferenceInvariants state) (\<lambda>_.
     bindR (assertReferenceAccountId requestedAccountId) (\<lambda>i.
     healthFromState state i now None 0))"

definition borrowPoolReferenceAssets :: "pool_state \<Rightarrow> string \<Rightarrow> int \<Rightarrow> int \<Rightarrow> (accrual \<times> int \<times> pool_health) res" where
  "borrowPoolReferenceAssets state requestedAccountId amountAssets now =
     bindR (assertReferenceAccountId requestedAccountId) (\<lambda>i.
     bindR (assertReferenceUint ''amountAssets'' amountAssets True) (\<lambda>_.
     bindR (accrueInternal state now) (\<lambda>accrued.
     let next = mutablePosition (ac_state accrued) i; position = findPoolReferencePosition next i in
     bindR (unavailableIf (ps_badDebtAssets position > 0) ''recognized bad debt blocks new risk'') (\<lambda>_.
     bindR (unavailableIf (amountAssets > pl_cashAssets next) ''borrow exceeds available cash'') (\<lambda>_.
     bindR (positionPerformingDebtAssets next position) (\<lambda>debtBefore.
     bindR (healthFromState next i now None amountAssets) (\<lambda>healthAfter.
     bindR (unavailableIf (debtBefore + amountAssets > pl_borrowerDebtCapAssets next)
       ''borrow exceeds the borrower fixture cap'') (\<lambda>_.
     bindR (unavailableIf (pl_grossDebtAssets next + amountAssets > pl_marketDebtCapAssets next)
       ''borrow exceeds the market fixture cap'') (\<lambda>_.
     bindR (unavailableIf (ph_debtAssets healthAfter > ph_borrowCapacityAssets healthAfter)
       ''borrow exceeds collateral capacity'') (\<lambda>_.
     let performingBefore = poolReferencePerformingDebtAssets next in
     bindR (if pl_totalDebtShares next = 0 then Inr amountAssets
       else mulDivUp amountAssets (pl_totalDebtShares next) performingBefore) (\<lambda>debtSharesMinted.
     let next' = modifyPosition i (\<lambda>p. p\<lparr>ps_debtShares := ps_debtShares p + debtSharesMinted\<rparr>)
           (next\<lparr>pl_cashAssets := pl_cashAssets next - amountAssets,
              pl_grossDebtAssets := pl_grossDebtAssets next + amountAssets,
              pl_totalDebtShares := pl_totalDebtShares next + debtSharesMinted\<rparr>) in
     bindR (assertPoolReferenceInvariants next') (\<lambda>_.
     Inr (accrued\<lparr>ac_state := next'\<rparr>, debtSharesMinted, healthAfter)))))))))))))"

text \<open>The last component is \<open>badDebtRecoveredAssets\<close>; a bad-debt recovery has no repayment figures.\<close>

definition repayPoolReferenceAssets ::
  "pool_state \<Rightarrow> string \<Rightarrow> int \<Rightarrow> int \<Rightarrow> (accrual \<times> repay_result option \<times> int) res" where
  "repayPoolReferenceAssets state requestedAccountId amountAssets now =
     bindR (assertReferenceAccountId requestedAccountId) (\<lambda>i.
     bindR (assertReferenceUint ''amountAssets'' amountAssets True) (\<lambda>_.
     bindR (accrueInternal state now) (\<lambda>accrued.
     let next = mutablePosition (ac_state accrued) i; position = findPoolReferencePosition next i in
     if ps_badDebtAssets position > 0 then
       bindR (unavailableIf (ps_debtShares position \<noteq> 0 \<or> amountAssets > ps_badDebtAssets position)
         ''bad-debt recovery must remain within the recognized amount'') (\<lambda>_.
       let next' = modifyPosition i (\<lambda>p. p\<lparr>ps_badDebtAssets := ps_badDebtAssets p - amountAssets\<rparr>)
             (next\<lparr>pl_cashAssets := pl_cashAssets next + amountAssets,
                pl_grossDebtAssets := pl_grossDebtAssets next - amountAssets,
                pl_badDebtAssets := pl_badDebtAssets next - amountAssets\<rparr>) in
       bindR (assertPoolReferenceInvariants next') (\<lambda>_.
       Inr (accrued\<lparr>ac_state := next'\<rparr>, None, amountAssets)))
     else
       bindR (repayPerformingInternal next i amountAssets) (\<lambda>(next', repayment).
       bindR (assertPoolReferenceInvariants next') (\<lambda>_.
       Inr (accrued\<lparr>ac_state := next'\<rparr>, Some repayment, 0))))))"

definition releasePoolReferenceCollateral ::
  "pool_state \<Rightarrow> string \<Rightarrow> int \<Rightarrow> int \<Rightarrow> (accrual \<times> int \<times> pool_health) res" where
  "releasePoolReferenceCollateral state requestedAccountId amountAssets now =
     bindR (assertReferenceAccountId requestedAccountId) (\<lambda>i.
     bindR (assertReferenceUint ''amountAssets'' amountAssets True) (\<lambda>_.
     bindR (accrueInternal state now) (\<lambda>accrued.
     let next = mutablePosition (ac_state accrued) i; position = findPoolReferencePosition next i in
     bindR (unavailableIf (amountAssets > ps_collateralAssets position)
       ''collateral release exceeds the account balance'') (\<lambda>_.
     let remainingCollateral = ps_collateralAssets position - amountAssets in
     bindR (healthFromState next i now (Some remainingCollateral) 0) (\<lambda>healthAfter.
     bindR (unavailableIf (ph_debtAssets healthAfter > ph_borrowCapacityAssets healthAfter)
       ''collateral release would exceed borrowing capacity'') (\<lambda>_.
     let next' = modifyPosition i (\<lambda>p. p\<lparr>ps_collateralAssets := remainingCollateral\<rparr>) next in
     bindR (assertPoolReferenceInvariants next') (\<lambda>_.
     Inr (accrued\<lparr>ac_state := next'\<rparr>, amountAssets, healthAfter))))))))"

record liquidation =
  lq_accrued :: accrual
  lq_repayment :: repay_result
  lq_collateralSeizedAssets :: int
  lq_badDebtRecognizedAssets :: int
  lq_repaymentLimitAssets :: int
  lq_healthBefore :: pool_health

definition liquidatePoolReferencePosition :: "pool_state \<Rightarrow> string \<Rightarrow> int \<Rightarrow> int \<Rightarrow> liquidation res" where
  "liquidatePoolReferencePosition state requestedAccountId repayAmountAssets now =
     bindR (assertReferenceAccountId requestedAccountId) (\<lambda>i.
     bindR (assertReferenceUint ''repayAmountAssets'' repayAmountAssets True) (\<lambda>_.
     bindR (accrueInternal state now) (\<lambda>accrued.
     let next = mutablePosition (ac_state accrued) i; position = findPoolReferencePosition next i in
     bindR (healthFromState next i now None 0) (\<lambda>healthBefore.
     bindR (unavailableIf (\<not> ph_liquidatable healthBefore) ''position is not liquidatable'') (\<lambda>_.
     bindR (positionPerformingDebtAssets next position) (\<lambda>performingDebt.
     bindR (mulDivDown performingDebt (closeFactorBps policy) (bps policy)) (\<lambda>closeLimit.
     bindR (mulDivUp (ph_collateralValueAssets healthBefore) (bps policy)
       (bps policy + liquidationBonusBps policy)) (\<lambda>collateralCoverageLimit.
     bindR (minReference [performingDebt, closeLimit, collateralCoverageLimit]) (\<lambda>repaymentLimitAssets.
     bindR (unavailableIf (repayAmountAssets > repaymentLimitAssets)
       ''liquidation repayment exceeds the close or collateral limit'') (\<lambda>_.
     bindR (repayPerformingInternal next i repayAmountAssets) (\<lambda>(repaidState, repayment).
     bindR (mulDivUp repayAmountAssets (bps policy + liquidationBonusBps policy) (bps policy)) (\<lambda>seizeValueAssets.
     bindR (calculateCollateralRequiredForValue seizeValueAssets (ph_priceUsdWad healthBefore)) (\<lambda>collateralQuotedAssets.
     bindR (minReference [ps_collateralAssets position, collateralQuotedAssets]) (\<lambda>collateralSeizedAssets.
     let seized = modifyPosition i (\<lambda>p. p\<lparr>ps_collateralAssets := ps_collateralAssets p - collateralSeizedAssets\<rparr>) repaidState;
         position' = findPoolReferencePosition seized i in
     bindR (if ps_collateralAssets position' = 0 \<and> ps_debtShares position' > 0
       then recognizeBadDebtInternal seized i else Inr (seized, 0)) (\<lambda>(next', badDebtRecognizedAssets).
     bindR (assertPoolReferenceInvariants next') (\<lambda>_.
     Inr \<lparr>lq_accrued = accrued\<lparr>ac_state := next'\<rparr>, lq_repayment = repayment,
          lq_collateralSeizedAssets = collateralSeizedAssets,
          lq_badDebtRecognizedAssets = badDebtRecognizedAssets,
          lq_repaymentLimitAssets = repaymentLimitAssets, lq_healthBefore = healthBefore\<rparr>))))))))))))))))"

end
