(* ===== verification/Pool_Invariant.thy ===== *)
theory Pool_Invariant
  imports Secured_Pool
begin

text \<open>
  The accounting of the secured pool: the runtime check \<open>assertPoolReferenceInvariants\<close> as a predicate, the
  accrual loop (it returns, and its growth is bounded), positions and debt quotes, and what every
  transition does to the accounting.
\<close>

subsection \<open>The invariant as a predicate\<close>

definition account_ok :: "string \<Rightarrow> bool" where
  "account_ok i \<longleftrightarrow> account_id_pattern i \<and> i \<notin> set BLOCKED_ACCOUNT_IDS"

lemma assertReferenceAccountId_Inr [simp]: "assertReferenceAccountId i = Inr j \<longleftrightarrow> j = i \<and> account_ok i"
  by (auto simp: assertReferenceAccountId_def account_ok_def invalidPoolReference_def)

definition position_ok :: "pool_position \<Rightarrow> bool" where
  "position_ok p \<longleftrightarrow> account_ok (ps_accountId p) \<and> in_range (ps_supplyShares p) \<and> in_range (ps_collateralAssets p) \<and>
     in_range (ps_debtShares p) \<and> in_range (ps_badDebtAssets p)"

abbreviation tot :: "(pool_position \<Rightarrow> int) \<Rightarrow> pool_position list \<Rightarrow> int" where
  "tot f ps \<equiv> sum_list (map f ps)"

lemma sumPositions_Inr:
  "sumPositions C T acc ps = Inr out \<longleftrightarrow>
    list_all position_ok ps \<and> distinct (map ps_accountId ps) \<and>
    (\<forall>p\<in>set ps. ps_accountId p \<notin> set (sm_seen acc)) \<and> (0 < T \<and> ps \<noteq> [] \<longrightarrow> in_range C \<and> in_range T) \<and>
    out = \<lparr>sm_seen = rev (map ps_accountId ps) @ sm_seen acc,
      sm_supplyShares = sm_supplyShares acc + tot ps_supplyShares ps,
      sm_debtShares = sm_debtShares acc + tot ps_debtShares ps, sm_badDebt = sm_badDebt acc + tot ps_badDebtAssets ps,
      sm_aggregateSupplyClaims = sm_aggregateSupplyClaims acc +
        (if 0 < T then tot (\<lambda>p. ps_supplyShares p * C div T) ps else 0)\<rparr>"
proof (induction ps arbitrary: acc)
  case Nil
  then show ?case by auto
next
  case (Cons p ps)
  show ?case
    by (cases "0 < T") (auto simp: bindR_Inr Cons.IH position_ok_def algebra_simps image_iff)
qed

lemma mult_div_le: "0 < (b::int) \<Longrightarrow> b * (a div b) \<le> a"
  using le_div_iff [of b "a div b" a] by simp

text \<open>The claims of the positions, each rounded down, never exceed the claim they share.\<close>

lemma claims_le:
  assumes "0 < T" "0 \<le> C"
  shows "tot (\<lambda>p. ps_supplyShares p * C div T) ps \<le> tot ps_supplyShares ps * C div T"
proof (induction ps)
  case (Cons p ps)
  have "ps_supplyShares p * C div T + tot ps_supplyShares ps * C div T \<le> (ps_supplyShares p * C + tot ps_supplyShares ps * C) div T"
    using assms(1) mult_div_le [OF assms(1), of "ps_supplyShares p * C"] mult_div_le [OF assms(1), of "tot ps_supplyShares ps * C"]
    by (simp add: le_div_iff distrib_left)
  with Cons.IH show ?case by (simp add: distrib_right)
qed simp

definition oracle_ok :: "oracle_observation option \<Rightarrow> bool" where
  "oracle_ok x \<longleftrightarrow> (\<forall>ob. x = Some ob \<longrightarrow> assertPoolReferenceOracleBinding ob = Inr ())"

definition pool_wf :: "pool_state \<Rightarrow> bool" where
  "pool_wf s \<longleftrightarrow>
     pl_schemaVersion s = M2_POOL_REFERENCE_SCHEMA_VERSION \<and> pl_policyVersion s = M2_POOL_REFERENCE_POLICY_VERSION \<and>
     list_all in_range [pl_cashAssets s, pl_grossDebtAssets s, pl_reservesAssets s, pl_badDebtAssets s,
       pl_totalSupplyShares s, pl_totalDebtShares s, pl_lastAccruedAt s, pl_marketDebtCapAssets s, pl_borrowerDebtCapAssets s] \<and>
     list_all position_ok (pl_positions s) \<and> distinct (map ps_accountId (pl_positions s)) \<and>
     tot ps_supplyShares (pl_positions s) = pl_totalSupplyShares s \<and>
     tot ps_debtShares (pl_positions s) = pl_totalDebtShares s \<and>
     tot ps_badDebtAssets (pl_positions s) = pl_badDebtAssets s \<and>
     pl_totalDebtShares s \<le> poolReferencePerformingDebtAssets s \<and>
     (poolReferencePerformingDebtAssets s = 0 \<longleftrightarrow> pl_totalDebtShares s = 0) \<and>
     (0 < pl_totalSupplyShares s \<longrightarrow> in_range (poolReferenceLpClaimAssets s)) \<and> oracle_ok (pl_lastAcceptedOracle s)"

lemma claim_nonneg: "0 \<le> poolReferenceLpClaimAssets s"
  by (simp add: poolReferenceLpClaimAssets_def Let_def)

text \<open>The runtime check accepts exactly the well-formed states.\<close>

lemma invariants_Inr: "(\<exists>ck. assertPoolReferenceInvariants s = Inr ck) \<longleftrightarrow> pool_wf s"
proof -
  let ?C = "poolReferenceLpClaimAssets s" and ?T = "pl_totalSupplyShares s" and ?ps = "pl_positions s"
  have le: "tot (\<lambda>p. ps_supplyShares p * ?C div ?T) ?ps \<le> ?C" if "tot ps_supplyShares ?ps = ?T" "0 < ?T"
    using claims_le [OF that(2) claim_nonneg, of s ?ps] that by simp
  have ne: "?ps \<noteq> []" if "tot ps_supplyShares ?ps = ?T" "0 < ?T" using that by auto
  have b: "pl_badDebtAssets s \<le> pl_grossDebtAssets s"
    if "pl_totalDebtShares s \<le> poolReferencePerformingDebtAssets s" "in_range (pl_totalDebtShares s)"
    using that by (simp add: poolReferencePerformingDebtAssets_def in_range_def)
  show ?thesis
    using le ne b claim_nonneg [of s]
    unfolding assertPoolReferenceInvariants_def pool_wf_def oracle_ok_def
    by (auto simp: bindR_Inr Let_def sumPositions_Inr not_less split: option.splits if_splits)
qed

subsection \<open>Refusals\<close>

text \<open>
  A transition may refuse: with the dedicated error of an unavailable action, or because the caller's
  account identifier is malformed. Any other error is a broken accounting check or a value out of range.
  \<open>okR r Q\<close> says that \<open>r\<close> is a refusal or a value with \<open>Q\<close>.
\<close>

definition refusal :: "js_error \<Rightarrow> bool" where
  "refusal e \<longleftrightarrow> (\<exists>m. e = DomainError ''secured_pool_action_unavailable'' m) \<or>
     e = DomainError ''invalid_secured_pool_reference_model'' ''accountId must be a bounded opaque identifier''"

definition okR :: "'a res \<Rightarrow> ('a \<Rightarrow> bool) \<Rightarrow> bool" where
  "okR r Q \<longleftrightarrow> (case r of Inl e \<Rightarrow> refusal e | Inr x \<Rightarrow> Q x)"

lemma okR_Inr [simp]: "okR (Inr x) Q = Q x"
  by (simp add: okR_def)

lemma okR_Inl [simp]: "okR (Inl e) Q = refusal e"
  by (simp add: okR_def)

lemma okR_bindR [simp]: "okR (bindR m f) Q = okR m (\<lambda>x. okR (f x) Q)"
  by (cases m) (auto simp: okR_def)

lemma okR_unavailableIf [simp]: "okR (unavailableIf b m) Q \<longleftrightarrow> (\<not> b \<longrightarrow> Q ())"
  by (auto simp: okR_def unavailableIf_def unavailablePoolAction_def refusal_def)

lemma okR_unavailable [simp]: "okR (unavailablePoolAction m) Q"
  by (auto simp: okR_def unavailablePoolAction_def refusal_def)

lemma okR_account [simp]: "okR (assertReferenceAccountId i) Q \<longleftrightarrow> (account_ok i \<longrightarrow> Q i)"
  by (auto simp: okR_def assertReferenceAccountId_def account_ok_def invalidPoolReference_def refusal_def)

lemma okR_value: "r = Inr x \<Longrightarrow> okR r Q = Q x"
  by simp

lemma okR_uint [simp]: "in_range v \<Longrightarrow> (pos \<Longrightarrow> v \<noteq> 0) \<Longrightarrow> okR (assertReferenceUint n v pos) Q = Q v"
  by (rule okR_value) simp

lemma okR_mulDivDown [simp]:
  "in_range l \<Longrightarrow> in_range r \<Longrightarrow> in_range d \<Longrightarrow> d \<noteq> 0 \<Longrightarrow> okR (mulDivDown l r d) Q = Q (l * r div d)"
  by (rule okR_value) simp

lemma okR_mulDivUp [simp]:
  "in_range l \<Longrightarrow> in_range r \<Longrightarrow> in_range d \<Longrightarrow> d \<noteq> 0 \<Longrightarrow> okR (mulDivUp l r d) Q = Q (ceilDiv (l * r) d)"
  by (rule okR_value) simp

lemma okR_invariants: "pool_wf s \<Longrightarrow> (\<And>ck. Q ck) \<Longrightarrow> okR (assertPoolReferenceInvariants s) Q"
  using invariants_Inr [of s] by (auto simp: okR_def)

subsection \<open>Accrual\<close>

lemma growth_step:
  fixes P P' :: int
  assumes "64 * (P' + 64) \<le> 65 * (P + 64)" and "65 ^ Suc k * (P + 64) \<le> 64 ^ Suc k * B"
  shows "65 ^ k * (P' + 64) \<le> 64 ^ k * B"
proof -
  have "65 ^ k * (64 * (P' + 64)) \<le> 65 ^ k * (65 * (P + 64))" using assms(1) by (intro mult_left_mono) auto
  with assms(2) have "64 * (65 ^ k * (P' + 64)) \<le> 64 * (64 ^ k * B)" by (simp add: algebra_simps)
  then show ?thesis by simp
qed

lemma growth_bound:
  fixes X :: int
  assumes "0 \<le> X" and "65 ^ k * X \<le> 64 ^ k * B"
  shows "X \<le> B"
proof -
  have "64 ^ k * X \<le> 65 ^ k * X" using assms(1) by (intro mult_right_mono power_mono) auto
  with assms(2) have "64 ^ k * X \<le> 64 ^ k * B" by linarith
  then show ?thesis by simp
qed

lemma growth_1024: "(65::int) ^ (128 * 8) \<le> 2 ^ 24 * 64 ^ (128 * 8)"
proof -
  have e8: "(8::int) ^ 8 = 2 ^ 24" by simp
  have "(65::int) ^ 128 \<le> 8 * 64 ^ 128" by simp
  then have "((65::int) ^ 128) ^ 8 \<le> (8 * 64 ^ 128) ^ 8" by (rule power_mono) simp
  then show ?thesis by (simp only: power_mult_distrib power_mult e8)
qed

lemma growth_start:
  fixes X :: int
  assumes "0 \<le> X" and "k \<le> 1024"
  shows "65 ^ k * X \<le> 64 ^ k * (2 ^ 24 * X)"
proof -
  obtain m where m: "128 * 8 = m + k" using that [of "1024 - k"] assms(2) by simp
  have "(64::int) ^ m * 65 ^ k \<le> 65 ^ m * 65 ^ k" by (intro mult_right_mono power_mono) auto
  also have "\<dots> \<le> 64 ^ m * (2 ^ 24 * 64 ^ k)"
    using growth_1024 unfolding m power_add by (simp only: mult_ac)
  finally have "(65::int) ^ k \<le> 2 ^ 24 * 64 ^ k" by (simp only: mult_le_cancel_left_pos zero_less_power zero_less_numeral)
  then have "65 ^ k * X \<le> 2 ^ 24 * 64 ^ k * X" using assms(1) by (rule mult_right_mono)
  then show ?thesis by (simp only: mult_ac)
qed

lemma accrueChunk_ok:
  assumes P: "P = poolReferencePerformingDebtAssets (ac_state a)" "0 \<le> P" "P \<le> 2 ^ 200"
    and cash: "0 \<le> pl_cashAssets (ac_state a)" "pl_cashAssets (ac_state a) \<le> 2 ^ 200" and e: "0 \<le> e" "e \<le> 604800"
  shows "\<exists>i r. accrueChunk e a = Inr
      \<lparr>ac_state = (ac_state a)\<lparr>pl_grossDebtAssets := pl_grossDebtAssets (ac_state a) + i,
         pl_reservesAssets := pl_reservesAssets (ac_state a) + r, pl_lastAccruedAt := pl_lastAccruedAt (ac_state a) + e\<rparr>,
       ac_interestAccruedAssets = ac_interestAccruedAssets a + i,
       ac_reservesAccruedAssets = ac_reservesAccruedAssets a + r, ac_chunks = ac_chunks a + 1\<rparr> \<and>
    0 \<le> r \<and> r \<le> i \<and> (P = 0 \<longrightarrow> i = 0) \<and> 64 * (P + i + 64) \<le> 65 * (P + 64)"
proof (cases "P = 0")
  case True
  then show ?thesis using P by (intro exI [of _ 0]) (simp add: accrueChunk_def Let_def)
next
  case False
  let ?c = "pl_cashAssets (ac_state a)"
  have rng: "in_range ?c" "in_range P" "in_range (?c + P)" using P cash by (auto simp: in_range_def MAX_MODEL_UINT_def)
  then obtain u where u: "calculateUtilizationBps ?c P = Inr u"
    using rates_total [OF rng] by blast
  let ?b = "aprAt u" and ?i = "ceilDiv (P * (aprAt u * e)) 315360000000"
  have b: "200 \<le> ?b" "?b \<le> 7000" using utilization_bounds [OF u] aprAt_bounds by auto
  have grow: "64 * ?i \<le> P + 64" using P b e by (intro interest_growth) auto
  have i0: "0 \<le> ?i" using P b e by (intro ceilDiv_nonneg) auto
  have be: "aprAt u * e \<le> 7000 * 604800" "0 \<le> aprAt u * e" using mult_mono [of "aprAt u" 7000 e 604800] b e by auto
  have "calculateInterestAtRate P ?b e = Inr (?i, ?i * 1000 div 10000)"
    using rng i0 grow P b e be by (simp add: interest_Inr in_range_def MAX_MODEL_UINT_def)
  moreover have "calculateBorrowAprBps ?c P = Inr ?b" using u by (simp add: borrowApr_Inr)
  ultimately have "accrueChunk e a = Inr
      \<lparr>ac_state = (ac_state a)\<lparr>pl_grossDebtAssets := pl_grossDebtAssets (ac_state a) + ?i,
         pl_reservesAssets := pl_reservesAssets (ac_state a) + ?i * 1000 div 10000, pl_lastAccruedAt := pl_lastAccruedAt (ac_state a) + e\<rparr>,
       ac_interestAccruedAssets = ac_interestAccruedAssets a + ?i,
       ac_reservesAccruedAssets = ac_reservesAccruedAssets a + ?i * 1000 div 10000, ac_chunks = ac_chunks a + 1\<rparr>"
    using False P by (simp add: accrueChunk_def Let_def)
  with False grow reserve_share [OF i0] show ?thesis by auto
qed

text \<open>The loop returns within any number of chunks that covers the elapsed time.\<close>

lemma accrueLoop_ok:
  assumes "P = poolReferencePerformingDebtAssets (ac_state a)" and "0 \<le> P"
    and "65 ^ k * (P + 64) \<le> 64 ^ k * B" and "B \<le> 2 ^ 200"
    and "0 \<le> pl_cashAssets (ac_state a)" and "pl_cashAssets (ac_state a) \<le> 2 ^ 200"
    and "0 \<le> pl_lastAccruedAt (ac_state a)" and "pl_lastAccruedAt (ac_state a) \<le> now" and "in_range now"
    and "now - pl_lastAccruedAt (ac_state a) \<le> 604800 * int k"
  shows "\<exists>i r. accrueLoop now a = Inr
      \<lparr>ac_state = (ac_state a)\<lparr>pl_grossDebtAssets := pl_grossDebtAssets (ac_state a) + i,
         pl_reservesAssets := pl_reservesAssets (ac_state a) + r, pl_lastAccruedAt := now\<rparr>,
       ac_interestAccruedAssets = ac_interestAccruedAssets a + i,
       ac_reservesAccruedAssets = ac_reservesAccruedAssets a + r,
       ac_chunks = ac_chunks a + ceilDiv (now - pl_lastAccruedAt (ac_state a)) 604800\<rparr> \<and>
    0 \<le> r \<and> r \<le> i \<and> (P = 0 \<longrightarrow> i = 0) \<and> P + i + 64 \<le> B"
  using assms
proof (induction k arbitrary: a P)
  case 0
  then have "pl_lastAccruedAt (ac_state a) = now" by simp
  with 0 show ?case by (intro exI [of _ 0]) (simp add: accrueLoop.simps ceilDiv_def)
next
  case (Suc k)
  let ?l = "pl_lastAccruedAt (ac_state a)"
  show ?case
  proof (cases "?l < now")
    case False
    with Suc.prems have "?l = now" by simp
    moreover have "P + 64 \<le> B" by (rule growth_bound [of _ "Suc k"]) (use Suc.prems in auto)
    ultimately show ?thesis by (intro exI [of _ 0]) (simp add: accrueLoop.simps ceilDiv_def)
  next
    case True
    define e where "e = min (now - ?l) 604800"
    have e: "0 < e" "e \<le> 604800" "?l + e \<le> now" "now - (?l + e) \<le> 604800 * int k"
      using True Suc.prems by (auto simp: e_def)
    have "P + 64 \<le> B" by (rule growth_bound [of _ "Suc k"]) (use Suc.prems in auto)
    then have "P \<le> 2 ^ 200" using Suc.prems by simp
    then obtain i r where chunk: "accrueChunk e a = Inr
      \<lparr>ac_state = (ac_state a)\<lparr>pl_grossDebtAssets := pl_grossDebtAssets (ac_state a) + i,
         pl_reservesAssets := pl_reservesAssets (ac_state a) + r, pl_lastAccruedAt := ?l + e\<rparr>,
       ac_interestAccruedAssets = ac_interestAccruedAssets a + i,
       ac_reservesAccruedAssets = ac_reservesAccruedAssets a + r, ac_chunks = ac_chunks a + 1\<rparr>" (is "_ = Inr ?b")
      and ir: "0 \<le> r" "r \<le> i" "P = 0 \<longrightarrow> i = 0" "64 * (P + i + 64) \<le> 65 * (P + 64)"
      using accrueChunk_ok [of P a e] Suc.prems e by auto
    have P': "P + i = poolReferencePerformingDebtAssets (ac_state ?b)"
      using Suc.prems by (simp add: poolReferencePerformingDebtAssets_def)
    have IH: "\<exists>i' r'. accrueLoop now ?b = Inr
        \<lparr>ac_state = (ac_state ?b)\<lparr>pl_grossDebtAssets := pl_grossDebtAssets (ac_state ?b) + i',
           pl_reservesAssets := pl_reservesAssets (ac_state ?b) + r', pl_lastAccruedAt := now\<rparr>,
         ac_interestAccruedAssets = ac_interestAccruedAssets ?b + i',
         ac_reservesAccruedAssets = ac_reservesAccruedAssets ?b + r',
         ac_chunks = ac_chunks ?b + ceilDiv (now - pl_lastAccruedAt (ac_state ?b)) 604800\<rparr> \<and>
      0 \<le> r' \<and> r' \<le> i' \<and> (P + i = 0 \<longrightarrow> i' = 0) \<and> (P + i) + i' + 64 \<le> B"
      by (rule Suc.IH [OF P']) (use Suc.prems ir e growth_step [OF ir(4) Suc.prems(3)] in auto)
    have cd: "1 + ceilDiv (now - (?l + e)) 604800 = ceilDiv (now - ?l) 604800"
      using True by (auto simp: e_def min_def ceilDiv_def)
    have min: "minReference [now - ?l, maxAccrualChunkSeconds policy] = Inr e"
      using True Suc.prems(7,9) by (simp add: e_def policy_simps in_range_def MAX_MODEL_UINT_def)
    have "accrueLoop now a = accrueLoop now ?b"
      using True by (subst accrueLoop.simps) (simp only: min chunk bindR.simps if_True)
    with IH ir cd show ?thesis by (auto simp: algebra_simps)
  qed
qed

text \<open>States whose figures stay below a bound; the accounting theorems assume \<open>2 ^ 96\<close>.\<close>

definition pool_within :: "int \<Rightarrow> pool_state \<Rightarrow> bool" where
  "pool_within B s \<longleftrightarrow> pl_cashAssets s \<le> B \<and> pl_grossDebtAssets s \<le> B \<and> pl_reservesAssets s \<le> B \<and>
     pl_totalSupplyShares s \<le> B \<and> (\<forall>p\<in>set (pl_positions s). ps_collateralAssets p \<le> B) \<and>
     (\<forall>ob. pl_lastAcceptedOracle s = Some ob \<longrightarrow> oo_priceUsdWad ob \<le> B)"

lemma pool_wf_nonneg:
  assumes "pool_wf s"
  shows "0 \<le> pl_cashAssets s" "0 \<le> pl_grossDebtAssets s" "0 \<le> pl_reservesAssets s" "0 \<le> pl_badDebtAssets s"
    "0 \<le> pl_totalSupplyShares s" "0 \<le> pl_totalDebtShares s" "0 \<le> pl_lastAccruedAt s"
    "pl_badDebtAssets s \<le> pl_grossDebtAssets s" "0 \<le> poolReferencePerformingDebtAssets s"
  using assms by (auto simp: pool_wf_def in_range_def poolReferencePerformingDebtAssets_def)

definition accruedTo :: "pool_state \<Rightarrow> int \<Rightarrow> int \<Rightarrow> int \<Rightarrow> pool_state" where
  "accruedTo s i r now = s\<lparr>pl_grossDebtAssets := pl_grossDebtAssets s + i,
     pl_reservesAssets := pl_reservesAssets s + r, pl_lastAccruedAt := now\<rparr>"

lemma accruedTo_simps [simp]:
  "pl_cashAssets (accruedTo s i r now) = pl_cashAssets s"
  "pl_grossDebtAssets (accruedTo s i r now) = pl_grossDebtAssets s + i"
  "pl_reservesAssets (accruedTo s i r now) = pl_reservesAssets s + r"
  "pl_badDebtAssets (accruedTo s i r now) = pl_badDebtAssets s"
  "pl_totalSupplyShares (accruedTo s i r now) = pl_totalSupplyShares s"
  "pl_totalDebtShares (accruedTo s i r now) = pl_totalDebtShares s"
  "pl_lastAccruedAt (accruedTo s i r now) = now"
  "pl_positions (accruedTo s i r now) = pl_positions s"
  "pl_lastAcceptedOracle (accruedTo s i r now) = pl_lastAcceptedOracle s"
  "pl_marketDebtCapAssets (accruedTo s i r now) = pl_marketDebtCapAssets s"
  "pl_borrowerDebtCapAssets (accruedTo s i r now) = pl_borrowerDebtCapAssets s"
  "pl_schemaVersion (accruedTo s i r now) = pl_schemaVersion s"
  "pl_policyVersion (accruedTo s i r now) = pl_policyVersion s"
  by (simp_all add: accruedTo_def)

lemma within_wf_range: "0 \<le> v \<Longrightarrow> v \<le> 2 ^ 128 \<Longrightarrow> in_range v"
  by (simp add: in_range_small)

lemma accruedTo_wf:
  assumes wf: "pool_wf s" and ir: "0 \<le> r" "r \<le> i" "poolReferencePerformingDebtAssets s = 0 \<longrightarrow> i = 0" and now: "in_range now"
    and small: "pool_within (2 ^ 96) s" "i \<le> 2 ^ 123"
  shows "pool_wf (accruedTo s i r now) \<and> pool_within (2 ^ 124) (accruedTo s i r now)"
proof -
  note nn = pool_wf_nonneg [OF wf]
  have b: "pl_grossDebtAssets s + i \<le> 2 ^ 124" "pl_reservesAssets s + r \<le> 2 ^ 124" "pl_cashAssets s \<le> 2 ^ 96"
    using small ir by (auto simp: pool_within_def)
  have "in_range (poolReferenceLpClaimAssets (accruedTo s i r now))"
    using b nn ir by (auto simp: poolReferenceLpClaimAssets_def Let_def in_range_def MAX_MODEL_UINT_def)
  then have "pool_wf (accruedTo s i r now)"
    using wf ir now b nn
    by (auto simp: pool_wf_def poolReferencePerformingDebtAssets_def in_range_small)
  moreover have "pool_within (2 ^ 124) (accruedTo s i r now)"
    using small b by (auto simp: pool_within_def dest: bspec)
  ultimately show ?thesis ..
qed

text \<open>Accrual returns whenever time has not regressed and at most 1024 weekly chunks are due.\<close>

lemma accrue_returns:
  assumes wf: "pool_wf s" and small: "pool_within (2 ^ 96) s" and now: "in_range now"
    and le: "pl_lastAccruedAt s \<le> now" and c: "ceilDiv (now - pl_lastAccruedAt s) 604800 \<le> 1024"
  shows "\<exists>i r. accrueInternal s now = Inr \<lparr>ac_state = accruedTo s i r now, ac_interestAccruedAssets = i,
      ac_reservesAccruedAssets = r, ac_chunks = ceilDiv (now - pl_lastAccruedAt s) 604800\<rparr> \<and>
    0 \<le> r \<and> r \<le> i \<and> pool_wf (accruedTo s i r now) \<and> pool_within (2 ^ 124) (accruedTo s i r now)"
proof -
  let ?P = "poolReferencePerformingDebtAssets s" and ?l = "pl_lastAccruedAt s"
  let ?a = "\<lparr>ac_state = s, ac_interestAccruedAssets = 0, ac_reservesAccruedAssets = 0, ac_chunks = 0\<rparr>"
  let ?k = "nat (ceilDiv (now - ?l) 604800)" and ?B = "2 ^ 24 * (?P + 64)"
  note nn = pool_wf_nonneg [OF wf]
  have k: "?k \<le> 1024" "now - ?l \<le> 604800 * int ?k"
    using c ceilDiv_nonneg [of 604800 "now - ?l"] ceilDiv_bounds(1) [of 604800 "now - ?l"] le by auto
  have P: "?P \<le> 2 ^ 96" using small nn by (simp add: pool_within_def poolReferencePerformingDebtAssets_def)
  have "\<exists>i r. accrueLoop now ?a = Inr
    \<lparr>ac_state = (ac_state ?a)\<lparr>pl_grossDebtAssets := pl_grossDebtAssets (ac_state ?a) + i,
       pl_reservesAssets := pl_reservesAssets (ac_state ?a) + r, pl_lastAccruedAt := now\<rparr>,
     ac_interestAccruedAssets = ac_interestAccruedAssets ?a + i,
     ac_reservesAccruedAssets = ac_reservesAccruedAssets ?a + r,
     ac_chunks = ac_chunks ?a + ceilDiv (now - pl_lastAccruedAt (ac_state ?a)) 604800\<rparr> \<and>
    0 \<le> r \<and> r \<le> i \<and> (?P = 0 \<longrightarrow> i = 0) \<and> ?P + i + 64 \<le> ?B"
    by (rule accrueLoop_ok [where k = ?k])
      (use nn small k P now le growth_start [of "?P + 64" ?k] in \<open>auto simp: pool_within_def\<close>)
  then obtain i r where loop: "accrueLoop now ?a = Inr \<lparr>ac_state = accruedTo s i r now, ac_interestAccruedAssets = i,
      ac_reservesAccruedAssets = r, ac_chunks = ceilDiv (now - ?l) 604800\<rparr>"
    and ir: "0 \<le> r" "r \<le> i" "?P = 0 \<longrightarrow> i = 0" "?P + i + 64 \<le> ?B"
    by (auto simp: accruedTo_def)
  have "i \<le> 2 ^ 123" using ir P nn by simp
  with accruedTo_wf [OF wf ir(1-3) now small] have wf': "pool_wf (accruedTo s i r now)" "pool_within (2 ^ 124) (accruedTo s i r now)"
    by auto
  obtain ck ck' where ck: "assertPoolReferenceInvariants s = Inr ck" "assertPoolReferenceInvariants (accruedTo s i r now) = Inr ck'"
    using wf wf'(1) invariants_Inr by blast
  have chunks: "(if now - ?l = 0 then Inr 0 else mulDivUp (now - ?l) 1 (maxAccrualChunkSeconds policy)) =
      Inr (ceilDiv (now - ?l) 604800)"
    using le nn now by (auto simp: policy_simps ceilDiv_def in_range_def MAX_MODEL_UINT_def)
  have "accrueInternal s now = Inr \<lparr>ac_state = accruedTo s i r now, ac_interestAccruedAssets = i,
      ac_reservesAccruedAssets = r, ac_chunks = ceilDiv (now - ?l) 604800\<rparr>"
    unfolding accrueInternal_def Let_def chunks
    using now le c ck loop assertReferenceUint_Inr [of "''now''" now False now]
    by (simp add: bindR_Inr unavailableIf_def policy_simps)
  with ir wf' show ?thesis by blast
qed

lemma okR_accrue:
  assumes wf: "pool_wf s" and small: "pool_within (2 ^ 96) s" and now: "in_range now"
    and Q: "\<And>i r c. pl_lastAccruedAt s \<le> now \<Longrightarrow> 0 \<le> r \<Longrightarrow> r \<le> i \<Longrightarrow> pool_wf (accruedTo s i r now) \<Longrightarrow>
      pool_within (2 ^ 124) (accruedTo s i r now) \<Longrightarrow> c = ceilDiv (now - pl_lastAccruedAt s) 604800 \<Longrightarrow> c \<le> 1024 \<Longrightarrow>
      Q \<lparr>ac_state = accruedTo s i r now, ac_interestAccruedAssets = i, ac_reservesAccruedAssets = r, ac_chunks = c\<rparr>"
  shows "okR (accrueInternal s now) Q"
proof (cases "pl_lastAccruedAt s \<le> now \<and> ceilDiv (now - pl_lastAccruedAt s) 604800 \<le> 1024")
  case True
  then show ?thesis using accrue_returns [OF wf small now] Q by auto
next
  case False
  have "in_range (now - pl_lastAccruedAt s)" if "pl_lastAccruedAt s \<le> now"
    using that pool_wf_nonneg(7) [OF wf] now by (auto simp: in_range_def)
  with False show ?thesis
    unfolding accrueInternal_def using now
    by (auto simp: Let_def policy_simps in_range_small ceilDiv_def intro!: okR_invariants [OF wf])
qed

subsection \<open>Positions\<close>

lemma find_SomeD: "find P xs = Some x \<Longrightarrow> x \<in> set xs \<and> P x"
  by (induction xs) (auto split: if_splits)

lemma find_snoc: "find P (xs @ [x]) = (case find P xs of Some y \<Rightarrow> Some y | None \<Rightarrow> if P x then Some x else None)"
  by (induction xs) auto

definition has_position :: "pool_state \<Rightarrow> string \<Rightarrow> bool" where
  "has_position s i \<longleftrightarrow> i \<in> ps_accountId ` set (pl_positions s)"

lemma find_position:
  assumes "has_position s i"
  shows "findPoolReferencePosition s i \<in> set (pl_positions s) \<and> ps_accountId (findPoolReferencePosition s i) = i"
proof -
  from assms obtain p where "find (\<lambda>p. ps_accountId p = i) (pl_positions s) = Some p"
    by (cases "find (\<lambda>p. ps_accountId p = i) (pl_positions s)") (auto simp: has_position_def find_None_iff)
  with find_SomeD [OF this] show ?thesis by (simp add: findPoolReferencePosition_def)
qed

lemma find_no_position: "\<not> has_position s i \<Longrightarrow> findPoolReferencePosition s i = emptyPoolReferencePosition i"
  by (auto simp: has_position_def findPoolReferencePosition_def image_iff split: option.split dest!: find_SomeD)

lemma mutablePosition_eq:
  "mutablePosition s i = (if has_position s i then s
     else s\<lparr>pl_positions := pl_positions s @ [emptyPoolReferencePosition i]\<rparr>)"
  by (auto simp: mutablePosition_def has_position_def image_iff find_None_iff split: option.split dest!: find_SomeD)

lemma has_mutablePosition [simp]: "has_position (mutablePosition s i) i"
  by (auto simp: mutablePosition_eq has_position_def emptyPoolReferencePosition_def)

lemma find_mutablePosition [simp]: "findPoolReferencePosition (mutablePosition s i) i = findPoolReferencePosition s i"
  by (auto simp: mutablePosition_eq has_position_def findPoolReferencePosition_def find_snoc image_iff
      emptyPoolReferencePosition_def split: option.split)

lemma mutablePosition_simps [simp]:
  "pl_cashAssets (mutablePosition s i) = pl_cashAssets s" "pl_grossDebtAssets (mutablePosition s i) = pl_grossDebtAssets s"
  "pl_reservesAssets (mutablePosition s i) = pl_reservesAssets s" "pl_badDebtAssets (mutablePosition s i) = pl_badDebtAssets s"
  "pl_totalSupplyShares (mutablePosition s i) = pl_totalSupplyShares s"
  "pl_totalDebtShares (mutablePosition s i) = pl_totalDebtShares s"
  "pl_lastAcceptedOracle (mutablePosition s i) = pl_lastAcceptedOracle s"
  "pl_marketDebtCapAssets (mutablePosition s i) = pl_marketDebtCapAssets s"
  "pl_borrowerDebtCapAssets (mutablePosition s i) = pl_borrowerDebtCapAssets s"
  "poolReferencePerformingDebtAssets (mutablePosition s i) = poolReferencePerformingDebtAssets s"
  "poolReferenceLpClaimAssets (mutablePosition s i) = poolReferenceLpClaimAssets s"
  by (simp_all add: mutablePosition_eq poolReferencePerformingDebtAssets_def poolReferenceLpClaimAssets_def)

lemma mutablePosition_wf: "pool_wf s \<Longrightarrow> account_ok i \<Longrightarrow> pool_wf (mutablePosition s i)"
  by (auto simp: mutablePosition_eq has_position_def pool_wf_def position_ok_def emptyPoolReferencePosition_def
      poolReferencePerformingDebtAssets_def poolReferenceLpClaimAssets_def)

lemma mutablePosition_within: "0 \<le> B \<Longrightarrow> pool_within B s \<Longrightarrow> pool_within B (mutablePosition s i)"
  by (auto simp: mutablePosition_eq pool_within_def emptyPoolReferencePosition_def)

lemma tot_modifyFirst:
  assumes "distinct (map ps_accountId ps)" "p \<in> set ps" "ps_accountId p = i"
  shows "tot f (modifyFirst i g ps) = tot f ps - f p + f (g p)"
  using assms by (induction ps) (auto simp: image_iff)

lemma modifyFirst_ids:
  "(\<And>p. ps_accountId (g p) = ps_accountId p) \<Longrightarrow> map ps_accountId (modifyFirst i g ps) = map ps_accountId ps"
  by (induction ps) auto

lemma set_modifyFirst:
  assumes "distinct (map ps_accountId ps)" "p \<in> set ps" "ps_accountId p = i"
  shows "set (modifyFirst i g ps) = insert (g p) {q \<in> set ps. ps_accountId q \<noteq> i}"
  using assms by (induction ps) (auto simp: image_iff)

lemma find_modifyFirst:
  assumes "has_position s i" "\<And>p. ps_accountId (g p) = ps_accountId p" "pl_positions t = modifyFirst i g (pl_positions s)"
  shows "findPoolReferencePosition t i = g (findPoolReferencePosition s i) \<and> has_position t i"
proof -
  have "find (\<lambda>p. ps_accountId p = i) (modifyFirst i g ps) = map_option g (find (\<lambda>p. ps_accountId p = i) ps)" for ps
    by (induction ps) (auto simp: assms(2))
  moreover have "set (map ps_accountId (modifyFirst i g ps)) = set (map ps_accountId ps)" for ps
    using modifyFirst_ids [of g, OF assms(2)] by metis
  ultimately show ?thesis using assms
    by (auto simp: findPoolReferencePosition_def has_position_def find_None_iff split: option.split)
qed

lemma tot_member:
  assumes "list_all position_ok ps" "p \<in> set ps" "f = ps_supplyShares \<or> f = ps_debtShares \<or> f = ps_badDebtAssets"
  shows "f p \<le> tot f ps"
proof -
  have "\<forall>x\<in>set (map f ps). 0 \<le> x" using assms by (auto simp: list_all_iff position_ok_def in_range_def)
  then show ?thesis using assms(2) by (intro member_le_sum_list) (auto simp: image_iff)
qed

text \<open>The position an operation works on, and its figures.\<close>

lemma position_facts:
  assumes wf: "pool_wf s" and p: "p = findPoolReferencePosition s i"
  shows "0 \<le> ps_supplyShares p" "ps_supplyShares p \<le> pl_totalSupplyShares s"
    "0 \<le> ps_debtShares p" "ps_debtShares p \<le> pl_totalDebtShares s"
    "0 \<le> ps_badDebtAssets p" "ps_badDebtAssets p \<le> pl_badDebtAssets s" "in_range (ps_collateralAssets p)"
    "pool_within B s \<Longrightarrow> 0 \<le> B \<Longrightarrow> ps_collateralAssets p \<le> B"
proof -
  have "p \<in> set (pl_positions s) \<or> p = emptyPoolReferencePosition i"
    using find_position [of s i] find_no_position [of s i] p by (cases "has_position s i") auto
  moreover have tots: "list_all position_ok (pl_positions s)" "tot ps_supplyShares (pl_positions s) = pl_totalSupplyShares s"
    "tot ps_debtShares (pl_positions s) = pl_totalDebtShares s" "tot ps_badDebtAssets (pl_positions s) = pl_badDebtAssets s"
    using wf by (auto simp: pool_wf_def)
  ultimately show "0 \<le> ps_supplyShares p" "ps_supplyShares p \<le> pl_totalSupplyShares s"
    "0 \<le> ps_debtShares p" "ps_debtShares p \<le> pl_totalDebtShares s"
    "0 \<le> ps_badDebtAssets p" "ps_badDebtAssets p \<le> pl_badDebtAssets s" "in_range (ps_collateralAssets p)"
    "pool_within B s \<Longrightarrow> 0 \<le> B \<Longrightarrow> ps_collateralAssets p \<le> B"
    using tot_member [OF tots(1), of p ps_supplyShares] tot_member [OF tots(1), of p ps_debtShares]
      tot_member [OF tots(1), of p ps_badDebtAssets] pool_wf_nonneg [OF wf]
    by (auto simp: tots(2-4) list_all_iff position_ok_def in_range_def emptyPoolReferencePosition_def pool_within_def MAX_MODEL_UINT_def)
qed

text \<open>
  One position and the aggregates change together: the accounting stays reconciled when the totals
  move by what the position moves.
\<close>

lemma pool_wf_modify:
  assumes wf: "pool_wf s" and has: "has_position s i" and p: "p = findPoolReferencePosition s i"
    and g: "\<And>x. ps_accountId (g x) = ps_accountId x" "in_range (ps_supplyShares (g p))" "in_range (ps_collateralAssets (g p))"
      "in_range (ps_debtShares (g p))" "in_range (ps_badDebtAssets (g p))"
    and t: "pl_positions t = modifyFirst i g (pl_positions s)" "pl_schemaVersion t = pl_schemaVersion s"
      "pl_policyVersion t = pl_policyVersion s" "pl_lastAcceptedOracle t = pl_lastAcceptedOracle s"
      "pl_lastAccruedAt t = pl_lastAccruedAt s" "pl_marketDebtCapAssets t = pl_marketDebtCapAssets s"
      "pl_borrowerDebtCapAssets t = pl_borrowerDebtCapAssets s"
    and tots: "pl_totalSupplyShares t = pl_totalSupplyShares s - ps_supplyShares p + ps_supplyShares (g p)"
      "pl_totalDebtShares t = pl_totalDebtShares s - ps_debtShares p + ps_debtShares (g p)"
      "pl_badDebtAssets t = pl_badDebtAssets s - ps_badDebtAssets p + ps_badDebtAssets (g p)"
    and rng: "in_range (pl_cashAssets t)" "in_range (pl_grossDebtAssets t)" "in_range (pl_reservesAssets t)"
      "in_range (pl_badDebtAssets t)" "in_range (pl_totalSupplyShares t)" "in_range (pl_totalDebtShares t)"
      "in_range (poolReferenceLpClaimAssets t)"
    and debt: "pl_totalDebtShares t \<le> poolReferencePerformingDebtAssets t"
      "poolReferencePerformingDebtAssets t = 0 \<longleftrightarrow> pl_totalDebtShares t = 0"
  shows "pool_wf t"
proof -
  have ps: "p \<in> set (pl_positions s)" "ps_accountId p = i" using find_position [OF has] p by auto
  have d: "distinct (map ps_accountId (pl_positions s))" using wf by (simp add: pool_wf_def)
  have "list_all position_ok (pl_positions s)" using wf by (simp add: pool_wf_def)
  with ps have "list_all position_ok (pl_positions t)"
    unfolding t(1) list_all_iff set_modifyFirst [OF d ps] using g ps by (auto simp: position_ok_def)
  then show ?thesis
    using wf rng debt tots modifyFirst_ids [OF g(1)]
    by (auto simp: pool_wf_def t tot_modifyFirst [OF d ps])
qed

subsection \<open>Quotes\<close>

definition quote :: "pool_state \<Rightarrow> pool_position \<Rightarrow> int" where
  "quote s p = (if ps_debtShares p = 0 then 0
     else ceilDiv (ps_debtShares p * poolReferencePerformingDebtAssets s) (pl_totalDebtShares s))"

lemma quote_slack:
  assumes "0 < D" "D \<le> P" "0 \<le> d" "d \<le> D"
  shows "D - d \<le> P - ceilDiv (d * P) D" and "0 \<le> ceilDiv (d * P) D" and "d \<le> ceilDiv (d * P) D"
proof -
  have "0 \<le> (D - d) * (P - D)" using assms by simp
  then have "d * P \<le> D * (P - D + d)" by (simp add: algebra_simps)
  then have "ceilDiv (d * P) D \<le> P - D + d" using assms(1) by (simp add: ceilDiv_le_iff)
  then show "D - d \<le> P - ceilDiv (d * P) D" by simp
  have "D * d \<le> d * P" using mult_left_mono [OF assms(2,3)] by (simp add: mult.commute)
  with ceilDiv_bounds(1) [OF assms(1), of "d * P"] have "D * d \<le> D * ceilDiv (d * P) D" by linarith
  then show "d \<le> ceilDiv (d * P) D" using assms(1) by simp
  with assms(3) show "0 \<le> ceilDiv (d * P) D" by linarith
qed

lemma ceilDiv_self: "D \<noteq> 0 \<Longrightarrow> ceilDiv (D * P) D = P"
  by (simp add: ceilDiv_def flip: mult_minus_right)

lemma quote_facts:
  assumes "pool_wf s" and "p = findPoolReferencePosition s i"
  shows "0 \<le> quote s p" "quote s p \<le> poolReferencePerformingDebtAssets s" "0 < ps_debtShares p \<Longrightarrow> 0 < quote s p"
    "pl_totalDebtShares s - ps_debtShares p \<le> poolReferencePerformingDebtAssets s - quote s p"
proof -
  note pf = position_facts [OF assms] and nn = pool_wf_nonneg [OF assms(1)]
  have le: "pl_totalDebtShares s \<le> poolReferencePerformingDebtAssets s" using assms(1) by (simp add: pool_wf_def)
  show "0 \<le> quote s p" "quote s p \<le> poolReferencePerformingDebtAssets s" "0 < ps_debtShares p \<Longrightarrow> 0 < quote s p"
    "pl_totalDebtShares s - ps_debtShares p \<le> poolReferencePerformingDebtAssets s - quote s p"
    using quote_slack [OF _ le pf(3,4)] le pf(3,4) nn by (auto simp: quote_def)
qed

lemma within_performing:
  "pool_wf s \<Longrightarrow> pool_within B s \<Longrightarrow> poolReferencePerformingDebtAssets s \<le> B"
  using pool_wf_nonneg(4) [of s] by (simp add: pool_within_def poolReferencePerformingDebtAssets_def)

lemma okR_quote:
  assumes wf: "pool_wf s" and p: "p = findPoolReferencePosition s i"
  shows "okR (positionPerformingDebtAssets s p) Q = Q (quote s p)"
proof -
  note pf = position_facts [OF wf p] and nn = pool_wf_nonneg [OF wf]
  have rng: "in_range (pl_totalDebtShares s)" "in_range (pl_grossDebtAssets s)" using wf by (auto simp: pool_wf_def)
  then have "in_range (ps_debtShares p)" "in_range (poolReferencePerformingDebtAssets s)"
    using pf(3,4) nn by (auto simp: in_range_def poolReferencePerformingDebtAssets_def)
  then show ?thesis
    using rng pf(3,4) by (auto simp: positionPerformingDebtAssets_def quote_def Let_def ceilDiv_self)
qed

subsection \<open>The transitions\<close>

text \<open>What the pool owes its suppliers before the clip at zero.\<close>

definition signedClaim :: "pool_state \<Rightarrow> int" where
  "signedClaim s = pl_cashAssets s + pl_grossDebtAssets s - pl_reservesAssets s - pl_badDebtAssets s"

lemma claim_eq: "poolReferenceLpClaimAssets s = max 0 (signedClaim s)"
  by (simp add: poolReferenceLpClaimAssets_def signedClaim_def Let_def max_def)

lemma claim_range: "signedClaim s \<le> 2 ^ 200 \<Longrightarrow> in_range (poolReferenceLpClaimAssets s)"
  by (simp add: claim_eq in_range_def MAX_MODEL_UINT_def)

lemma okR_conseq: "okR r P \<Longrightarrow> (\<And>x. P x \<Longrightarrow> Q x) \<Longrightarrow> okR r Q"
  by (auto simp: okR_def split: sum.splits)

definition amount_ok :: "int \<Rightarrow> bool" where
  "amount_ok a \<longleftrightarrow> 0 < a \<and> a \<le> 2 ^ 96"

lemma amount_range: "amount_ok a \<Longrightarrow> in_range a \<and> a \<noteq> 0"
  by (simp add: amount_ok_def in_range_small)

lemma modifyPosition_simps [simp]:
  "pl_positions (modifyPosition i g s) = modifyFirst i g (pl_positions s)"
  "pl_schemaVersion (modifyPosition i g s) = pl_schemaVersion s" "pl_policyVersion (modifyPosition i g s) = pl_policyVersion s"
  "pl_cashAssets (modifyPosition i g s) = pl_cashAssets s" "pl_grossDebtAssets (modifyPosition i g s) = pl_grossDebtAssets s"
  "pl_reservesAssets (modifyPosition i g s) = pl_reservesAssets s" "pl_badDebtAssets (modifyPosition i g s) = pl_badDebtAssets s"
  "pl_totalSupplyShares (modifyPosition i g s) = pl_totalSupplyShares s"
  "pl_totalDebtShares (modifyPosition i g s) = pl_totalDebtShares s"
  "pl_lastAcceptedOracle (modifyPosition i g s) = pl_lastAcceptedOracle s"
  "pl_lastAccruedAt (modifyPosition i g s) = pl_lastAccruedAt s"
  "pl_marketDebtCapAssets (modifyPosition i g s) = pl_marketDebtCapAssets s"
  "pl_borrowerDebtCapAssets (modifyPosition i g s) = pl_borrowerDebtCapAssets s"
  by (simp_all add: modifyPosition_def)

text \<open>
  A state after an accrual, from which a transition starts: well formed, with figures below \<open>2 ^ 128\<close>.
\<close>

definition pool_ready :: "pool_state \<Rightarrow> bool" where
  "pool_ready s \<longleftrightarrow> pool_wf s \<and> pool_within (2 ^ 128) s"

lemma within_mono: "pool_within B s \<Longrightarrow> B \<le> B' \<Longrightarrow> pool_within B' s"
  by (auto simp: pool_within_def intro: order_trans)

lemma ready_within:
  assumes "pool_wf s" "pool_within (2 ^ 124) s"
  shows "pool_ready s"
proof -
  have "pool_within (2 ^ 128) s" by (rule within_mono [OF assms(2)]) simp
  with assms(1) show ?thesis by (simp add: pool_ready_def)
qed

lemma pool_ready_mutable: "pool_ready s \<Longrightarrow> account_ok i \<Longrightarrow> pool_ready (mutablePosition s i)"
  by (simp add: pool_ready_def mutablePosition_wf mutablePosition_within)

lemma ready_bounds:
  assumes "pool_ready s"
  shows "0 \<le> pl_cashAssets s" "pl_cashAssets s \<le> 2 ^ 128" "0 \<le> pl_grossDebtAssets s" "pl_grossDebtAssets s \<le> 2 ^ 128"
    "0 \<le> pl_reservesAssets s" "pl_reservesAssets s \<le> 2 ^ 128" "0 \<le> pl_badDebtAssets s"
    "pl_badDebtAssets s \<le> pl_grossDebtAssets s" "0 \<le> pl_totalSupplyShares s" "pl_totalSupplyShares s \<le> 2 ^ 128"
    "0 \<le> pl_totalDebtShares s" "pl_totalDebtShares s \<le> poolReferencePerformingDebtAssets s"
    "poolReferencePerformingDebtAssets s \<le> 2 ^ 128" "0 \<le> poolReferencePerformingDebtAssets s"
    "poolReferencePerformingDebtAssets s = 0 \<longleftrightarrow> pl_totalDebtShares s = 0"
  using assms pool_wf_nonneg [of s] within_performing [of s "2 ^ 128"]
  by (auto simp: pool_ready_def pool_within_def pool_wf_def)

lemma okR_ready:
  assumes wf: "pool_wf s" and small: "pool_within (2 ^ 96) s" and now: "in_range now"
    and Q: "\<And>i r c. pl_lastAccruedAt s \<le> now \<Longrightarrow> 0 \<le> r \<Longrightarrow> r \<le> i \<Longrightarrow> pool_ready (accruedTo s i r now) \<Longrightarrow>
      pool_within (2 ^ 124) (accruedTo s i r now) \<Longrightarrow> Q \<lparr>ac_state = accruedTo s i r now, ac_interestAccruedAssets = i, ac_reservesAccruedAssets = r, ac_chunks = c\<rparr>"
  shows "okR (accrueInternal s now) Q"
  by (rule okR_accrue [OF wf small now]) (auto intro!: Q ready_within)

text \<open>What an accrual that returns, or refuses, says of the state the transition goes on from.\<close>

lemma accrue_Inr:
  assumes "pool_wf s" and "pool_within (2 ^ 96) s" and "in_range now" and "accrueInternal s now = Inr acc"
  shows "\<exists>j r. ac_state acc = accruedTo s j r now \<and> 0 \<le> r \<and> r \<le> j \<and> pool_ready (accruedTo s j r now)"
proof -
  have "okR (accrueInternal s now) (\<lambda>acc. \<exists>j r. ac_state acc = accruedTo s j r now \<and> 0 \<le> r \<and> r \<le> j \<and>
      pool_ready (accruedTo s j r now))"
    by (rule okR_ready [OF assms(1-3)]) auto
  with assms(4) show ?thesis by simp
qed

lemma accrue_Inl:
  assumes "pool_wf s" and "pool_within (2 ^ 96) s" and "in_range now" and "accrueInternal s now = Inl e"
  shows "refusal e"
  using okR_ready [OF assms(1-3), of "\<lambda>_. True"] assms(4) by (simp add: okR_def)

lemma positions_mutable:
  "pl_positions s' = pl_positions s \<Longrightarrow> pl_positions (mutablePosition s' i) = pl_positions (mutablePosition s i)"
  by (simp add: mutablePosition_eq has_position_def)

lemma mutable_versions [simp]:
  "pl_schemaVersion (mutablePosition s i) = pl_schemaVersion s" "pl_policyVersion (mutablePosition s i) = pl_policyVersion s"
  "pl_lastAccruedAt (mutablePosition s i) = pl_lastAccruedAt s"
  by (simp_all add: mutablePosition_eq)

text \<open>A transition that changes one position of a ready state, opened if it was not there.\<close>

lemma transition_wf:
  assumes ready: "pool_ready s" and acc: "account_ok i" and p: "p = findPoolReferencePosition s i"
    and g: "\<And>x. ps_accountId (g x) = ps_accountId x" "in_range (ps_supplyShares (g p))" "in_range (ps_collateralAssets (g p))"
      "in_range (ps_debtShares (g p))" "in_range (ps_badDebtAssets (g p))"
    and t: "pl_positions t = modifyFirst i g (pl_positions (mutablePosition s i))" "pl_schemaVersion t = pl_schemaVersion s"
      "pl_policyVersion t = pl_policyVersion s" "pl_lastAcceptedOracle t = pl_lastAcceptedOracle s"
      "pl_lastAccruedAt t = pl_lastAccruedAt s" "pl_marketDebtCapAssets t = pl_marketDebtCapAssets s"
      "pl_borrowerDebtCapAssets t = pl_borrowerDebtCapAssets s"
    and tots: "pl_totalSupplyShares t = pl_totalSupplyShares s - ps_supplyShares p + ps_supplyShares (g p)"
      "pl_totalDebtShares t = pl_totalDebtShares s - ps_debtShares p + ps_debtShares (g p)"
      "pl_badDebtAssets t = pl_badDebtAssets s - ps_badDebtAssets p + ps_badDebtAssets (g p)"
    and rng: "0 \<le> pl_cashAssets t" "pl_cashAssets t \<le> 2 ^ 129" "0 \<le> pl_grossDebtAssets t" "pl_grossDebtAssets t \<le> 2 ^ 129"
      "0 \<le> pl_reservesAssets t" "pl_reservesAssets t \<le> 2 ^ 129" "0 \<le> pl_badDebtAssets t"
      "0 \<le> pl_totalSupplyShares t" "pl_totalSupplyShares t \<le> 2 ^ 240" "0 \<le> pl_totalDebtShares t"
    and debt: "pl_totalDebtShares t \<le> poolReferencePerformingDebtAssets t"
      "poolReferencePerformingDebtAssets t = 0 \<longleftrightarrow> pl_totalDebtShares t = 0"
  shows "pool_wf t"
proof (rule pool_wf_modify [where s = "mutablePosition s i" and i = i and p = p and g = g])
  show "pool_wf (mutablePosition s i)" using ready acc by (simp add: pool_ready_def mutablePosition_wf)
  show "in_range (poolReferenceLpClaimAssets t)"
    using rng by (intro claim_range) (simp add: signedClaim_def)
  have "pl_totalDebtShares t \<le> 2 ^ 129" "pl_badDebtAssets t \<le> 2 ^ 129"
    using debt rng by (simp_all add: poolReferencePerformingDebtAssets_def)
  then show "in_range (pl_totalDebtShares t)" "in_range (pl_badDebtAssets t)" "in_range (pl_totalSupplyShares t)"
    using rng by (simp_all add: in_range_def MAX_MODEL_UINT_def)
qed (use assms in \<open>auto simp: in_range_def MAX_MODEL_UINT_def\<close>)

text \<open>No supplier loses value per share: the claim per share does not fall from \<open>s\<close> to \<open>t\<close>.\<close>

definition lp_fair :: "pool_state \<Rightarrow> pool_state \<Rightarrow> bool" where
  "lp_fair s t \<longleftrightarrow> (0 < pl_totalSupplyShares s \<longrightarrow>
     signedClaim s * pl_totalSupplyShares t \<le> signedClaim t * pl_totalSupplyShares s)"

lemma lp_fair_accrued:
  assumes "r \<le> i" "lp_fair (accruedTo s i r now) t" "0 \<le> pl_totalSupplyShares t"
  shows "lp_fair s t"
proof -
  have "signedClaim s * pl_totalSupplyShares t \<le> signedClaim (accruedTo s i r now) * pl_totalSupplyShares t"
    using assms by (intro mult_right_mono) (auto simp: signedClaim_def)
  with assms(2) show ?thesis by (auto simp: lp_fair_def)
qed

definition fair_step :: "pool_state \<Rightarrow> pool_state \<Rightarrow> bool" where
  "fair_step s t \<longleftrightarrow> pool_wf t \<and> lp_fair s t"

lemma fair_step_accrued: "r \<le> i \<Longrightarrow> fair_step (accruedTo s i r now) t \<Longrightarrow> fair_step s t"
  using lp_fair_accrued pool_wf_nonneg(5) by (auto simp: fair_step_def)

lemma okR_commit:
  "fair_step (accruedTo s i r now) t \<Longrightarrow> r \<le> i \<Longrightarrow> okR (assertPoolReferenceInvariants t) (\<lambda>_. fair_step s t)"
  using fair_step_accrued [of r i s now t] by (auto simp: fair_step_def intro: okR_invariants)

lemma position_ranges:
  assumes "pool_ready s" "p = findPoolReferencePosition s i"
  shows "in_range (ps_supplyShares p)" "in_range (ps_debtShares p)" "in_range (ps_badDebtAssets p)" "in_range (ps_collateralAssets p)"
    "ps_collateralAssets p \<le> 2 ^ 128" "0 \<le> ps_collateralAssets p"
  using position_facts(1-7) [of s p i] position_facts(8) [of s p i "2 ^ 128"] ready_bounds [OF assms(1)] assms
  by (auto simp: pool_ready_def in_range_def MAX_MODEL_UINT_def)

lemma okR_supply:
  assumes wf: "pool_wf s" and small: "pool_within (2 ^ 96) s" and now: "in_range now" and a: "amount_ok a"
    and claim: "\<And>acc. accrueInternal s now = Inr acc \<Longrightarrow> 0 < pl_totalSupplyShares s \<Longrightarrow> 0 < signedClaim (ac_state acc)"
  shows "okR (supplyPoolReferenceAssets s i a now) (\<lambda>(acc, m). fair_step s (ac_state acc))"
proof -
  let ?t = "\<lambda>u m. modifyPosition i (\<lambda>p. p\<lparr>ps_supplyShares := ps_supplyShares p + m\<rparr>)
      (mutablePosition (u\<lparr>pl_cashAssets := pl_cashAssets u + a, pl_totalSupplyShares := pl_totalSupplyShares u + m\<rparr>) i)"
  have wf': "pool_wf (?t u m)" if "pool_ready u" "account_ok i" "0 \<le> m" "m \<le> 2 ^ 224" for u m
    using ready_bounds [OF that(1)] that position_ranges [OF that(1) refl, of i] a
      position_facts(1,2) [OF _ refl, of u i]
    by (intro transition_wf [OF that(1,2) refl, where g = "\<lambda>p. p\<lparr>ps_supplyShares := ps_supplyShares p + m\<rparr>"])
      (auto simp: amount_ok_def in_range_def MAX_MODEL_UINT_def pool_ready_def poolReferencePerformingDebtAssets_def
        intro!: arg_cong [where f = "modifyFirst i g" for g] positions_mutable)
  have main: "fair_step u (?t u m)"
    if "pool_ready u" "account_ok i" "0 \<le> m" "m \<le> 2 ^ 224" "0 < pl_totalSupplyShares u \<longrightarrow> signedClaim u * m \<le> a * pl_totalSupplyShares u" for u m
    using wf' [of u m] that by (auto simp: fair_step_def lp_fair_def signedClaim_def algebra_simps)
  have minted: "a * S div C \<le> 2 ^ 224 \<and> 0 \<le> a * S div C" if "0 \<le> S" "S \<le> 2 ^ 128" "0 < C" for S C
  proof -
    have "a * S \<le> 2 ^ 96 * 2 ^ 128" "0 \<le> a * S" using a that mult_mono [of a "2 ^ 96" S "2 ^ 128"] by (auto simp: amount_ok_def)
    moreover have "a * S div C \<le> a * S div 1" using that calculation by (intro zdiv_mono2) auto
    ultimately show ?thesis using that by (simp add: pos_imp_zdiv_nonneg_iff)
  qed
  have step: "okR (if pl_totalSupplyShares u = 0 then Inr a else mulDivDown a (pl_totalSupplyShares u) (poolReferenceLpClaimAssets u))
      (\<lambda>m. 0 \<le> m \<and> m \<le> 2 ^ 224 \<and> (0 < pl_totalSupplyShares u \<longrightarrow> signedClaim u * m \<le> a * pl_totalSupplyShares u))" if "pool_ready u" "0 < pl_totalSupplyShares u \<longrightarrow> 0 < signedClaim u" for u
    using that ready_bounds [OF that(1)] minted [of "pl_totalSupplyShares u" "poolReferenceLpClaimAssets u"] a
      mult_div_le [of "signedClaim u" "a * pl_totalSupplyShares u"]
    by (auto simp: claim_eq amount_range in_range_def MAX_MODEL_UINT_def amount_ok_def signedClaim_def)
  show ?thesis
  proof (cases "accrueInternal s now")
    case (Inl e)
    with accrue_Inl [OF wf small now this] show ?thesis
      using amount_range [OF a] by (simp add: supplyPoolReferenceAssets_def)
  next
    case (Inr acc)
    then obtain j r where u: "ac_state acc = accruedTo s j r now" "r \<le> j" "pool_ready (accruedTo s j r now)"
      using accrue_Inr [OF wf small now] by blast
    have "0 < pl_totalSupplyShares s \<longrightarrow> 0 < signedClaim (accruedTo s j r now)" using claim [OF Inr] u(1) by simp
    then show ?thesis
      unfolding supplyPoolReferenceAssets_def
      using step [OF u(3)] main [OF u(3)] u(2)
      by (auto simp: Inr u(1) Let_def amount_range [OF a] intro!: okR_commit [of s j r now] elim!: okR_conseq)
  qed
qed

lemma okR_donate:
  assumes wf: "pool_wf s" and small: "pool_within (2 ^ 96) s" and now: "in_range now" and a: "amount_ok a"
  shows "okR (donatePoolReferenceCash s a now) (\<lambda>(acc, d). fair_step s (ac_state acc))"
proof -
  have main: "fair_step u (u\<lparr>pl_cashAssets := pl_cashAssets u + a\<rparr>)" if "pool_ready u" for u
  proof -
    have "in_range (poolReferenceLpClaimAssets (u\<lparr>pl_cashAssets := pl_cashAssets u + a\<rparr>))"
      using ready_bounds [OF that] a by (intro claim_range) (simp add: signedClaim_def amount_ok_def)
    then show ?thesis
      using that ready_bounds [OF that] a
      by (auto simp: fair_step_def lp_fair_def signedClaim_def pool_ready_def pool_wf_def amount_ok_def in_range_def
          MAX_MODEL_UINT_def poolReferencePerformingDebtAssets_def algebra_simps)
  qed
  show ?thesis
    unfolding donatePoolReferenceCash_def
  proof (simp add: amount_range [OF a], intro impI okR_ready [OF wf small now], goal_cases)
    case (1 i' r c)
    with main [OF 1(4)] show ?case by (auto simp: Let_def intro!: okR_commit [of s i' r now])
  qed
qed

lemma mutable_scalar_positions [simp]:
  "pl_positions (mutablePosition (s\<lparr>pl_cashAssets := c, pl_totalSupplyShares := S\<rparr>) i) = pl_positions (mutablePosition s i)"
  by (rule positions_mutable) simp

lemma burn_wf:
  assumes u: "pool_ready u" "account_ok i" and x: "0 \<le> x" "x \<le> pl_cashAssets u"
    and g: "\<And>p. ps_accountId (g p) = ps_accountId p" "ps_supplyShares (g p) = ps_supplyShares p - b"
      "ps_collateralAssets (g p) = ps_collateralAssets p" "ps_debtShares (g p) = ps_debtShares p" "ps_badDebtAssets (g p) = ps_badDebtAssets p"
    and p: "p = findPoolReferencePosition u i" and b: "0 \<le> b" "b \<le> ps_supplyShares p"
    and fair: "0 < pl_totalSupplyShares u \<longrightarrow> x * pl_totalSupplyShares u \<le> signedClaim u * b"
  shows "fair_step u (modifyPosition i g ((mutablePosition u i)\<lparr>pl_cashAssets := pl_cashAssets u - x,
      pl_totalSupplyShares := pl_totalSupplyShares u - b\<rparr>))" (is "fair_step u ?t")
proof -
  have "pool_wf ?t"
    using ready_bounds [OF u(1)] u position_ranges [OF u(1) p] x b g position_facts(1,2) [OF _ p]
    by (intro transition_wf [OF u p, where g = g])
      (auto simp: in_range_def MAX_MODEL_UINT_def pool_ready_def poolReferencePerformingDebtAssets_def)
  then show ?thesis using fair by (auto simp: fair_step_def lp_fair_def signedClaim_def algebra_simps)
qed

lemma okR_withdraw:
  assumes wf: "pool_wf s" and small: "pool_within (2 ^ 96) s" and now: "in_range now" and a: "amount_ok a"
  shows "okR (withdrawPoolReferenceAssets s i a now) (\<lambda>(acc, b). fair_step s (ac_state acc))"
proof -
  let ?t = "\<lambda>u b. modifyPosition i (\<lambda>p. p\<lparr>ps_supplyShares := ps_supplyShares p - b\<rparr>)
      ((mutablePosition u i)\<lparr>pl_cashAssets := pl_cashAssets u - a, pl_totalSupplyShares := pl_totalSupplyShares u - b\<rparr>)"
  have main: "fair_step u (?t u b)"
    if "pool_ready u" "account_ok i" "a \<le> pl_cashAssets u" "poolReferenceLpClaimAssets u \<noteq> 0"
      "b = ceilDiv (a * pl_totalSupplyShares u) (poolReferenceLpClaimAssets u)"
      "b \<le> ps_supplyShares (findPoolReferencePosition u i)" for u b
  proof (rule burn_wf [OF that(1,2) _ _ _ _ _ _ _ refl])
    have C: "0 < signedClaim u" "poolReferenceLpClaimAssets u = signedClaim u" using that(4) by (auto simp: claim_eq max_def split: if_splits)
    show "0 \<le> b" using that(5) C a ready_bounds [OF that(1)] by (auto simp: amount_ok_def intro!: ceilDiv_nonneg)
    show "0 < pl_totalSupplyShares u \<longrightarrow> a * pl_totalSupplyShares u \<le> signedClaim u * b"
      using ceilDiv_bounds(1) [OF C(1), of "a * pl_totalSupplyShares u"] that(5) C by simp
  qed (use that a in \<open>auto simp: amount_ok_def\<close>)
  have rng: "in_range (poolReferenceLpClaimAssets u)" "in_range (pl_totalSupplyShares u)" if "pool_ready u" for u
    using ready_bounds [OF that] by (auto simp: in_range_small intro!: claim_range simp: signedClaim_def)
  show ?thesis
    unfolding withdrawPoolReferenceAssets_def
  proof (simp add: amount_range [OF a], intro impI okR_ready [OF wf small now], goal_cases)
    case (1 i' r c)
    with main [of "accruedTo s i' r now"] rng [of "accruedTo s i' r now"] amount_range [OF a] show ?case
      by (auto simp: Let_def intro!: okR_commit [of s i' r now])
  qed
qed

lemma okR_redeemAll:
  assumes wf: "pool_wf s" and small: "pool_within (2 ^ 96) s" and now: "in_range now"
  shows "okR (redeemAllPoolReferenceShares s i now) (\<lambda>(acc, x, b). fair_step s (ac_state acc))"
proof -
  let ?sh = "\<lambda>u. ps_supplyShares (findPoolReferencePosition u i)"
  let ?t = "\<lambda>u x. modifyPosition i (\<lambda>p. p\<lparr>ps_supplyShares := 0\<rparr>)
      ((mutablePosition u i)\<lparr>pl_cashAssets := pl_cashAssets u - x, pl_totalSupplyShares := pl_totalSupplyShares u - ?sh u\<rparr>)"
  have main: "fair_step u (?t u x)"
    if "pool_ready u" "account_ok i" "x \<le> pl_cashAssets u" "0 \<le> x" "x \<noteq> 0"
      "x * pl_totalSupplyShares u \<le> ?sh u * poolReferenceLpClaimAssets u" "poolReferenceLpClaimAssets u \<noteq> 0" for u x
  proof -
    have C: "0 < signedClaim u" "poolReferenceLpClaimAssets u = signedClaim u" using that(7) by (auto simp: claim_eq max_def split: if_splits)
    have "pool_wf (?t u x)"
      using ready_bounds [OF that(1)] that position_ranges [OF that(1) refl, of i] position_facts(1,2) [OF _ refl, of u i]
      by (intro transition_wf [OF that(1,2) refl, where g = "\<lambda>p. p\<lparr>ps_supplyShares := 0\<rparr>"])
        (auto simp: in_range_def MAX_MODEL_UINT_def pool_ready_def poolReferencePerformingDebtAssets_def)
    with that(6) C show ?thesis by (auto simp: fair_step_def lp_fair_def signedClaim_def algebra_simps)
  qed
  have quote: "okR (if ?sh u = pl_totalSupplyShares u then Inr (poolReferenceLpClaimAssets u)
       else mulDivDown (?sh u) (poolReferenceLpClaimAssets u) (pl_totalSupplyShares u))
     (\<lambda>x. 0 \<le> x \<and> x * pl_totalSupplyShares u \<le> ?sh u * poolReferenceLpClaimAssets u \<and> (x \<noteq> 0 \<longrightarrow> poolReferenceLpClaimAssets u \<noteq> 0))"
    if "pool_ready u" for u
    using ready_bounds [OF that] position_facts(1,2) [OF _ refl, of u i] that claim_nonneg [of u]
      mult_div_le [of "pl_totalSupplyShares u" "?sh u * poolReferenceLpClaimAssets u"] position_ranges [OF that refl, of i]
    by (auto simp: pool_ready_def mult.commute in_range_small claim_range signedClaim_def pos_imp_zdiv_nonneg_iff)
  show ?thesis
    unfolding redeemAllPoolReferenceShares_def
  proof (simp, intro impI okR_ready [OF wf small now], goal_cases)
    case (1 i' r c)
    with main [of "accruedTo s i' r now"] quote [of "accruedTo s i' r now"] show ?case
      by (auto simp: Let_def intro!: okR_commit [of s i' r now] elim!: okR_conseq)
  qed
qed

lemma okR_addCollateral:
  assumes wf: "pool_wf s" and small: "pool_within (2 ^ 96) s" and now: "in_range now" and a: "amount_ok a"
  shows "okR (addPoolReferenceCollateral s i a now) (\<lambda>(acc, d). fair_step s (ac_state acc))"
proof -
  have main: "fair_step u (modifyPosition i (\<lambda>p. p\<lparr>ps_collateralAssets := ps_collateralAssets p + a\<rparr>) (mutablePosition u i))"
    (is "fair_step u ?t") if "pool_ready u" "account_ok i" for u
  proof -
    have "pool_wf ?t"
      using ready_bounds [OF that(1)] that position_ranges [OF that(1) refl, of i] a
      by (intro transition_wf [OF that refl, where g = "\<lambda>p. p\<lparr>ps_collateralAssets := ps_collateralAssets p + a\<rparr>"])
        (auto simp: amount_ok_def in_range_def MAX_MODEL_UINT_def pool_ready_def poolReferencePerformingDebtAssets_def)
    then show ?thesis by (auto simp: fair_step_def lp_fair_def signedClaim_def)
  qed
  show ?thesis
    unfolding addPoolReferenceCollateral_def
  proof (simp add: amount_range [OF a], intro impI okR_ready [OF wf small now], goal_cases)
    case (1 i' r c)
    with main [of "accruedTo s i' r now"] show ?case by (auto simp: Let_def intro!: okR_commit [of s i' r now])
  qed
qed

subsection \<open>Health, borrowing and repayment\<close>

definition collateralValue :: "int \<Rightarrow> int \<Rightarrow> int" where
  "collateralValue c price = c * (price * 10 ^ 6) div 10 ^ 36"

lemma collateralValue_bounds:
  assumes "0 \<le> c" "c \<le> 2 ^ 128" "0 \<le> price" "price \<le> 2 ^ 128"
  shows "0 \<le> collateralValue c price" "collateralValue c price \<le> 2 ^ 200"
proof -
  have "c * (price * 10 ^ 6) \<le> 2 ^ 128 * (2 ^ 128 * 10 ^ 6)" using assms by (intro mult_mono) auto
  then have "collateralValue c price \<le> 2 ^ 128 * (2 ^ 128 * 10 ^ 6) div 10 ^ 36"
    unfolding collateralValue_def by (rule zdiv_mono1) simp
  then show "collateralValue c price \<le> 2 ^ 200" by simp
  show "0 \<le> collateralValue c price" using assms by (simp add: collateralValue_def pos_imp_zdiv_nonneg_iff)
qed

lemma okR_collateralValue:
  assumes "0 \<le> c" "c \<le> 2 ^ 128" "0 < price" "price \<le> 2 ^ 128"
  shows "okR (calculateCollateralValueAssets c price) Q = Q (collateralValue c price)"
  using assms unfolding calculateCollateralValueAssets_def
  by (simp add: collateralValue_def policy_simps in_range_def MAX_MODEL_UINT_def)

text \<open>What a health quote says.\<close>

definition health_of :: "pool_state \<Rightarrow> string \<Rightarrow> int \<Rightarrow> int \<Rightarrow> pool_health \<Rightarrow> bool" where
  "health_of s i c inc h \<longleftrightarrow> (\<exists>ob. pl_lastAcceptedOracle s = Some ob \<and> ph_priceUsdWad h = oo_priceUsdWad ob \<and>
     0 < oo_priceUsdWad ob \<and> oo_priceUsdWad ob \<le> 2 ^ 128 \<and>
     ph_collateralValueAssets h = collateralValue c (oo_priceUsdWad ob) \<and>
     ph_borrowCapacityAssets h = collateralValue c (oo_priceUsdWad ob) * 7500 div 10000 \<and>
     ph_liquidationThresholdAssets h = collateralValue c (oo_priceUsdWad ob) * 8000 div 10000 \<and>
     ph_debtAssets h = quote s (findPoolReferencePosition s i) + ps_badDebtAssets (findPoolReferencePosition s i) + inc \<and>
     (ph_liquidatable h \<longleftrightarrow> 0 < ps_debtShares (findPoolReferencePosition s i) \<and>
        ph_liquidationThresholdAssets h < ph_debtAssets h))"

lemma okR_health:
  assumes ready: "pool_ready s" and now: "in_range now" and inc: "0 \<le> inc" "inc \<le> 2 ^ 128"
    and c: "c = (case ov of Some x \<Rightarrow> x | None \<Rightarrow> ps_collateralAssets (findPoolReferencePosition s i))" "0 \<le> c" "c \<le> 2 ^ 128"
  shows "okR (healthFromState s i now ov inc) (health_of s i c inc)"
proof (cases "pl_lastAcceptedOracle s")
  case None
  then show ?thesis using now by (simp add: healthFromState_def assertCurrentOracle_def)
next
  case (Some ob)
  let ?p = "findPoolReferencePosition s i"
  have wf: "pool_wf s" "pool_within (2 ^ 128) s" using ready by (auto simp: pool_ready_def)
  then have bind: "assertPoolReferenceOracleBinding ob = Inr ()" using Some by (simp add: pool_wf_def oracle_ok_def)
  have price: "0 < oo_priceUsdWad ob" "oo_priceUsdWad ob \<le> 2 ^ 128"
    using bind wf(2) Some by (auto simp: assertPoolReferenceOracleBinding_def bindR_Inr in_range_def pool_within_def)
  let ?V = "collateralValue c (oo_priceUsdWad ob)"
  note V = collateralValue_bounds [OF c(2,3) less_imp_le [OF price(1)] price(2)]
  have cap: "0 \<le> ?V * 7500 div 10000" "0 \<le> ?V * 8000 div 10000" "?V * 8000 div 10000 \<le> 2 ^ 200"
    using V by (auto simp: pos_imp_zdiv_nonneg_iff)
  have debt: "0 \<le> quote s ?p + ps_badDebtAssets ?p + inc" "quote s ?p + ps_badDebtAssets ?p + inc \<le> 2 ^ 200"
    using quote_facts(1,2) [OF wf(1) refl, of i] position_facts(5,6) [OF wf(1) refl, of i] ready_bounds [OF ready] inc by auto
  have rng: "in_range ?V" "in_range (?V * 8000 div 10000)" "in_range (quote s ?p + ps_badDebtAssets ?p + inc)"
    using V cap debt by (auto intro!: in_range_small)
  show ?thesis
    unfolding healthFromState_def assertCurrentOracle_def
    using Some bind price V c now rng in_range_small [of 7500] in_range_small [of 8000] in_range_small [of 10000] in_range_small [of "10 ^ 18"]
    by (simp add: okR_quote [OF wf(1) refl] okR_collateralValue Let_def policy_simps health_of_def)
qed

lemma okR_borrow:
  assumes wf: "pool_wf s" and small: "pool_within (2 ^ 96) s" and now: "in_range now" and a: "amount_ok a"
  shows "okR (borrowPoolReferenceAssets s i a now) (\<lambda>(acc, m, h). fair_step s (ac_state acc) \<and>
      pl_grossDebtAssets (ac_state acc) \<le> pl_marketDebtCapAssets s \<and> pl_cashAssets (ac_state acc) = pl_cashAssets s - a \<and>
      ph_debtAssets h \<le> ph_borrowCapacityAssets h \<and>
      (\<exists>u. pool_wf u \<and> pl_lastAcceptedOracle u = pl_lastAcceptedOracle s \<and>
         health_of u i (ps_collateralAssets (findPoolReferencePosition (ac_state acc) i)) a h))"
proof -
  let ?t = "\<lambda>u m. modifyPosition i (\<lambda>p. p\<lparr>ps_debtShares := ps_debtShares p + m\<rparr>)
      ((mutablePosition u i)\<lparr>pl_cashAssets := pl_cashAssets u - a, pl_grossDebtAssets := pl_grossDebtAssets u + a,
         pl_totalDebtShares := pl_totalDebtShares u + m\<rparr>)"
  have main: "fair_step u (?t u m)"
    if "pool_ready u" "account_ok i" "a \<le> pl_cashAssets u" "0 \<le> m" "m \<le> a" "pl_totalDebtShares u = 0 \<longrightarrow> m = a" for u m
  proof -
    have "pool_wf (?t u m)"
      using ready_bounds [OF that(1)] that position_ranges [OF that(1) refl, of i] a position_facts(3,4) [OF _ refl, of u i]
      by (intro transition_wf [OF that(1,2) refl, where g = "\<lambda>p. p\<lparr>ps_debtShares := ps_debtShares p + m\<rparr>"])
        (auto simp: amount_ok_def in_range_def MAX_MODEL_UINT_def pool_ready_def poolReferencePerformingDebtAssets_def)
    then show ?thesis by (auto simp: fair_step_def lp_fair_def signedClaim_def)
  qed
  have minted: "okR (if pl_totalDebtShares u = 0 then Inr a else mulDivUp a (pl_totalDebtShares u) (poolReferencePerformingDebtAssets u))
      (\<lambda>m. 0 \<le> m \<and> m \<le> a \<and> (pl_totalDebtShares u = 0 \<longrightarrow> m = a))" if "pool_ready u" for u
  proof -
    note b = ready_bounds [OF that]
    have "ceilDiv (a * pl_totalDebtShares u) (poolReferencePerformingDebtAssets u) \<le> a" if "0 < poolReferencePerformingDebtAssets u"
      using that b(12) a mult_left_mono [of "pl_totalDebtShares u" "poolReferencePerformingDebtAssets u" a]
      by (simp add: ceilDiv_le_iff amount_ok_def mult.commute)
    with b a show ?thesis
      using ceilDiv_nonneg [of "poolReferencePerformingDebtAssets u" "a * pl_totalDebtShares u"]
      by (auto simp: amount_ok_def in_range_small)
  qed
  have coll: "ps_collateralAssets (findPoolReferencePosition (?t u m) i) = ps_collateralAssets (findPoolReferencePosition u i)" for u m
    using find_modifyFirst [of "mutablePosition u i" i "\<lambda>p. p\<lparr>ps_debtShares := ps_debtShares p + m\<rparr>" "?t u m"] by simp
  have health: "okR (healthFromState (mutablePosition u i) i now None a)
      (health_of (mutablePosition u i) i (ps_collateralAssets (findPoolReferencePosition u i)) a)"
    if "pool_ready u" "account_ok i" for u
    using a now pool_ready_mutable [OF that] position_ranges(5,6) [OF that(1) refl, of i]
    by (intro okR_health) (auto simp: amount_ok_def)
  show ?thesis
    unfolding borrowPoolReferenceAssets_def
  proof (simp add: amount_range [OF a], intro impI okR_ready [OF wf small now], goal_cases)
    case (1 i' r c)
    let ?u = "accruedTo s i' r now" and ?c = "ps_collateralAssets (findPoolReferencePosition (accruedTo s i' r now) i)"
    have wfu: "pool_wf (mutablePosition ?u i)" using pool_ready_mutable [OF 1(5,1)] by (simp add: pool_ready_def)
    have commit: "okR (assertPoolReferenceInvariants (?t ?u m)) (\<lambda>_. fair_step s (?t ?u m) \<and>
        (\<exists>u. pool_wf u \<and> pl_lastAcceptedOracle u = pl_lastAcceptedOracle s \<and>
          health_of u i (ps_collateralAssets (findPoolReferencePosition (?t ?u m) i)) a h))"
      if "a \<le> pl_cashAssets ?u" "0 \<le> m" "m \<le> a" "pl_totalDebtShares ?u = 0 \<longrightarrow> m = a"
        "health_of (mutablePosition ?u i) i ?c a h" for m h
    proof (rule okR_conseq [OF okR_commit [OF main [OF 1(5,1) that(1-4)] 1(4)]])
      have "pl_lastAcceptedOracle (mutablePosition ?u i) = pl_lastAcceptedOracle s" by simp
      with that(5) show "fair_step s (?t ?u m) \<and> (\<exists>u. pool_wf u \<and> pl_lastAcceptedOracle u = pl_lastAcceptedOracle s \<and>
          health_of u i (ps_collateralAssets (findPoolReferencePosition (?t ?u m) i)) a h)" if "fair_step s (?t ?u m)"
        using that wfu unfolding coll by blast
    qed
    show ?case
      using okR_quote [OF wfu refl, of i] health [OF 1(5,1)] minted [OF 1(5)] commit
      by (auto simp: Let_def elim!: okR_conseq)
  qed
qed

text \<open>Repaying debt shares: the claim of the suppliers is untouched, the rounding dust goes to the reserves.\<close>

definition repaid_state :: "pool_state \<Rightarrow> string \<Rightarrow> int \<Rightarrow> int \<Rightarrow> int \<Rightarrow> pool_state" where
  "repaid_state u i a b x = modifyPosition i (\<lambda>p. p\<lparr>ps_debtShares := ps_debtShares p - b\<rparr>)
     (u\<lparr>pl_cashAssets := pl_cashAssets u + a, pl_grossDebtAssets := pl_grossDebtAssets u - x,
        pl_reservesAssets := pl_reservesAssets u + (a - x), pl_totalDebtShares := pl_totalDebtShares u - b\<rparr>)"

lemma has_mutable_self [simp]: "has_position u i \<Longrightarrow> mutablePosition u i = u"
  by (simp add: mutablePosition_eq)

lemma repaid_wf:
  assumes u: "pool_ready u" "account_ok i" "has_position u i" and p: "p = findPoolReferencePosition u i" and a: "0 \<le> a" "a \<le> 2 ^ 96"
    and b: "0 \<le> b" "b \<le> ps_debtShares p" and x: "0 \<le> x" "x \<le> a"
    and slack: "pl_totalDebtShares u - b \<le> poolReferencePerformingDebtAssets u - x"
      "poolReferencePerformingDebtAssets u = x \<longleftrightarrow> pl_totalDebtShares u = b"
  shows "pool_wf (repaid_state u i a b x)"
  using ready_bounds [OF u(1)] u position_ranges [OF u(1) p] a b x slack position_facts(3,4) [OF _ p]
  unfolding repaid_state_def
  by (intro transition_wf [OF u(1,2) p, where g = "\<lambda>p. p\<lparr>ps_debtShares := ps_debtShares p - b\<rparr>"])
    (auto simp: in_range_def MAX_MODEL_UINT_def pool_ready_def poolReferencePerformingDebtAssets_def)

lemma partial_burn:
  assumes "0 < D" "D \<le> P" "0 \<le> d" "d \<le> D" "0 \<le> a" "a < ceilDiv (d * P) D" "b = a * D div P" "x = ceilDiv (b * P) D"
  shows "0 \<le> b" "b < d" "x \<le> a" "D - b \<le> P - x" "0 \<le> x"
proof -
  have P: "0 < P" using assms by simp
  have lt: "a * D < d * P" using assms less_ceilDiv_iff [of D a "d * P"] by (simp add: mult.commute)
  have bP: "P * b \<le> a * D" using mult_div_le [OF P] assms(7) by simp
  show b0: "0 \<le> b" using assms P by (simp add: pos_imp_zdiv_nonneg_iff)
  have "P * b < P * d" using lt bP by (simp add: mult.commute)
  then show bd: "b < d" using P by simp
  show "x \<le> a" using assms(1,8) bP by (simp add: ceilDiv_le_iff mult.commute)
  show "D - b \<le> P - x" "0 \<le> x"
    using quote_slack [OF assms(1,2) b0] bd assms(4,8) by auto
qed

lemma okR_repayPerforming:
  assumes u: "pool_ready u" "account_ok i" "has_position u i" and a: "amount_ok a" and p: "p = findPoolReferencePosition u i"
    and Q: "\<And>b x rr. pool_wf (repaid_state u i a b x) \<Longrightarrow> 0 \<le> b \<Longrightarrow> b \<le> ps_debtShares p \<Longrightarrow> 0 \<le> x \<Longrightarrow> x \<le> a \<Longrightarrow>
      a \<le> quote u p \<Longrightarrow> Q (repaid_state u i a b x, rr)"
  shows "okR (repayPerformingInternal u i a) Q"
proof -
  let ?D = "pl_totalDebtShares u" and ?P = "poolReferencePerformingDebtAssets u" and ?d = "ps_debtShares p"
  have wf: "pool_wf u" using u by (simp add: pool_ready_def)
  note pf = position_facts(3,4) [OF wf p] and rb = ready_bounds [OF u(1)] and qf = quote_facts [OF wf p]
  have full: "pool_wf (repaid_state u i (quote u p) ?d (quote u p))" if "quote u p = a"
    using qf pf a that rb(12) quote_slack [of ?D ?P ?d]
    by (intro repaid_wf [OF u p]) (auto simp: amount_ok_def quote_def ceilDiv_self)
  have part: "pool_wf (repaid_state u i a b x) \<and> 0 \<le> b \<and> b \<le> ?d \<and> 0 \<le> x \<and> x \<le> a"
    if lt: "a < quote u p" and b: "b = a * ?D div ?P" and x: "x = ceilDiv (b * ?P) ?D" for b x
  proof -
    have "0 < ?d" using lt a pf by (auto simp: quote_def amount_ok_def split: if_splits)
    then have D: "0 < ?D" using pf by simp
    note pb = partial_burn [OF D rb(12) pf _ _ b x]
    have "a < ceilDiv (?d * ?P) ?D" "0 \<le> a" using lt \<open>0 < ?d\<close> a by (auto simp: quote_def amount_ok_def)
    note pb = pb [OF this(2,1)]
    with pf a show ?thesis by (auto simp: amount_ok_def intro!: repaid_wf [OF u p])
  qed
  have rng: "in_range ?D" "in_range ?P" using rb by (auto simp: in_range_small)
  have b_rng: "in_range (a * ?D div ?P)" "?P \<noteq> 0" "?D \<noteq> 0" if "a < quote u p"
    using part [OF that refl refl] pf rng that a rb(15) by (auto simp: in_range_def quote_def amount_ok_def split: if_splits)
  show ?thesis
    unfolding repayPerformingInternal_def Let_def p [symmetric] okR_bindR
    using okR_quote [OF wf p] full part rng b_rng amount_range [OF a] qf Q [of ?d a] Q pf a
    by (auto simp: repaid_state_def [symmetric] amount_ok_def)
qed

lemma repaid_fair: "pool_wf (repaid_state u i a b x) \<Longrightarrow> fair_step u (repaid_state u i a b x)"
  by (auto simp: fair_step_def lp_fair_def signedClaim_def repaid_state_def)

lemma fair_mutable: "fair_step (mutablePosition u i) t = fair_step u t"
  by (simp add: fair_step_def lp_fair_def signedClaim_def)

lemma okR_repay:
  assumes wf: "pool_wf s" and small: "pool_within (2 ^ 96) s" and now: "in_range now" and a: "amount_ok a"
  shows "okR (repayPoolReferenceAssets s i a now) (\<lambda>(acc, rr, d). fair_step s (ac_state acc))"
proof -
  let ?t = "\<lambda>u. modifyPosition i (\<lambda>p. p\<lparr>ps_badDebtAssets := ps_badDebtAssets p - a\<rparr>)
      ((mutablePosition u i)\<lparr>pl_cashAssets := pl_cashAssets u + a, pl_grossDebtAssets := pl_grossDebtAssets u - a,
         pl_badDebtAssets := pl_badDebtAssets u - a\<rparr>)"
  have bad: "fair_step u (?t u)" if "pool_ready u" "account_ok i" "a \<le> ps_badDebtAssets (findPoolReferencePosition u i)" for u
  proof -
    have "pool_wf (?t u)"
      using ready_bounds [OF that(1)] that position_ranges [OF that(1) refl, of i] a position_facts(5,6) [OF _ refl, of u i]
      by (intro transition_wf [OF that(1,2) refl, where g = "\<lambda>p. p\<lparr>ps_badDebtAssets := ps_badDebtAssets p - a\<rparr>"])
        (auto simp: amount_ok_def in_range_def MAX_MODEL_UINT_def pool_ready_def poolReferencePerformingDebtAssets_def)
    then show ?thesis using a ready_bounds [OF that(1)] by (auto simp: fair_step_def lp_fair_def signedClaim_def amount_ok_def algebra_simps)
  qed
  show ?thesis
    unfolding repayPoolReferenceAssets_def
  proof (simp add: amount_range [OF a], intro impI okR_ready [OF wf small now], goal_cases)
    case (1 i' r c)
    let ?u = "accruedTo s i' r now"
    have "okR (repayPerformingInternal (mutablePosition ?u i) i a)
        (\<lambda>(t, rr). okR (assertPoolReferenceInvariants t) (\<lambda>_. fair_step s t))"
      using repaid_fair [of "mutablePosition ?u i" i a, unfolded fair_mutable] 1(4)
      by (intro okR_repayPerforming [OF pool_ready_mutable [OF 1(5,1)] 1(1) has_mutablePosition a refl])
        (auto intro!: okR_commit [of s i' r now])
    with bad [OF 1(5,1)] 1(4) show ?case
      by (auto simp: Let_def split_def intro!: okR_commit [of s i' r now])
  qed
qed

lemma okR_release:
  assumes wf: "pool_wf s" and small: "pool_within (2 ^ 96) s" and now: "in_range now" and a: "amount_ok a"
  shows "okR (releasePoolReferenceCollateral s i a now) (\<lambda>(acc, d, h). fair_step s (ac_state acc) \<and>
      ph_debtAssets h \<le> ph_borrowCapacityAssets h)"
proof -
  let ?t = "\<lambda>u c. modifyPosition i (\<lambda>p. p\<lparr>ps_collateralAssets := c\<rparr>) (mutablePosition u i)"
  have main: "fair_step u (?t u c)" if "pool_ready u" "account_ok i" "0 \<le> c" "c \<le> 2 ^ 128" for u c
  proof -
    have "pool_wf (?t u c)"
      using ready_bounds [OF that(1)] that position_ranges [OF that(1) refl, of i]
      by (intro transition_wf [OF that(1,2) refl, where g = "\<lambda>p. p\<lparr>ps_collateralAssets := c\<rparr>"])
        (auto simp: in_range_def MAX_MODEL_UINT_def pool_ready_def poolReferencePerformingDebtAssets_def)
    then show ?thesis by (auto simp: fair_step_def lp_fair_def signedClaim_def)
  qed
  show ?thesis
    unfolding releasePoolReferenceCollateral_def
  proof (simp add: amount_range [OF a], intro impI okR_ready [OF wf small now], goal_cases)
    case (1 i' r c)
    let ?u = "accruedTo s i' r now"
    let ?c = "ps_collateralAssets (findPoolReferencePosition ?u i) - a"
    have c: "?c \<le> 2 ^ 128" using position_ranges(5) [OF 1(5) refl, of i] a by (simp add: amount_ok_def)
    have "okR (healthFromState (mutablePosition ?u i) i now (Some ?c) 0) (\<lambda>h. True)" if "0 \<le> ?c"
      using now pool_ready_mutable [OF 1(5,1)] that c by (intro okR_conseq [OF okR_health [where c = ?c]]) auto
    with main [OF 1(5,1) _ c] 1(4) show ?case
      by (auto simp: Let_def intro!: okR_commit [of s i' r now] elim!: okR_conseq)
  qed
qed

lemma okR_oracle:
  assumes wf: "pool_wf s" and now: "in_range now" and ob: "assertPoolReferenceOracleBinding ob = Inr ()"
  shows "okR (acceptPoolReferenceOracle s ob now) (\<lambda>t. fair_step s t)"
proof -
  have "fair_step s (s\<lparr>pl_lastAcceptedOracle := Some ob\<rparr>)"
    using wf ob by (auto simp: fair_step_def pool_wf_def oracle_ok_def lp_fair_def signedClaim_def
        poolReferencePerformingDebtAssets_def poolReferenceLpClaimAssets_def)
  then show ?thesis
    unfolding acceptPoolReferenceOracle_def using now ob wf
    by (auto simp: fair_step_def Let_def intro!: okR_invariants split: option.split)
qed

lemma okR_accrueInterest:
  assumes wf: "pool_wf s" and small: "pool_within (2 ^ 96) s" and now: "in_range now"
  shows "okR (accruePoolReferenceInterest s now) (\<lambda>acc. fair_step s (ac_state acc))"
  unfolding accruePoolReferenceInterest_def
  by (rule okR_ready [OF assms]) (auto simp: pool_ready_def fair_step_def lp_fair_def signedClaim_def intro!: mult_right_mono)

end
