(* ===== verification/Pool_Safety.thy ===== *)
theory Pool_Safety
  imports Pool_Invariant
begin

text \<open>
  Liquidation, and the properties of the secured pool as a whole: its transitions as commands, the safety of
  every command, fairness to the suppliers, termination and composition of accrual, and the collateral check of
  a borrow with its limits.
\<close>

subsection \<open>Liquidation\<close>

definition seized_state :: "pool_state \<Rightarrow> string \<Rightarrow> int \<Rightarrow> pool_state" where
  "seized_state u i z = modifyPosition i (\<lambda>p. p\<lparr>ps_collateralAssets := ps_collateralAssets p - z\<rparr>) u"

definition written_off :: "pool_state \<Rightarrow> string \<Rightarrow> int \<Rightarrow> pool_state" where
  "written_off u i q = modifyPosition i (\<lambda>p. p\<lparr>ps_debtShares := 0, ps_badDebtAssets := ps_badDebtAssets p + q\<rparr>)
     (u\<lparr>pl_totalDebtShares := pl_totalDebtShares u - ps_debtShares (findPoolReferencePosition u i),
        pl_badDebtAssets := pl_badDebtAssets u + q\<rparr>)"

lemma modify_within:
  assumes "pool_within B u" "\<And>p. p \<in> set (pl_positions u) \<Longrightarrow> ps_collateralAssets (g p) \<le> B"
    "pl_positions t = modifyFirst i g (pl_positions u)" "pl_cashAssets t \<le> B" "pl_grossDebtAssets t \<le> B" "pl_reservesAssets t \<le> B"
    "pl_totalSupplyShares t = pl_totalSupplyShares u" "pl_lastAcceptedOracle t = pl_lastAcceptedOracle u"
  shows "pool_within B t"
proof -
  have "set (modifyFirst i g ps) \<subseteq> set ps \<union> g ` set ps" for ps by (induction ps) auto
  with assms show ?thesis by (fastforce simp: pool_within_def)
qed

lemma repaid_ready:
  assumes u: "pool_wf u" "pool_within (2 ^ 124) u" and t: "pool_wf (repaid_state u i a b x)" and a: "a \<le> 2 ^ 96" "0 \<le> x" "x \<le> a"
  shows "pool_ready (repaid_state u i a b x)"
proof -
  have w: "pool_within (2 ^ 128) u" by (rule within_mono [OF u(2)]) simp
  have b: "pl_cashAssets u \<le> 2 ^ 124" "pl_grossDebtAssets u \<le> 2 ^ 124" "pl_reservesAssets u \<le> 2 ^ 124"
    using u(2) by (simp_all add: pool_within_def)
  have "pool_within (2 ^ 128) (repaid_state u i a b x)"
    by (rule modify_within [OF w, where g = "\<lambda>p. p\<lparr>ps_debtShares := ps_debtShares p - b\<rparr>" and i = i])
      (use a b w in \<open>simp_all add: repaid_state_def pool_within_def\<close>)
  with t show ?thesis by (simp add: pool_ready_def)
qed

lemma seized_ready:
  assumes u: "pool_ready u" "account_ok i" "has_position u i" and z: "0 \<le> z" "z \<le> ps_collateralAssets (findPoolReferencePosition u i)"
  shows "pool_ready (seized_state u i z)"
proof -
  have "pool_wf (seized_state u i z)"
    using ready_bounds [OF u(1)] u z position_ranges [OF u(1) refl, of i] unfolding seized_state_def
    by (intro transition_wf [OF u(1,2) refl, where g = "\<lambda>p. p\<lparr>ps_collateralAssets := ps_collateralAssets p - z\<rparr>"])
      (auto simp: in_range_def MAX_MODEL_UINT_def pool_ready_def poolReferencePerformingDebtAssets_def)
  moreover have w: "pool_within (2 ^ 128) u" using u by (simp add: pool_ready_def)
  have c: "ps_collateralAssets p - z \<le> 2 ^ 128" if "p \<in> set (pl_positions u)" for p
  proof -
    have "ps_collateralAssets p \<le> 2 ^ 128" using w that by (simp add: pool_within_def)
    with z show ?thesis by linarith
  qed
  have "pool_within (2 ^ 128) (seized_state u i z)"
    by (rule modify_within [OF w, where g = "\<lambda>p. p\<lparr>ps_collateralAssets := ps_collateralAssets p - z\<rparr>" and i = i])
      (use c ready_bounds [OF u(1)] in \<open>simp_all add: seized_state_def\<close>)
  ultimately show ?thesis by (simp add: pool_ready_def)
qed

lemma quote_all: "ps_debtShares p = pl_totalDebtShares s \<Longrightarrow> ps_debtShares p \<noteq> 0 \<Longrightarrow> quote s p = poolReferencePerformingDebtAssets s"
  by (simp add: quote_def ceilDiv_self)

lemma written_off_wf:
  assumes u: "pool_ready u" "account_ok i" "has_position u i" and p: "p = findPoolReferencePosition u i"
  shows "pool_wf (written_off u i (quote u p))"
proof -
  have wf: "pool_wf u" using u by (simp add: pool_ready_def)
  let ?q = "quote u p" and ?g = "\<lambda>x. x\<lparr>ps_debtShares := 0, ps_badDebtAssets := ps_badDebtAssets x + quote u p\<rparr>"
  note qf = quote_facts [OF wf p] and pf = position_facts(3-6) [OF wf p] and rb = ready_bounds [OF u(1)] and pr = position_ranges [OF u(1) p]
  have zero: "poolReferencePerformingDebtAssets u = ?q \<longleftrightarrow> pl_totalDebtShares u = ps_debtShares p"
    using qf(4) pf(2) rb(15) quote_all [of p u] by (cases "ps_debtShares p = 0") (auto simp: quote_def)
  then have zero': "pl_grossDebtAssets u = pl_badDebtAssets u + ?q \<longleftrightarrow> pl_totalDebtShares u = ps_debtShares p"
    by (auto simp: poolReferencePerformingDebtAssets_def)
  have bad: "in_range (ps_badDebtAssets p + ?q)" "pl_badDebtAssets u + ?q \<le> 2 ^ 129"
    using qf(1,2) pf(3,4) rb by (auto simp: in_range_def MAX_MODEL_UINT_def poolReferencePerformingDebtAssets_def)
  show ?thesis
    unfolding written_off_def p [symmetric]
    by (rule transition_wf [OF u(1,2) p, where g = ?g])
      (use zero' bad qf(1,2,4) pf rb u(3) pr in \<open>simp_all add: poolReferencePerformingDebtAssets_def\<close>)
qed

text \<open>A liquidation keeps the accounts reconciled; the suppliers lose exactly the bad debt it recognises.\<close>

lemma okR_recognize:
  assumes u: "pool_ready u" "account_ok i" "has_position u i" and p: "p = findPoolReferencePosition u i"
    and Q: "ps_collateralAssets p = 0 \<Longrightarrow> 0 < ps_debtShares p \<Longrightarrow> Q (written_off u i (quote u p), quote u p)"
  shows "okR (recognizeBadDebtInternal u i) Q"
proof -
  have wf: "pool_wf u" using u by (simp add: pool_ready_def)
  show ?thesis
    unfolding recognizeBadDebtInternal_def p [symmetric] Let_def
    using okR_quote [OF wf p] Q position_facts(3) [OF wf p] by (auto simp: written_off_def p [symmetric])
qed

lemma okR_min2: "in_range x \<Longrightarrow> in_range y \<Longrightarrow> okR (minReference [x, y]) Q = Q (min x y)"
  by (rule okR_value) simp

lemma okR_min3: "in_range x \<Longrightarrow> in_range y \<Longrightarrow> in_range z \<Longrightarrow> okR (minReference [x, y, z]) Q = Q (min x (min y z))"
  by (rule okR_value) simp

lemma ceilDiv_le_self: "0 \<le> x \<Longrightarrow> 1 \<le> d \<Longrightarrow> ceilDiv x d \<le> x"
  by (simp add: ceilDiv_le_iff mult_le_cancel_right1)

text \<open>The collateral seized for a repayment is part of the collateral there is.\<close>

lemma okR_seizure:
  assumes a: "amount_ok a" and c: "0 \<le> c" "c \<le> 2 ^ 128" and price: "0 < price" "price \<le> 2 ^ 128"
    and Q: "\<And>z. 0 \<le> z \<Longrightarrow> z \<le> c \<Longrightarrow> Q z"
  shows "okR (mulDivUp a (bps policy + liquidationBonusBps policy) (bps policy)) (\<lambda>v.
    okR (calculateCollateralRequiredForValue v price) (\<lambda>q. okR (minReference [c, q]) Q))"
proof -
  let ?v = "ceilDiv (a * 10500) 10000" and ?q = "ceilDiv (ceilDiv (a * 10500) 10000 * 10 ^ 36) (price * 10 ^ 6)"
  have v: "0 \<le> ?v" "?v \<le> 2 ^ 98"
    using a ceilDiv_nonneg [of 10000 "a * 10500"] by (auto simp: amount_ok_def ceilDiv_le_iff)
  have "?q \<le> ?v * 10 ^ 36" using v price by (intro ceilDiv_le_self) auto
  then have q: "0 \<le> ?q" "?q \<le> 2 ^ 98 * 10 ^ 36"
    using v price ceilDiv_nonneg [of "price * 10 ^ 6" "?v * 10 ^ 36"] by auto
  have r: "in_range a" "in_range 10500" "in_range 10000" "in_range ?v" "in_range price" "in_range (10 ^ 36)" "in_range (price * 10 ^ 6)"
    "in_range ?q" "in_range c"
    using a v q c price by (auto simp: in_range_def MAX_MODEL_UINT_def amount_ok_def)
  show ?thesis
    using r price q c Q [of "min c ?q"]
    by (simp add: policy_simps calculateCollateralRequiredForValue_def okR_min2)
qed

text \<open>The repayment limit is computed without an error and is at most half the quoted debt.\<close>

lemma okR_limit:
  assumes d: "0 \<le> d" "d \<le> 2 ^ 128" and V: "0 \<le> V" "V \<le> 2 ^ 200" and Q: "\<And>l. 2 * l \<le> d \<Longrightarrow> Q l"
  shows "okR (mulDivDown d (closeFactorBps policy) (bps policy)) (\<lambda>cl.
    okR (mulDivUp V (bps policy) (bps policy + liquidationBonusBps policy)) (\<lambda>cc. okR (minReference [d, cl, cc]) Q))"
proof -
  have cl: "0 \<le> d * 5000 div 10000" "d * 5000 div 10000 \<le> d" "2 * (d * 5000 div 10000) \<le> d"
    using d by (auto simp: pos_imp_zdiv_nonneg_iff)
  have cc: "0 \<le> ceilDiv (V * 10000) 10500" "ceilDiv (V * 10000) 10500 \<le> V"
    using V by (auto simp: ceilDiv_le_iff intro!: ceilDiv_nonneg)
  have r: "in_range d" "in_range 5000" "in_range 10000" "in_range 10500" "in_range (d * 5000 div 10000)" "in_range V"
    "in_range (ceilDiv (V * 10000) 10500)"
    using d cl cc V by (auto simp: in_range_def MAX_MODEL_UINT_def)
  show ?thesis
    using r cl Q [of "min d (min (d * 5000 div 10000) (ceilDiv (V * 10000) 10500))"] by (simp add: policy_simps okR_min3)
qed

text \<open>From the repaid state to the result: seizure, write-off if the collateral is gone, and the final check.\<close>

lemma okR_seize_tail:
  assumes r: "pool_ready v" "account_ok i" "has_position v i" and z: "0 \<le> z" "z \<le> ps_collateralAssets (findPoolReferencePosition v i)"
    and Q: "\<And>t q. pool_wf t \<Longrightarrow> 0 \<le> q \<Longrightarrow> signedClaim t = signedClaim v - q \<Longrightarrow>
      pl_totalSupplyShares t = pl_totalSupplyShares v \<Longrightarrow> Q t q"
  shows "okR (if ps_collateralAssets (findPoolReferencePosition (seized_state v i z) i) = 0 \<and>
        ps_debtShares (findPoolReferencePosition (seized_state v i z) i) > 0
      then recognizeBadDebtInternal (seized_state v i z) i else Inr (seized_state v i z, 0))
    (\<lambda>(t, q). okR (assertPoolReferenceInvariants t) (\<lambda>_. Q t q))"
proof -
  let ?w = "seized_state v i z" and ?p = "findPoolReferencePosition (seized_state v i z) i"
  have w: "pool_ready ?w" by (rule seized_ready [OF r z])
  have has: "has_position ?w i"
    using find_modifyFirst [OF r(3), of "\<lambda>p. p\<lparr>ps_collateralAssets := ps_collateralAssets p - z\<rparr>" ?w] by (simp add: seized_state_def)
  have off: "okR (recognizeBadDebtInternal ?w i) (\<lambda>(t, q). okR (assertPoolReferenceInvariants t) (\<lambda>_. Q t q))"
    using written_off_wf [OF w r(2) has refl] quote_facts(1) [OF _ refl, of ?w i] w
    by (intro okR_recognize [OF w r(2) has refl])
      (auto simp: pool_ready_def intro!: okR_invariants Q, auto simp: signedClaim_def written_off_def seized_state_def)
  have "okR (assertPoolReferenceInvariants ?w) (\<lambda>_. Q ?w 0)"
    using w by (auto simp: pool_ready_def intro!: okR_invariants Q) (auto simp: signedClaim_def seized_state_def)
  with off show ?thesis by auto
qed
lemma okR_liquidate_tail:
  assumes v: "pool_wf v" "pool_within (2 ^ 124) v" "account_ok i" "has_position v i" and a: "amount_ok a"
    and p: "p = findPoolReferencePosition v i" and price: "0 < price" "price \<le> 2 ^ 128"
    and Q: "\<And>t q rr z. pool_wf t \<Longrightarrow> 0 \<le> q \<Longrightarrow> signedClaim t = signedClaim v - q \<Longrightarrow>
      pl_totalSupplyShares t = pl_totalSupplyShares v \<Longrightarrow> Q t q rr z"
  shows "okR (repayPerformingInternal v i a) (\<lambda>(w, rr).
      okR (mulDivUp a (bps policy + liquidationBonusBps policy) (bps policy)) (\<lambda>sv.
      okR (calculateCollateralRequiredForValue sv price) (\<lambda>cq. okR (minReference [ps_collateralAssets p, cq]) (\<lambda>z.
      okR (if ps_collateralAssets (findPoolReferencePosition (seized_state w i z) i) = 0 \<and>
        ps_debtShares (findPoolReferencePosition (seized_state w i z) i) > 0
      then recognizeBadDebtInternal (seized_state w i z) i else Inr (seized_state w i z, 0))
      (\<lambda>(t, q). okR (assertPoolReferenceInvariants t) (\<lambda>_. Q t q rr z))))))"
proof -
  have ready: "pool_ready v" by (rule ready_within [OF v(1,2)])
  note pr = position_ranges [OF ready p]
  show ?thesis
  proof (rule okR_repayPerforming [OF ready v(3,4) a p])
    fix b x rr
    assume w: "pool_wf (repaid_state v i a b x)" and x: "0 \<le> x" "x \<le> a"
    let ?w = "repaid_state v i a b x"
    have rw: "pool_ready ?w" using a x by (intro repaid_ready [OF v(1,2) w]) (auto simp: amount_ok_def)
    have find: "findPoolReferencePosition ?w i = p\<lparr>ps_debtShares := ps_debtShares p - b\<rparr>" "has_position ?w i"
      using find_modifyFirst [OF v(4), of "\<lambda>p. p\<lparr>ps_debtShares := ps_debtShares p - b\<rparr>" ?w] p
      by (simp_all add: repaid_state_def)
    have claim: "signedClaim ?w = signedClaim v" "pl_totalSupplyShares ?w = pl_totalSupplyShares v"
      by (simp_all add: signedClaim_def repaid_state_def)
    show "case (?w, rr) of (w, rr) \<Rightarrow>
      okR (mulDivUp a (bps policy + liquidationBonusBps policy) (bps policy)) (\<lambda>sv.
      okR (calculateCollateralRequiredForValue sv price) (\<lambda>cq. okR (minReference [ps_collateralAssets p, cq]) (\<lambda>z.
      okR (if ps_collateralAssets (findPoolReferencePosition (seized_state w i z) i) = 0 \<and>
        ps_debtShares (findPoolReferencePosition (seized_state w i z) i) > 0
      then recognizeBadDebtInternal (seized_state w i z) i else Inr (seized_state w i z, 0))
      (\<lambda>(t, q). okR (assertPoolReferenceInvariants t) (\<lambda>_. Q t q rr z)))))"
      unfolding prod.case
    proof (rule okR_seizure [OF a pr(6,5) price])
      fix z assume z: "0 \<le> z" "z \<le> ps_collateralAssets p"
      show "okR (if ps_collateralAssets (findPoolReferencePosition (seized_state ?w i z) i) = 0 \<and>
        ps_debtShares (findPoolReferencePosition (seized_state ?w i z) i) > 0
      then recognizeBadDebtInternal (seized_state ?w i z) i else Inr (seized_state ?w i z, 0))
      (\<lambda>(t, q). okR (assertPoolReferenceInvariants t) (\<lambda>_. Q t q rr z))"
        by (rule okR_seize_tail [OF rw v(3) find(2) z(1)]) (use z in \<open>simp_all add: find(1) claim Q\<close>)
    qed
  qed
qed

lemma okR_case_prod: "okR (case x of (a, b) \<Rightarrow> f a b) Q = (case x of (a, b) \<Rightarrow> okR (f a b) Q)"
  by (cases x) simp

lemma okR_liquidate:
  assumes wf: "pool_wf s" and small: "pool_within (2 ^ 96) s" and now: "in_range now" and a: "amount_ok a"
  shows "okR (liquidatePoolReferencePosition s i a now) (\<lambda>lq.
      pool_wf (ac_state (lq_accrued lq)) \<and> 0 \<le> lq_badDebtRecognizedAssets lq \<and>
      pl_totalSupplyShares (ac_state (lq_accrued lq)) = pl_totalSupplyShares s \<and>
      signedClaim s - lq_badDebtRecognizedAssets lq \<le> signedClaim (ac_state (lq_accrued lq)))"
  unfolding liquidatePoolReferencePosition_def okR_bindR
proof (simp only: okR_account okR_uint [OF conjunct1 [OF amount_range [OF a]] conjunct2 [OF amount_range [OF a]]],
    intro impI okR_ready [OF wf small now], goal_cases)
  case (1 i' r c)
  note acc = 1(1)
  let ?u = "accruedTo s i' r now"
  let ?v = "mutablePosition ?u i" and ?p = "findPoolReferencePosition ?u i"
  have v: "pool_ready ?v" "pool_wf ?v" "has_position ?v i" "pool_within (2 ^ 124) ?v" "?p = findPoolReferencePosition ?v i"
    using pool_ready_mutable [OF 1(5,1)] mutablePosition_within [OF _ 1(6)] by (auto simp: pool_ready_def)
  note pr = position_ranges [OF v(1,5)] and qf = quote_facts [OF v(2,5)] and rb = ready_bounds [OF v(1)]
  have q: "0 \<le> quote ?v ?p" "quote ?v ?p \<le> 2 ^ 128" using qf(1,2) rb(13) by auto
  have claim: "signedClaim s \<le> signedClaim ?v" "pl_totalSupplyShares ?v = pl_totalSupplyShares s"
    using 1(4) by (auto simp: signedClaim_def)
  have health: "okR (healthFromState ?v i now None 0) (health_of ?v i (ps_collateralAssets ?p) 0)"
    using now pr by (intro okR_health [OF v(1)]) auto
  show ?case
    unfolding accrual.simps Let_def seized_state_def [symmetric] find_mutablePosition
  proof (simp only: okR_bindR okR_quote [OF v(2,5)] okR_unavailableIf, rule okR_conseq [OF health], intro impI, goal_cases)
    case (1 h)
    then obtain price where h: "ph_priceUsdWad h = price" "0 < price" "price \<le> 2 ^ 128"
      "ph_collateralValueAssets h = collateralValue (ps_collateralAssets ?p) price" by (auto simp: health_of_def)
    note V = collateralValue_bounds [OF pr(6,5) less_imp_le [OF h(2)] h(3)]
    show ?case
      unfolding h(1,4)
      apply (rule okR_limit [OF q V], rule impI)
      apply (unfold okR_case_prod okR_bindR okR_Inr liquidation.simps accrual.simps)
      apply (rule okR_liquidate_tail [OF v(2,4) acc v(3) a v(5) h(2,3)])
      using claim by simp
  qed
qed

subsection \<open>Borrowing\<close>

definition borrowed_state :: "pool_state \<Rightarrow> string \<Rightarrow> int \<Rightarrow> int \<Rightarrow> pool_state" where
  "borrowed_state u i a m = modifyPosition i (\<lambda>p. p\<lparr>ps_debtShares := ps_debtShares p + m\<rparr>)
     ((mutablePosition u i)\<lparr>pl_cashAssets := pl_cashAssets u - a, pl_grossDebtAssets := pl_grossDebtAssets u + a,
        pl_totalDebtShares := pl_totalDebtShares u + m\<rparr>)"

lemma quote_Inr:
  assumes "pool_wf u" and "p = findPoolReferencePosition u i"
  shows "positionPerformingDebtAssets u p = Inr d \<longleftrightarrow> d = quote u p"
proof
  show "d = quote u p" if "positionPerformingDebtAssets u p = Inr d"
    using okR_quote [OF assms, of "\<lambda>x. d = x"] that by simp
  have "positionPerformingDebtAssets u p = Inr (quote u p)" 
    using okR_quote [OF assms, of "\<lambda>_. False"] okR_quote [OF assms, of "\<lambda>x. x = quote u p"]
    by (cases "positionPerformingDebtAssets u p") (auto simp: okR_def)
  then show "positionPerformingDebtAssets u p = Inr d" if "d = quote u p" using that by simp
qed

lemma borrowed_position:
  "findPoolReferencePosition (borrowed_state u i a m) i =
     (findPoolReferencePosition u i)\<lparr>ps_debtShares := ps_debtShares (findPoolReferencePosition u i) + m\<rparr>"
  using find_modifyFirst [of "mutablePosition u i" i "\<lambda>p. p\<lparr>ps_debtShares := ps_debtShares p + m\<rparr>" "borrowed_state u i a m"]
  by (simp add: borrowed_state_def)

lemma quote_mutable: "quote (mutablePosition u i) p = quote u p"
  by (simp add: quote_def)

text \<open>A borrow that returns: the checks it passed, on the accrued state, and the state it leaves.\<close>

lemma borrow_Inr:
  assumes wf: "pool_wf s" and small: "pool_within (2 ^ 96) s" and now: "in_range now" and a: "amount_ok a"
    and b: "borrowPoolReferenceAssets s i a now = Inr (acc, m, h)" and p: "\<And>u. p u = findPoolReferencePosition u i"
  shows "\<exists>acc0 u ob. accruePoolReferenceInterest s now = Inr acc0 \<and> u = ac_state acc0 \<and> pool_ready u \<and> account_ok i \<and>
    ps_badDebtAssets (p u) = 0 \<and> assertCurrentOracle u now = Inr ob \<and>
    quote u (p u) + a \<le> pl_borrowerDebtCapAssets u \<and> health_of u i (ps_collateralAssets (p u)) a h \<and>
    m = (if pl_totalDebtShares u = 0 then a else ceilDiv (a * pl_totalDebtShares u) (poolReferencePerformingDebtAssets u)) \<and>
    ac_state acc = borrowed_state u i a m \<and> pool_wf (ac_state acc)"
proof -
  have acc: "account_ok i" using b by (auto simp: borrowPoolReferenceAssets_def bindR_Inr)
  from b obtain acc0 where acc0: "accrueInternal s now = Inr acc0"
    by (auto simp: borrowPoolReferenceAssets_def bindR_Inr)
  then obtain j r where u: "ac_state acc0 = accruedTo s j r now" "pool_ready (accruedTo s j r now)"
    using accrue_Inr [OF wf small now] by blast
  let ?u = "ac_state acc0"
  have ready: "pool_ready ?u" "pool_ready (mutablePosition ?u i)" "pool_wf (mutablePosition ?u i)"
    using u pool_ready_mutable [OF u(2) acc] by (simp_all add: pool_ready_def)
  have "okR (healthFromState (mutablePosition ?u i) i now None a) (health_of (mutablePosition ?u i) i (ps_collateralAssets (p ?u)) a)"
    using a now position_ranges(5,6) [OF ready(1) refl, of i] unfolding p
    by (intro okR_health [OF ready(2)]) (auto simp: amount_ok_def)
  moreover have "healthFromState (mutablePosition ?u i) i now None a = Inr h" 
    using b acc0 by (auto simp: borrowPoolReferenceAssets_def bindR_Inr Let_def)
  ultimately have h: "health_of ?u i (ps_collateralAssets (p ?u)) a h" "\<exists>ob. assertCurrentOracle ?u now = Inr ob"
    by (auto simp: health_of_def quote_mutable healthFromState_def bindR_Inr assertCurrentOracle_def)
  have "pool_wf (ac_state acc)" using okR_borrow [OF wf small now a, of i] b by (simp add: fair_step_def)
  moreover have "positionPerformingDebtAssets (mutablePosition ?u i) (findPoolReferencePosition ?u i) =
      Inr (quote ?u (findPoolReferencePosition ?u i))"
    using quote_Inr [OF ready(3), of "findPoolReferencePosition ?u i" i] by (simp add: quote_mutable)
  ultimately show ?thesis
    using b acc0 acc h ready(1) position_facts(5) [OF ready(3) refl, of i]
    by (auto simp: accruePoolReferenceInterest_def borrowPoolReferenceAssets_def bindR_Inr Let_def borrowed_state_def p)
qed

text \<open>
  Minting \<open>m\<close> shares for \<open>a\<close>, rounded up, raises the quote of the borrower by at least \<open>a\<close>, and by at most
  the price of one share more.
\<close>

lemma borrow_rounding:
  fixes P D :: int
  assumes D: "0 < D" "D \<le> P" and x: "0 \<le> x" "x \<le> D" and a: "0 < a" and m: "m = ceilDiv (a * D) P"
  defines "d' \<equiv> ceilDiv ((x + m) * (P + a)) (D + m)"
  shows "ceilDiv (x * P) D + a \<le> d'" "d' \<le> ceilDiv (x * P) D + a + ceilDiv P (D + m)" "0 < m"
proof -
  have P: "0 < P" using D by simp
  have mb: "a * D \<le> P * m" "P * m < a * D + P" using ceilDiv_bounds [OF P, of "a * D"] m by auto
  show m0: "0 < m" using less_ceilDiv_iff [OF P, of 0 "a * D"] a D m by simp
  have N: "0 < D + m" using D m0 by simp
  have key: "D * ((x + m) * (P + a)) = (D + m) * (x * P + a * D) + (D - x) * (P * m - a * D)" by (simp add: algebra_simps)
  have lo: "0 \<le> (D - x) * (P * m - a * D)" using x mb by simp
  have hi: "(D - x) * (P * m - a * D) \<le> D * P" using x mb P by (intro mult_mono) auto
  have "(D + m) * (x * P + a * D) \<le> D * ((x + m) * (P + a))" using key lo by linarith
  also have "\<dots> \<le> D * ((D + m) * d')" using ceilDiv_bounds(1) [OF N] D unfolding d'_def by simp
  finally have "(D + m) * (x * P + a * D) \<le> (D + m) * (D * d')" by (simp add: mult_ac)
  then have "x * P + a * D \<le> D * d'" using N by simp
  then have "x * P \<le> D * (d' - a)" by (simp add: algebra_simps)
  then show "ceilDiv (x * P) D + a \<le> d'" using ceilDiv_le_iff [OF D(1), of "x * P" "d' - a"] by simp
  let ?d = "ceilDiv (x * P) D" and ?s = "ceilDiv P (D + m)"
  have "(D + m) * (x * P + a * D) \<le> (D + m) * (D * ?d + a * D)" using ceilDiv_bounds(1) [OF D(1), of "x * P"] N by simp
  moreover have "D * P \<le> D * ((D + m) * ?s)" using ceilDiv_bounds(1) [OF N, of P] D by simp
  ultimately have "D * ((x + m) * (P + a)) \<le> (D + m) * (D * ?d + a * D) + D * ((D + m) * ?s)" using key hi by linarith
  then have "D * ((x + m) * (P + a)) \<le> D * ((D + m) * (?d + a + ?s))" by (simp add: algebra_simps)
  then have "(x + m) * (P + a) \<le> (D + m) * (?d + a + ?s)" using D by simp
  then show "d' \<le> ?d + a + ?s" unfolding d'_def using ceilDiv_le_iff [OF N] by simp
qed

subsection \<open>Commands\<close>

datatype pool_command =
    Pool_Oracle oracle_observation
  | Pool_Accrue
  | Pool_Supply string int
  | Pool_Donate int
  | Pool_Withdraw string int
  | Pool_RedeemAll string
  | Pool_AddCollateral string int
  | Pool_Borrow string int
  | Pool_Repay string int
  | Pool_Release string int
  | Pool_Liquidate string int

text \<open>The state a transition returns.\<close>

fun runPool :: "pool_command \<Rightarrow> int \<Rightarrow> pool_state \<Rightarrow> pool_state res" where
  "runPool (Pool_Oracle ob) now s = acceptPoolReferenceOracle s ob now"
| "runPool Pool_Accrue now s = bindR (accruePoolReferenceInterest s now) (\<lambda>a. Inr (ac_state a))"
| "runPool (Pool_Supply i a) now s = bindR (supplyPoolReferenceAssets s i a now) (\<lambda>(x, _). Inr (ac_state x))"
| "runPool (Pool_Donate a) now s = bindR (donatePoolReferenceCash s a now) (\<lambda>(x, _). Inr (ac_state x))"
| "runPool (Pool_Withdraw i a) now s = bindR (withdrawPoolReferenceAssets s i a now) (\<lambda>(x, _). Inr (ac_state x))"
| "runPool (Pool_RedeemAll i) now s = bindR (redeemAllPoolReferenceShares s i now) (\<lambda>(x, _). Inr (ac_state x))"
| "runPool (Pool_AddCollateral i a) now s = bindR (addPoolReferenceCollateral s i a now) (\<lambda>(x, _). Inr (ac_state x))"
| "runPool (Pool_Borrow i a) now s = bindR (borrowPoolReferenceAssets s i a now) (\<lambda>(x, _). Inr (ac_state x))"
| "runPool (Pool_Repay i a) now s = bindR (repayPoolReferenceAssets s i a now) (\<lambda>(x, _). Inr (ac_state x))"
| "runPool (Pool_Release i a) now s = bindR (releasePoolReferenceCollateral s i a now) (\<lambda>(x, _). Inr (ac_state x))"
| "runPool (Pool_Liquidate i a) now s = bindR (liquidatePoolReferencePosition s i a now) (\<lambda>l. Inr (ac_state (lq_accrued l)))"

text \<open>
  A request within the model: amounts between 1 and \<open>2 ^ 96\<close>, and an observation that passes its own binding check.
\<close>

fun command_ok :: "pool_command \<Rightarrow> bool" where
  "command_ok (Pool_Oracle ob) \<longleftrightarrow> assertPoolReferenceOracleBinding ob = Inr ()"
| "command_ok Pool_Accrue \<longleftrightarrow> True"
| "command_ok (Pool_Supply i a) \<longleftrightarrow> amount_ok a"
| "command_ok (Pool_Donate a) \<longleftrightarrow> amount_ok a"
| "command_ok (Pool_Withdraw i a) \<longleftrightarrow> amount_ok a"
| "command_ok (Pool_RedeemAll i) \<longleftrightarrow> True"
| "command_ok (Pool_AddCollateral i a) \<longleftrightarrow> amount_ok a"
| "command_ok (Pool_Borrow i a) \<longleftrightarrow> amount_ok a"
| "command_ok (Pool_Repay i a) \<longleftrightarrow> amount_ok a"
| "command_ok (Pool_Release i a) \<longleftrightarrow> amount_ok a"
| "command_ok (Pool_Liquidate i a) \<longleftrightarrow> amount_ok a"

text \<open>
  The share division of a supply when the shares in issue are worth nothing: its denominator is 0. This is the
  one way a transition of a checked pool fails other than by refusing.
\<close>

lemma mulDivDown_zero:
  "in_range l \<Longrightarrow> in_range r \<Longrightarrow>
    mulDivDown l r 0 = fail ''invalid_secured_pool_reference_model'' ''denominator must be a bounded positive BigInt''"
  by (simp add: mulDivDown_def assertReferenceUint_def invalidPoolReference_def in_range_def)

lemma supply_outcome:
  assumes wf: "pool_wf s" and small: "pool_within (2 ^ 96) s" and now: "in_range now" and a: "amount_ok a"
  shows "okR (supplyPoolReferenceAssets s i a now) (\<lambda>(acc, m). fair_step s (ac_state acc)) \<or>
    0 < pl_totalSupplyShares s \<and> poolReferenceLpClaimAssets s = 0 \<and>
    supplyPoolReferenceAssets s i a now = fail ''invalid_secured_pool_reference_model'' ''denominator must be a bounded positive BigInt''"
proof (cases "account_ok i \<and> 0 < pl_totalSupplyShares s \<and> (\<exists>acc. accrueInternal s now = Inr acc \<and> signedClaim (ac_state acc) \<le> 0)")
  case False
  have "okR (supplyPoolReferenceAssets s i a now) (\<lambda>(acc, m). fair_step s (ac_state acc))"
  proof (cases "account_ok i")
    case True
    with False show ?thesis by (intro okR_supply [OF wf small now a]) (auto simp: not_le)
  qed (simp add: supplyPoolReferenceAssets_def)
  then show ?thesis ..
next
  case True
  then obtain acc where acc: "accrueInternal s now = Inr acc" "signedClaim (ac_state acc) \<le> 0" by blast
  then obtain j r where u: "ac_state acc = accruedTo s j r now" "r \<le> j" using accrue_Inr [OF wf small now] by blast
  have claim: "poolReferenceLpClaimAssets (ac_state acc) = 0" "poolReferenceLpClaimAssets s = 0"
    using acc(2) u by (auto simp: claim_eq signedClaim_def)
  have id: "assertReferenceAccountId i = Inr i" "assertReferenceUint ''amountAssets'' a True = Inr a"
    using True amount_range [OF a] by simp_all
  have "in_range (pl_totalSupplyShares s)" using wf by (simp add: pool_wf_def)
  then show ?thesis
    using True acc(1) claim u(1) amount_range [OF a] by (simp add: supplyPoolReferenceAssets_def id Let_def mulDivDown_zero)
qed

lemma okR_run:
  assumes wf: "pool_wf s" and small: "pool_within (2 ^ 96) s" and now: "in_range now" and c: "command_ok c"
    and "\<And>i a. c \<noteq> Pool_Liquidate i a"
  shows "okR (runPool c now s) (fair_step s) \<or>
    (\<exists>i a. c = Pool_Supply i a) \<and> 0 < pl_totalSupplyShares s \<and> poolReferenceLpClaimAssets s = 0 \<and>
    runPool c now s = fail ''invalid_secured_pool_reference_model'' ''denominator must be a bounded positive BigInt''"
proof (cases c)
  case (Pool_Supply i a)
  with supply_outcome [OF wf small now, of a i] c show ?thesis by (auto simp: split_def elim!: okR_conseq)
qed (use c assms(5) in \<open>auto simp: split_def intro!: okR_conseq [OF okR_oracle [OF wf now]]
    okR_conseq [OF okR_accrueInterest [OF wf small now]] okR_conseq [OF okR_donate [OF wf small now]]
    okR_conseq [OF okR_withdraw [OF wf small now]] okR_conseq [OF okR_redeemAll [OF wf small now]]
    okR_conseq [OF okR_addCollateral [OF wf small now]] okR_conseq [OF okR_borrow [OF wf small now]]
    okR_conseq [OF okR_repay [OF wf small now]] okR_conseq [OF okR_release [OF wf small now]]\<close>)

subsection \<open>A concrete pool\<close>

definition demo_oracle :: oracle_observation where
  "demo_oracle = \<lparr>oo_chainId = ''eip155:84532'', oo_assetId = ''weth'', oo_sourceId = ''deterministic_m2_fixture.v1'',
     oo_complete = True, oo_roundId = ''r1'', oo_priceUsdWad = 2 * 10 ^ 18, oo_observedAt = 0\<rparr>"

definition demo_pool :: pool_state where
  "demo_pool = \<lparr>pl_schemaVersion = ''secured_pool_reference_model.v1'', pl_policyVersion = ''m2_secured_pool_fixture_policy.v1'',
     pl_cashAssets = 999, pl_grossDebtAssets = 1, pl_reservesAssets = 0, pl_badDebtAssets = 0, pl_totalSupplyShares = 1000,
     pl_totalDebtShares = 1, pl_lastAccruedAt = 0, pl_marketDebtCapAssets = 1000000, pl_borrowerDebtCapAssets = 1000000,
     pl_lastAcceptedOracle = Some demo_oracle,
     pl_positions = [\<lparr>ps_accountId = ''lp'', ps_supplyShares = 1000, ps_collateralAssets = 0, ps_debtShares = 0, ps_badDebtAssets = 0\<rparr>,
       \<lparr>ps_accountId = ''alice'', ps_supplyShares = 0, ps_collateralAssets = 10 ^ 12, ps_debtShares = 1, ps_badDebtAssets = 0\<rparr>]\<rparr>"

fun runAll :: "(pool_command \<times> int) list \<Rightarrow> pool_state \<Rightarrow> pool_state res" where
  "runAll [] s = Inr s"
| "runAll ((c, now) # cs) s = bindR (runPool c now s) (runAll cs)"

definition returns :: "'a res \<Rightarrow> bool" where
  "returns r \<longleftrightarrow> (case r of Inl _ \<Rightarrow> False | Inr _ \<Rightarrow> True)"

lemma returnsE: "returns r \<Longrightarrow> \<exists>x. r = Inr x"
  by (cases r) (auto simp: returns_def)

lemma demo_pool_reached:
  "bindR (createSecuredPoolReferenceState 0 1000000 1000000) (runAll
     [(Pool_Oracle demo_oracle, 0), (Pool_Supply ''lp'' 1000, 0), (Pool_AddCollateral ''alice'' (10 ^ 12), 0),
      (Pool_Borrow ''alice'' 1, 0)]) = Inr demo_pool"
  by code_simp

lemma demo_pool_checked: "returns (assertPoolReferenceInvariants demo_pool)"
  by code_simp

lemma demo_pool_within: "pool_within (2 ^ 96) demo_pool"
  by (simp add: pool_within_def demo_pool_def demo_oracle_def)

subsection \<open>Properties\<close>

text \<open>
  C31. On a pool that passes its own invariant check, with figures below \<open>2 ^ 96\<close>, and for a request with amounts
  between 1 and \<open>2 ^ 96\<close>, every transition either refuses (an unavailable action, or a malformed account
  identifier) or returns a state that passes the check again: the aggregate checks the code repeats after every
  transition can never be what stops it. There is one exception: a supply to a pool that has shares in issue and
  a claim of 0 may also fail with the error of a broken model, on the zero denominator of the share division.
\<close>

theorem pool_transitions_safe:
  assumes "assertPoolReferenceInvariants s = Inr ck" and "pool_within (2 ^ 96) s"
    and "in_range now" and "command_ok c"
  shows "case runPool c now s of
      Inl e \<Rightarrow> refusal e \<or>
        (\<exists>i a. c = Pool_Supply i a) \<and> 0 < pl_totalSupplyShares s \<and> poolReferenceLpClaimAssets s = 0 \<and>
        e = DomainError ''invalid_secured_pool_reference_model'' ''denominator must be a bounded positive BigInt''
    | Inr t \<Rightarrow> \<exists>ck'. assertPoolReferenceInvariants t = Inr ck'"
proof -
  have wf: "pool_wf s" using assms(1) invariants_Inr by blast
  show ?thesis
  proof (cases "\<exists>i a. c = Pool_Liquidate i a")
    case True
    then have "okR (runPool c now s) pool_wf"
      using assms(4) by (auto intro!: okR_conseq [OF okR_liquidate [OF wf assms(2,3)]])
    then show ?thesis by (simp add: okR_def invariants_Inr split: sum.splits)
  next
    case False
    then show ?thesis
      using okR_run [OF wf assms(2-4)] by (auto simp: okR_def fair_step_def invariants_Inr split: sum.splits)
  qed
qed

theorem pool_transitions_safe_witness:
  "case runPool (Pool_Liquidate ''alice'' 1) 604800 demo_pool of Inl e \<Rightarrow> refusal e
     | Inr t \<Rightarrow> \<exists>ck'. assertPoolReferenceInvariants t = Inr ck'"
proof -
  obtain ck where ck: "assertPoolReferenceInvariants demo_pool = Inr ck" using returnsE [OF demo_pool_checked] by blast
  have "in_range 604800" "command_ok (Pool_Liquidate ''alice'' 1)" by (simp_all add: in_range_small amount_ok_def)
  from pool_transitions_safe [OF ck demo_pool_within this] show ?thesis by (auto split: sum.splits)
qed

text \<open>
  C32. No transition dilutes the suppliers: the claim per share never falls, whatever the rounding, except that a
  liquidation may lower the claim by at most the bad debt it recognises.
\<close>

theorem pool_claim_per_share:
  assumes "assertPoolReferenceInvariants s = Inr ck" and "pool_within (2 ^ 96) s"
    and "in_range now" and "command_ok c" and "runPool c now s = Inr t" and "0 < pl_totalSupplyShares s"
  shows "case c of
      Pool_Liquidate i a \<Rightarrow> (\<exists>lq. liquidatePoolReferencePosition s i a now = Inr lq \<and> t = ac_state (lq_accrued lq) \<and>
        0 \<le> lq_badDebtRecognizedAssets lq \<and> pl_totalSupplyShares t = pl_totalSupplyShares s \<and>
        poolReferenceLpClaimAssets s - lq_badDebtRecognizedAssets lq \<le> poolReferenceLpClaimAssets t)
    | _ \<Rightarrow> poolReferenceLpClaimAssets s * pl_totalSupplyShares t \<le> poolReferenceLpClaimAssets t * pl_totalSupplyShares s"
proof -
  have wf: "pool_wf s" using assms(1) invariants_Inr by blast
  have fair: "poolReferenceLpClaimAssets s * pl_totalSupplyShares t \<le> poolReferenceLpClaimAssets t * pl_totalSupplyShares s"
    if "\<And>i a. c \<noteq> Pool_Liquidate i a"
  proof -
    have t: "pool_wf t" "signedClaim s * pl_totalSupplyShares t \<le> signedClaim t * pl_totalSupplyShares s"
      using okR_run [OF wf assms(2-4) that] assms(5,6) by (auto simp: fair_step_def lp_fair_def)
    have "signedClaim t * pl_totalSupplyShares s \<le> poolReferenceLpClaimAssets t * pl_totalSupplyShares s"
      using assms(6) by (intro mult_right_mono) (auto simp: claim_eq)
    moreover have "0 \<le> poolReferenceLpClaimAssets t * pl_totalSupplyShares s" using assms(6) claim_nonneg by simp
    ultimately show ?thesis using t by (simp add: claim_eq [of s] max_def)
  qed
  show ?thesis
  proof (cases c)
    case (Pool_Liquidate i a)
    then show ?thesis
      using okR_liquidate [OF wf assms(2,3), of a i] assms(4,5) by (auto simp: bindR_Inr claim_eq)
  qed (use fair in auto)
qed

theorem pool_claim_per_share_witness:
  "\<exists>t. runPool (Pool_Withdraw ''lp'' 7) (3 * 604800) demo_pool = Inr t \<and>
     poolReferenceLpClaimAssets demo_pool * pl_totalSupplyShares t \<le> poolReferenceLpClaimAssets t * pl_totalSupplyShares demo_pool"
proof -
  obtain ck where ck: "assertPoolReferenceInvariants demo_pool = Inr ck" using returnsE [OF demo_pool_checked] by blast
  have "returns (runPool (Pool_Withdraw ''lp'' 7) (3 * 604800) demo_pool)" by code_simp
  then obtain t where t: "runPool (Pool_Withdraw ''lp'' 7) (3 * 604800) demo_pool = Inr t" using returnsE by blast
  have "in_range (3 * 604800)" "command_ok (Pool_Withdraw ''lp'' 7)" "0 < pl_totalSupplyShares demo_pool"
    by (simp_all add: in_range_small amount_ok_def demo_pool_def)
  from pool_claim_per_share [OF ck demo_pool_within this(1,2) t this(3)] t show ?thesis by auto
qed

text \<open>
  C33. Accrual terminates and returns: on a checked pool with figures below \<open>2 ^ 96\<close>, for a timestamp that has not
  regressed and at most 1024 weeks of catch-up, it returns after exactly the number of started weeks, with the
  clock at the given time, the interest added to the debt, the reserves' part of it within the interest, and
  every position, cash and share count unchanged.
\<close>

theorem accrual_returns:
  assumes "assertPoolReferenceInvariants s = Inr ck" and "pool_within (2 ^ 96) s" and "in_range now"
    and "pl_lastAccruedAt s \<le> now" and "now - pl_lastAccruedAt s \<le> 1024 * 604800"
  shows "\<exists>a. accruePoolReferenceInterest s now = Inr a \<and>
    604800 * (ac_chunks a - 1) < now - pl_lastAccruedAt s \<and> now - pl_lastAccruedAt s \<le> 604800 * ac_chunks a \<and>
    0 \<le> ac_reservesAccruedAssets a \<and> ac_reservesAccruedAssets a \<le> ac_interestAccruedAssets a \<and>
    ac_state a = s\<lparr>pl_grossDebtAssets := pl_grossDebtAssets s + ac_interestAccruedAssets a,
      pl_reservesAssets := pl_reservesAssets s + ac_reservesAccruedAssets a, pl_lastAccruedAt := now\<rparr>"
proof -
  have wf: "pool_wf s" using assms(1) invariants_Inr by blast
  have "ceilDiv (now - pl_lastAccruedAt s) 604800 \<le> 1024" using assms(5) by (simp add: ceilDiv_le_iff)
  from accrue_returns [OF wf assms(2-4) this] show ?thesis
    using ceilDiv_bounds [of 604800 "now - pl_lastAccruedAt s"]
    by (auto simp: accruePoolReferenceInterest_def accruedTo_def right_diff_distrib)
qed

theorem accrual_returns_witness:
  "\<exists>a. accruePoolReferenceInterest demo_pool 1000000 = Inr a \<and> ac_reservesAccruedAssets a \<le> ac_interestAccruedAssets a"
proof -
  obtain ck where "assertPoolReferenceInvariants demo_pool = Inr ck" using returnsE [OF demo_pool_checked] by blast
  from accrual_returns [OF this demo_pool_within, of 1000000] show ?thesis
    by (auto simp: in_range_small demo_pool_def)
qed

text \<open>
  C34. Accruing to a week boundary and then on gives exactly the state, interest, reserves and chunk count of
  accruing in one go: the result does not depend on how often the pool is touched at chunk boundaries.
\<close>

theorem accrual_composes:
  assumes "0 \<le> pl_lastAccruedAt (ac_state a)" and "pl_lastAccruedAt (ac_state a) \<le> mid" and "mid \<le> now" and "in_range now"
    and "(mid - pl_lastAccruedAt (ac_state a)) mod 604800 = 0"
  shows "accrueLoop now a = bindR (accrueLoop mid a) (\<lambda>b. accrueLoop now b)"
  using assms
proof (induction mid a rule: accrueLoop.induct)
  case (1 mid a)
  let ?l = "pl_lastAccruedAt (ac_state a)"
  show ?case
  proof (cases "?l < mid")
    case False
    with "1.prems" show ?thesis by (simp add: accrueLoop.simps [of mid])
  next
    case True
    then have week: "604800 \<le> mid - ?l" using "1.prems"(5) by (metis diff_gt_0_iff_gt mod_pos_pos_trivial not_less order_less_imp_le)
    have e: "minReference [t - ?l, maxAccrualChunkSeconds policy] = Inr 604800" if "t = mid \<or> t = now" for t
      using that week "1.prems" by (auto simp: policy_simps in_range_def MAX_MODEL_UINT_def)
    show ?thesis
    proof (cases "accrueChunk 604800 a")
      case (Inl err)
      then show ?thesis using True "1.prems" by (simp add: accrueLoop.simps [of _ a] e)
    next
      case (Inr b)
      have l: "pl_lastAccruedAt (ac_state b) = ?l + 604800" using accrueChunk_last [OF Inr] .
      have "(mid - (?l + 604800)) mod 604800 = (mid - ?l) mod 604800" by (metis diff_diff_add minus_mod_self2)
      with "1.prems" week l have "accrueLoop now b = bindR (accrueLoop mid b) (\<lambda>b. accrueLoop now b)"
        by (intro "1.IH" [OF True e Inr]) auto
      then show ?thesis using True "1.prems" Inr by (simp add: accrueLoop.simps [of _ a] e)
    qed
  qed
qed

theorem accrual_composes_witness:
  "accrueLoop 2000000 \<lparr>ac_state = demo_pool, ac_interestAccruedAssets = 0, ac_reservesAccruedAssets = 0, ac_chunks = 0\<rparr> =
   bindR (accrueLoop 604800 \<lparr>ac_state = demo_pool, ac_interestAccruedAssets = 0, ac_reservesAccruedAssets = 0, ac_chunks = 0\<rparr>)
     (\<lambda>b. accrueLoop 2000000 b)"
  by (rule accrual_composes) (simp_all add: demo_pool_def in_range_small)

text \<open>
  C35. A borrow that returns pays out exactly the amount from cash and adds it to the gross debt, which stays within
  the market cap. It was checked, on the state with interest accrued, for a borrower without recognised bad debt:
  the debt quoted for the borrower's existing debt shares plus the amount is the debt of the health report, is within
  the borrower cap, and is at most 75 percent of the value of the borrower's collateral at the accepted oracle price,
  observed at most an hour ago (and at most a minute ahead).
\<close>

theorem borrow_collateralised:
  assumes "assertPoolReferenceInvariants s = Inr ck" and "pool_within (2 ^ 96) s" and "in_range now" and "amount_ok a"
    and "borrowPoolReferenceAssets s i a now = Inr (acc, m, h)"
  shows "pl_cashAssets (ac_state acc) = pl_cashAssets s - a \<and>
    pl_grossDebtAssets (ac_state acc) \<le> pl_marketDebtCapAssets s \<and>
    (\<exists>acc0 d ob. accruePoolReferenceInterest s now = Inr acc0 \<and>
       positionPerformingDebtAssets (ac_state acc0) (findPoolReferencePosition (ac_state acc0) i) = Inr d \<and> 0 \<le> d \<and>
       ps_badDebtAssets (findPoolReferencePosition (ac_state acc0) i) = 0 \<and>
       pl_grossDebtAssets (ac_state acc) = pl_grossDebtAssets (ac_state acc0) + a \<and>
       ph_debtAssets h = d + a \<and> d + a \<le> pl_borrowerDebtCapAssets s \<and>
       pl_lastAcceptedOracle s = Some ob \<and> oo_observedAt ob \<le> now + maxOracleFutureSkewSeconds policy \<and>
       now \<le> oo_observedAt ob + maxOracleAgeSeconds policy \<and>
       ps_collateralAssets (findPoolReferencePosition (ac_state acc) i) =
         ps_collateralAssets (findPoolReferencePosition (ac_state acc0) i) \<and>
       10000 * (d + a) \<le> 7500 *
         (ps_collateralAssets (findPoolReferencePosition (ac_state acc) i) * (oo_priceUsdWad ob * 10 ^ 6) div 10 ^ 36))"
proof -
  let ?p = "\<lambda>u. findPoolReferencePosition u i"
  have wf: "pool_wf s" using assms(1) invariants_Inr by blast
  from borrow_Inr [OF wf assms(2-5), of ?p] obtain acc0 u ob where
    acc0: "accruePoolReferenceInterest s now = Inr acc0" "u = ac_state acc0" and ready: "pool_ready u" and
    bad: "ps_badDebtAssets (?p u) = 0" and ob: "assertCurrentOracle u now = Inr ob" and
    cap: "quote u (?p u) + a \<le> pl_borrowerDebtCapAssets u" and h: "health_of u i (ps_collateralAssets (?p u)) a h" and
    t: "ac_state acc = borrowed_state u i a m" by blast
  have wfu: "pool_wf u" using ready by (simp add: pool_ready_def)
  have eff: "pl_cashAssets (ac_state acc) = pl_cashAssets s - a" "pl_grossDebtAssets (ac_state acc) \<le> pl_marketDebtCapAssets s"
      "ph_debtAssets h \<le> ph_borrowCapacityAssets h"
    using okR_borrow [OF wf assms(2-4), of i] assms(5) by auto
  have same: "pl_lastAcceptedOracle u = pl_lastAcceptedOracle s" "pl_borrowerDebtCapAssets u = pl_borrowerDebtCapAssets s"
    using accrue_Inr [OF wf assms(2,3)] acc0 by (auto simp: accruePoolReferenceInterest_def)
  have fresh: "pl_lastAcceptedOracle s = Some ob" "oo_observedAt ob \<le> now + maxOracleFutureSkewSeconds policy"
      "now \<le> oo_observedAt ob + maxOracleAgeSeconds policy"
    using ob same by (auto simp: assertCurrentOracle_def bindR_Inr policy_simps unavailablePoolAction_def split: option.splits)
  have debt: "ph_debtAssets h = quote u (?p u) + a" and
    lim: "ph_borrowCapacityAssets h = collateralValue (ps_collateralAssets (?p u)) (oo_priceUsdWad ob) * 7500 div 10000"
    using h bad fresh(1) same by (auto simp: health_of_def)
  have "quote u (?p u) + a \<le> collateralValue (ps_collateralAssets (?p u)) (oo_priceUsdWad ob) * 7500 div 10000"
    using eff(3) debt lim by simp
  then have le: "10000 * (quote u (?p u) + a) \<le> 7500 * collateralValue (ps_collateralAssets (?p u)) (oo_priceUsdWad ob)"
    by (simp add: le_div_iff mult.commute)
  show ?thesis
    using eff(1,2) acc0 quote_Inr [OF wfu refl] quote_facts(1) [OF wfu refl, of i] bad t debt cap same(2) fresh le
      borrowed_position [of u i a m]
    unfolding collateralValue_def by (auto simp: borrowed_state_def)
qed

theorem borrow_collateralised_witness:
  "\<exists>acc m h. borrowPoolReferenceAssets (demo_pool\<lparr>pl_positions := map (\<lambda>p. p\<lparr>ps_collateralAssets := 10 ^ 15\<rparr>) (pl_positions demo_pool)\<rparr>)
      ''alice'' 500 0 = Inr (acc, m, h) \<and> pl_cashAssets (ac_state acc) = 499"
proof -
  let ?s = "demo_pool\<lparr>pl_positions := map (\<lambda>p. p\<lparr>ps_collateralAssets := 10 ^ 15\<rparr>) (pl_positions demo_pool)\<rparr>"
  have "returns (assertPoolReferenceInvariants ?s)" by code_simp
  then obtain ck where ck: "assertPoolReferenceInvariants ?s = Inr ck" using returnsE by blast
  have "returns (borrowPoolReferenceAssets ?s ''alice'' 500 0)" by code_simp
  then obtain acc m h where b: "borrowPoolReferenceAssets ?s ''alice'' 500 0 = Inr (acc, m, h)" using returnsE by (metis prod.exhaust)
  have w: "pool_within (2 ^ 96) ?s" "in_range 0" "amount_ok 500"
    by (simp_all add: pool_within_def demo_pool_def demo_oracle_def amount_ok_def)
  from borrow_collateralised [OF ck w b] have "pl_cashAssets (ac_state acc) = 499" by (simp add: demo_pool_def)
  with b show ?thesis by blast
qed

text \<open>
  C39. When the shares of a pool have lost all value (bad debt and reserves have consumed the suppliers' claim), a
  new supply is not refused as an unavailable action, as a withdrawal is, but fails inside the share division with
  the error of a broken model.
\<close>

theorem supply_after_wipeout:
  assumes "assertPoolReferenceInvariants s = Inr ck" and "pool_within (2 ^ 96) s" and "account_ok i" and "amount_ok a"
    and "0 < pl_totalSupplyShares s" and "poolReferenceLpClaimAssets s = 0"
  shows "supplyPoolReferenceAssets s i a (pl_lastAccruedAt s) =
      fail ''invalid_secured_pool_reference_model'' ''denominator must be a bounded positive BigInt'' \<and>
    withdrawPoolReferenceAssets s i a (pl_lastAccruedAt s) \<in>
      {unavailablePoolAction ''withdrawal exceeds available cash'', unavailablePoolAction ''no LP claim is available''}"
proof -
  have wf: "pool_wf s" using assms(1) invariants_Inr by blast
  have now: "in_range (pl_lastAccruedAt s)" using wf by (simp add: pool_wf_def)
  have "accrueLoop (pl_lastAccruedAt s) \<lparr>ac_state = s, ac_interestAccruedAssets = 0, ac_reservesAccruedAssets = 0, ac_chunks = 0\<rparr> =
      Inr \<lparr>ac_state = s, ac_interestAccruedAssets = 0, ac_reservesAccruedAssets = 0, ac_chunks = 0\<rparr>"
    by (simp add: accrueLoop.simps)
  then have acc: "accrueInternal s (pl_lastAccruedAt s) =
      Inr \<lparr>ac_state = s, ac_interestAccruedAssets = 0, ac_reservesAccruedAssets = 0, ac_chunks = 0\<rparr>"
    using assms(1) now by (simp add: accrueInternal_def Let_def bindR_Inr policy_simps)
  have id: "assertReferenceAccountId i = Inr i" "assertReferenceUint ''amountAssets'' a True = Inr a"
    using assms(3) amount_range [OF assms(4)] by simp_all
  have "in_range a" "in_range (pl_totalSupplyShares s)" using amount_range [OF assms(4)] wf by (auto simp: pool_wf_def)
  note zero = mulDivDown_zero [OF this]
  then show ?thesis
    using assms(5,6) zero
    by (auto simp: supplyPoolReferenceAssets_def withdrawPoolReferenceAssets_def id acc Let_def unavailableIf_def unavailablePoolAction_def)
qed

definition demo_wiped_pool :: pool_state where
  "demo_wiped_pool = demo_pool\<lparr>pl_cashAssets := 0, pl_grossDebtAssets := 7, pl_badDebtAssets := 7, pl_totalDebtShares := 0,
     pl_positions := [\<lparr>ps_accountId = ''lp'', ps_supplyShares = 1000, ps_collateralAssets = 0, ps_debtShares = 0, ps_badDebtAssets = 0\<rparr>,
       \<lparr>ps_accountId = ''alice'', ps_supplyShares = 0, ps_collateralAssets = 0, ps_debtShares = 0, ps_badDebtAssets = 7\<rparr>]\<rparr>"

theorem supply_after_wipeout_witness:
  "supplyPoolReferenceAssets demo_wiped_pool ''lp'' 5 0 =
     fail ''invalid_secured_pool_reference_model'' ''denominator must be a bounded positive BigInt''"
proof -
  have "returns (assertPoolReferenceInvariants demo_wiped_pool)" by code_simp
  then obtain ck where ck: "assertPoolReferenceInvariants demo_wiped_pool = Inr ck" using returnsE by blast
  have "pool_within (2 ^ 96) demo_wiped_pool" "amount_ok 5" "0 < pl_totalSupplyShares demo_wiped_pool"
      "poolReferenceLpClaimAssets demo_wiped_pool = 0"
    by (simp_all add: demo_wiped_pool_def demo_pool_def demo_oracle_def pool_within_def amount_ok_def poolReferenceLpClaimAssets_def)
  moreover have "account_ok ''lp''" by code_simp
  ultimately have "supplyPoolReferenceAssets demo_wiped_pool ''lp'' 5 (pl_lastAccruedAt demo_wiped_pool) =
     fail ''invalid_secured_pool_reference_model'' ''denominator must be a bounded positive BigInt''"
    using supply_after_wipeout [OF ck] by blast
  then show ?thesis by (simp add: demo_wiped_pool_def demo_pool_def)
qed

text \<open>
  C40. The share rounding of a borrow: the debt quoted for the borrower right after a borrow covers the debt quoted
  before it plus the amount paid out, which is the figure the collateral check used, and exceeds that figure by at
  most the price of one debt share, rounded up; for the first debt of a pool it is exactly the amount. So the debt
  may pass the capacity it was checked against, by that much and no more. The bound is reached: after three weeks of
  interest on a single debt share, an account whose collateral is worth 2 units borrows 1, within the 75 percent
  limit, then owes 3 and can be liquidated at once.
\<close>

theorem borrow_debt_rounding:
  assumes "assertPoolReferenceInvariants s = Inr ck" and "pool_within (2 ^ 96) s" and "in_range now" and "amount_ok a"
    and "borrowPoolReferenceAssets s i a now = Inr (acc, m, h)"
  shows "\<exists>acc0 d d'. accruePoolReferenceInterest s now = Inr acc0 \<and>
     positionPerformingDebtAssets (ac_state acc0) (findPoolReferencePosition (ac_state acc0) i) = Inr d \<and>
     positionPerformingDebtAssets (ac_state acc) (findPoolReferencePosition (ac_state acc) i) = Inr d' \<and>
     ph_debtAssets h = d + a \<and> d + a \<le> d' \<and>
     d' \<le> d + a + ceilDiv (poolReferencePerformingDebtAssets (ac_state acc0)) (pl_totalDebtShares (ac_state acc)) \<and>
     (pl_totalDebtShares (ac_state acc0) = 0 \<longrightarrow> d' = a)"
proof -
  let ?p = "\<lambda>u. findPoolReferencePosition u i"
  have wf: "pool_wf s" using assms(1) invariants_Inr by blast
  from borrow_Inr [OF wf assms(2-5), of ?p] obtain acc0 u ob where
    acc0: "accruePoolReferenceInterest s now = Inr acc0" "u = ac_state acc0" and ready: "pool_ready u" and
    bad: "ps_badDebtAssets (?p u) = 0" and h: "health_of u i (ps_collateralAssets (?p u)) a h" and
    m: "m = (if pl_totalDebtShares u = 0 then a else ceilDiv (a * pl_totalDebtShares u) (poolReferencePerformingDebtAssets u))" and
    t: "ac_state acc = borrowed_state u i a m" and wft: "pool_wf (borrowed_state u i a m)" by auto
  let ?D = "pl_totalDebtShares u" and ?P = "poolReferencePerformingDebtAssets u" and ?x = "ps_debtShares (?p u)"
  have wfu: "pool_wf u" using ready by (simp add: pool_ready_def)
  note rb = ready_bounds [OF ready] and pf = position_facts(3,4) [OF wfu refl, of i]
  have a: "0 < a" using assms(4) by (simp add: amount_ok_def)
  have d: "quote u (?p u) = (if ?D = 0 then 0 else ceilDiv (?x * ?P) ?D)"
    using pf rb by (auto simp: quote_def ceilDiv_def)
  have fig: "pl_totalDebtShares (borrowed_state u i a k) = ?D + k"
    "poolReferencePerformingDebtAssets (borrowed_state u i a k) = ?P + a" for k
    by (simp_all add: borrowed_state_def poolReferencePerformingDebtAssets_def)
  have q: "quote u (?p u) + a \<le> quote (borrowed_state u i a m) (?p (borrowed_state u i a m)) \<and>
      quote (borrowed_state u i a m) (?p (borrowed_state u i a m)) \<le> quote u (?p u) + a + ceilDiv ?P (?D + m) \<and>
      (?D = 0 \<longrightarrow> quote (borrowed_state u i a m) (?p (borrowed_state u i a m)) = a)"
  proof (cases "?D = 0")
    case True
    then show ?thesis using m a d pf rb by (simp add: quote_def fig borrowed_position ceilDiv_self) (simp add: ceilDiv_def)
  next
    case False
    then have D: "0 < ?D" "?D \<le> ?P" "m = ceilDiv (a * ?D) ?P" using rb m by auto
    note br = borrow_rounding [OF D(1,2) pf a D(3)]
    then show ?thesis using False d pf by (simp add: quote_def fig borrowed_position)
  qed
  have "ph_debtAssets h = quote u (?p u) + a" using h bad by (auto simp: health_of_def)
  with q show ?thesis
    using acc0 t fig(1) quote_Inr [OF wfu refl] quote_Inr [OF wft refl] by auto
qed

definition demo_aged_pool :: pool_state where
  "demo_aged_pool = demo_pool\<lparr>pl_grossDebtAssets := 4, pl_lastAccruedAt := 1814400,
     pl_lastAcceptedOracle := Some (demo_oracle\<lparr>oo_observedAt := 1814400, oo_roundId := ''r2''\<rparr>),
     pl_positions := pl_positions demo_pool @ [\<lparr>ps_accountId = ''bob'', ps_supplyShares = 0, ps_collateralAssets = 10 ^ 12,
       ps_debtShares = 0, ps_badDebtAssets = 0\<rparr>]\<rparr>"

lemma demo_aged_pool_reached:
  "runAll [(Pool_Accrue, 1814400), (Pool_Oracle (demo_oracle\<lparr>oo_observedAt := 1814400, oo_roundId := ''r2''\<rparr>), 1814400),
      (Pool_AddCollateral ''bob'' (10 ^ 12), 1814400)] demo_pool = Inr demo_aged_pool"
  by code_simp

lemma borrow_beyond_capacity:
  "case borrowPoolReferenceAssets demo_aged_pool ''bob'' 1 1814400 of
     Inl e \<Rightarrow> False
   | Inr (acc, m, h) \<Rightarrow> ph_debtAssets h = 1 \<and> ph_borrowCapacityAssets h = 1 \<and> pl_totalDebtShares (ac_state acc) = 2 \<and>
      (case poolReferenceHealth (ac_state acc) ''bob'' 1814400 of
         Inl e \<Rightarrow> False | Inr h' \<Rightarrow> ph_debtAssets h' = 3 \<and> ph_liquidatable h')"
  by code_simp

theorem borrow_debt_rounding_witness:
  "\<exists>acc m h d' h'. borrowPoolReferenceAssets demo_aged_pool ''bob'' 1 1814400 = Inr (acc, m, h) \<and>
     positionPerformingDebtAssets (ac_state acc) (findPoolReferencePosition (ac_state acc) ''bob'') = Inr d' \<and>
     ph_debtAssets h = 1 \<and> ph_borrowCapacityAssets h = 1 \<and> 1 \<le> d' \<and>
     poolReferenceHealth (ac_state acc) ''bob'' 1814400 = Inr h' \<and> ph_debtAssets h' = 3 \<and> ph_liquidatable h'"
proof -
  have "returns (assertPoolReferenceInvariants demo_aged_pool)" by code_simp
  then obtain ck where ck: "assertPoolReferenceInvariants demo_aged_pool = Inr ck" using returnsE by blast
  have w: "pool_within (2 ^ 96) demo_aged_pool" "in_range 1814400" "amount_ok 1"
    by (simp_all add: pool_within_def demo_aged_pool_def demo_pool_def demo_oracle_def amount_ok_def in_range_small)
  from borrow_beyond_capacity obtain acc m h h' where b: "borrowPoolReferenceAssets demo_aged_pool ''bob'' 1 1814400 = Inr (acc, m, h)"
    and h: "ph_debtAssets h = 1" "ph_borrowCapacityAssets h = 1" "poolReferenceHealth (ac_state acc) ''bob'' 1814400 = Inr h'"
      "ph_debtAssets h' = 3" "ph_liquidatable h'"
    by (auto split: sum.splits)
  from borrow_debt_rounding [OF ck w b] b h show ?thesis by auto
qed

end
